(* ===== verification/Prelude.thy ===== *)
theory Prelude
  imports Main "HOL-Library.Word" "HOL-Library.AList"
begin

text \<open>
  Shared ground of the development: the machine integers of the 64-bit build as words, the
  checked additions that the sources spell \<open>__builtin_add_overflow\<close>, little-endian decoding of
  byte lists, and the generic facts on words, options and association lists that the component
  theories use.

  The model is the LP64 build (\<open>size_t\<close>, \<open>uintptr_t\<close> and pointers have 64 bits).
\<close>

unbundle bit_operations_syntax

section \<open>Machine integers\<close>

type_synonym u8 = "8 word"
type_synonym u16 = "16 word"
type_synonym u32 = "32 word"
type_synonym u64 = "64 word"

text \<open>\<open>SIZE_MAX\<close>, \<open>UINTPTR_MAX\<close> and \<open>UINT64_MAX\<close> are the all-ones word.\<close>

abbreviation u64_max :: u64 where
  "u64_max \<equiv> - 1"

text \<open>
  \<open>__builtin_add_overflow(a, b, &r)\<close> and \<open>__builtin_mul_overflow(a, b, &r)\<close>: \<open>None\<close> when the
  builtin reports an overflow, \<open>Some\<close> of the stored result otherwise.
\<close>

definition add_overflow :: "'a::len word \<Rightarrow> 'a word \<Rightarrow> 'a word option" where
  "add_overflow a b = (if unat a + unat b < 2 ^ LENGTH('a) then Some (a + b) else None)"

definition mul_overflow :: "'a::len word \<Rightarrow> 'a word \<Rightarrow> 'a word option" where
  "mul_overflow a b = (if unat a * unat b < 2 ^ LENGTH('a) then Some (a * b) else None)"

definition sub_overflow :: "'a::len word \<Rightarrow> 'a word \<Rightarrow> 'a word option" where
  "sub_overflow a b = (if b \<le> a then Some (a - b) else None)"

lemma add_overflow_SomeD: "add_overflow a b = Some c \<Longrightarrow> c = a + b \<and> unat c = unat a + unat b"
  by (auto simp: add_overflow_def unat_word_ariths split: if_splits)

lemma mul_overflow_SomeD: "mul_overflow a b = Some c \<Longrightarrow> c = a * b \<and> unat c = unat a * unat b"
  by (auto simp: mul_overflow_def unat_word_ariths split: if_splits)

lemma unat_Suc_word:
  fixes w :: "'a::len word"
  assumes "unat w + 1 < 2 ^ LENGTH('a)"
  shows "unat (w + 1) = Suc (unat w)"
  using assms by (simp add: unat_word_ariths)

lemma unat64_less: "unat (w :: u64) < 2 ^ 64"
proof -
  have "unat w < 2 ^ LENGTH(64)" by (rule unsigned_less)
  then show ?thesis by simp
qed

lemma unat_u64_max: "unat u64_max = 2 ^ 64 - 1"
  by (simp add: unsigned_minus_1_eq_mask mask_eq_exp_minus_1)

lemma unat_pred_word:
  fixes w :: "'a::len word"
  assumes "0 < unat w"
  shows "unat (w - 1) = unat w - 1"
proof -
  from assms have "1 \<le> w" by (simp add: word_le_nat_alt Suc_leI)
  then show ?thesis by (simp add: unat_sub)
qed

section \<open>Bytes\<close>

text \<open>
  Copying \<open>n\<close> bytes into an integer object on a little-endian machine (every Android ABI): the
  first byte is the least significant one.
\<close>

fun le_nat :: "u8 list \<Rightarrow> nat" where
  "le_nat [] = 0"
| "le_nat (b # bs) = unat b + 256 * le_nat bs"

definition le_word :: "u8 list \<Rightarrow> 'a::len word" where
  "le_word bs = of_nat (le_nat bs)"

text \<open>The byte image of an integer object of \<open>n\<close> bytes.\<close>

fun le_bytes :: "nat \<Rightarrow> nat \<Rightarrow> u8 list" where
  "le_bytes 0 v = []"
| "le_bytes (Suc n) v = of_nat v # le_bytes n (v div 256)"

lemma length_le_bytes [simp]: "length (le_bytes n v) = n"
  by (induction n arbitrary: v) auto

lemma le_nat_bound: "le_nat bs < 256 ^ length bs"
proof (induction bs)
  case (Cons b bs)
  have "unat b < 256" using unsigned_less [of b] by simp
  with Cons.IH show ?case by simp
qed simp

lemma le_nat_le_bytes: "le_nat (le_bytes n v) = v mod 256 ^ n"
proof (induction n arbitrary: v)
  case (Suc n)
  have "v mod (256 * 256 ^ n) = 256 * (v div 256 mod 256 ^ n) + v mod 256"
    by (rule mod_mult2_eq)
  then show ?case by (simp add: Suc unat_of_nat)
qed simp

section \<open>Lists and association lists\<close>

declare length_dropWhile_le [termination_simp]


text \<open>
  \<open>std::unordered_map\<close> whose iteration the code performs is an association list with distinct
  keys; \<open>operator[]\<close> assignment is \<open>AList.update\<close> and \<open>erase\<close> is \<open>AList.delete\<close>.
\<close>

lemma map_of_update [simp]: "map_of (AList.update k v al) = (map_of al)(k \<mapsto> v)"
  by (rule AList.update_conv')

lemma map_of_delete [simp]: "map_of (AList.delete k al) = (map_of al)(k := None)"
  by (rule AList.delete_conv')

lemma update_fresh: "map_of al k = None \<Longrightarrow> AList.update k v al = al @ [(k, v)]"
  by (induction al) (auto split: if_splits)

lemma delete_fresh [simp]: "map_of al k = None \<Longrightarrow> AList.delete k al = al"
  by (induction al) (auto simp: AList.delete_eq split: if_splits)

lemma delete_append_fresh: "map_of al k = None \<Longrightarrow> AList.delete k (al @ [(k, v)]) = al"
  by (induction al) (auto simp: AList.delete_eq split: if_splits)

section \<open>Number formatting\<close>

text \<open>\<open>std::to_string\<close> and \<open>%d\<close> on a non-negative value, and \<open>%x\<close> without padding.\<close>

definition digit_char :: "nat \<Rightarrow> char" where
  "digit_char d = char_of (if d < 10 then 48 + d else 87 + d)"

fun dec_string :: "nat \<Rightarrow> string" where
  "dec_string n = (if n < 10 then [digit_char n] else dec_string (n div 10) @ [digit_char (n mod 10)])"

fun hex_string :: "nat \<Rightarrow> string" where
  "hex_string n = (if n < 16 then [digit_char n] else hex_string (n div 16) @ [digit_char (n mod 16)])"

declare dec_string.simps [simp del] hex_string.simps [simp del]

end
