(* ===== verification/ConfigInit.thy ===== *)
theory ConfigInit
  imports Prelude
begin

text \<open>
  The configuration read from the environment: \<open>backtrace/include/Config.h\<close> (the option bits
  and the fields of \<open>Config\<close>) and \<open>backtrace/src/Config.cpp\<close> (\<open>ParseValue\<close> and
  \<open>Config::Init\<close>). The environment is a function from names to optional strings; \<open>strtol\<close> is
  written out for base 10. The lemmas characterise the strings \<open>ParseValue\<close> accepts and the
  configuration \<open>Init\<close> leaves for each environment.
\<close>

section \<open>Option bits and fields\<close>

definition BACKTRACE :: u64 where "BACKTRACE = 0x1"
definition TRACK_ALLOCS :: u64 where "TRACK_ALLOCS = 0x2"
definition BACKTRACE_SPECIFIC_SIZES :: u64 where "BACKTRACE_SPECIFIC_SIZES = 0x4"
definition RECORD_MEMORY_PEAK :: u64 where "RECORD_MEMORY_PEAK = 0x8"
definition DUMP_ON_SIGNAL :: u64 where "DUMP_ON_SIGNAL = 0x80"

lemmas option_bits =
  BACKTRACE_def TRACK_ALLOCS_def BACKTRACE_SPECIFIC_SIZES_def RECORD_MEMORY_PEAK_def
  DUMP_ON_SIGNAL_def

record Config =
  backtrace_dump_signal :: int
  backtrace_frames :: u64
  backtrace_dump_on_exit :: bool
  backtrace_dump_prefix :: string
  backtrace_min_size_bytes :: u64
  backtrace_max_size_bytes :: u64
  backtrace_dump_peak_val :: u64
  options :: u64

text \<open>
  The member initialisers. \<open>backtrace_dump_prefix\<close> has none in the source: it is never read
  before \<open>Init\<close> sets it, and the model starts it empty.
\<close>

definition Config_default :: Config where
  "Config_default = \<lparr>backtrace_dump_signal = 0, backtrace_frames = 0,
     backtrace_dump_on_exit = False, backtrace_dump_prefix = [],
     backtrace_min_size_bytes = 0, backtrace_max_size_bytes = 0,
     backtrace_dump_peak_val = 0, options = 0\<rparr>"

text \<open>\<open>config.options() & bit\<close> as the sources test it.\<close>

definition has_option :: "Config \<Rightarrow> u64 \<Rightarrow> bool" where
  "has_option cfg flag \<longleftrightarrow> options cfg AND flag \<noteq> 0"

section \<open>strtol, base 10\<close>

text \<open>
  The C library function on a NUL-terminated string: skip white space, take an optional sign,
  then the longest run of digits. The result is the value (clamped to the range of \<open>long\<close>), the
  number of characters up to \<open>*end\<close> and whether \<open>errno\<close> was set (\<open>ERANGE\<close>). Without digits
  nothing is consumed.
\<close>

definition c_isspace :: "char \<Rightarrow> bool" where
  "c_isspace c \<longleftrightarrow> of_char c = (32::nat) \<or> (9 \<le> (of_char c :: nat) \<and> of_char c \<le> (13::nat))"

definition c_isdigit :: "char \<Rightarrow> bool" where
  "c_isdigit c \<longleftrightarrow> 48 \<le> (of_char c :: nat) \<and> of_char c \<le> (57::nat)"

fun dec_value :: "nat \<Rightarrow> string \<Rightarrow> nat" where
  "dec_value acc [] = acc"
| "dec_value acc (c # cs) = dec_value (10 * acc + (of_char c - 48)) cs"

definition LONG_MAX :: int where "LONG_MAX = 2 ^ 63 - 1"
definition LONG_MIN :: int where "LONG_MIN = - (2 ^ 63)"

fun take_sign :: "string \<Rightarrow> bool \<times> string" where
  "take_sign [] = (False, [])"
| "take_sign (c # cs) =
     (if c = CHR ''-'' then (True, cs) else if c = CHR ''+'' then (False, cs) else (False, c # cs))"

definition strtol10 :: "string \<Rightarrow> int \<times> nat \<times> bool" where
  "strtol10 s =
     (let body = dropWhile c_isspace s;
          (neg, rest) = take_sign body;
          ds = takeWhile c_isdigit rest;
          v = (if neg then - int (dec_value 0 ds) else int (dec_value 0 ds));
          consumed = length s - (length rest - length ds)
      in if ds = [] then (0, 0, False)
         else if LONG_MAX < v then (LONG_MAX, consumed, True)
         else if v < LONG_MIN then (LONG_MIN, consumed, True)
         else (v, consumed, False))"

section \<open>ParseValue\<close>

text \<open>
  The result flag and the value stored through \<open>parsed_value\<close>, which every path first sets to 0.
  The \<open>printf\<close> diagnostics of the error paths are not part of the result.
\<close>

definition ParseValue :: "string option \<Rightarrow> bool \<times> u64" where
  "ParseValue value =
     (case value of
        None \<Rightarrow> (False, 0)
      | Some s \<Rightarrow>
          (let (long_value, consumed, errno_set) = strtol10 s in
           if errno_set then (False, 0)
           else if consumed = 0 then (False, 0)
           else if consumed \<noteq> length s then (False, 0)
           else if long_value < 0 then (False, 0)
           else (True, word_of_int long_value)))"

section \<open>Config::Init\<close>

definition DEFAULT_BACKTRACE_FRAMES :: u64 where "DEFAULT_BACKTRACE_FRAMES = 128"

definition DEFAULT_BACKTRACE_DUMP_PREFIX :: string where
  "DEFAULT_BACKTRACE_DUMP_PREFIX = ''/data/local/tmp/trace/backtrace_heap''"

definition BIONIC_SIGNAL_BACKTRACE :: int where "BIONIC_SIGNAL_BACKTRACE = 33"

definition Init :: "(string \<Rightarrow> string option) \<Rightarrow> Config \<Rightarrow> bool \<times> Config" where
  "Init getenv c0 =
     (let c1 = c0\<lparr>backtrace_dump_on_exit := False,
                  backtrace_frames := DEFAULT_BACKTRACE_FRAMES,
                  backtrace_dump_prefix := DEFAULT_BACKTRACE_DUMP_PREFIX,
                  options := options c0 OR BACKTRACE_SPECIFIC_SIZES\<rparr>;
          c2 = c1\<lparr>backtrace_min_size_bytes := snd (ParseValue (getenv ''BACKTRACE_MIN_SIZE'')),
                  backtrace_max_size_bytes := u64_max\<rparr>;
          c3 = c2\<lparr>options := options c2 OR BACKTRACE\<rparr>;
          c4 = c3\<lparr>options := options c3 OR TRACK_ALLOCS\<rparr>;
          (ok, peak) = ParseValue (getenv ''DUMP_PEAK_VALUE_MB'');
          c5 = c4\<lparr>backtrace_dump_peak_val := peak\<rparr>;
          c6 = (if ok
                then c5\<lparr>options := options c5 OR RECORD_MEMORY_PEAK,
                        backtrace_min_size_bytes :=
                          (if getenv ''BACKTRACE_MIN_SIZE'' = None then 1024
                           else backtrace_min_size_bytes c5),
                        backtrace_dump_on_exit := True\<rparr>
                else c5);
          c7 = c6\<lparr>backtrace_dump_peak_val := backtrace_dump_peak_val c6 * (1024 * 1024)\<rparr>;
          c8 = c7\<lparr>options := options c7 OR DUMP_ON_SIGNAL,
                  backtrace_dump_signal := BIONIC_SIGNAL_BACKTRACE\<rparr>
      in (True, c8))"

section \<open>What ParseValue accepts\<close>

text \<open>
  The language of accepted strings: white space, an optional sign (a minus sign only in front of
  zero), then at least one digit and nothing else, with a value in the range of \<open>long\<close>.
\<close>

definition accepted_number :: "string \<Rightarrow> nat \<Rightarrow> bool" where
  "accepted_number s n \<longleftrightarrow>
     (\<exists>ws sg ds. s = ws @ sg @ ds \<and> (\<forall>c \<in> set ws. c_isspace c) \<and>
        (sg = [] \<or> sg = ''+'' \<or> sg = ''-'' \<and> n = 0) \<and>
        ds \<noteq> [] \<and> (\<forall>c \<in> set ds. c_isdigit c) \<and> dec_value 0 ds = n \<and> n < 2 ^ 63)"

lemma digit_not_space: "c_isdigit c \<Longrightarrow> \<not> c_isspace c"
  by (auto simp: c_isdigit_def c_isspace_def)

lemma sign_char_facts [simp]:
  "\<not> c_isspace CHR ''-''" "\<not> c_isspace CHR ''+''" "\<not> c_isdigit CHR ''-''" "\<not> c_isdigit CHR ''+''"
  by (simp_all add: c_isdigit_def c_isspace_def)

lemma take_sign_cases:
  "take_sign body = (neg, rest) \<Longrightarrow>
     (neg \<and> body = CHR ''-'' # rest) \<or> (\<not> neg \<and> body = CHR ''+'' # rest) \<or> (\<not> neg \<and> body = rest)"
  by (cases body) (auto split: if_splits)

lemma take_sign_digits: "\<forall>c \<in> set ds. c_isdigit c \<Longrightarrow> take_sign ds = (False, ds)"
  by (cases ds) auto

lemma strtol10_parts:
  assumes ws: "\<forall>c \<in> set ws. c_isspace c" and ds: "ds \<noteq> []" "\<forall>c \<in> set ds. c_isdigit c"
    and sg: "sg = [] \<or> sg = ''+'' \<or> sg = ''-''"
  shows "strtol10 (ws @ sg @ ds) =
     (let v = (if sg = ''-'' then - int (dec_value 0 ds) else int (dec_value 0 ds)) in
      if LONG_MAX < v then (LONG_MAX, length (ws @ sg @ ds), True)
      else if v < LONG_MIN then (LONG_MIN, length (ws @ sg @ ds), True)
      else (v, length (ws @ sg @ ds), False))"
proof -
  have "\<not> c_isspace (hd (sg @ ds))"
    using sg ds by (cases ds) (auto simp: digit_not_space)
  then have dw: "dropWhile c_isspace (ws @ sg @ ds) = sg @ ds"
    using ws ds by (cases "sg @ ds") (simp_all add: dropWhile_append)
  have ts: "take_sign (sg @ ds) = (sg = ''-'', ds)"
    using sg take_sign_digits [OF ds(2)] by auto
  have tw: "takeWhile c_isdigit ds = ds"
    using ds(2) by (simp add: takeWhile_eq_all_conv)
  show ?thesis
    unfolding strtol10_def dw by (simp add: ts tw ds(1) Let_def)
qed

lemma strtol10_consumed_all:
  assumes "strtol10 s = (v, length s, e)" "s \<noteq> []"
  shows "\<exists>ws sg ds. s = ws @ sg @ ds \<and> (\<forall>c \<in> set ws. c_isspace c) \<and>
     (sg = [] \<or> sg = ''+'' \<or> sg = ''-'') \<and> ds \<noteq> [] \<and> (\<forall>c \<in> set ds. c_isdigit c)"
proof -
  define ws where "ws = takeWhile c_isspace s"
  define body where "body = dropWhile c_isspace s"
  obtain neg rest where ts: "take_sign body = (neg, rest)" by fastforce
  define ds where "ds = takeWhile c_isdigit rest"
  have s: "s = ws @ body" by (simp add: ws_def body_def)
  have len: "length ds \<le> length rest" "length rest \<le> length s"
    using take_sign_cases [OF ts] s by (auto simp: ds_def length_takeWhile_le)
  have "ds \<noteq> []" and consumed: "length s = length s - (length rest - length ds)"
    using assms ts by (auto simp: strtol10_def body_def [symmetric] ds_def Let_def split: if_splits)
  then have "length ds = length rest" using len by (cases ds) auto
  then have "ds = rest" by (metis ds_def takeWhile_dropWhile_id append_eq_conv_conj take_all_iff le_refl)
  moreover have "\<forall>c \<in> set ds. c_isdigit c" unfolding ds_def by (auto dest: set_takeWhileD)
  moreover have "\<forall>c \<in> set ws. c_isspace c" unfolding ws_def by (auto dest: set_takeWhileD)
  ultimately show ?thesis
    using take_sign_cases [OF ts] s \<open>ds \<noteq> []\<close>
    by (metis append_Cons append_Nil)
qed

lemma word_of_int_eq_of_nat: "n < 2 ^ 63 \<Longrightarrow> word_of_int (int n) = (of_nat n :: u64)"
  by simp

lemma ParseValue_accepts:
  assumes "accepted_number s n"
  shows "ParseValue (Some s) = (True, of_nat n)"
proof -
  from assms obtain ws sg ds where p: "s = ws @ sg @ ds" "\<forall>c \<in> set ws. c_isspace c"
    "sg = [] \<or> sg = ''+'' \<or> sg = ''-''" "sg = ''-'' \<Longrightarrow> n = 0" "ds \<noteq> []" "\<forall>c \<in> set ds. c_isdigit c"
    "dec_value 0 ds = n" "n < 2 ^ 63"
    unfolding accepted_number_def by auto
  from p(8) have r: "int n \<le> LONG_MAX" "LONG_MIN \<le> int n"
    by (simp_all add: LONG_MAX_def LONG_MIN_def)
  then have "strtol10 s = (int n, length s, False)"
    using strtol10_parts [OF p(2) p(5,6) p(3)] p(1,4,7) by (auto simp: Let_def)
  then show ?thesis
    using p(1,5) by (simp add: ParseValue_def)
qed

lemma ParseValue_true_accepted:
  assumes "ParseValue (Some s) = (True, w)"
  shows "\<exists>n. accepted_number s n \<and> w = of_nat n"
proof -
  obtain v k e where st: "strtol10 s = (v, k, e)" using prod_cases3 by blast
  with assms have e: "\<not> e" and k: "k = length s" "s \<noteq> []" and v: "0 \<le> v" and w: "w = word_of_int v"
    by (auto simp: ParseValue_def split: if_splits)
  from strtol10_consumed_all st k obtain ws sg ds where p: "s = ws @ sg @ ds"
    "\<forall>c \<in> set ws. c_isspace c" "sg = [] \<or> sg = ''+'' \<or> sg = ''-''" "ds \<noteq> []"
    "\<forall>c \<in> set ds. c_isdigit c"
    by blast
  have eq: "v = (if sg = ''-'' then - int (dec_value 0 ds) else int (dec_value 0 ds)) \<and>
      v \<le> LONG_MAX"
    using strtol10_parts [OF p(2) p(4,5) p(3)] st e p(1) by (auto simp: Let_def split: if_splits)
  with v have "v = int (dec_value 0 ds) \<and> (sg = ''-'' \<longrightarrow> dec_value 0 ds = 0)"
    by (auto split: if_splits)
  moreover from this eq have "dec_value 0 ds < 2 ^ 63"
    by (simp add: LONG_MAX_def)
  ultimately have "accepted_number s (dec_value 0 ds)"
    unfolding accepted_number_def using p by blast
  moreover have "w = of_nat (dec_value 0 ds)"
    using w \<open>v = int (dec_value 0 ds) \<and> _\<close> by simp
  ultimately show ?thesis by blast
qed

lemma ParseValue_false_zero: "\<not> fst (ParseValue v) \<Longrightarrow> snd (ParseValue v) = 0"
  by (auto simp: ParseValue_def split: option.splits prod.splits if_splits)


section \<open>What Init configures\<close>

lemma Init_options:
  "options (snd (Init g Config_default)) =
     (if fst (ParseValue (g ''DUMP_PEAK_VALUE_MB'')) then 0x8F else 0x87)"
  by (auto simp: Init_def Config_default_def Let_def option_bits split: prod.splits)

lemma Init_has_option:
  "has_option (snd (Init g Config_default)) BACKTRACE"
  "has_option (snd (Init g Config_default)) TRACK_ALLOCS"
  "has_option (snd (Init g Config_default)) BACKTRACE_SPECIFIC_SIZES"
  "has_option (snd (Init g Config_default)) DUMP_ON_SIGNAL"
  "has_option (snd (Init g Config_default)) RECORD_MEMORY_PEAK =
     fst (ParseValue (g ''DUMP_PEAK_VALUE_MB''))"
  by (simp_all add: has_option_def Init_options) (simp_all add: option_bits)

text \<open>
  Property C1. \<open>ParseValue\<close> succeeds exactly on decimal numbers in the range of \<open>long\<close>: leading
  white space, an optional sign (minus only before zero), digits to the end of the string; and
  the value it stores is the number's. On every other string, and on a missing variable, it
  fails and stores 0.
\<close>

theorem ParseValue_characterised:
  "(ParseValue (Some s) = (True, w) \<longleftrightarrow> (\<exists>n. accepted_number s n \<and> w = of_nat n)) \<and>
   (fst (ParseValue v) \<or> ParseValue v = (False, 0)) \<and> ParseValue None = (False, 0)"
proof (intro conjI iffI)
  show "fst (ParseValue v) \<or> ParseValue v = (False, 0)"
    using ParseValue_false_zero [of v] by (cases "ParseValue v") auto
qed (auto dest: ParseValue_true_accepted simp: ParseValue_accepts, simp add: ParseValue_def)

text \<open>
  The configuration \<open>Init\<close> builds from the member defaults: backtraces, tracking, the
  size filter and the dump signal are always on; peak recording and the dump on exit are on
  exactly when \<open>DUMP_PEAK_VALUE_MB\<close> parses; the lower size bound is \<open>BACKTRACE_MIN_SIZE\<close> (0 when
  it does not parse), except that peak recording with the variable unset makes it 1024; and the
  peak threshold is the megabyte value times \<open>2 ^ 20\<close> in 64-bit arithmetic.
\<close>

theorem Init_configuration:
  "let cfg = snd (Init getenv Config_default);
       mn = ParseValue (getenv ''BACKTRACE_MIN_SIZE'');
       pk = ParseValue (getenv ''DUMP_PEAK_VALUE_MB'')
   in fst (Init getenv Config_default) \<and>
      has_option cfg BACKTRACE \<and> has_option cfg TRACK_ALLOCS \<and>
      has_option cfg BACKTRACE_SPECIFIC_SIZES \<and> has_option cfg DUMP_ON_SIGNAL \<and>
      has_option cfg RECORD_MEMORY_PEAK = fst pk \<and> backtrace_dump_on_exit cfg = fst pk \<and>
      backtrace_frames cfg = 128 \<and> backtrace_dump_signal cfg = 33 \<and>
      backtrace_min_size_bytes cfg =
        (if fst pk \<and> getenv ''BACKTRACE_MIN_SIZE'' = None then 1024 else snd mn) \<and>
      backtrace_max_size_bytes cfg = u64_max \<and>
      unat (backtrace_dump_peak_val cfg) = unat (snd pk) * 2 ^ 20 mod 2 ^ 64"
proof -
  have "backtrace_dump_on_exit (snd (Init getenv Config_default)) =
      fst (ParseValue (getenv ''DUMP_PEAK_VALUE_MB''))" and "fst (Init getenv Config_default)"
    "backtrace_frames (snd (Init getenv Config_default)) = 128"
    "backtrace_dump_signal (snd (Init getenv Config_default)) = 33"
    "backtrace_max_size_bytes (snd (Init getenv Config_default)) = u64_max"
    "backtrace_dump_peak_val (snd (Init getenv Config_default)) =
      snd (ParseValue (getenv ''DUMP_PEAK_VALUE_MB'')) * 0x100000"
    "backtrace_min_size_bytes (snd (Init getenv Config_default)) =
      (if fst (ParseValue (getenv ''DUMP_PEAK_VALUE_MB'')) \<and> getenv ''BACKTRACE_MIN_SIZE'' = None
       then 1024 else snd (ParseValue (getenv ''BACKTRACE_MIN_SIZE'')))"
    by (auto simp: Init_def Config_default_def Let_def DEFAULT_BACKTRACE_FRAMES_def
        BIONIC_SIGNAL_BACKTRACE_def split: prod.splits)
  then show ?thesis
    by (simp add: Let_def Init_has_option unat_word_ariths)
qed

end
