(* ===== verification/BacktraceCapture.thy ===== *)
theory BacktraceCapture
  imports Prelude
begin

text \<open>
  Capturing one backtrace: \<open>backtrace/src/UnwindBacktrace.cpp\<close> over the result of
  \<open>AndroidLocalUnwinder::Unwind\<close>, with the error codes of \<open>unwindstack/Error.h\<close> and the frame
  data of \<open>unwindstack/Unwinder.h\<close>. What the unwinder finds on the stack is an input.
\<close>

section \<open>Error codes and frames\<close>

datatype ErrorCode =
    ERROR_NONE
  | ERROR_MEMORY_INVALID
  | ERROR_UNWIND_INFO
  | ERROR_UNSUPPORTED
  | ERROR_INVALID_MAP
  | ERROR_MAX_FRAMES_EXCEEDED
  | ERROR_REPEATED_FRAME
  | ERROR_INVALID_ELF
  | ERROR_THREAD_DOES_NOT_EXIST
  | ERROR_THREAD_TIMEOUT
  | ERROR_SYSTEM_CALL
  | ERROR_BAD_ARCH
  | ERROR_MAPS_PARSE
  | ERROR_INVALID_PARAMETER
  | ERROR_PTRACE_CALL
  | ERROR_EXIT_FUNC

text \<open>
  The map a frame lies in is read through two accessors, \<open>name()\<close> and \<open>start()\<close>;
  \<open>None\<close> is the null pointer.
\<close>

record MapRef =
  mr_name :: string
  mr_start :: u64

record FrameData =
  fr_num :: nat
  fr_rel_pc :: u64
  fr_pc :: u64
  fr_sp :: u64
  fr_function_name :: string
  fr_function_offset :: u64
  fr_map_info :: "MapRef option"

text \<open>Behaviour C++ leaves undefined, or an exception nobody catches.\<close>

datatype fault = Empty_key | End_deref | Out_of_range | Null_deref | Recursive_init

section \<open>Unwind\<close>

text \<open>
  \<open>frames->resize(n)\<close> zero-fills, then each frame's \<open>pc\<close> goes to the slot of its number;
  \<open>at\<close> throws for a number past the end.
\<close>

fun fill_frames :: "FrameData list \<Rightarrow> u64 list \<Rightarrow> fault + u64 list" where
  "fill_frames [] acc = Inr acc"
| "fill_frames (f # fs) acc =
     (if fr_num f < length acc then fill_frames fs (acc[fr_num f := fr_pc f])
      else Inl Out_of_range)"

text \<open>
  The outcome of \<open>unwinder.Unwind(data)\<close>: its result, \<open>data.frames\<close> and
  \<open>data.error.code\<close>; and the outcome of the function: the code, \<open>*frames\<close> and
  \<open>*frame_info\<close>.
\<close>

type_synonym unwinder_outcome = "bool \<times> FrameData list \<times> ErrorCode"
type_synonym unwind_result = "ErrorCode \<times> u64 list \<times> FrameData list"

definition Unwind :: "unwinder_outcome \<Rightarrow> fault + unwind_result" where
  "Unwind r =
     (case r of (ok, data_frames, code) \<Rightarrow>
        if \<not> ok then Inr (code, [], [])
        else (case fill_frames data_frames (replicate (length data_frames) 0) of
                Inl e \<Rightarrow> Inl e
              | Inr frames \<Rightarrow> Inr (code, frames, data_frames)))"

section \<open>Frames numbered by the unwinder\<close>

text \<open>
  \<open>Unwinder::FillInFrame\<close> numbers a frame with the count of frames before it, so the numbers are
  \<open>0, 1, 2, \<dots>\<close> in order.
\<close>

definition numbered :: "FrameData list \<Rightarrow> bool" where
  "numbered fs \<longleftrightarrow> map fr_num fs = [0..<length fs]"

lemma fill_frames_from:
  "map fr_num fs = [n..<n + length fs] \<Longrightarrow> n + length fs = length acc \<Longrightarrow>
     fill_frames fs acc = Inr (take n acc @ map fr_pc fs)"
proof (induction fs arbitrary: n acc)
  case (Cons f fs)
  from Cons.prems have n: "fr_num f = n" "map fr_num fs = [Suc n..<Suc n + length fs]"
    by (simp_all add: upt_conv_Cons del: upt_Suc)
  then have "fill_frames fs (acc[n := fr_pc f]) =
      Inr (take (Suc n) (acc[n := fr_pc f]) @ map fr_pc fs)"
    using Cons.prems(2) by (intro Cons.IH) (simp_all del: upt_Suc)
  moreover have "take (Suc n) (acc[n := fr_pc f]) = take n acc @ [fr_pc f]"
    using Cons.prems(2) by (simp add: take_Suc_conv_app_nth)
  ultimately show ?case using n(1) Cons.prems(2) by simp
qed simp

lemma Unwind_numbered:
  "numbered fs \<Longrightarrow> Unwind (True, fs, code) = Inr (code, map fr_pc fs, fs)"
  by (simp add: Unwind_def numbered_def fill_frames_from [where n = 0])

lemma Unwind_empty_iff:
  "Unwind (ok, fs, code) = Inr (c, frames, info) \<Longrightarrow> ok \<longrightarrow> fs \<noteq> [] \<Longrightarrow> frames = [] \<longleftrightarrow> \<not> ok"
proof -
  have len: "fill_frames gs acc = Inr r \<Longrightarrow> length r = length acc" for gs acc r
    by (induction gs acc rule: fill_frames.induct) (auto split: if_splits)
  assume "Unwind (ok, fs, code) = Inr (c, frames, info)" "ok \<longrightarrow> fs \<noteq> []"
  then show ?thesis
    by (auto simp: Unwind_def split: if_splits sum.splits dest!: len)
qed

end
