(* ===== verification/PointerTracking.thy ===== *)
theory PointerTracking
  imports ConfigInit BacktraceCapture
begin

text \<open>
  The table of live allocations: \<open>backtrace/include/PointerData.h\<close> and
  \<open>backtrace/src/PointerData.cpp\<close>. Backtraces are interned (equal frame lists share one index
  with a reference count), each tracked pointer carries the index of its backtrace, and running
  totals and peaks are kept per kind of memory.

  \<open>pointers_\<close>, which the code iterates, is an association list; the other hash maps are partial
  functions. A \<open>FrameInfoType*\<close> into \<open>frames_\<close> is the index of its entry (entries of
  \<open>std::unordered_map\<close> do not move), and the \<open>FrameKeyType\<close> of an entry, whose pointer aliases
  the vector stored in \<open>frames_\<close>, is that vector's contents. Undefined behaviour is a
  \<open>fault\<close> value, so that its absence is a theorem.
\<close>

section \<open>Data\<close>

datatype MemType = HOST | MMAP | DMA

record timeval =
  tv_sec :: int
  tv_usec :: int

definition timeval_less :: "timeval \<Rightarrow> timeval \<Rightarrow> bool" where
  "timeval_less lhs rhs =
     (let l_time = tv_sec lhs * 1000000 + tv_usec lhs;
          r_time = tv_sec rhs * 1000000 + tv_usec rhs
      in l_time < r_time)"

text \<open>\<open>FrameKeyType::operator==\<close> and the hash specialisation, which reads \<open>frames[0]\<close>.\<close>

fun frames_loop_eq :: "u64 list \<Rightarrow> u64 list \<Rightarrow> bool" where
  "frames_loop_eq (x # xs) (y # ys) = (if x \<noteq> y then False else frames_loop_eq xs ys)"
| "frames_loop_eq _ _ = True"

definition FrameKeyType_eq :: "u64 list \<Rightarrow> u64 list \<Rightarrow> bool" where
  "FrameKeyType_eq a b = (if length a \<noteq> length b then False else frames_loop_eq a b)"

definition hash_FrameKeyType :: "u64 list \<Rightarrow> fault + u64" where
  "hash_FrameKeyType key =
     (case key of
        [] \<Rightarrow> Inl Empty_key
      | k # ks \<Rightarrow>
          (let max_frames = (if length key > 5 then 5 else length key)
           in Inr (foldl (XOR) k (take (max_frames - 1) ks))))"

record FrameInfoType =
  references :: u64
  frames :: "u64 list"

record PointerInfoType =
  pi_size :: u64
  hash_index :: u64
  mem_type :: MemType
  alloc_time :: timeval

text \<open>
  \<open>size & ~(1U << 31)\<close>: the mask is computed in 32 bits and zero-extended, so every bit above
  bit 30 is cleared.
\<close>

definition RealSize :: "PointerInfoType \<Rightarrow> u64" where
  "RealSize i = pi_size i AND ucast (NOT (push_bit 31 1 :: u32))"

definition MaxSize :: u64 where
  "MaxSize = ucast (push_bit 31 1 - 1 :: u32)"

record ListInfoType =
  li_pointer :: u64
  num_allocations :: u64
  li_size :: u64
  li_mem_type :: MemType
  frame_info :: "u64 option"
  backtrace_info :: "FrameData list"
  li_alloc_time :: timeval

record PointerData =
  pointers :: "(u64 \<times> PointerInfoType) list"
  key_to_index :: "u64 list \<rightharpoonup> u64"
  pd_frames :: "u64 \<rightharpoonup> FrameInfoType"
  backtraces_info :: "u64 \<rightharpoonup> FrameData list"
  cur_hash_index :: u64
  current_used :: u64
  current_host :: u64
  current_dma :: u64
  peak_tot :: u64
  peak_host :: u64
  peak_dma :: u64
  peak_list :: "ListInfoType list"

definition kBacktraceExitIndex :: u64 where "kBacktraceExitIndex = 0"
definition kBacktraceEmptyIndex :: u64 where "kBacktraceEmptyIndex = 1"

lemmas hash_consts = kBacktraceExitIndex_def kBacktraceEmptyIndex_def

section \<open>Operations\<close>

definition ShouldBacktraceAllocSize :: "Config \<Rightarrow> u64 \<Rightarrow> bool" where
  "ShouldBacktraceAllocSize cfg size_bytes =
     (if \<not> has_option cfg BACKTRACE_SPECIFIC_SIZES then True
      else size_bytes \<ge> backtrace_min_size_bytes cfg \<and>
           size_bytes \<le> backtrace_max_size_bytes cfg)"

text \<open>\<open>PointerData::Initialize\<close> (it ignores its argument and returns true).\<close>

definition Initialize :: "PointerData \<Rightarrow> PointerData" where
  "Initialize pd = pd\<lparr>pointers := [], key_to_index := Map.empty, pd_frames := Map.empty,
     backtraces_info := Map.empty, peak_list := [],
     cur_hash_index := kBacktraceEmptyIndex + 1,
     current_used := 0, current_host := 0, current_dma := 0,
     peak_tot := 0, peak_host := 0, peak_dma := 0\<rparr>"

definition ManglePointer :: "u64 \<Rightarrow> u64" where "ManglePointer p = p XOR u64_max"
definition DemanglePointer :: "u64 \<Rightarrow> u64" where "DemanglePointer p = p XOR u64_max"

text \<open>\<open>unordered_map::emplace\<close> keeps an existing entry.\<close>

definition emplace :: "'k \<Rightarrow> 'v \<Rightarrow> ('k \<rightharpoonup> 'v) \<Rightarrow> ('k \<rightharpoonup> 'v)" where
  "emplace k v m = (case m k of None \<Rightarrow> m(k \<mapsto> v) | Some _ \<Rightarrow> m)"

text \<open>
  \<open>AddBacktrace\<close>; \<open>unw\<close> is what \<open>Unwind\<close> delivers for the frame limit it is called with.
  \<open>frames_[h]\<close> default-constructs a missing entry.
\<close>

definition AddBacktrace ::
  "Config \<Rightarrow> (u64 \<Rightarrow> fault + unwind_result) \<Rightarrow> u64 \<Rightarrow> u64 \<Rightarrow> PointerData
     \<Rightarrow> fault + (u64 \<times> PointerData)" where
  "AddBacktrace cfg unw num_frames size_bytes pd =
     (if \<not> ShouldBacktraceAllocSize cfg size_bytes then Inr (kBacktraceEmptyIndex, pd)
      else if \<not> has_option cfg BACKTRACE then Inr (kBacktraceEmptyIndex, pd)
      else (case unw num_frames of
              Inl e \<Rightarrow> Inl e
            | Inr (code, fs, info) \<Rightarrow>
                if code = ERROR_NONE \<or> code = ERROR_MAX_FRAMES_EXCEEDED then
                  (case hash_FrameKeyType fs of
                     Inl e \<Rightarrow> Inl e
                   | Inr _ \<Rightarrow>
                      (case key_to_index pd fs of
                         None \<Rightarrow>
                           let h = cur_hash_index pd in
                           Inr (h, pd\<lparr>cur_hash_index := h + 1,
                                      key_to_index := emplace fs h (key_to_index pd),
                                      pd_frames := emplace h \<lparr>references = 1, frames = fs\<rparr> (pd_frames pd),
                                      backtraces_info := emplace h info (backtraces_info pd)\<rparr>)
                       | Some h \<Rightarrow>
                           let fi = (case pd_frames pd h of
                                       None \<Rightarrow> \<lparr>references = 0, frames = []\<rparr> | Some f \<Rightarrow> f) in
                           Inr (h, pd\<lparr>pd_frames := (pd_frames pd)
                                        (h \<mapsto> fi\<lparr>references := references fi + 1\<rparr>)\<rparr>)))
                else if code = ERROR_EXIT_FUNC then Inr (kBacktraceExitIndex, pd)
                else Inr (kBacktraceEmptyIndex, pd)))"

text \<open>
  \<open>std::sort\<close>: insertion into sorted order. For elements the predicate does not order the standard
  leaves their order open; the lemmas below say where that matters.
\<close>

fun insort_by :: "('a \<Rightarrow> 'a \<Rightarrow> bool) \<Rightarrow> 'a \<Rightarrow> 'a list \<Rightarrow> 'a list" where
  "insort_by lt x [] = [x]"
| "insort_by lt x (y # ys) = (if lt y x then y # insort_by lt x ys else x # y # ys)"

definition sort_by :: "('a \<Rightarrow> 'a \<Rightarrow> bool) \<Rightarrow> 'a list \<Rightarrow> 'a list" where
  "sort_by lt xs = foldr (insort_by lt) xs []"

text \<open>\<open>GetList\<close>: the entries in the map's iteration order, then sorted.\<close>

definition list_entry :: "PointerData \<Rightarrow> u64 \<times> PointerInfoType \<Rightarrow> fault + ListInfoType" where
  "list_entry pd entry =
     (let h = hash_index (snd entry) in
      case pd_frames pd h of
        None \<Rightarrow> Inl End_deref
      | Some _ \<Rightarrow>
          (case backtraces_info pd h of
             None \<Rightarrow> Inl End_deref
           | Some bi \<Rightarrow>
               Inr \<lparr>li_pointer = DemanglePointer (fst entry), num_allocations = 1,
                    li_size = RealSize (snd entry), li_mem_type = mem_type (snd entry),
                    frame_info = Some h, backtrace_info = bi,
                    li_alloc_time = alloc_time (snd entry)\<rparr>))"

fun collect_entries ::
  "PointerData \<Rightarrow> bool \<Rightarrow> (u64 \<times> PointerInfoType) list \<Rightarrow> ListInfoType list
     \<Rightarrow> fault + ListInfoType list" where
  "collect_entries pd only [] acc = Inr acc"
| "collect_entries pd only (e # es) acc =
     (if hash_index (snd e) \<le> kBacktraceEmptyIndex \<and> only then collect_entries pd only es acc
      else (case list_entry pd e of
              Inl f \<Rightarrow> Inl f
            | Inr l \<Rightarrow> collect_entries pd only es (acc @ [l])))"

definition GetList ::
  "PointerData \<Rightarrow> ListInfoType list \<Rightarrow> bool \<Rightarrow> (ListInfoType \<Rightarrow> ListInfoType \<Rightarrow> bool)
     \<Rightarrow> fault + ListInfoType list" where
  "GetList pd lst only_with_backtrace lt =
     (case collect_entries pd only_with_backtrace (pointers pd) lst of
        Inl e \<Rightarrow> Inl e
      | Inr l \<Rightarrow> Inr (sort_by lt l))"

text \<open>
  The comparator of \<open>GetUniqueList\<close>: larger size first, entries without a frame last, longer
  backtraces first, then by pointer. The frame vectors are read through \<open>frames_\<close>.
\<close>

definition frame_count :: "PointerData \<Rightarrow> u64 \<Rightarrow> nat" where
  "frame_count pd h = (case pd_frames pd h of None \<Rightarrow> 0 | Some f \<Rightarrow> length (frames f))"

definition unique_less :: "PointerData \<Rightarrow> ListInfoType \<Rightarrow> ListInfoType \<Rightarrow> bool" where
  "unique_less pd a b =
     (if li_size a \<noteq> li_size b then li_size a > li_size b
      else (case (frame_info a, frame_info b) of
              (None, Some _) \<Rightarrow> False
            | (Some _, None) \<Rightarrow> True
            | (None, None) \<Rightarrow> li_pointer a < li_pointer b
            | (Some fa, Some fb) \<Rightarrow>
                if frame_count pd fa \<noteq> frame_count pd fb
                then frame_count pd fa > frame_count pd fb
                else li_pointer a < li_pointer b))"

text \<open>The run of duplicates behind each entry is counted into it and erased.\<close>

definition same_group :: "ListInfoType \<Rightarrow> ListInfoType \<Rightarrow> bool" where
  "same_group a b \<longleftrightarrow> \<not> (li_size a \<noteq> li_size b \<or> frame_info a \<noteq> frame_info b)"

fun remove_duplicates :: "ListInfoType list \<Rightarrow> ListInfoType list" where
  "remove_duplicates [] = []"
| "remove_duplicates (x # xs) =
     (let dups = takeWhile (same_group x) xs in
      x\<lparr>num_allocations := num_allocations x + of_nat (length dups)\<rparr>
        # remove_duplicates (dropWhile (same_group x) xs))"

definition GetUniqueList ::
  "PointerData \<Rightarrow> ListInfoType list \<Rightarrow> bool \<Rightarrow> fault + ListInfoType list" where
  "GetUniqueList pd lst only_with_backtrace =
     (case GetList pd lst only_with_backtrace (unique_less pd) of
        Inl e \<Rightarrow> Inl e
      | Inr l \<Rightarrow> Inr (remove_duplicates l))"

text \<open>
  The part of \<open>Add\<close> under \<open>pointer_mutex_\<close>: the table entry with the running totals and the
  peak of its kind (\<open>track_pointer\<close>), then the overall peak, with the snapshot \<open>peak_list_\<close> at a
  new peak above the threshold.
\<close>

definition track_pointer ::
  "timeval \<Rightarrow> u64 \<Rightarrow> u64 \<Rightarrow> MemType \<Rightarrow> u64 \<Rightarrow> PointerData \<Rightarrow> PointerData" where
  "track_pointer tv ptr pointer_size type h pd =
     (let mangled_ptr = ManglePointer ptr;
          info = \<lparr>pi_size = pointer_size, hash_index = h, mem_type = type, alloc_time = tv\<rparr>;
          pd1 = pd\<lparr>pointers := AList.update mangled_ptr info (pointers pd),
                   current_used := current_used pd + pointer_size\<rparr>
      in if type = DMA
         then (let pd2 = pd1\<lparr>current_dma := current_dma pd1 + pointer_size\<rparr> in
               if current_dma pd2 > peak_dma pd2
               then pd2\<lparr>peak_dma := current_dma pd2\<rparr> else pd2)
         else (let pd2 = pd1\<lparr>current_host := current_host pd1 + pointer_size\<rparr> in
               if current_host pd2 > peak_host pd2
               then pd2\<lparr>peak_host := current_host pd2\<rparr> else pd2))"

definition AddPointer ::
  "Config \<Rightarrow> timeval \<Rightarrow> u64 \<Rightarrow> u64 \<Rightarrow> MemType \<Rightarrow> u64 \<Rightarrow> PointerData \<Rightarrow> fault + PointerData" where
  "AddPointer cfg tv ptr pointer_size type h pd =
     (let pd3 = track_pointer tv ptr pointer_size type h pd
      in if peak_tot pd3 < current_used pd3
         then (let pd4 = pd3\<lparr>peak_tot := current_used pd3\<rparr> in
               if has_option cfg RECORD_MEMORY_PEAK \<and> peak_tot pd4 > backtrace_dump_peak_val cfg
               then (case GetUniqueList pd4 [] True of
                       Inl e \<Rightarrow> Inl e
                     | Inr l \<Rightarrow> Inr (pd4\<lparr>peak_list := l\<rparr>))
               else Inr pd4)
         else Inr pd3)"

definition Add ::
  "Config \<Rightarrow> (u64 \<Rightarrow> fault + unwind_result) \<Rightarrow> timeval \<Rightarrow> u64 \<Rightarrow> u64 \<Rightarrow> MemType \<Rightarrow> PointerData
     \<Rightarrow> fault + PointerData" where
  "Add cfg unw tv ptr pointer_size type pd =
     (case AddBacktrace cfg unw (backtrace_frames cfg) pointer_size pd of
        Inl e \<Rightarrow> Inl e
      | Inr (h, pd') \<Rightarrow>
          if h = kBacktraceExitIndex then Inr pd'
          else AddPointer cfg tv ptr pointer_size type h pd')"

text \<open>
  \<open>Remove\<close>: its first block, under \<open>pointer_mutex_\<close>, yields the index to release (\<open>None\<close>: no
  tracked pointer, return), then \<open>RemoveBacktrace\<close> runs.
\<close>

definition RemovePointer :: "u64 \<Rightarrow> PointerData \<Rightarrow> u64 option \<times> PointerData" where
  "RemovePointer ptr pd =
     (let mangled_ptr = ManglePointer ptr in
      case map_of (pointers pd) mangled_ptr of
        None \<Rightarrow> (None, pd)
      | Some i \<Rightarrow>
          (let pd1 = pd\<lparr>current_used := current_used pd - pi_size i\<rparr>;
               pd2 = (if mem_type i = DMA
                      then pd1\<lparr>current_dma := current_dma pd1 - pi_size i\<rparr>
                      else pd1\<lparr>current_host := current_host pd1 - pi_size i\<rparr>)
           in (Some (hash_index i), pd2\<lparr>pointers := AList.delete mangled_ptr (pointers pd2)\<rparr>)))"

definition RemoveBacktrace :: "Config \<Rightarrow> u64 \<Rightarrow> PointerData \<Rightarrow> PointerData" where
  "RemoveBacktrace cfg h pd =
     (if h \<le> kBacktraceEmptyIndex then pd
      else (case pd_frames pd h of
              None \<Rightarrow> pd
            | Some fi \<Rightarrow>
                let fi' = fi\<lparr>references := references fi - 1\<rparr> in
                if references fi' = 0
                then pd\<lparr>key_to_index := (key_to_index pd)(frames fi' := None),
                        pd_frames := (pd_frames pd)(h := None),
                        backtraces_info :=
                          (if has_option cfg BACKTRACE then (backtraces_info pd)(h := None)
                           else backtraces_info pd)\<rparr>
                else pd\<lparr>pd_frames := (pd_frames pd)(h \<mapsto> fi')\<rparr>))"

definition Remove :: "Config \<Rightarrow> u64 \<Rightarrow> PointerData \<Rightarrow> PointerData" where
  "Remove cfg ptr pd =
     (case RemovePointer ptr pd of
        (None, pd') \<Rightarrow> pd'
      | (Some h, pd') \<Rightarrow> RemoveBacktrace cfg h pd')"


section \<open>Dumping\<close>

text \<open>One frame of a dumped backtrace; \<open>demangle\<close> is \<open>abi::__cxa_demangle\<close>.\<close>

definition frame_line :: "(string \<Rightarrow> string option) \<Rightarrow> nat \<Rightarrow> FrameData \<Rightarrow> string" where
  "frame_line demangle i fr =
     ''#'' @ dec_string i @ '' '' @ hex_string (unat (fr_rel_pc fr)) @ '' '' @
     (case fr_map_info fr of
        None \<Rightarrow> ''<unknown>''
      | Some m \<Rightarrow>
          if mr_name m = [] then ''<anonymous:'' @ hex_string (unat (mr_start m)) @ ''>''
          else mr_name m) @
     (if fr_function_name fr \<noteq> [] then
        '' ('' @
        (case demangle (fr_function_name fr) of
           Some demangled_name \<Rightarrow> demangled_name
         | None \<Rightarrow> fr_function_name fr) @
        (if fr_function_offset fr \<noteq> 0 then ''+'' @ dec_string (unat (fr_function_offset fr)) else []) @
        '')''
      else [])"

fun frame_lines :: "(string \<Rightarrow> string option) \<Rightarrow> nat \<Rightarrow> FrameData list \<Rightarrow> string list" where
  "frame_lines demangle i [] = []"
| "frame_lines demangle i (fr # frs) = frame_line demangle i fr # frame_lines demangle (Suc i) frs"

text \<open>The two sums over the listed entries.\<close>

fun sum_usage :: "ListInfoType list \<Rightarrow> u64 \<Rightarrow> u64 \<Rightarrow> u64 \<times> u64" where
  "sum_usage [] host_use dma_use = (host_use, dma_use)"
| "sum_usage (it # its) host_use dma_use =
     (let bt_size = li_size it * num_allocations it in
      if li_mem_type it = DMA then sum_usage its host_use (dma_use + bt_size)
      else sum_usage its (host_use + bt_size) dma_use)"

text \<open>
  What one dump writes: whether the figures are peak figures, the two sums, and per entry its
  size, kind, count, time and backtrace lines. The text layout of the sizes (\<open>%f\<close>) and of the
  local time is not modelled.
\<close>

record DumpEntry =
  de_size :: u64
  de_type :: MemType
  de_num :: u64
  de_time :: timeval
  de_lines :: "string list"

record Dump =
  du_peak :: bool
  du_host :: u64
  du_dma :: u64
  du_entries :: "DumpEntry list"

definition dump_entry :: "(string \<Rightarrow> string option) \<Rightarrow> ListInfoType \<Rightarrow> DumpEntry" where
  "dump_entry demangle info = \<lparr>de_size = li_size info, de_type = li_mem_type info,
     de_num = num_allocations info, de_time = li_alloc_time info,
     de_lines = frame_lines demangle 0 (backtrace_info info)\<rparr>"

definition DumpLiveToFile ::
  "Config \<Rightarrow> (string \<Rightarrow> string option) \<Rightarrow> PointerData \<Rightarrow> fault + (Dump \<times> PointerData)" where
  "DumpLiveToFile cfg demangle pd =
     (let moved = peak_list pd;
          pd' = pd\<lparr>peak_list := []\<rparr>;
          listed = (if \<not> has_option cfg RECORD_MEMORY_PEAK
                    then GetList pd' [] True (\<lambda>a b. timeval_less (li_alloc_time a) (li_alloc_time b))
                    else Inr moved)
      in case listed of
           Inl e \<Rightarrow> Inl e
         | Inr l \<Rightarrow>
             (let (host_use, dma_use) = sum_usage l 0 0 in
              Inr (\<lparr>du_peak = has_option cfg RECORD_MEMORY_PEAK, du_host = host_use,
                    du_dma = dma_use, du_entries = map (dump_entry demangle) l\<rparr>, pd')))"

text \<open>\<open>DumpPeakInfo\<close> prints the three peaks.\<close>

definition DumpPeakInfo :: "PointerData \<Rightarrow> u64 \<times> u64 \<times> u64" where
  "DumpPeakInfo pd = (peak_host pd, peak_dma pd, peak_tot pd)"

end
