(* ===== verification/PointerInvariants.thy ===== *)
theory PointerInvariants
  imports PointerTracking
begin

text \<open>
  The invariant of the allocation table and the lemmas that every operation keeps it. The
  invariant is stated relative to \<open>extra\<close>, the number of references held for each index by calls
  that are between their two critical sections, so that the same lemmas serve the sequential
  operations here and the interleavings of \<open>PointerThreads\<close>.
\<close>

section \<open>Small facts\<close>

lemma Mangle_inject [simp]: "ManglePointer p = ManglePointer q \<longleftrightarrow> p = q"
  by (simp add: ManglePointer_def)

lemma Demangle_Mangle [simp]: "DemanglePointer (ManglePointer p) = p"
  by (simp add: ManglePointer_def DemanglePointer_def xor.assoc)

lemma frames_loop_eq_iff: "length a = length b \<Longrightarrow> frames_loop_eq a b \<longleftrightarrow> a = b"
  by (induction a b rule: list_induct2) auto

lemma FrameKeyType_eq_iff: "FrameKeyType_eq a b \<longleftrightarrow> a = b"
  by (auto simp: FrameKeyType_eq_def frames_loop_eq_iff)

lemma hash_FrameKeyType_ok: "fs \<noteq> [] \<Longrightarrow> \<exists>v. hash_FrameKeyType fs = Inr v"
  by (cases fs) (auto simp: hash_FrameKeyType_def)

lemma RealSize_mask: "RealSize i = pi_size i AND mask 31"
  by (simp add: RealSize_def mask_eq_exp_minus_1)

lemma unat_RealSize: "unat (RealSize i) = unat (pi_size i) mod 2 ^ 31"
  by (simp add: RealSize_mask unat_mod flip: take_bit_eq_mask add: take_bit_eq_mod)

lemma unat_MaxSize: "unat MaxSize = 2 ^ 31 - 1"
  by (simp add: MaxSize_def)

lemma RealSize_small: "pi_size i \<le> MaxSize \<Longrightarrow> RealSize i = pi_size i"
  by (simp add: word_unat_eq_iff unat_RealSize word_le_nat_alt unat_MaxSize)

section \<open>The invariant\<close>

definition count_ptrs :: "PointerData \<Rightarrow> u64 \<Rightarrow> nat" where
  "count_ptrs pd h = length (filter (\<lambda>e. hash_index (snd e) = h) (pointers pd))"

definition refs :: "PointerData \<Rightarrow> u64 \<Rightarrow> nat" where
  "refs pd h = (case pd_frames pd h of None \<Rightarrow> 0 | Some f \<Rightarrow> unat (references f))"

text \<open>
  The interning tables agree: keys and indices are in bijection, indices lie between the first
  free one and the next one, no entry is unreferenced, and frame data exists for exactly the
  live indices.
\<close>

definition interned :: "Config \<Rightarrow> PointerData \<Rightarrow> bool" where
  "interned cfg pd \<longleftrightarrow>
     (\<forall>k h. key_to_index pd k = Some h \<longleftrightarrow> (\<exists>f. pd_frames pd h = Some f \<and> frames f = k)) \<and>
     (\<forall>h f. pd_frames pd h = Some f \<longrightarrow> 1 < h \<and> h < cur_hash_index pd \<and> references f \<noteq> 0) \<and>
     dom (backtraces_info pd) = dom (pd_frames pd) \<and>
     (\<not> has_option cfg BACKTRACE \<longrightarrow> pd_frames pd = Map.empty) \<and>
     1 < cur_hash_index pd"

text \<open>Every tracked pointer and every reference in flight is counted in its backtrace entry.\<close>

definition supports :: "PointerData \<Rightarrow> (u64 \<Rightarrow> nat) \<Rightarrow> bool" where
  "supports pd extra \<longleftrightarrow>
     distinct (map fst (pointers pd)) \<and>
     (\<forall>h > 1. count_ptrs pd h + extra h \<le> refs pd h)"

text \<open>The two 64-bit counters can be incremented \<open>n\<close> more times without wrapping.\<close>

definition room :: "nat \<Rightarrow> PointerData \<Rightarrow> bool" where
  "room n pd \<longleftrightarrow> unat (cur_hash_index pd) + n < 2 ^ 64 \<and> (\<forall>h. refs pd h + n < 2 ^ 64)"

definition table_inv :: "Config \<Rightarrow> (u64 \<Rightarrow> nat) \<Rightarrow> nat \<Rightarrow> PointerData \<Rightarrow> bool" where
  "table_inv cfg extra n pd \<longleftrightarrow> interned cfg pd \<and> supports pd extra \<and> room n pd"

definition bump :: "u64 \<Rightarrow> (u64 \<Rightarrow> nat) \<Rightarrow> (u64 \<Rightarrow> nat)" where
  "bump h extra = extra(h := Suc (extra h))"

lemma table_inv_Initialize: "table_inv cfg (\<lambda>_. 0) (2 ^ 64 - 3) (Initialize pd)"
  by (auto simp: table_inv_def interned_def supports_def room_def Initialize_def count_ptrs_def
      refs_def hash_consts word_less_nat_alt)

lemma room_mono: "room n pd \<Longrightarrow> m \<le> n \<Longrightarrow> room m pd"
  unfolding room_def by (meson add_le_mono le_refl le_trans not_le)


lemma roomD: "room n pd \<Longrightarrow> refs pd h + n < 2 ^ 64" "room n pd \<Longrightarrow> unat (cur_hash_index pd) + n < 2 ^ 64"
  by (simp_all add: room_def)

section \<open>Interning a backtrace\<close>

lemma refs_upd:
  "refs (pd\<lparr>pd_frames := (pd_frames pd)(h \<mapsto> f)\<rparr>) = (refs pd)(h := unat (references f))"
  by (auto simp: refs_def)

lemma supportsI_frames:
  assumes "supports pd extra" "pointers pd' = pointers pd"
    and "\<And>g. 1 < g \<Longrightarrow> refs pd g + extra' g \<le> refs pd' g + extra g"
  shows "supports pd' extra'"
proof -
  have c: "count_ptrs pd' g = count_ptrs pd g" for g using assms(2) by (simp add: count_ptrs_def)
  show ?thesis
    unfolding supports_def c
  proof (intro conjI allI impI)
    fix g :: u64 assume "1 < g"
    with assms(1) assms(3) [of g] show "count_ptrs pd g + extra' g \<le> refs pd' g"
      unfolding supports_def by fastforce
  qed (use assms in \<open>simp add: supports_def\<close>)
qed

text \<open>The two ways \<open>AddBacktrace\<close> changes the tables.\<close>

definition intern_new :: "u64 list \<Rightarrow> FrameData list \<Rightarrow> PointerData \<Rightarrow> PointerData" where
  "intern_new fs info pd = pd\<lparr>cur_hash_index := cur_hash_index pd + 1,
     key_to_index := (key_to_index pd)(fs \<mapsto> cur_hash_index pd),
     pd_frames := (pd_frames pd)(cur_hash_index pd \<mapsto> \<lparr>references = 1, frames = fs\<rparr>),
     backtraces_info := (backtraces_info pd)(cur_hash_index pd \<mapsto> info)\<rparr>"

definition intern_again :: "u64 \<Rightarrow> FrameInfoType \<Rightarrow> PointerData \<Rightarrow> PointerData" where
  "intern_again h f pd = pd\<lparr>pd_frames := (pd_frames pd)(h \<mapsto> f\<lparr>references := references f + 1\<rparr>)\<rparr>"

lemma interned_fresh:
  assumes "interned cfg pd"
  shows "pd_frames pd (cur_hash_index pd) = None" "backtraces_info pd (cur_hash_index pd) = None"
proof -
  show f: "pd_frames pd (cur_hash_index pd) = None"
    using assms unfolding interned_def by (metis less_irrefl option.exhaust)
  show "backtraces_info pd (cur_hash_index pd) = None"
    using assms f unfolding interned_def by blast
qed

lemma AddBacktrace_cases:
  assumes "AddBacktrace cfg unw n sz pd = Inr (h, pd')" "interned cfg pd"
  obtains (skip) "h \<le> 1" "pd' = pd"
  | (new) code fs info where "unw n = Inr (code, fs, info)" "has_option cfg BACKTRACE" "fs \<noteq> []"
      "key_to_index pd fs = None" "h = cur_hash_index pd" "pd' = intern_new fs info pd"
  | (again) code fs info f where "unw n = Inr (code, fs, info)" "has_option cfg BACKTRACE"
      "key_to_index pd fs = Some h" "pd_frames pd h = Some f" "frames f = fs"
      "pd' = intern_again h f pd"
proof -
  note fresh = interned_fresh [OF assms(2)]
  have bij: "key_to_index pd k = Some g \<Longrightarrow> \<exists>f. pd_frames pd g = Some f \<and> frames f = k" for k g
    using assms(2) unfolding interned_def by blast
  show thesis
    using assms(1)
    by (fastforce simp: AddBacktrace_def Let_def emplace_def fresh intern_new_def intern_again_def
        hash_FrameKeyType_def hash_consts
        split: if_splits sum.splits prod.splits option.splits list.splits
        intro: skip new again dest: bij)
qed

lemma interned_intern_new:
  assumes inv: "interned cfg pd" and room: "room (Suc n) pd" and new: "key_to_index pd fs = None"
    and bt: "has_option cfg BACKTRACE"
  shows "interned cfg (intern_new fs info pd)"
proof -
  have c: "unat (cur_hash_index pd + 1) = Suc (unat (cur_hash_index pd))"
    using room by (intro unat_Suc_word) (simp add: room_def)
  then have lt: "cur_hash_index pd < cur_hash_index pd + 1" by (simp add: word_less_nat_alt)
  have bij: "key_to_index pd k = Some h \<longleftrightarrow> (\<exists>f. pd_frames pd h = Some f \<and> frames f = k)" for k h
    using inv unfolding interned_def by blast
  have rng: "pd_frames pd h = Some f \<Longrightarrow> 1 < h \<and> h < cur_hash_index pd \<and> references f \<noteq> 0" for h f
    using inv unfolding interned_def by blast
  have one: "1 < cur_hash_index pd" using inv unfolding interned_def by blast
  have "key_to_index (intern_new fs info pd) k = Some h \<longleftrightarrow>
      (\<exists>f. pd_frames (intern_new fs info pd) h = Some f \<and> frames f = k)" for k h
    using bij [of k h] bij [of fs h] bij [of k "cur_hash_index pd"] new interned_fresh(1) [OF inv]
    by (cases "h = cur_hash_index pd") (auto simp: intern_new_def)
  moreover have "1 < h \<and> h < cur_hash_index (intern_new fs info pd) \<and> references f \<noteq> 0"
    if "pd_frames (intern_new fs info pd) h = Some f" for h f
    using that rng [of h f] one lt by (auto simp: intern_new_def split: if_splits)
  moreover have "dom (backtraces_info (intern_new fs info pd)) = dom (pd_frames (intern_new fs info pd))"
    using inv by (simp add: interned_def intern_new_def)
  moreover have "1 < cur_hash_index (intern_new fs info pd)"
    using less_trans [OF one lt] by (simp add: intern_new_def)
  ultimately show ?thesis
    using bt unfolding interned_def by blast
qed

lemma intern_fields [simp]:
  "pointers (intern_new fs info pd) = pointers pd"
  "pointers (intern_again h f pd) = pointers pd"
  "cur_hash_index (intern_again h f pd) = cur_hash_index pd"
  "cur_hash_index (intern_new fs info pd) = cur_hash_index pd + 1"
  by (simp_all add: intern_new_def intern_again_def)

lemma interned_intern_again:
  assumes "interned cfg pd" "room (Suc n) pd" "pd_frames pd h = Some f"
  shows "interned cfg (intern_again h f pd)"
proof -
  have "unat (references f) + Suc n < 2 ^ 64"
    using assms(2,3) unfolding room_def refs_def by (metis option.simps(5))
  then have "unat (references f + 1) = Suc (unat (references f))"
    by (intro unat_Suc_word) simp
  then have "references f + 1 \<noteq> 0" by (metis nat.simps(3) unat_0)
  then show ?thesis
    using assms(1,3) unfolding interned_def intern_again_def
    by (simp, intro conjI allI impI) (auto split: if_splits)
qed

lemma refs_intern_new:
  "refs (intern_new fs info pd) = (refs pd)(cur_hash_index pd := 1)"
  by (auto simp: refs_def intern_new_def)

lemma refs_intern_again:
  assumes "room (Suc n) pd" "pd_frames pd h = Some f"
  shows "refs (intern_again h f pd) = (refs pd)(h := Suc (refs pd h))"
proof -
  have r: "refs pd h = unat (references f)" using assms(2) by (simp add: refs_def)
  have "unat (references f + 1) = Suc (unat (references f))"
    using assms(1) by (intro unat_Suc_word) (use r in \<open>auto simp: room_def dest: spec [of _ h]\<close>)
  then show ?thesis unfolding intern_again_def refs_upd by (simp add: r)
qed

lemma AddBacktrace_inv:
  assumes inv: "table_inv cfg extra (Suc n) pd"
    and add: "AddBacktrace cfg unw num sz pd = Inr (h, pd')"
  shows "table_inv cfg (bump h extra) n pd'" "1 < h \<Longrightarrow> h \<in> dom (pd_frames pd')"
    "pointers pd' = pointers pd"
proof -
  from inv have i: "interned cfg pd" and s: "supports pd extra" and r: "room (Suc n) pd"
    by (simp_all add: table_inv_def)
  from add i have "table_inv cfg (bump h extra) n pd' \<and> (1 < h \<longrightarrow> h \<in> dom (pd_frames pd')) \<and>
      pointers pd' = pointers pd"
  proof (cases rule: AddBacktrace_cases)
    case skip
    then have "supports pd' (bump h extra)"
      by (intro supportsI_frames [OF s]) (auto simp: bump_def)
    then show ?thesis using skip i room_mono [OF r] by (auto simp: table_inv_def)
  next
    case (new code fs info)
    note refs_new = refs_intern_new [of fs info pd, folded new(6)]
    have zero: "refs pd h = 0" using interned_fresh(1) [OF i] new(5) by (simp add: refs_def)
    have "supports pd' (bump h extra)"
      using new(5) zero by (intro supportsI_frames [OF s])
        (auto simp: new(6) refs_intern_new bump_def)
    moreover have "unat (cur_hash_index pd + 1) = Suc (unat (cur_hash_index pd))"
      using r by (intro unat_Suc_word) (simp add: room_def)
    then have "room n pd'"
      using roomD [OF r] roomD [OF room_mono [OF r, of n]] unfolding room_def refs_new
      by (auto simp: new(6))
    ultimately show ?thesis
      using interned_intern_new [OF i r new(4,2)] new(5,6)
      by (simp add: table_inv_def intern_new_def)
  next
    case (again code fs info f)
    note refs_again = refs_intern_again [OF r again(4), folded again(6)]
    have "supports pd' (bump h extra)"
      by (intro supportsI_frames [OF s]) (auto simp: refs_intern_again [OF r again(4)] bump_def again(6))
    moreover have "room n pd'"
      using roomD [OF r] roomD [OF room_mono [OF r, of n]] unfolding room_def refs_again
      by (auto simp: again(6))
    ultimately show ?thesis
      using interned_intern_again [OF i r again(4)] again(6)
      by (simp add: table_inv_def intern_again_def)
  qed
  then show "table_inv cfg (bump h extra) n pd'" "1 < h \<Longrightarrow> h \<in> dom (pd_frames pd')"
    "pointers pd' = pointers pd" by blast+
qed


section \<open>Releasing a backtrace\<close>

lemma RemoveBacktrace_cases:
  obtains (skip) "h \<le> 1 \<or> pd_frames pd h = None" "RemoveBacktrace cfg h pd = pd"
  | (keep) f where "1 < h" "pd_frames pd h = Some f" "references f - 1 \<noteq> 0"
      "RemoveBacktrace cfg h pd = pd\<lparr>pd_frames := (pd_frames pd)(h \<mapsto> f\<lparr>references := references f - 1\<rparr>)\<rparr>"
  | (drop) f where "1 < h" "pd_frames pd h = Some f" "references f - 1 = 0"
      "RemoveBacktrace cfg h pd = pd\<lparr>key_to_index := (key_to_index pd)(frames f := None),
         pd_frames := (pd_frames pd)(h := None),
         backtraces_info := (if has_option cfg BACKTRACE then (backtraces_info pd)(h := None)
                             else backtraces_info pd)\<rparr>"
  by (cases "h \<le> 1"; cases "pd_frames pd h")
     (auto simp: RemoveBacktrace_def hash_consts Let_def not_le split: if_splits)

lemma refs_RemoveBacktrace:
  assumes "interned cfg pd"
  shows "refs (RemoveBacktrace cfg h pd) g = (if g = h \<and> 1 < h then refs pd g - 1 else refs pd g)"
proof (cases rule: RemoveBacktrace_cases [of h pd cfg])
  case (keep f)
  then have "unat (references f - 1) = unat (references f) - 1"
    using assms by (intro unat_pred_word) (auto simp: interned_def unat_gt_0)
  with keep show ?thesis by (auto simp: refs_def)
next
  case (drop f)
  then have "references f = 1" by (simp add: eq_diff_eq)
  with drop show ?thesis by (auto simp: refs_def)
qed (auto simp: refs_def)

lemma interned_RemoveBacktrace:
  assumes inv: "interned cfg pd"
  shows "interned cfg (RemoveBacktrace cfg h pd)"
proof (cases rule: RemoveBacktrace_cases [of h pd cfg])
  case (keep f)
  then show ?thesis
    using inv unfolding interned_def by (simp, intro conjI allI impI) (auto split: if_splits)
next
  case (drop f)
  have bij: "key_to_index pd k = Some g \<longleftrightarrow> (\<exists>f. pd_frames pd g = Some f \<and> frames f = k)" for k g
    using inv unfolding interned_def by blast
  have bt: "has_option cfg BACKTRACE" using inv drop(2) unfolding interned_def by force
  have "((key_to_index pd)(frames f := None)) k = Some g \<longleftrightarrow>
      (\<exists>f'. ((pd_frames pd)(h := None)) g = Some f' \<and> frames f' = k)" for k g
    using bij [of k g] bij [of "frames f" h] bij [of "frames f" g] drop(2) by (cases "g = h") auto
  then show ?thesis
    using inv bt unfolding interned_def drop(4) by (auto split: if_splits)
qed (use inv in simp)

lemma RemoveBacktrace_fields [simp]:
  "pointers (RemoveBacktrace cfg h pd) = pointers pd"
  "cur_hash_index (RemoveBacktrace cfg h pd) = cur_hash_index pd"
  "current_used (RemoveBacktrace cfg h pd) = current_used pd"
  "current_host (RemoveBacktrace cfg h pd) = current_host pd"
  "current_dma (RemoveBacktrace cfg h pd) = current_dma pd"
  by (cases rule: RemoveBacktrace_cases [of h pd cfg]; simp)+

lemma RemoveBacktrace_inv:
  assumes "table_inv cfg (bump h extra) n pd"
  shows "table_inv cfg extra n (RemoveBacktrace cfg h pd)"
proof -
  from assms have i: "interned cfg pd" and s: "supports pd (bump h extra)" and r: "room n pd"
    by (simp_all add: table_inv_def)
  have "1 \<le> refs pd h" if "1 < h"
    using s that unfolding supports_def bump_def by fastforce
  then have "supports (RemoveBacktrace cfg h pd) extra"
    by (intro supportsI_frames [OF s]) (auto simp: refs_RemoveBacktrace [OF i] bump_def)
  moreover have "room n (RemoveBacktrace cfg h pd)"
    using roomD [OF r] unfolding room_def
    by (auto simp: refs_RemoveBacktrace [OF i] intro: le_less_trans [OF add_le_mono1 [OF diff_le_self]])
  ultimately show ?thesis
    using interned_RemoveBacktrace [OF i] by (simp add: table_inv_def)
qed

section \<open>Entering and removing a pointer\<close>

lemma count_update:
  assumes "distinct (map fst al)"
  shows "length (filter (\<lambda>e. P (snd e)) (AList.update k v al)) +
       (case map_of al k of Some w \<Rightarrow> if P w then 1 else 0 | None \<Rightarrow> 0) =
     length (filter (\<lambda>e. P (snd e)) al) + (if P v then 1 else 0)"
  using assms
proof (induction al)
  case (Cons e al)
  have "map_of al k = None" if "fst e = k"
    using Cons.prems that by (auto simp: map_of_eq_None_iff)
  moreover have "map_of al k = Some w \<Longrightarrow> P w \<Longrightarrow> filter (\<lambda>e. P (snd e)) al \<noteq> []" for w
    by (force simp: filter_empty_conv dest: map_of_SomeD)
  ultimately show ?case
    using Cons by (cases e) (auto split: option.splits)
qed simp

lemma count_delete:
  assumes "distinct (map fst al)" "map_of al k = Some w"
  shows "length (filter (\<lambda>e. P (snd e)) al) =
     length (filter (\<lambda>e. P (snd e)) (AList.delete k al)) + (if P w then 1 else 0)"
  using assms
proof (induction al)
  case (Cons e al)
  show ?case
  proof (cases "fst e = k")
    case True
    then have "map_of al k = None" using Cons.prems by (auto simp: map_of_eq_None_iff)
    then show ?thesis using Cons.prems True by (cases e) auto
  qed (use Cons in \<open>cases e, auto\<close>)
qed simp


text \<open>Projections of \<open>AddPointer\<close> and \<open>RemovePointer\<close> that the invariant reads.\<close>

definition same_tables :: "PointerData \<Rightarrow> PointerData \<Rightarrow> bool" where
  "same_tables pd pd' \<longleftrightarrow> key_to_index pd' = key_to_index pd \<and> pd_frames pd' = pd_frames pd \<and>
     backtraces_info pd' = backtraces_info pd \<and> cur_hash_index pd' = cur_hash_index pd"

lemma same_tables_trans_inv:
  assumes "same_tables pd pd'" "interned cfg pd" "room n pd"
  shows "interned cfg pd'" "room n pd'" "refs pd' = refs pd"
proof -
  from assms(1) have eq: "key_to_index pd' = key_to_index pd" "pd_frames pd' = pd_frames pd"
    "backtraces_info pd' = backtraces_info pd" "cur_hash_index pd' = cur_hash_index pd"
    by (simp_all add: same_tables_def)
  show r: "refs pd' = refs pd" by (intro ext) (simp add: refs_def eq)
  show "interned cfg pd'" using assms(2) unfolding interned_def eq .
  show "room n pd'" using assms(3) unfolding room_def r eq .
qed

lemma track_pointer_effect:
  fixes tv p sz ty h pd
  defines "pd' \<equiv> track_pointer tv p sz ty h pd"
  shows "same_tables pd pd'"
    "pointers pd' = AList.update (ManglePointer p)
       \<lparr>pi_size = sz, hash_index = h, mem_type = ty, alloc_time = tv\<rparr> (pointers pd)"
    "current_used pd' = current_used pd + sz"
    "current_dma pd' = (if ty = DMA then current_dma pd + sz else current_dma pd)"
    "current_host pd' = (if ty = DMA then current_host pd else current_host pd + sz)"
    "peak_tot pd' = peak_tot pd"
    "peak_dma pd' = (if ty = DMA then max (peak_dma pd) (current_dma pd') else peak_dma pd)"
    "peak_host pd' = (if ty = DMA then peak_host pd else max (peak_host pd) (current_host pd'))"
  by (auto simp: pd'_def track_pointer_def Let_def same_tables_def max_def)

text \<open>\<open>AddPointer\<close> either returns with the tracked state and its overall peak, or lists.\<close>

lemma AddPointer_cases:
  fixes tv p sz ty h pd
  defines "t \<equiv> track_pointer tv p sz ty h pd"
  defines "t' \<equiv> t\<lparr>peak_tot := max (peak_tot t) (current_used t)\<rparr>"
  obtains (plain) "AddPointer cfg tv p sz ty h pd = Inr t'"
  | (snapshot) l where "GetUniqueList t' [] True = Inr l"
      "AddPointer cfg tv p sz ty h pd = Inr (t'\<lparr>peak_list := l\<rparr>)"
  | (fault) e where "GetUniqueList t' [] True = Inl e" "AddPointer cfg tv p sz ty h pd = Inl e"
proof (cases "peak_tot t < current_used t")
  case True
  then have t': "t' = t\<lparr>peak_tot := current_used t\<rparr>" by (simp add: t'_def max_def)
  show thesis
  proof (cases "has_option cfg RECORD_MEMORY_PEAK \<and> peak_tot t' > backtrace_dump_peak_val cfg")
    case list: True
    then show thesis
      using True snapshot fault
      by (cases "GetUniqueList t' [] True") (auto simp: AddPointer_def Let_def t' simp flip: t_def)
  next
    case False
    then show thesis using True plain by (auto simp: AddPointer_def Let_def t' simp flip: t_def)
  qed
next
  case False
  then have "t' = t" by (simp add: t'_def max_def)
  then show thesis using False plain by (simp add: AddPointer_def Let_def flip: t_def)
qed

lemma AddPointer_effect:
  assumes "AddPointer cfg tv p sz ty h pd = Inr pd'"
  shows "same_tables pd pd'"
    "pointers pd' = AList.update (ManglePointer p)
       \<lparr>pi_size = sz, hash_index = h, mem_type = ty, alloc_time = tv\<rparr> (pointers pd)"
    "current_used pd' = current_used pd + sz"
    "current_dma pd' = (if ty = DMA then current_dma pd + sz else current_dma pd)"
    "current_host pd' = (if ty = DMA then current_host pd else current_host pd + sz)"
    "peak_tot pd' = max (peak_tot pd) (current_used pd')"
    "peak_dma pd' = (if ty = DMA then max (peak_dma pd) (current_dma pd') else peak_dma pd)"
    "peak_host pd' = (if ty = DMA then peak_host pd else max (peak_host pd) (current_host pd'))"
proof -
  define t where "t = track_pointer tv p sz ty h pd"
  obtain l where "pd' = t\<lparr>peak_tot := max (peak_tot t) (current_used t), peak_list := l\<rparr>"
  proof (cases rule: AddPointer_cases [of cfg tv p sz ty h pd])
    case plain
    then have "pd' = t\<lparr>peak_tot := max (peak_tot t) (current_used t), peak_list := peak_list t\<rparr>"
      using assms by (simp add: t_def)
    then show thesis by (rule that)
  next
    case (snapshot l)
    with assms show thesis by (intro that [of l]) (simp add: t_def)
  next
    case (fault e)
    with assms show thesis by simp
  qed
  note r = this [unfolded t_def]
  show "same_tables pd pd'"
    using track_pointer_effect(1) [of pd tv p sz ty h] by (simp add: r same_tables_def)
  show "pointers pd' = AList.update (ManglePointer p)
       \<lparr>pi_size = sz, hash_index = h, mem_type = ty, alloc_time = tv\<rparr> (pointers pd)"
    and "current_used pd' = current_used pd + sz"
    and "current_dma pd' = (if ty = DMA then current_dma pd + sz else current_dma pd)"
    and "current_host pd' = (if ty = DMA then current_host pd else current_host pd + sz)"
    and "peak_tot pd' = max (peak_tot pd) (current_used pd')"
    and "peak_dma pd' = (if ty = DMA then max (peak_dma pd) (current_dma pd') else peak_dma pd)"
    and "peak_host pd' = (if ty = DMA then peak_host pd else max (peak_host pd) (current_host pd'))"
    by (simp_all add: r track_pointer_effect)
qed

lemma RemovePointer_None:
  "RemovePointer p pd = (None, pd') \<longleftrightarrow> map_of (pointers pd) (ManglePointer p) = None \<and> pd' = pd"
  by (auto simp: RemovePointer_def Let_def split: option.splits)

lemma RemovePointer_effect:
  assumes "RemovePointer p pd = (Some h, pd')"
  obtains i where "map_of (pointers pd) (ManglePointer p) = Some i" "h = hash_index i"
    "same_tables pd pd'" "pointers pd' = AList.delete (ManglePointer p) (pointers pd)"
    "current_used pd' = current_used pd - pi_size i"
    "current_dma pd' = (if mem_type i = DMA then current_dma pd - pi_size i else current_dma pd)"
    "current_host pd' = (if mem_type i = DMA then current_host pd else current_host pd - pi_size i)"
    "peak_tot pd' = peak_tot pd" "peak_dma pd' = peak_dma pd" "peak_host pd' = peak_host pd"
    "peak_list pd' = peak_list pd"
  using assms
  by (auto simp: RemovePointer_def Let_def same_tables_def split: option.splits if_splits)

lemma supports_update:
  assumes s: "supports pd (bump h extra)"
    and u: "pointers r = AList.update k info (pointers pd)" and "refs r = refs pd"
    and h: "hash_index info = h"
  shows "supports r extra"
proof -
  have d: "distinct (map fst (pointers pd))" using s by (simp add: supports_def)
  have c: "count_ptrs r g \<le> count_ptrs pd g + (if g = h then 1 else 0)" for g
    using count_update [OF d, of "\<lambda>i. hash_index i = g" k info] h
    unfolding count_ptrs_def u by (simp split: option.splits if_splits)
  have "count_ptrs r g + extra g \<le> refs r g" if "1 < g" for g
  proof -
    have "count_ptrs pd g + bump h extra g \<le> refs r g"
      using s that assms(3) by (simp add: supports_def)
    then show ?thesis using c [of g] by (simp add: bump_def split: if_splits)
  qed
  then show ?thesis
    using d by (simp add: supports_def u distinct_update)
qed

lemma AddPointer_inv:
  assumes inv: "table_inv cfg (bump h extra) n pd"
    and add: "AddPointer cfg tv p sz ty h pd = Inr pd'"
  shows "table_inv cfg extra n pd'"
proof -
  note eff = AddPointer_effect [OF add]
  from inv have s: "supports pd (bump h extra)" and "interned cfg pd" "room n pd"
    by (simp_all add: table_inv_def)
  note tabs = same_tables_trans_inv [OF eff(1) this(2,3)]
  have "supports pd' extra" using s eff(2) tabs(3) by (rule supports_update) simp
  then show ?thesis using tabs by (simp add: table_inv_def)
qed

lemma RemovePointer_inv:
  assumes inv: "table_inv cfg extra n pd" and rem: "RemovePointer p pd = (Some h, pd')"
  shows "table_inv cfg (bump h extra) n pd'"
proof -
  from rem obtain i where i: "map_of (pointers pd) (ManglePointer p) = Some i" "h = hash_index i"
    and st: "same_tables pd pd'" and pt: "pointers pd' = AList.delete (ManglePointer p) (pointers pd)"
    by (rule RemovePointer_effect)
  from inv have s: "supports pd extra" and "interned cfg pd" "room n pd"
    by (simp_all add: table_inv_def)
  note tabs = same_tables_trans_inv [OF st this(2,3)]
  have d: "distinct (map fst (pointers pd))" using s by (simp add: supports_def)
  have "count_ptrs pd g = count_ptrs pd' g + (if g = h then 1 else 0)" for g
    using count_delete [OF d i(1), of "\<lambda>i. hash_index i = g"] i(2)
    unfolding count_ptrs_def pt by auto
  then have "supports pd' (bump h extra)"
    using s unfolding supports_def tabs(3) pt
    by (fastforce simp: bump_def distinct_delete)
  then show ?thesis using tabs by (simp add: table_inv_def)
qed


section \<open>Listing never leaves the tables\<close>

lemma supported_entry:
  assumes "interned cfg pd" "supports pd extra" "e \<in> set (pointers pd)" "1 < hash_index (snd e)"
  shows "\<exists>l. list_entry pd e = Inr l"
proof -
  have "filter (\<lambda>e'. hash_index (snd e') = hash_index (snd e)) (pointers pd) \<noteq> []"
    using assms(3) by (auto simp: filter_empty_conv)
  then have "0 < count_ptrs pd (hash_index (snd e))"
    by (simp add: count_ptrs_def)
  moreover have "count_ptrs pd (hash_index (snd e)) \<le> refs pd (hash_index (snd e))"
    using assms(2,4) unfolding supports_def by (metis add_leD1)
  ultimately have "pd_frames pd (hash_index (snd e)) \<noteq> None"
    by (auto simp: refs_def split: option.splits)
  then obtain f bi where "pd_frames pd (hash_index (snd e)) = Some f"
    "backtraces_info pd (hash_index (snd e)) = Some bi"
    using assms(1) unfolding interned_def by (metis domD domI not_None_eq)
  then show ?thesis by (simp add: list_entry_def Let_def)
qed

lemma collect_entries_ok:
  assumes "\<forall>e \<in> set es. 1 < hash_index (snd e) \<longrightarrow> (\<exists>l. list_entry pd e = Inr l)"
  shows "\<exists>ls. collect_entries pd True es acc = Inr (acc @ ls) \<and>
     map Inr ls = map (list_entry pd) (filter (\<lambda>e. 1 < hash_index (snd e)) es)"
  using assms
proof (induction es arbitrary: acc)
  case (Cons e es)
  show ?case
  proof (cases "1 < hash_index (snd e)")
    case True
    with Cons.prems obtain l where l: "list_entry pd e = Inr l" by auto
    with Cons.IH [of "acc @ [l]"] Cons.prems True show ?thesis
      by (auto simp: hash_consts not_le)
  next
    case False
    with Cons.IH [of acc] Cons.prems show ?thesis by (auto simp: hash_consts not_less)
  qed
qed simp

lemma collect_ok:
  assumes "interned cfg pd" "supports pd extra"
  shows "\<exists>ls. collect_entries pd True (pointers pd) acc = Inr (acc @ ls) \<and>
     map Inr ls = map (list_entry pd) (filter (\<lambda>e. 1 < hash_index (snd e)) (pointers pd))"
  by (rule collect_entries_ok) (use supported_entry [OF assms] in auto)

lemma GetList_ok:
  assumes "interned cfg pd" "supports pd extra"
  shows "\<exists>ls. GetList pd acc True lt = Inr ls"
  using collect_ok [OF assms, of acc] by (auto simp: GetList_def)

lemma GetUniqueList_ok:
  assumes "interned cfg pd" "supports pd extra"
  shows "\<exists>ls. GetUniqueList pd acc True = Inr ls"
  using GetList_ok [OF assms, of acc "unique_less pd"] by (auto simp: GetUniqueList_def)

lemma interned_cong:
  "same_tables pd pd' \<Longrightarrow> interned cfg pd \<Longrightarrow> interned cfg pd'"
  by (simp add: same_tables_def interned_def)

lemma AddPointer_fault:
  assumes "AddPointer cfg tv p sz ty h pd = Inl e"
  shows "\<exists>r. same_tables pd r \<and> pointers r = AList.update (ManglePointer p)
       \<lparr>pi_size = sz, hash_index = h, mem_type = ty, alloc_time = tv\<rparr> (pointers pd) \<and>
     GetUniqueList r [] True = Inl e"
  using assms
proof (cases rule: AddPointer_cases [of cfg tv p sz ty h pd])
  case (fault e')
  let ?t = "track_pointer tv p sz ty h pd"
  from fault assms have "GetUniqueList (?t\<lparr>peak_tot := max (peak_tot ?t) (current_used ?t)\<rparr>) [] True = Inl e"
    by simp
  moreover have "same_tables pd (?t\<lparr>peak_tot := max (peak_tot ?t) (current_used ?t)\<rparr>)"
    using track_pointer_effect(1) [of pd tv p sz ty h] by (simp add: same_tables_def)
  ultimately show ?thesis
    by (intro exI conjI) (assumption | simp add: track_pointer_effect)+
qed simp_all

lemma AddPointer_ok:
  assumes inv: "table_inv cfg (bump h extra) n pd"
  shows "\<exists>pd'. AddPointer cfg tv p sz ty h pd = Inr pd'"
proof (cases "AddPointer cfg tv p sz ty h pd")
  case (Inl e)
  then obtain r where r: "same_tables pd r" "pointers r = AList.update (ManglePointer p)
       \<lparr>pi_size = sz, hash_index = h, mem_type = ty, alloc_time = tv\<rparr> (pointers pd)"
    and l: "GetUniqueList r [] True = Inl e"
    using AddPointer_fault by blast
  from inv have s: "supports pd (bump h extra)" and "interned cfg pd" "room n pd"
    by (simp_all add: table_inv_def)
  note tabs = same_tables_trans_inv [OF r(1) this(2,3)]
  have "supports r extra" using s r(2) tabs(3) by (rule supports_update) simp
  then show ?thesis using GetUniqueList_ok [OF tabs(1), of extra "[]"] l by simp
qed blast

end
