(* ===== verification/PointerThreads.thy ===== *)
theory PointerThreads
  imports PointerInvariants "HOL-Library.Multiset"
begin

text \<open>
  \<open>PointerData::Add\<close> and \<open>PointerData::Remove\<close> each run in two critical sections with nothing held
  between them: \<open>AddBacktrace\<close> under \<open>frame_mutex_\<close> and the table update under
  \<open>pointer_mutex_\<close> (with \<open>frame_mutex_\<close> inside it when a peak is recorded), and the reverse for
  \<open>Remove\<close>. Calls of any number of threads interleave at these sections. A state is the table and
  the multiset of calls that are between their sections.
\<close>

datatype token = Entering u64 u64 u64 MemType | Releasing u64

fun token_index :: "token \<Rightarrow> u64" where
  "token_index (Entering h p sz ty) = h"
| "token_index (Releasing h) = h"

inductive section_step ::
  "Config \<Rightarrow> PointerData \<times> token multiset \<Rightarrow> PointerData \<times> token multiset \<Rightarrow> bool"
  for cfg where
  add_backtrace: "AddBacktrace cfg unw (backtrace_frames cfg) sz pd = Inr (h, pd') \<Longrightarrow>
     h \<noteq> kBacktraceExitIndex \<Longrightarrow>
     section_step cfg (pd, T) (pd', add_mset (Entering h p sz ty) T)"
| add_skipped: "AddBacktrace cfg unw (backtrace_frames cfg) sz pd = Inr (h, pd') \<Longrightarrow>
     h = kBacktraceExitIndex \<Longrightarrow> section_step cfg (pd, T) (pd', T)"
| add_pointer: "AddPointer cfg tv p sz ty h pd = Inr pd' \<Longrightarrow>
     section_step cfg (pd, add_mset (Entering h p sz ty) T) (pd', T)"
| remove_untracked: "RemovePointer p pd = (None, pd') \<Longrightarrow> section_step cfg (pd, T) (pd', T)"
| remove_pointer: "RemovePointer p pd = (Some h, pd') \<Longrightarrow>
     section_step cfg (pd, T) (pd', add_mset (Releasing h) T)"
| remove_backtrace:
    "section_step cfg (pd, add_mset (Releasing h) T) (RemoveBacktrace cfg h pd, T)"
| dump: "DumpLiveToFile cfg dm pd = Inr (d, pd') \<Longrightarrow> section_step cfg (pd, T) (pd', T)"

text \<open>References held by the calls in flight.\<close>

definition held :: "token multiset \<Rightarrow> u64 \<Rightarrow> nat" where
  "held T h = size (filter_mset (\<lambda>t. token_index t = h) T)"

lemma held_add: "held (add_mset t T) = bump (token_index t) (held T)"
  by (auto simp: held_def bump_def)

definition sys_inv :: "Config \<Rightarrow> nat \<Rightarrow> PointerData \<times> token multiset \<Rightarrow> bool" where
  "sys_inv cfg n s \<longleftrightarrow> table_inv cfg (held (snd s)) n (fst s)"

lemma table_inv_weaken: "table_inv cfg extra (Suc n) pd \<Longrightarrow> table_inv cfg extra n pd"
  by (auto simp: table_inv_def intro: room_mono)

lemma supports_unbump: "supports pd (bump h extra) \<Longrightarrow> supports pd extra"
  unfolding supports_def bump_def by (metis fun_upd_other fun_upd_same add_Suc_right Suc_leD)

lemma table_inv_unbump: "table_inv cfg (bump h extra) n pd \<Longrightarrow> table_inv cfg extra n pd"
  by (auto simp: table_inv_def intro: supports_unbump)

lemma DumpLiveToFile_effect:
  "DumpLiveToFile cfg dm pd = Inr (d, pd') \<Longrightarrow> pd' = pd\<lparr>peak_list := []\<rparr>"
  by (auto simp: DumpLiveToFile_def Let_def split: sum.splits if_splits prod.splits)

lemma table_inv_peak_list [simp]:
  "table_inv cfg extra n (pd\<lparr>peak_list := l\<rparr>) = table_inv cfg extra n pd"
  by (simp add: table_inv_def interned_def supports_def room_def refs_def count_ptrs_def)

lemma section_step_inv:
  assumes "section_step cfg s t" "sys_inv cfg (Suc n) s"
  shows "sys_inv cfg n t"
  using assms
proof (induction rule: section_step.induct)
  case (add_backtrace unw sz pd h pd' T p ty)
  then show ?case by (auto simp: sys_inv_def held_add intro: AddBacktrace_inv)
next
  case (add_skipped unw sz pd h pd' T)
  then show ?case by (auto simp: sys_inv_def intro: table_inv_unbump AddBacktrace_inv)
next
  case (add_pointer tv p sz ty h pd pd' T)
  then show ?case by (auto simp: sys_inv_def held_add intro: AddPointer_inv table_inv_weaken)
next
  case (remove_untracked p pd pd' T)
  then show ?case by (auto simp: sys_inv_def RemovePointer_None intro: table_inv_weaken)
next
  case (remove_pointer p pd h pd' T)
  then show ?case by (auto simp: sys_inv_def held_add intro: RemovePointer_inv table_inv_weaken)
next
  case (remove_backtrace pd h T)
  then show ?case by (auto simp: sys_inv_def held_add intro: RemoveBacktrace_inv table_inv_weaken)
next
  case (dump dm pd d pd' T)
  then show ?case by (auto simp: sys_inv_def dest!: DumpLiveToFile_effect intro: table_inv_weaken)
qed

lemma steps_inv:
  "(section_step cfg ^^ k) s t \<Longrightarrow> sys_inv cfg (k + n) s \<Longrightarrow> sys_inv cfg n t"
proof (induction k arbitrary: n t)
  case (Suc k)
  from Suc.prems(1) obtain u where u: "(section_step cfg ^^ k) s u" "section_step cfg u t"
    by auto
  from Suc.IH [OF u(1), of "Suc n"] Suc.prems(2) u(2) show ?case
    by (auto intro: section_step_inv)
qed simp

lemma reachable_inv:
  assumes "(section_step cfg ^^ k) (Initialize pd0, {#}) s" "k \<le> 2 ^ 64 - 3"
  shows "sys_inv cfg 0 s"
proof -
  have "sys_inv cfg (2 ^ 64 - 3) (Initialize pd0, {#})"
    using table_inv_Initialize [of cfg pd0] by (simp add: sys_inv_def held_def [abs_def])
  then have "sys_inv cfg (k + (2 ^ 64 - 3 - k)) (Initialize pd0, {#})" using assms(2) by simp
  from steps_inv [OF assms(1) this] show ?thesis
    by (auto simp: sys_inv_def table_inv_def intro: room_mono)
qed

end
