(* ===== verification/PointerProps.thy ===== *)
theory PointerProps
  imports PointerThreads "HOL-Library.Product_Lexorder"
begin

text \<open>
  Properties of the allocation table: no interleaving of its critical sections loses a backtrace
  that a tracked pointer needs, adding and removing are inverse, the running totals are the sums
  over the table, and what the listing functions deliver.
\<close>

section \<open>Sequential calls\<close>

lemma AddBacktrace_exit:
  assumes "AddBacktrace cfg unw n sz pd = Inr (kBacktraceExitIndex, q)" "interned cfg pd"
  shows "q = pd"
  using assms(1,2)
proof (cases rule: AddBacktrace_cases)
  case (new code fs info)
  then show ?thesis using assms(2) by (simp add: interned_def hash_consts)
next
  case (again code fs info f)
  then have "1 < kBacktraceExitIndex" using assms(2) unfolding interned_def by blast
  then show ?thesis by (simp add: hash_consts)
qed

lemma Add_cases:
  assumes "Add cfg unw tv p sz ty pd = Inr pd'" "interned cfg pd"
  obtains (skip) "pd' = pd"
  | (enter) h q where "AddBacktrace cfg unw (backtrace_frames cfg) sz pd = Inr (h, q)"
      "AddPointer cfg tv p sz ty h q = Inr pd'"
proof -
  obtain h q where a: "AddBacktrace cfg unw (backtrace_frames cfg) sz pd = Inr (h, q)"
    using assms(1) by (auto simp: Add_def split: sum.splits)
  show thesis
  proof (cases "h = kBacktraceExitIndex")
    case True
    then have "q = pd" using AddBacktrace_exit a assms(2) by blast
    then show thesis using True a assms(1) skip by (simp add: Add_def)
  next
    case False
    then show thesis using a assms(1) enter by (simp add: Add_def)
  qed
qed

lemma Add_inv:
  assumes "table_inv cfg extra (Suc n) pd" "Add cfg unw tv p sz ty pd = Inr pd'"
  shows "table_inv cfg extra n pd'"
proof -
  have "interned cfg pd" using assms(1) by (simp add: table_inv_def)
  from assms(2) this show ?thesis
  proof (cases rule: Add_cases)
    case skip
    then show ?thesis using assms(1) by (simp add: table_inv_weaken)
  next
    case (enter h q)
    from AddBacktrace_inv(1) [OF assms(1) enter(1)] enter(2) show ?thesis
      by (rule AddPointer_inv)
  qed
qed

lemma Remove_inv:
  assumes "table_inv cfg extra n pd"
  shows "table_inv cfg extra n (Remove cfg p pd)"
proof (cases "RemovePointer p pd")
  case (Pair ho pd')
  show ?thesis
  proof (cases ho)
    case None
    then have "Remove cfg p pd = pd" using Pair RemovePointer_None [of p pd pd'] by (simp add: Remove_def)
    then show ?thesis using assms by simp
  next
    case (Some h)
    then have "Remove cfg p pd = RemoveBacktrace cfg h pd'" using Pair by (simp add: Remove_def)
    then show ?thesis using RemovePointer_inv [OF assms, of p h pd'] RemoveBacktrace_inv Pair Some by simp
  qed
qed

lemma dump_returns:
  assumes "table_inv cfg extra n pd"
  shows "\<exists>d. DumpLiveToFile cfg dm pd = Inr (d, pd\<lparr>peak_list := []\<rparr>)"
proof -
  have "interned cfg (pd\<lparr>peak_list := []\<rparr>)" "supports (pd\<lparr>peak_list := []\<rparr>) extra"
    using table_inv_peak_list [THEN iffD2, OF assms, of "[]"] by (auto simp only: table_inv_def)
  then obtain l where "GetList (pd\<lparr>peak_list := []\<rparr>) [] True
      (\<lambda>a b. timeval_less (li_alloc_time a) (li_alloc_time b)) = Inr l"
    using GetList_ok by blast
  then show ?thesis by (auto simp: DumpLiveToFile_def Let_def split: prod.splits)
qed

section \<open>No use of a missing entry, under any interleaving\<close>

text \<open>
  Property C3. Take any interleaving of at most \<open>2^64 - 3\<close> critical sections of \<open>Add\<close>,
  \<open>Remove\<close> and dumps from the initialised table. Every tracked pointer with a backtrace index
  finds its frame entry, with a non-zero reference count, and its frame data; so a dump never
  dereferences \<open>end()\<close>, and every call between its two sections can run its second one.
\<close>

theorem tracked_backtraces_survive:
  assumes "(section_step cfg ^^ k) (Initialize pd0, {#}) (pd, T)" "k \<le> 2 ^ 64 - 3"
  shows "(\<forall>(p, i) \<in> set (pointers pd). 1 < hash_index i \<longrightarrow>
            (\<exists>f bi. pd_frames pd (hash_index i) = Some f \<and> references f \<noteq> 0 \<and>
                    backtraces_info pd (hash_index i) = Some bi)) \<and>
         (\<exists>d pd'. DumpLiveToFile cfg dm pd = Inr (d, pd')) \<and>
         (\<forall>h p sz ty tv. Entering h p sz ty \<in># T \<longrightarrow>
            (\<exists>pd'. AddPointer cfg tv p sz ty h pd = Inr pd'))"
proof (intro conjI allI impI)
  have inv: "table_inv cfg (held T) 0 pd"
    using reachable_inv [OF assms] by (simp add: sys_inv_def)
  then have i: "interned cfg pd" and s: "supports pd (held T)" by (simp_all add: table_inv_def)
  have "\<exists>f bi. pd_frames pd (hash_index i) = Some f \<and> references f \<noteq> 0 \<and>
      backtraces_info pd (hash_index i) = Some bi"
    if "(p, i) \<in> set (pointers pd)" "1 < hash_index i" for p i
    using supported_entry [OF i s that(1)] that(2) i
    by (auto simp: list_entry_def Let_def interned_def split: option.splits)
  then show "\<forall>(p, i) \<in> set (pointers pd). 1 < hash_index i \<longrightarrow>
            (\<exists>f bi. pd_frames pd (hash_index i) = Some f \<and> references f \<noteq> 0 \<and>
                    backtraces_info pd (hash_index i) = Some bi)"
    by blast
  show "\<exists>d pd'. DumpLiveToFile cfg dm pd = Inr (d, pd')" using dump_returns [OF inv] by blast
next
  fix h p sz ty tv
  assume "Entering h p sz ty \<in># T"
  then obtain T' where "T = add_mset (Entering h p sz ty) T'" by (metis mset_add)
  then have "table_inv cfg (bump h (held T')) 0 pd"
    using reachable_inv [OF assms] by (simp add: sys_inv_def held_add)
  then show "\<exists>pd'. AddPointer cfg tv p sz ty h pd = Inr pd'" by (rule AddPointer_ok)
qed


text \<open>A concrete run: one call enters an allocation of 16 bytes with a backtrace of two frames.\<close>

definition sample_config :: Config where
  "sample_config = Config_default\<lparr>options := BACKTRACE, backtrace_frames := 16\<rparr>"

definition sample_frames :: "u64 list" where "sample_frames = [0x1000, 0x2000]"

definition sample_unwind :: "u64 \<Rightarrow> fault + unwind_result" where
  "sample_unwind n = Inr (ERROR_NONE, sample_frames, [])"

definition sample_blank :: PointerData where
  "sample_blank = \<lparr>pointers = [], key_to_index = Map.empty, pd_frames = Map.empty,
     backtraces_info = Map.empty, cur_hash_index = 0, current_used = 0, current_host = 0,
     current_dma = 0, peak_tot = 0, peak_host = 0, peak_dma = 0, peak_list = []\<rparr>"

definition sample_table :: PointerData where "sample_table = Initialize sample_blank"

definition sample_time :: timeval where "sample_time = \<lparr>tv_sec = 1, tv_usec = 0\<rparr>"

lemmas sample_defs = sample_config_def sample_frames_def sample_unwind_def sample_table_def
  sample_time_def Config_default_def option_bits hash_consts

lemma sample_AddBacktrace:
  "AddBacktrace sample_config sample_unwind (backtrace_frames sample_config) 16 sample_table =
     Inr (2, intern_new sample_frames [] sample_table)"
  by (simp add: AddBacktrace_def ShouldBacktraceAllocSize_def has_option_def sample_defs
      hash_FrameKeyType_def Initialize_def emplace_def intern_new_def Let_def)

definition sample_added :: PointerData where
  "sample_added = (intern_new sample_frames [] sample_table)
     \<lparr>pointers := [(ManglePointer 0x7000,
        \<lparr>pi_size = 16, hash_index = 2, mem_type = HOST, alloc_time = sample_time\<rparr>)],
      current_used := 16, current_host := 16, peak_tot := 16, peak_host := 16\<rparr>"

lemma sample_AddPointer:
  "AddPointer sample_config sample_time 0x7000 16 HOST 2 (intern_new sample_frames [] sample_table) =
     Inr sample_added"
  by (simp add: AddPointer_def track_pointer_def has_option_def sample_defs sample_added_def
      Initialize_def intern_new_def Let_def)

lemma sample_Add:
  "Add sample_config sample_unwind sample_time 0x7000 16 HOST sample_table = Inr sample_added"
  by (simp add: Add_def sample_AddBacktrace sample_AddPointer hash_consts)

lemma sample_run: "(section_step sample_config ^^ 2) (sample_table, {#}) (sample_added, {#})"
proof -
  have "section_step sample_config (sample_table, {#})
      (intern_new sample_frames [] sample_table, add_mset (Entering 2 0x7000 16 HOST) {#})"
    by (rule add_backtrace [OF sample_AddBacktrace]) (simp add: hash_consts)
  moreover have "section_step sample_config
      (intern_new sample_frames [] sample_table, add_mset (Entering 2 0x7000 16 HOST) {#})
      (sample_added, {#})"
    by (rule add_pointer [OF sample_AddPointer])
  ultimately show ?thesis by (auto simp: numeral_2_eq_2)
qed

lemma tracked_backtraces_survive_witness:
  "pointers sample_added \<noteq> [] \<and>
   (\<exists>d pd'. DumpLiveToFile sample_config (\<lambda>_. None) sample_added = Inr (d, pd'))"
  using tracked_backtraces_survive [OF sample_run [unfolded sample_table_def], of "\<lambda>_. None"]
  by (simp add: sample_added_def)

section \<open>Adding and removing\<close>

text \<open>
  Property C4. Removing a pointer that was not tracked before it was added restores the table:
  the tracked pointers, the interned backtraces with their reference counts and data, and the
  three running totals. Only the next index, the peaks and the peak snapshot keep a trace.
\<close>

theorem Remove_undoes_Add:
  assumes inv: "table_inv cfg extra (Suc n) pd"
    and fresh: "map_of (pointers pd) (ManglePointer p) = None"
    and add: "Add cfg unw tv p sz ty pd = Inr pd'"
  shows "pointers (Remove cfg p pd') = pointers pd \<and>
     key_to_index (Remove cfg p pd') = key_to_index pd \<and>
     pd_frames (Remove cfg p pd') = pd_frames pd \<and>
     backtraces_info (Remove cfg p pd') = backtraces_info pd \<and>
     current_used (Remove cfg p pd') = current_used pd \<and>
     current_host (Remove cfg p pd') = current_host pd \<and>
     current_dma (Remove cfg p pd') = current_dma pd"
proof -
  have i: "interned cfg pd" and r: "room (Suc n) pd" using inv by (simp_all add: table_inv_def)
  from add i show ?thesis
  proof (cases rule: Add_cases)
    case skip
    then show ?thesis using fresh by (simp add: Remove_def RemovePointer_def)
  next
    case (enter h q)
    note eff = AddPointer_effect [OF enter(2)]
    have pq: "pointers q = pointers pd" using AddBacktrace_inv(3) [OF inv enter(1)] .
    obtain s where s: "RemovePointer p pd' = (Some h, s)"
      by (simp add: RemovePointer_def Let_def eff(2))
    then obtain inf where "map_of (pointers pd') (ManglePointer p) = Some inf"
      and st: "same_tables pd' s" and pt: "pointers s = AList.delete (ManglePointer p) (pointers pd')"
      and u: "current_used s = current_used pd' - pi_size inf"
        "current_dma s = (if mem_type inf = DMA then current_dma pd' - pi_size inf else current_dma pd')"
        "current_host s = (if mem_type inf = DMA then current_host pd' else current_host pd' - pi_size inf)"
      by (rule RemovePointer_effect)
    then have inf: "pi_size inf = sz" "mem_type inf = ty" by (auto simp: eff(2))
    have rem: "Remove cfg p pd' = RemoveBacktrace cfg h s" by (simp add: Remove_def s)
    have ptrs: "pointers s = pointers pd"
      using fresh by (simp add: pt eff(2) pq update_fresh delete_append_fresh)
    have tabs: "key_to_index s = key_to_index q" "pd_frames s = pd_frames q"
      "backtraces_info s = backtraces_info q"
      using st eff(1) by (simp_all add: same_tables_def)
    have tots: "current_used s = current_used q" "current_host s = current_host q"
      "current_dma s = current_dma q"
      by (simp_all add: u eff inf)
    from enter(1) i show ?thesis
    proof (cases rule: AddBacktrace_cases)
      case skip
      then show ?thesis by (simp add: rem RemoveBacktrace_def hash_consts ptrs tabs tots)
    next
      case (new code fs info)
      have "1 < cur_hash_index pd" using i unfolding interned_def by blast
      then have le: "(cur_hash_index pd \<le> 1) = False" by simp
      have "(pd_frames pd)(h := None) = pd_frames pd"
        "(backtraces_info pd)(h := None) = backtraces_info pd"
        "(key_to_index pd)(fs := None) = key_to_index pd"
        using interned_fresh [OF i] new(4,5) by (simp_all add: fun_upd_idem)
      then show ?thesis
        using new(2) by (simp add: le rem RemoveBacktrace_def hash_consts ptrs tabs tots new(5,6)
          intern_new_def Let_def)
    next
      case (again code fs info f)
      have "1 < h" using i again(4) unfolding interned_def by blast
      then have le: "(h \<le> 1) = False" by simp
      have "references f \<noteq> 0" using i again(4) unfolding interned_def by blast
      moreover have "(pd_frames pd)(h \<mapsto> f) = pd_frames pd" using again(4) by (simp add: fun_upd_idem)
      ultimately show ?thesis
        using again(4) by (simp add: rem RemoveBacktrace_def hash_consts ptrs tabs tots Let_def
          le again(6) intern_again_def)
    qed
  qed
qed


lemma sample_inv: "table_inv cfg (\<lambda>_. 0) (2 ^ 64 - 3) sample_table"
  unfolding sample_table_def by (rule table_inv_Initialize)

lemma sample_inv_Suc: "table_inv cfg (\<lambda>_. 0) (Suc 0) sample_table"
  using sample_inv [of cfg] unfolding table_inv_def by (auto intro: room_mono)

lemma Remove_undoes_Add_witness:
  "pd_frames sample_added \<noteq> Map.empty \<and>
   pd_frames (Remove sample_config 0x7000 sample_added) = pd_frames sample_table"
  using Remove_undoes_Add [OF sample_inv_Suc _ sample_Add]
  by (simp add: sample_added_def intern_new_def)
    (simp add: sample_table_def Initialize_def)

section \<open>Runs of calls\<close>

datatype call =
  Call_Add "u64 \<Rightarrow> fault + unwind_result" timeval u64 u64 MemType
| Call_Remove u64

fun run_call :: "Config \<Rightarrow> call \<Rightarrow> PointerData \<Rightarrow> fault + PointerData" where
  "run_call cfg (Call_Add unw tv p sz ty) pd = Add cfg unw tv p sz ty pd"
| "run_call cfg (Call_Remove p) pd = Inr (Remove cfg p pd)"

fun run_calls :: "Config \<Rightarrow> call list \<Rightarrow> PointerData \<Rightarrow> fault + PointerData" where
  "run_calls cfg [] pd = Inr pd"
| "run_calls cfg (c # cs) pd =
     (case run_call cfg c pd of Inl e \<Rightarrow> Inl e | Inr q \<Rightarrow> run_calls cfg cs q)"

text \<open>No \<open>Add\<close> of the run meets a pointer that is still tracked.\<close>

fun no_retrack :: "Config \<Rightarrow> call list \<Rightarrow> PointerData \<Rightarrow> bool" where
  "no_retrack cfg [] pd = True"
| "no_retrack cfg (c # cs) pd =
     ((case c of Call_Add unw tv p sz ty \<Rightarrow> map_of (pointers pd) (ManglePointer p) = None
       | Call_Remove p \<Rightarrow> True) \<and>
      (case run_call cfg c pd of Inl e \<Rightarrow> True | Inr q \<Rightarrow> no_retrack cfg cs q))"

lemma run_calls_append:
  "run_calls cfg (cs @ ds) pd =
     (case run_calls cfg cs pd of Inl e \<Rightarrow> Inl e | Inr q \<Rightarrow> run_calls cfg ds q)"
  by (induction cs arbitrary: pd) (auto split: sum.splits)

lemma run_calls_induct [consumes 1, case_names init call]:
  assumes "run_calls cfg cs pd = Inr q"
    and "P [] pd"
    and "\<And>cs c r s. run_calls cfg cs pd = Inr r \<Longrightarrow> run_call cfg c r = Inr s \<Longrightarrow> P cs r \<Longrightarrow> P (cs @ [c]) s"
  shows "P cs q"
  using assms(1)
proof (induction cs arbitrary: q rule: rev_induct)
  case Nil
  then show ?case using assms(2) by simp
next
  case (snoc c cs)
  then show ?case using assms(3) by (auto simp: run_calls_append split: sum.splits)
qed

text \<open>The bytes of the tracked pointers whose kind satisfies a predicate.\<close>

definition tracked_bytes :: "(MemType \<Rightarrow> bool) \<Rightarrow> PointerData \<Rightarrow> u64" where
  "tracked_bytes P pd =
     (\<Sum>e \<leftarrow> pointers pd. if P (mem_type (snd e)) then pi_size (snd e) else 0)"

definition accounted :: "PointerData \<Rightarrow> bool" where
  "accounted pd \<longleftrightarrow> distinct (map fst (pointers pd)) \<and>
     current_used pd = tracked_bytes (\<lambda>_. True) pd \<and>
     current_dma pd = tracked_bytes (\<lambda>ty. ty = DMA) pd \<and>
     current_host pd = tracked_bytes (\<lambda>ty. ty \<noteq> DMA) pd"

lemma sum_update:
  fixes f :: "'v \<Rightarrow> 'b::comm_monoid_add"
  assumes "distinct (map fst al)"
  shows "(\<Sum>e \<leftarrow> AList.update k v al. f (snd e)) + (case map_of al k of Some w \<Rightarrow> f w | None \<Rightarrow> 0) =
     (\<Sum>e \<leftarrow> al. f (snd e)) + f v"
  using assms
proof (induction al)
  case (Cons e al)
  have "map_of al k = None" if "fst e = k"
    using Cons.prems that by (auto simp: map_of_eq_None_iff)
  then show ?case
    using Cons by (cases e) (auto simp: ac_simps split: option.splits)
qed simp

lemma sum_delete:
  fixes f :: "'v \<Rightarrow> 'b::comm_monoid_add"
  assumes "distinct (map fst al)" "map_of al k = Some w"
  shows "(\<Sum>e \<leftarrow> al. f (snd e)) = (\<Sum>e \<leftarrow> AList.delete k al. f (snd e)) + f w"
  using assms
proof (induction al)
  case (Cons e al)
  show ?case
  proof (cases "fst e = k")
    case True
    then have "map_of al k = None" using Cons.prems by (auto simp: map_of_eq_None_iff)
    then show ?thesis using Cons.prems True by (cases e) (auto simp: ac_simps)
  next
    case False
    then have "(\<Sum>e \<leftarrow> al. f (snd e)) = (\<Sum>e \<leftarrow> AList.delete k al. f (snd e)) + f w"
      using Cons by (cases e) auto
    then show ?thesis using False by (cases e) (auto simp: ac_simps)
  qed
qed simp

lemma tracked_bytes_update:
  assumes "distinct (map fst (pointers pd))" "pointers r = AList.update k v (pointers pd)"
  shows "tracked_bytes P r + (case map_of (pointers pd) k of
       Some w \<Rightarrow> if P (mem_type w) then pi_size w else 0 | None \<Rightarrow> 0) =
     tracked_bytes P pd + (if P (mem_type v) then pi_size v else 0)"
  unfolding tracked_bytes_def assms(2)
  by (rule sum_update [OF assms(1), of "\<lambda>w. if P (mem_type w) then pi_size w else 0"])

lemma tracked_bytes_delete:
  assumes "distinct (map fst (pointers pd))" "map_of (pointers pd) k = Some w"
    "pointers r = AList.delete k (pointers pd)"
  shows "tracked_bytes P r = tracked_bytes P pd - (if P (mem_type w) then pi_size w else 0)"
  using sum_delete [OF assms(1,2), of "\<lambda>w. if P (mem_type w) then pi_size w else 0"]
  by (simp add: tracked_bytes_def assms(3) eq_diff_eq)


lemma AddBacktrace_frame:
  assumes "AddBacktrace cfg unw n sz pd = Inr (h, q)"
  shows "pointers q = pointers pd" "current_used q = current_used pd"
    "current_host q = current_host pd" "current_dma q = current_dma pd" "peak_tot q = peak_tot pd"
    "peak_host q = peak_host pd" "peak_dma q = peak_dma pd" "peak_list q = peak_list pd"
  using assms
  by (auto simp: AddBacktrace_def Let_def split: if_splits sum.splits prod.splits option.splits)

lemma Add_either:
  assumes "Add cfg unw tv p sz ty pd = Inr pd'"
  obtains (skip) q where "AddBacktrace cfg unw (backtrace_frames cfg) sz pd = Inr (kBacktraceExitIndex, q)"
      "pd' = q"
  | (enter) h q where "AddBacktrace cfg unw (backtrace_frames cfg) sz pd = Inr (h, q)"
      "h \<noteq> kBacktraceExitIndex" "AddPointer cfg tv p sz ty h q = Inr pd'"
  using assms by (auto simp: Add_def split: sum.splits if_splits)

lemma Remove_either:
  obtains (none) "map_of (pointers pd) (ManglePointer p) = None" "Remove cfg p pd = pd"
  | (some) i q where "map_of (pointers pd) (ManglePointer p) = Some i"
      "RemovePointer p pd = (Some (hash_index i), q)" "Remove cfg p pd = RemoveBacktrace cfg (hash_index i) q"
proof (cases "map_of (pointers pd) (ManglePointer p)")
  case None
  then show thesis using none by (simp add: Remove_def RemovePointer_def)
next
  case (Some i)
  then obtain q where "RemovePointer p pd = (Some (hash_index i), q)"
    by (simp add: RemovePointer_def Let_def)
  with Some show thesis using some by (simp add: Remove_def)
qed

lemma RemoveBacktrace_peaks [simp]:
  "peak_tot (RemoveBacktrace cfg h pd) = peak_tot pd"
  "peak_host (RemoveBacktrace cfg h pd) = peak_host pd"
  "peak_dma (RemoveBacktrace cfg h pd) = peak_dma pd"
  "peak_list (RemoveBacktrace cfg h pd) = peak_list pd"
  by (cases rule: RemoveBacktrace_cases [of h pd cfg]; simp)+

lemma accounted_cong:
  "accounted pd \<Longrightarrow> pointers q = pointers pd \<Longrightarrow> current_used q = current_used pd \<Longrightarrow>
     current_host q = current_host pd \<Longrightarrow> current_dma q = current_dma pd \<Longrightarrow> accounted q"
  by (simp add: accounted_def tracked_bytes_def)

lemma accounted_Add:
  assumes "accounted pd" "map_of (pointers pd) (ManglePointer p) = None"
    "Add cfg unw tv p sz ty pd = Inr pd'"
  shows "accounted pd'"
  using assms(3)
proof (cases rule: Add_either)
  case (skip q)
  then show ?thesis using AddBacktrace_frame [OF skip(1)] assms(1) accounted_cong by metis
next
  case (enter h q)
  note fr = AddBacktrace_frame [OF enter(1)] and eff = AddPointer_effect [OF enter(3)]
  have d: "distinct (map fst (pointers pd))" using assms(1) by (simp add: accounted_def)
  note b = tracked_bytes_update [OF d eff(2) [unfolded fr(1)], unfolded assms(2), simplified]
  show ?thesis
    using assms(1) d eff(2-5) fr by (auto simp: accounted_def b distinct_update)
qed

lemma accounted_Remove:
  assumes "accounted pd"
  shows "accounted (Remove cfg p pd)"
proof (cases rule: Remove_either [of pd p cfg])
  case (some i q)
  from some(2) obtain i' where "map_of (pointers pd) (ManglePointer p) = Some i'"
    and pt: "pointers q = AList.delete (ManglePointer p) (pointers pd)"
    and u: "current_used q = current_used pd - pi_size i'"
      "current_dma q = (if mem_type i' = DMA then current_dma pd - pi_size i' else current_dma pd)"
      "current_host q = (if mem_type i' = DMA then current_host pd else current_host pd - pi_size i')"
    by (rule RemovePointer_effect)
  then have i: "i' = i" using some(1) by simp
  have d: "distinct (map fst (pointers pd))" using assms by (simp add: accounted_def)
  note b = tracked_bytes_delete [OF d some(1) pt]
  have "accounted q" using assms d u by (auto simp: accounted_def b i pt distinct_delete)
  then show ?thesis by (rule accounted_cong) (simp_all add: some(3))
qed (use assms in simp)

lemma accounted_Initialize: "accounted (Initialize pd)"
  by (simp add: accounted_def tracked_bytes_def Initialize_def)

text \<open>
  Property C5. After any run of calls from the initialised table in which no \<open>Add\<close> meets a
  pointer that is still tracked, the three running totals are the sums over the tracked
  pointers (modulo \<open>2^64\<close>): all of them, the DMA ones, and the others.
\<close>

theorem totals_are_sums:
  assumes "run_calls cfg cs (Initialize pd0) = Inr pd" "no_retrack cfg cs (Initialize pd0)"
  shows "current_used pd = tracked_bytes (\<lambda>_. True) pd \<and>
     current_dma pd = tracked_bytes (\<lambda>ty. ty = DMA) pd \<and>
     current_host pd = tracked_bytes (\<lambda>ty. ty \<noteq> DMA) pd"
proof -
  have "accounted pd" if "run_calls cfg cs q = Inr pd" "no_retrack cfg cs q" "accounted q" for q
    using that
  proof (induction cs arbitrary: q)
    case (Cons c cs)
    then obtain r where r: "run_call cfg c q = Inr r" "run_calls cfg cs r = Inr pd"
      "no_retrack cfg cs r" by (auto split: sum.splits)
    have "accounted r"
      using r(1) Cons.prems(2,3) accounted_Add accounted_Remove by (cases c) auto
    with Cons.IH r show ?case by blast
  qed simp
  from this [OF assms accounted_Initialize] show ?thesis by (simp add: accounted_def)
qed

lemma sample_calls:
  "run_calls sample_config [Call_Add sample_unwind sample_time 0x7000 16 HOST] (Initialize sample_blank) =
     Inr sample_added"
  "no_retrack sample_config [Call_Add sample_unwind sample_time 0x7000 16 HOST] (Initialize sample_blank)"
  using sample_Add by (simp_all flip: sample_table_def) (simp add: sample_table_def Initialize_def)

lemma totals_are_sums_witness:
  "current_used sample_added = tracked_bytes (\<lambda>_. True) sample_added \<and> current_used sample_added = 16"
  using totals_are_sums [OF sample_calls] by (simp add: sample_added_def)

text \<open>
  An \<open>Add\<close> of a pointer that is still tracked overwrites its entry without taking
  the old size back: afterwards the overall total exceeds the sum over the table by the old
  size, on top of any excess it had.
\<close>

theorem retracking_leaks_total:
  assumes "Add cfg unw tv p sz ty pd = Inr pd'" "distinct (map fst (pointers pd))"
    and "map_of (pointers pd) (ManglePointer p) = Some i"
    and "unw (backtrace_frames cfg) = Inr (code, fs, info)" "code \<noteq> ERROR_EXIT_FUNC"
    and "interned cfg pd"
  shows "current_used pd' - tracked_bytes (\<lambda>_. True) pd' =
     current_used pd - tracked_bytes (\<lambda>_. True) pd + pi_size i"
  using assms(1)
proof (cases rule: Add_either)
  case (skip q)
  have "key_to_index pd k \<noteq> Some 0" for k
    using assms(6) unfolding interned_def by fastforce
  moreover have "cur_hash_index pd \<noteq> 0" using assms(6) by (auto simp: interned_def)
  ultimately show ?thesis
    using skip(1) assms(4,5)
    by (auto simp: AddBacktrace_def hash_consts Let_def
        split: if_splits sum.splits option.splits)
next
  case (enter h q)
  note fr = AddBacktrace_frame [OF enter(1)] and eff = AddPointer_effect [OF enter(3)]
  have "tracked_bytes (\<lambda>_. True) pd' = tracked_bytes (\<lambda>_. True) pd + sz - pi_size i"
    using tracked_bytes_update [OF assms(2) eff(2) [unfolded fr(1)], of "\<lambda>_. True"] assms(3)
    by (simp add: eq_diff_eq)
  then show ?thesis by (simp add: eff fr)
qed


lemma sample_interned: "interned sample_config sample_added"
  using Add_inv [OF sample_inv_Suc sample_Add] by (simp add: table_inv_def)

lemma sample_retrack:
  "\<exists>pd'. Add sample_config sample_unwind sample_time 0x7000 16 HOST sample_added = Inr pd'"
proof -
  have "\<exists>q. AddBacktrace sample_config sample_unwind (backtrace_frames sample_config) 16 sample_added =
      Inr (2, q)"
    by (simp add: AddBacktrace_def ShouldBacktraceAllocSize_def has_option_def sample_defs
        hash_FrameKeyType_def Initialize_def intern_new_def sample_added_def Let_def)
  then obtain q where q: "AddBacktrace sample_config sample_unwind (backtrace_frames sample_config) 16
      sample_added = Inr (2, q)" ..
  have "table_inv sample_config (\<lambda>_. 0) (Suc (Suc 0)) sample_table"
    using sample_inv [of sample_config] room_mono [of "2 ^ 64 - 3" sample_table "Suc (Suc 0)"]
    by (simp add: table_inv_def)
  from Add_inv [OF this sample_Add]
  have "table_inv sample_config (\<lambda>_. 0) (Suc 0) sample_added" .
  from AddPointer_ok [OF AddBacktrace_inv(1) [OF this q]] show ?thesis
    using q by (simp add: Add_def hash_consts)
qed

lemma retracking_leaks_total_witness:
  "\<exists>pd'. Add sample_config sample_unwind sample_time 0x7000 16 HOST sample_added = Inr pd' \<and>
     current_used pd' - tracked_bytes (\<lambda>_. True) pd' = 16"
proof -
  obtain pd' where a: "Add sample_config sample_unwind sample_time 0x7000 16 HOST sample_added = Inr pd'"
    using sample_retrack by blast
  have m: "map_of (pointers sample_added) (ManglePointer 0x7000) =
      Some \<lparr>pi_size = 16, hash_index = 2, mem_type = HOST, alloc_time = sample_time\<rparr>"
    and d: "distinct (map fst (pointers sample_added))"
    and u: "sample_unwind (backtrace_frames sample_config) = Inr (ERROR_NONE, sample_frames, [])"
    by (simp_all add: sample_added_def sample_unwind_def)
  from retracking_leaks_total [OF a d m u _ sample_interned] a show ?thesis
    by (simp add: sample_added_def tracked_bytes_def)
qed

section \<open>When Add faults\<close>

lemma Add_fault_cases:
  assumes "table_inv cfg extra (Suc n) pd"
  shows "Add cfg unw tv p sz ty pd = Inl e \<longleftrightarrow>
     ShouldBacktraceAllocSize cfg sz \<and> has_option cfg BACKTRACE \<and>
     (unw (backtrace_frames cfg) = Inl e \<or>
      e = Empty_key \<and> (\<exists>code info. unw (backtrace_frames cfg) = Inr (code, [], info) \<and>
         (code = ERROR_NONE \<or> code = ERROR_MAX_FRAMES_EXCEEDED)))"
proof -
  have "Add cfg unw tv p sz ty pd = Inl e \<longleftrightarrow>
      AddBacktrace cfg unw (backtrace_frames cfg) sz pd = Inl e"
  proof (cases "AddBacktrace cfg unw (backtrace_frames cfg) sz pd")
    case (Inr hq)
    obtain h q where hq: "hq = (h, q)" by (cases hq)
    from AddPointer_ok [OF AddBacktrace_inv(1) [OF assms Inr [unfolded hq]]] obtain r
      where "AddPointer cfg tv p sz ty h q = Inr r" by blast
    then show ?thesis by (simp add: Add_def Inr hq)
  qed (simp add: Add_def)
  also have "\<dots> \<longleftrightarrow> ShouldBacktraceAllocSize cfg sz \<and> has_option cfg BACKTRACE \<and>
     (unw (backtrace_frames cfg) = Inl e \<or>
      e = Empty_key \<and> (\<exists>code info. unw (backtrace_frames cfg) = Inr (code, [], info) \<and>
         (code = ERROR_NONE \<or> code = ERROR_MAX_FRAMES_EXCEEDED)))"
    by (auto simp: AddBacktrace_def Let_def hash_FrameKeyType_def
        split: sum.splits prod.splits option.splits list.splits if_splits)
  finally show ?thesis .
qed

text \<open>
  Property C7. With the table's invariant, \<open>Add\<close> runs into undefined behaviour exactly when it
  unwinds and the unwinder itself faults, or delivers a successful code with no frames (whose
  hash reads the first frame); in no other state and for no other argument.
\<close>

theorem Add_faults_iff:
  assumes "table_inv cfg extra (Suc n) pd"
  shows "Add cfg unw tv p sz ty pd = Inl e \<longleftrightarrow>
     ShouldBacktraceAllocSize cfg sz \<and> has_option cfg BACKTRACE \<and>
     (unw (backtrace_frames cfg) = Inl e \<or>
      e = Empty_key \<and> (\<exists>code info. unw (backtrace_frames cfg) = Inr (code, [], info) \<and>
         (code = ERROR_NONE \<or> code = ERROR_MAX_FRAMES_EXCEEDED)))"
  by (rule Add_fault_cases [OF assms])

lemma Add_faults_iff_witness:
  "Add sample_config (\<lambda>_. Inr (ERROR_NONE, [], [])) sample_time 0x7000 16 HOST sample_table = Inl Empty_key"
  using Add_faults_iff [OF sample_inv_Suc, where unw = "\<lambda>_. Inr (ERROR_NONE, [], [])" and
      sz = 16 and e = Empty_key and cfg = sample_config]
  by (simp add: ShouldBacktraceAllocSize_def has_option_def sample_defs)

section \<open>Peaks\<close>

text \<open>The call enters a pointer whose kind satisfies a predicate.\<close>

fun enters :: "Config \<Rightarrow> (MemType \<Rightarrow> bool) \<Rightarrow> call \<Rightarrow> PointerData \<Rightarrow> bool" where
  "enters cfg P (Call_Add unw tv p sz ty) pd =
     (P ty \<and> (case AddBacktrace cfg unw (backtrace_frames cfg) sz pd of
                Inl e \<Rightarrow> False | Inr (h, q) \<Rightarrow> h \<noteq> kBacktraceExitIndex))"
| "enters cfg P (Call_Remove p) pd = False"

text \<open>The values a total takes right after the calls that enter such a pointer.\<close>

fun totals_after ::
  "Config \<Rightarrow> (MemType \<Rightarrow> bool) \<Rightarrow> (PointerData \<Rightarrow> u64) \<Rightarrow> call list \<Rightarrow> PointerData \<Rightarrow> u64 list" where
  "totals_after cfg P f [] pd = []"
| "totals_after cfg P f (c # cs) pd =
     (case run_call cfg c pd of
        Inl e \<Rightarrow> []
      | Inr q \<Rightarrow> (if enters cfg P c pd then [f q] else []) @ totals_after cfg P f cs q)"

lemma run_call_peaks:
  assumes "run_call cfg c pd = Inr q"
  shows "peak_tot q = (if enters cfg (\<lambda>_. True) c pd then max (peak_tot pd) (current_used q) else peak_tot pd)"
    "peak_dma q = (if enters cfg (\<lambda>ty. ty = DMA) c pd then max (peak_dma pd) (current_dma q) else peak_dma pd)"
    "peak_host q = (if enters cfg (\<lambda>ty. ty \<noteq> DMA) c pd then max (peak_host pd) (current_host q) else peak_host pd)"
proof -
  have "peak_tot q = (if enters cfg (\<lambda>_. True) c pd then max (peak_tot pd) (current_used q) else peak_tot pd) \<and>
    peak_dma q = (if enters cfg (\<lambda>ty. ty = DMA) c pd then max (peak_dma pd) (current_dma q) else peak_dma pd) \<and>
    peak_host q = (if enters cfg (\<lambda>ty. ty \<noteq> DMA) c pd then max (peak_host pd) (current_host q) else peak_host pd)"
  proof (cases c)
    case (Call_Add unw tv p sz ty)
    with assms have "Add cfg unw tv p sz ty pd = Inr q" by simp
    then show ?thesis
    proof (cases rule: Add_either)
      case (skip r)
      then show ?thesis using AddBacktrace_frame [OF skip(1)] by (simp add: Call_Add)
    next
      case (enter h r)
      then show ?thesis
        using AddBacktrace_frame [OF enter(1)] AddPointer_effect(6-8) [OF enter(3)]
        by (simp add: Call_Add)
    qed
  next
    case (Call_Remove p)
    then show ?thesis
      using assms by (cases rule: Remove_either [of pd p cfg]) (auto elim: RemovePointer_effect)
  qed
  then show "peak_tot q = (if enters cfg (\<lambda>_. True) c pd then max (peak_tot pd) (current_used q) else peak_tot pd)"
    "peak_dma q = (if enters cfg (\<lambda>ty. ty = DMA) c pd then max (peak_dma pd) (current_dma q) else peak_dma pd)"
    "peak_host q = (if enters cfg (\<lambda>ty. ty \<noteq> DMA) c pd then max (peak_host pd) (current_host q) else peak_host pd)"
    by blast+
qed

lemma running_max:
  fixes peak f :: "PointerData \<Rightarrow> u64"
  assumes step: "\<And>c pd q. run_call cfg c pd = Inr q \<Longrightarrow>
      peak q = (if enters cfg P c pd then max (peak pd) (f q) else peak pd)"
    and "run_calls cfg cs pd = Inr q"
  shows "peak q = Max (insert (peak pd) (set (totals_after cfg P f cs pd)))"
  using assms(2)
proof (induction cs arbitrary: pd)
  case (Cons c cs)
  then obtain r where r: "run_call cfg c pd = Inr r" "run_calls cfg cs r = Inr q"
    by (auto split: sum.splits)
  let ?A = "set (totals_after cfg P f cs r)"
  have ins: "Max (insert (max a b) ?A) = Max (insert a (insert b ?A))" for a b
    by (cases "?A = {}") (simp_all add: max.assoc)
  show ?case using Cons.IH [OF r(2)] step [OF r(1)] r(1) ins by simp
qed simp

text \<open>
  Property C8. Along any run of calls from the initialised table the recorded peaks are the
  maxima of the running totals right after the calls that entered a pointer: of the overall
  total over all kinds, of the DMA total over DMA entries, of the host total over the others.
\<close>

theorem peaks_are_running_maxima:
  assumes "run_calls cfg cs (Initialize pd0) = Inr pd"
  shows "peak_tot pd = Max (insert 0 (set (totals_after cfg (\<lambda>_. True) current_used cs (Initialize pd0)))) \<and>
     peak_dma pd = Max (insert 0 (set (totals_after cfg (\<lambda>ty. ty = DMA) current_dma cs (Initialize pd0)))) \<and>
     peak_host pd = Max (insert 0 (set (totals_after cfg (\<lambda>ty. ty \<noteq> DMA) current_host cs (Initialize pd0))))"
  using running_max [OF run_call_peaks(1) assms] running_max [OF run_call_peaks(2) assms]
    running_max [OF run_call_peaks(3) assms]
  by (simp add: Initialize_def)

lemma peaks_are_running_maxima_witness:
  "peak_tot sample_added = Max (insert 0 (set (totals_after sample_config (\<lambda>_. True) current_used
     [Call_Add sample_unwind sample_time 0x7000 16 HOST] (Initialize sample_blank)))) \<and>
   peak_tot sample_added = 16"
  using peaks_are_running_maxima [OF sample_calls(1)] by (simp add: sample_added_def)

end
