(* ===== verification/PointerReports.thy ===== *)
theory PointerReports
  imports PointerProps "HOL-Library.Product_Lexorder"
begin

text \<open>
  What the listing functions of \<open>PointerData\<close> deliver: the sorted lists do not depend on the
  iteration order of the hash map, merging duplicates keeps every byte and every allocation in
  the counts, and a dump lists every tracked allocation that has a backtrace, oldest first.
\<close>

section \<open>Sorting\<close>

lemma insort_by_key:
  assumes "\<And>a b. lt a b \<longleftrightarrow> (key a :: 'k::linorder) < key b"
  shows "insort_by lt x xs = insort_key key x xs"
  by (induction xs) (auto simp: assms not_less not_le)

lemma sort_by_key:
  assumes "\<And>a b. lt a b \<longleftrightarrow> (key a :: 'k::linorder) < key b"
  shows "sort_by lt xs = sort_key key xs"
proof -
  have "insort_by lt = insort_key key" by (intro ext) (rule insort_by_key [OF assms])
  then show ?thesis by (simp add: sort_by_def sort_key_def)
qed

definition time_key :: "ListInfoType \<Rightarrow> int" where
  "time_key l = tv_sec (li_alloc_time l) * 1000000 + tv_usec (li_alloc_time l)"

lemma timeval_less_key: "timeval_less (li_alloc_time a) (li_alloc_time b) \<longleftrightarrow> time_key a < time_key b"
  by (simp add: timeval_less_def time_key_def Let_def)

text \<open>The comparator of \<open>GetUniqueList\<close> compares these keys.\<close>

definition unique_key :: "PointerData \<Rightarrow> ListInfoType \<Rightarrow> int \<times> bool \<times> int \<times> u64" where
  "unique_key pd l = (- uint (li_size l), frame_info l = None,
     (case frame_info l of None \<Rightarrow> 0 | Some h \<Rightarrow> - int (frame_count pd h)), li_pointer l)"

lemma unique_less_key: "unique_less pd a b \<longleftrightarrow> unique_key pd a < unique_key pd b"
proof -
  have "li_size a = li_size b \<longleftrightarrow> uint (li_size a) = uint (li_size b)"
    by (rule word_uint_eq_iff)
  then show ?thesis
    by (cases "frame_info a"; cases "frame_info b")
      (auto simp: unique_less_def unique_key_def word_less_def)
qed

lemma GetUniqueList_sort:
  "GetUniqueList pd acc only =
     (case collect_entries pd only (pointers pd) acc of
        Inl e \<Rightarrow> Inl e | Inr l \<Rightarrow> Inr (remove_duplicates (sort_key (unique_key pd) l)))"
  by (auto simp: GetUniqueList_def GetList_def sort_by_key [OF unique_less_key] split: sum.splits)

section \<open>What is collected\<close>

definition backtraced :: "PointerData \<Rightarrow> (u64 \<times> PointerInfoType) list" where
  "backtraced pd = filter (\<lambda>e. 1 < hash_index (snd e)) (pointers pd)"

text \<open>The entry of a pointer whose backtrace is in the tables.\<close>

definition listed :: "PointerData \<Rightarrow> u64 \<times> PointerInfoType \<Rightarrow> ListInfoType" where
  "listed pd e = \<lparr>li_pointer = DemanglePointer (fst e), num_allocations = 1,
     li_size = RealSize (snd e), li_mem_type = mem_type (snd e),
     frame_info = Some (hash_index (snd e)),
     backtrace_info = the (backtraces_info pd (hash_index (snd e))),
     li_alloc_time = alloc_time (snd e)\<rparr>"

lemma list_entry_listed: "list_entry pd e = Inr l \<Longrightarrow> l = listed pd e"
  by (auto simp: list_entry_def listed_def Let_def split: option.splits)

lemma collect_listed:
  assumes "interned cfg pd" "supports pd extra"
  shows "collect_entries pd True (pointers pd) acc = Inr (acc @ map (listed pd) (backtraced pd))"
proof -
  obtain ls where c: "collect_entries pd True (pointers pd) acc = Inr (acc @ ls)"
    and m: "map Inr ls = map (list_entry pd) (backtraced pd)"
    using collect_ok [OF assms] by (auto simp: backtraced_def)
  have "ls = map (listed pd) (backtraced pd)"
  proof (rule nth_equalityI)
    show len: "length ls = length (map (listed pd) (backtraced pd))"
      using arg_cong [OF m, of length] by simp
    show "ls ! i = map (listed pd) (backtraced pd) ! i" if "i < length ls" for i
      using arg_cong [OF m, of "\<lambda>l. l ! i"] that len
      by (auto dest: list_entry_listed [OF sym])
  qed
  with c show ?thesis by simp
qed

lemma listed_inj:
  "distinct (map fst (pointers pd)) \<Longrightarrow> inj_on (unique_key pd) (set (map (listed pd) (backtraced pd)))"
proof (rule inj_onI)
  fix x y
  assume d: "distinct (map fst (pointers pd))"
    and x: "x \<in> set (map (listed pd) (backtraced pd))" and y: "y \<in> set (map (listed pd) (backtraced pd))"
    and k: "unique_key pd x = unique_key pd y"
  from x y obtain e e' where e: "x = listed pd e" "e \<in> set (pointers pd)"
    "y = listed pd e'" "e' \<in> set (pointers pd)" by (auto simp: backtraced_def)
  with k have "DemanglePointer (fst e) = DemanglePointer (fst e')"
    by (simp add: unique_key_def listed_def)
  then have "ManglePointer (DemanglePointer (fst e)) = ManglePointer (DemanglePointer (fst e'))" by simp
  then have "fst e = fst e'" by (simp add: ManglePointer_def DemanglePointer_def xor.assoc)
  with d e(2,4) have "e = e'"
    by (metis eq_key_imp_eq_value prod.collapse)
  then show "x = y" by (simp add: e)
qed




section \<open>Merging duplicates\<close>

definition bytes_listed :: "ListInfoType list \<Rightarrow> u64" where
  "bytes_listed ls = (\<Sum>l \<leftarrow> ls. li_size l * num_allocations l)"

definition allocations_listed :: "ListInfoType list \<Rightarrow> u64" where
  "allocations_listed ls = (\<Sum>l \<leftarrow> ls. num_allocations l)"

lemma sum_usage_bytes:
  "sum_usage ls h d = (h', d') \<Longrightarrow> h' + d' = h + d + bytes_listed ls"
  by (induction ls arbitrary: h d)
    (auto simp: bytes_listed_def Let_def algebra_simps split: if_splits)

lemma same_group_simps [simp]:
  "same_group (x\<lparr>num_allocations := n\<rparr>) y = same_group x y"
  "same_group x (y\<lparr>num_allocations := n\<rparr>) = same_group x y"
  by (simp_all add: same_group_def)

lemma same_group_eq: "same_group x y \<longleftrightarrow> li_size x = li_size y \<and> frame_info x = frame_info y"
  by (auto simp: same_group_def)

lemma sums_of_group:
  assumes "\<forall>l \<in> set ds. num_allocations l = 1 \<and> same_group x l"
  shows "bytes_listed ds = li_size x * of_nat (length ds)" "allocations_listed ds = of_nat (length ds)"
  using assms
  by (induction ds) (auto simp: bytes_listed_def allocations_listed_def same_group_eq algebra_simps)

lemma sums_append:
  "bytes_listed (xs @ ys) = bytes_listed xs + bytes_listed ys"
  "allocations_listed (xs @ ys) = allocations_listed xs + allocations_listed ys"
  by (simp_all add: bytes_listed_def allocations_listed_def)

lemma remove_duplicates_facts:
  assumes "\<forall>l \<in> set ls. num_allocations l = 1"
  shows "bytes_listed (remove_duplicates ls) = bytes_listed ls \<and>
     allocations_listed (remove_duplicates ls) = allocations_listed ls \<and>
     successively (\<lambda>a b. \<not> same_group a b) (remove_duplicates ls) \<and>
     (\<forall>r \<in> set (remove_duplicates ls). \<exists>l \<in> set ls. \<exists>n. r = l\<lparr>num_allocations := n\<rparr>)"
  using assms
proof (induction ls rule: remove_duplicates.induct)
  case (2 x xs)
  let ?ds = "takeWhile (same_group x) xs" and ?rest = "dropWhile (same_group x) xs"
  have one: "\<forall>l \<in> set ?rest. num_allocations l = 1" "\<forall>l \<in> set ?ds. num_allocations l = 1 \<and> same_group x l"
    using 2(2) by (auto dest: set_dropWhileD set_takeWhileD)
  note IH = 2(1) [OF refl one(1)] and grp = sums_of_group [OF one(2)]
  have split: "xs = ?ds @ ?rest" by simp
  have b: "bytes_listed xs = li_size x * of_nat (length ?ds) + bytes_listed ?rest"
    "allocations_listed xs = of_nat (length ?ds) + allocations_listed ?rest"
    by (subst split, simp only: sums_append grp)+
  have hd: "\<not> same_group x r" if "remove_duplicates ?rest = r # rs" for r rs
  proof (cases ?rest)
    case (Cons y ys)
    then have "\<not> same_group x y" by (simp add: dropWhile_eq_Cons_conv)
    then show ?thesis using that Cons by (auto simp: Let_def)
  next
    case Nil
    then show ?thesis using that by (metis remove_duplicates.simps(1) list.distinct(1))
  qed
  have "successively (\<lambda>a b. \<not> same_group a b) (remove_duplicates (x # xs))"
    using IH hd by (cases "remove_duplicates ?rest") (auto simp: Let_def)
  moreover have "\<forall>r \<in> set (remove_duplicates (x # xs)).
      \<exists>l \<in> set (x # xs). \<exists>n. r = l\<lparr>num_allocations := n\<rparr>"
    using IH by (auto simp: Let_def dest!: set_dropWhileD)
  ultimately show ?case
    using IH 2(2) b
    by (auto simp: Let_def bytes_listed_def allocations_listed_def algebra_simps)
qed (simp add: bytes_listed_def allocations_listed_def)


lemma remove_duplicates_sums:
  "\<forall>l \<in> set ls. num_allocations l = 1 \<Longrightarrow> bytes_listed (remove_duplicates ls) = bytes_listed ls"
  "\<forall>l \<in> set ls. num_allocations l = 1 \<Longrightarrow>
     allocations_listed (remove_duplicates ls) = allocations_listed ls"
  by (simp_all add: remove_duplicates_facts)

text \<open>
  Merging the runs of equal entries of a list of single allocations keeps the
  total of the bytes and the number of allocations, leaves no two neighbours with the same size
  and backtrace, and invents no entry: each remaining one is a listed entry with its count
  raised.
\<close>

theorem remove_duplicates_merges:
  assumes "\<forall>l \<in> set ls. num_allocations l = 1"
  shows "bytes_listed (remove_duplicates ls) = bytes_listed ls \<and>
     allocations_listed (remove_duplicates ls) = allocations_listed ls \<and>
     successively (\<lambda>a b. \<not> same_group a b) (remove_duplicates ls) \<and>
     (\<forall>r \<in> set (remove_duplicates ls). \<exists>l \<in> set ls. \<exists>n. r = l\<lparr>num_allocations := n\<rparr>)"
  using assms by (rule remove_duplicates_facts)

lemma remove_duplicates_merges_witness:
  "let e = listed sample_added (hd (pointers sample_added)) in
     bytes_listed (remove_duplicates [e, e]) = 32 \<and> length (remove_duplicates [e, e]) = 1"
  using remove_duplicates_merges [of "let e = listed sample_added (hd (pointers sample_added)) in [e, e]"]
  by (simp add: listed_def bytes_listed_def sample_added_def RealSize_def Let_def same_group_def)

text \<open>Three entries of one size whose backtraces are equally long: the first and third are
  duplicates, and stay apart.\<close>

theorem duplicates_can_survive:
  "\<exists>pd a b c. GetUniqueList pd [] True = Inr [a, b, c] \<and> same_group a c \<and> \<not> same_group a b"
proof -
  let ?i = "\<lambda>h. \<lparr>pi_size = 8, hash_index = h, mem_type = HOST, alloc_time = sample_time\<rparr>"
  let ?pd = "sample_table\<lparr>pointers := [(ManglePointer 1, ?i 2), (ManglePointer 2, ?i 3), (ManglePointer 3, ?i 2)],
    pd_frames := [2 \<mapsto> \<lparr>references = 2, frames = [5]\<rparr>, 3 \<mapsto> \<lparr>references = 1, frames = [6]\<rparr>],
    backtraces_info := [2 \<mapsto> [], 3 \<mapsto> []]\<rparr>"
  have "GetUniqueList ?pd [] True = Inr (map (listed ?pd) (pointers ?pd))"
    by (simp add: GetUniqueList_def GetList_def hash_consts list_entry_def sort_by_def unique_less_def
        frame_count_def listed_def same_group_def RealSize_def word_le_nat_alt)
  then show ?thesis by (force simp: listed_def same_group_def)
qed

section \<open>Dumps\<close>

lemma listed_num [simp]: "num_allocations (listed pd e) = 1" by (simp add: listed_def)

lemma GetList_time:
  assumes "interned cfg pd" "supports pd extra"
  shows "GetList pd [] True (\<lambda>a b. timeval_less (li_alloc_time a) (li_alloc_time b)) =
     Inr (sort_key time_key (map (listed pd) (backtraced pd)))"
  using collect_listed [OF assms, of "[]"]
  by (simp add: GetList_def sort_by_key [of _ time_key, OF timeval_less_key])

lemma sum_usage_split:
  "sum_usage ls h d =
     (h + (\<Sum>l \<leftarrow> ls. if li_mem_type l = DMA then 0 else li_size l * num_allocations l),
      d + (\<Sum>l \<leftarrow> ls. if li_mem_type l = DMA then li_size l * num_allocations l else 0))"
  by (induction ls arbitrary: h d) (auto simp: Let_def algebra_simps)

lemma sum_list_image_mset: "(\<Sum>l \<leftarrow> ls. f l) = \<Sum>\<^sub># (image_mset f (mset ls))"
  by (simp add: sum_mset_sum_list flip: mset_map)




text \<open>
  In peak mode a dump reports exactly the snapshot of the last recorded peak and
  uses it up: a second dump with no new peak in between reports nothing.
\<close>

theorem peak_dump_consumes:
  assumes "has_option cfg RECORD_MEMORY_PEAK"
  shows "\<exists>d. DumpLiveToFile cfg demangle pd = Inr (d, pd\<lparr>peak_list := []\<rparr>) \<and>
     du_entries d = map (dump_entry demangle) (peak_list pd) \<and>
     du_host d + du_dma d = bytes_listed (peak_list pd) \<and>
     DumpLiveToFile cfg demangle (pd\<lparr>peak_list := []\<rparr>) =
       Inr (\<lparr>du_peak = True, du_host = 0, du_dma = 0, du_entries = []\<rparr>, pd\<lparr>peak_list := []\<rparr>)"
proof -
  obtain h d where u: "sum_usage (peak_list pd) 0 0 = (h, d)" by fastforce
  from sum_usage_bytes [OF u] have "h + d = bytes_listed (peak_list pd)" by simp
  then show ?thesis using assms by (simp add: DumpLiveToFile_def Let_def u)
qed

lemma peak_dump_consumes_witness:
  "\<exists>d. DumpLiveToFile (sample_config\<lparr>options := RECORD_MEMORY_PEAK\<rparr>) (\<lambda>_. None)
     (sample_added\<lparr>peak_list := [listed sample_added (hd (pointers sample_added))]\<rparr>) = Inr d \<and>
     length (du_entries (fst d)) = 1"
proof -
  have "has_option (sample_config\<lparr>options := RECORD_MEMORY_PEAK\<rparr>) RECORD_MEMORY_PEAK"
    by (simp add: has_option_def option_bits)
  from peak_dump_consumes [OF this, of "\<lambda>_. None"
      "sample_added\<lparr>peak_list := [listed sample_added (hd (pointers sample_added))]\<rparr>"]
  show ?thesis by auto
qed

text \<open>
  A new overall peak above the threshold, in peak mode, replaces the snapshot by
  the merged list of the table as it is then, and that snapshot accounts for the bytes of every
  tracked allocation with a backtrace.
\<close>

theorem peak_snapshot_accounts:
  assumes "table_inv cfg (bump h extra) n pd"
    and "AddPointer cfg tv p sz ty h pd = Inr pd'"
    and "has_option cfg RECORD_MEMORY_PEAK"
    and "peak_tot pd < current_used pd'" "backtrace_dump_peak_val cfg < current_used pd'"
  shows "bytes_listed (peak_list pd') = (\<Sum>e \<leftarrow> backtraced pd'. RealSize (snd e)) \<and>
     allocations_listed (peak_list pd') = of_nat (length (backtraced pd'))"
proof -
  define t where "t = track_pointer tv p sz ty h pd"
  let ?t' = "t\<lparr>peak_tot := current_used t\<rparr>"
  have cu: "current_used t = current_used pd'" "peak_tot t = peak_tot pd"
    using AddPointer_effect(3) [OF assms(2)] by (simp_all add: t_def track_pointer_effect)
  have "AddPointer cfg tv p sz ty h pd = (case GetUniqueList ?t' [] True of
      Inl e \<Rightarrow> Inl e | Inr l \<Rightarrow> Inr (?t'\<lparr>peak_list := l\<rparr>))"
    unfolding AddPointer_def Let_def t_def [symmetric] using assms(3-5) cu by simp
  then obtain l where l: "GetUniqueList ?t' [] True = Inr l" "pd' = ?t'\<lparr>peak_list := l\<rparr>"
    using assms(2) by (cases "GetUniqueList ?t' [] True") simp_all
  have inv: "table_inv cfg extra n pd'" by (rule AddPointer_inv [OF assms(1,2)])
  then have i: "interned cfg ?t'" and s: "supports ?t' extra"
    by (simp_all add: l(2) table_inv_def interned_def supports_def count_ptrs_def refs_def)
  have b: "backtraced pd' = backtraced ?t'" by (simp add: backtraced_def l(2))
  let ?ls = "sort_key (unique_key ?t') (map (listed ?t') (backtraced ?t'))"
  have "l = remove_duplicates ?ls"
    using l(1) collect_listed [OF i s, of "[]"] by (simp add: GetUniqueList_sort)
  moreover have "\<forall>e \<in> set ?ls. num_allocations e = 1" by auto
  ultimately have "bytes_listed l = bytes_listed ?ls" "allocations_listed l = allocations_listed ?ls"
    using remove_duplicates_sums by metis+
  moreover have "(\<Sum>x \<leftarrow> ?ls. f x) = (\<Sum>e \<leftarrow> backtraced ?t'. f (listed ?t' e))" for f :: "_ \<Rightarrow> u64"
    by (simp add: sum_list_image_mset image_mset.compositionality comp_def)
  ultimately show ?thesis
    by (simp add: l(2) b [unfolded l(2)] bytes_listed_def allocations_listed_def listed_def sum_list_triv)
qed


definition sample_peak_config :: Config where
  "sample_peak_config = sample_config\<lparr>options := BACKTRACE OR RECORD_MEMORY_PEAK\<rparr>"

lemma peak_snapshot_accounts_witness:
  "\<exists>pd'. AddPointer sample_peak_config sample_time 0x7000 16 HOST 2
       (intern_new sample_frames [] sample_table) = Inr pd' \<and>
     bytes_listed (peak_list pd') = 16 \<and> allocations_listed (peak_list pd') = 1"
proof -
  let ?q = "intern_new sample_frames [] sample_table"
  have opt: "has_option sample_peak_config RECORD_MEMORY_PEAK"
    by (simp add: sample_peak_config_def has_option_def option_bits)
  have "AddBacktrace sample_peak_config sample_unwind (backtrace_frames sample_peak_config) 16 sample_table =
      Inr (2, ?q)"
    by (simp add: AddBacktrace_def ShouldBacktraceAllocSize_def has_option_def sample_peak_config_def
        sample_blank_def sample_defs hash_FrameKeyType_def Initialize_def emplace_def intern_new_def Let_def)
  from AddBacktrace_inv(1) [OF sample_inv_Suc this]
  have inv: "table_inv sample_peak_config (bump 2 (\<lambda>_. 0)) 0 ?q" .
  obtain pd' where a: "AddPointer sample_peak_config sample_time 0x7000 16 HOST 2 ?q = Inr pd'"
    using AddPointer_ok [OF inv] by blast
  note eff = AddPointer_effect [OF a]
  have "current_used ?q = 0" "peak_tot ?q = 0" "pointers ?q = []"
    by (simp_all add: intern_new_def sample_table_def Initialize_def)
  moreover have "backtrace_dump_peak_val sample_peak_config = 0"
    by (simp add: sample_peak_config_def sample_defs)
  ultimately show ?thesis
    using peak_snapshot_accounts [OF inv a opt] a eff
    by (simp add: backtraced_def RealSize_def word_less_nat_alt)
qed

section \<open>Sizes\<close>

text \<open>
  The size a listing reports is the recorded size modulo \<open>2^31\<close>; it is the
  recorded size exactly for the sizes up to \<open>MaxSize\<close>.
\<close>

theorem RealSize_truncates:
  "unat (RealSize i) = unat (pi_size i) mod 2 ^ 31 \<and> (RealSize i = pi_size i \<longleftrightarrow> pi_size i \<le> MaxSize)"
proof -
  have "RealSize i = pi_size i \<longleftrightarrow> unat (pi_size i) mod 2 ^ 31 = unat (pi_size i)"
    by (simp add: word_unat_eq_iff unat_RealSize)
  also have "\<dots> \<longleftrightarrow> unat (pi_size i) < 2 ^ 31" by (metis mod_less mod_less_divisor zero_less_numeral zero_less_power)
  also have "\<dots> \<longleftrightarrow> pi_size i \<le> MaxSize" by (auto simp: word_le_nat_alt unat_MaxSize)
  finally show ?thesis by (simp add: unat_RealSize)
qed

end
