(* ===== verification/TableInterface.thy ===== *)
theory TableInterface
  imports PointerProps
begin

text \<open>
  What the allocation functions rely on from the table of pointers, as a locale: entering a
  pointer records its size and kind, leaving forgets it, and nothing else changes for any other
  pointer. \<open>PointerData\<close> provides it for every configuration. The client facts on sequences of
  table events are proved once from the contract.
\<close>

section \<open>The contract\<close>

datatype event = Enter u64 u64 MemType | Leave u64

locale tracker =
  fixes good :: "nat \<Rightarrow> 't \<Rightarrow> bool"
    and enter :: "'a \<Rightarrow> u64 \<Rightarrow> u64 \<Rightarrow> MemType \<Rightarrow> 't \<Rightarrow> fault + 't"
    and leave :: "u64 \<Rightarrow> 't \<Rightarrow> 't"
    and tracked :: "'t \<Rightarrow> u64 \<Rightarrow> (u64 \<times> MemType) option"
    and sane :: "'a \<Rightarrow> u64 \<Rightarrow> bool"
    and skips :: "'a \<Rightarrow> u64 \<Rightarrow> bool"
  assumes enter_good: "good (Suc n) t \<Longrightarrow> sane a sz \<Longrightarrow>
      \<exists>t'. enter a p sz ty t = Inr t' \<and> good n t' \<and>
           tracked t' = (if skips a sz then tracked t else (tracked t)(p \<mapsto> (sz, ty)))"
    and leave_good: "good n t \<Longrightarrow> good n (leave p t) \<and> tracked (leave p t) = (tracked t)(p := None)"
    and good_weaken: "good (Suc n) t \<Longrightarrow> good n t"
begin

text \<open>Running events, each with its own context.\<close>

fun replay :: "('a \<times> event) list \<Rightarrow> 't \<Rightarrow> fault + 't" where
  "replay [] t = Inr t"
| "replay ((a, Enter p sz ty) # es) t =
     (case enter a p sz ty t of Inl e \<Rightarrow> Inl e | Inr t' \<Rightarrow> replay es t')"
| "replay ((a, Leave p) # es) t = replay es (leave p t)"

fun meaning :: "('a \<times> event) list \<Rightarrow> (u64 \<Rightarrow> (u64 \<times> MemType) option) \<Rightarrow> (u64 \<Rightarrow> (u64 \<times> MemType) option)" where
  "meaning [] m = m"
| "meaning ((a, Enter p sz ty) # es) m = meaning es (if skips a sz then m else m(p \<mapsto> (sz, ty)))"
| "meaning ((a, Leave p) # es) m = meaning es (m(p := None))"

fun all_sane :: "('a \<times> event) list \<Rightarrow> bool" where
  "all_sane [] = True"
| "all_sane ((a, Enter p sz ty) # es) = (sane a sz \<and> all_sane es)"
| "all_sane ((a, Leave p) # es) = all_sane es"

lemma replay_meaning:
  assumes "good (length es + n) t" "all_sane es"
  shows "\<exists>t'. replay es t = Inr t' \<and> good n t' \<and> tracked t' = meaning es (tracked t)"
  using assms
proof (induction es arbitrary: t)
  case (Cons ae es)
  obtain a e where ae: "ae = (a, e)" by (cases ae)
  show ?case
  proof (cases e)
    case (Enter p sz ty)
    with Cons.prems ae have g: "good (Suc (length es + n)) t" "sane a sz" "all_sane es" by auto
    from enter_good [OF g(1,2)] obtain t' where t': "enter a p sz ty t = Inr t'" "good (length es + n) t'"
      "tracked t' = (if skips a sz then tracked t else (tracked t)(p \<mapsto> (sz, ty)))" by blast
    from Cons.IH [OF t'(2) g(3)] t' show ?thesis by (simp add: ae Enter)
  next
    case (Leave p)
    with Cons.prems ae have g: "good (length es + n) t" "all_sane es" by (auto intro: good_weaken)
    from leave_good [OF g(1), of p] have l: "good (length es + n) (leave p t)"
      "tracked (leave p t) = (tracked t)(p := None)" by blast+
    from Cons.IH [OF l(1) g(2)] show ?thesis
      by (simp only: ae Leave replay.simps meaning.simps l(2))
  qed
qed simp

text \<open>A pointer entered and never left keeps what was recorded for it.\<close>

lemma meaning_other:
  assumes "\<And>a sz ty. (a, Enter p sz ty) \<notin> set es" "\<And>a. (a, Leave p) \<notin> set es"
  shows "meaning es m p = m p"
  using assms
proof (induction es m rule: meaning.induct)
  case (2 a q sz ty es m)
  then have "q \<noteq> p" by (metis list.set_intros(1))
  moreover have "meaning es (if skips a sz then m else m(q \<mapsto> (sz, ty))) p =
      (if skips a sz then m else m(q \<mapsto> (sz, ty))) p"
    using 2 by (meson list.set_intros(2))
  ultimately show ?case by simp
next
  case (3 a q es m)
  then have "q \<noteq> p" by (metis list.set_intros(1))
  moreover have "meaning es (m(q := None)) p = (m(q := None)) p"
    using 3 by (meson list.set_intros(2))
  ultimately show ?case by simp
qed simp

end

section \<open>PointerData provides it\<close>

definition tracked_in :: "PointerData \<Rightarrow> u64 \<Rightarrow> (u64 \<times> MemType) option" where
  "tracked_in pd p = map_option (\<lambda>i. (pi_size i, mem_type i)) (map_of (pointers pd) (ManglePointer p))"

text \<open>The unwinder neither faults nor reports success without frames.\<close>

definition sane_unwind :: "Config \<Rightarrow> (u64 \<Rightarrow> fault + unwind_result) \<times> timeval \<Rightarrow> u64 \<Rightarrow> bool" where
  "sane_unwind cfg a sz \<longleftrightarrow>
     (case fst a (backtrace_frames cfg) of
        Inl e \<Rightarrow> False
      | Inr (code, fs, info) \<Rightarrow>
          (code = ERROR_NONE \<or> code = ERROR_MAX_FRAMES_EXCEEDED) \<longrightarrow> fs \<noteq> [])"

text \<open>The unwinder ran into a function whose allocations are not recorded.\<close>

definition skips_unwind :: "Config \<Rightarrow> (u64 \<Rightarrow> fault + unwind_result) \<times> timeval \<Rightarrow> u64 \<Rightarrow> bool" where
  "skips_unwind cfg a sz \<longleftrightarrow> ShouldBacktraceAllocSize cfg sz \<and> has_option cfg BACKTRACE \<and>
     (case fst a (backtrace_frames cfg) of
        Inl e \<Rightarrow> False | Inr (code, fs, info) \<Rightarrow> code = ERROR_EXIT_FUNC)"

definition table_enter ::
  "Config \<Rightarrow> (u64 \<Rightarrow> fault + unwind_result) \<times> timeval \<Rightarrow> u64 \<Rightarrow> u64 \<Rightarrow> MemType \<Rightarrow> PointerData
     \<Rightarrow> fault + PointerData" where
  "table_enter cfg a p sz ty pd = Add cfg (fst a) (snd a) p sz ty pd"

definition table_good :: "Config \<Rightarrow> nat \<Rightarrow> PointerData \<Rightarrow> bool" where
  "table_good cfg = table_inv cfg (\<lambda>_. 0)"

lemma AddBacktrace_exit_iff:
  assumes "AddBacktrace cfg unw (backtrace_frames cfg) sz pd = Inr (h, q)" "interned cfg pd"
  shows "h = kBacktraceExitIndex \<longleftrightarrow> skips_unwind cfg (unw, tv) sz"
proof -
  have "key_to_index pd k \<noteq> Some 0" for k
    using assms(2) unfolding interned_def by fastforce
  moreover have "cur_hash_index pd \<noteq> 0" using assms(2) by (auto simp: interned_def)
  ultimately show ?thesis
    using assms(1)
    by (auto simp: AddBacktrace_def skips_unwind_def hash_consts Let_def
        split: if_splits sum.splits prod.splits option.splits)
qed

lemma tracked_in_Add:
  assumes "table_inv cfg extra (Suc n) pd" "Add cfg unw tv p sz ty pd = Inr pd'"
  shows "tracked_in pd' = (if skips_unwind cfg (unw, tv) sz then tracked_in pd
     else (tracked_in pd)(p \<mapsto> (sz, ty)))"
proof -
  have i: "interned cfg pd" using assms(1) by (simp add: table_inv_def)
  from assms(2) show ?thesis
  proof (cases rule: Add_either)
    case (skip q)
    have "q = pd" using AddBacktrace_exit [OF skip(1) i] .
    with skip(2) AddBacktrace_exit_iff [OF skip(1) i, of tv] show ?thesis by simp
  next
    case (enter h q)
    have "\<not> skips_unwind cfg (unw, tv) sz" using AddBacktrace_exit_iff [OF enter(1) i, of tv] enter(2) by simp
    then show ?thesis
      using AddPointer_effect(2) [OF enter(3)] AddBacktrace_frame(1) [OF enter(1)]
      by (auto simp: tracked_in_def fun_eq_iff)
  qed
qed

lemma tracked_in_Remove: "tracked_in (Remove cfg p pd) = (tracked_in pd)(p := None)"
proof (cases rule: Remove_either [of pd p cfg])
  case none
  then show ?thesis by (auto simp: tracked_in_def fun_eq_iff)
next
  case (some i q)
  from some(2) have "pointers q = AList.delete (ManglePointer p) (pointers pd)"
    by (rule RemovePointer_effect)
  then show ?thesis using some(3) by (auto simp: tracked_in_def fun_eq_iff)
qed

interpretation table: tracker "table_good cfg" "table_enter cfg" "Remove cfg" tracked_in
    "sane_unwind cfg" "skips_unwind cfg" for cfg
proof unfold_locales
  fix n t a sz p ty
  assume g: "table_good cfg (Suc n) t" and s: "sane_unwind cfg a sz"
  have "\<exists>t'. Add cfg (fst a) (snd a) p sz ty t = Inr t'"
  proof (cases "Add cfg (fst a) (snd a) p sz ty t")
    case (Inl e)
    with Add_fault_cases [OF g [unfolded table_good_def]] s show ?thesis
      by (auto simp: sane_unwind_def split: sum.splits)
  qed blast
  then obtain t' where t': "Add cfg (fst a) (snd a) p sz ty t = Inr t'" by blast
  with Add_inv [OF g [unfolded table_good_def] t'] tracked_in_Add [OF g [unfolded table_good_def] t']
  show "\<exists>t'. table_enter cfg a p sz ty t = Inr t' \<and> table_good cfg n t' \<and>
      tracked_in t' = (if skips_unwind cfg a sz then tracked_in t else (tracked_in t)(p \<mapsto> (sz, ty)))"
    by (auto simp: table_enter_def table_good_def)
next
  fix n t p
  assume "table_good cfg n t"
  then show "table_good cfg n (Remove cfg p t) \<and> tracked_in (Remove cfg p t) = (tracked_in t)(p := None)"
    by (simp add: table_good_def Remove_inv tracked_in_Remove)
next
  show "table_good cfg (Suc n) t \<Longrightarrow> table_good cfg n t" for n t
    by (simp add: table_good_def table_inv_weaken)
qed

end
