(* ===== verification/MallocDebug.thy ===== *)
theory MallocDebug
  imports PointerTracking
begin

text \<open>
  The instrumented allocation functions: \<open>backtrace/src/debug_disable.cpp\<close> with
  \<open>ScopedDisableDebugCalls\<close>, \<open>backtrace/src/DebugData.cpp\<close> and
  \<open>backtrace/src/malloc_debug.cpp\<close>. The C library functions behind \<open>m_sys_*\<close> and the system
  calls are the fields of a record \<open>Sys\<close> over a state \<open>'w\<close> of the outside world; a call of one of
  the functions below is a function on the state as its thread sees it.
\<close>

section \<open>The outside world\<close>

text \<open>
  \<open>sys_fdinfo\<close> delivers the lines of \<open>/proc/self/fdinfo/<fd>\<close> (\<open>None\<close>: it cannot be opened),
  \<open>sys_stat_ino\<close> the inode \<open>stat\<close> reports for \<open>/proc/self/fd/<fd>\<close>, \<open>sys_arg_fd\<close> the
  descriptor field of the structure an \<open>ioctl\<close> argument points to, \<open>sys_unwind\<close> the outcome
  of \<open>Unwind\<close> on the running thread. Addresses are words, 0 the null pointer.
\<close>

record 'w Sys =
  sys_malloc :: "u64 \<Rightarrow> 'w \<Rightarrow> u64 \<times> 'w"
  sys_free :: "u64 \<Rightarrow> 'w \<Rightarrow> 'w"
  sys_calloc :: "u64 \<Rightarrow> u64 \<Rightarrow> 'w \<Rightarrow> u64 \<times> 'w"
  sys_realloc :: "u64 \<Rightarrow> u64 \<Rightarrow> 'w \<Rightarrow> u64 \<times> 'w"
  sys_memalign :: "u64 \<Rightarrow> u64 \<Rightarrow> 'w \<Rightarrow> u64 \<times> 'w"
  sys_posix_memalign :: "u64 \<Rightarrow> u64 \<Rightarrow> 'w \<Rightarrow> (int \<times> u64 option) \<times> 'w"
  sys_mmap :: "u64 \<Rightarrow> u64 \<Rightarrow> int \<Rightarrow> int \<Rightarrow> int \<Rightarrow> int \<Rightarrow> 'w \<Rightarrow> u64 \<times> 'w"
  sys_munmap :: "u64 \<Rightarrow> u64 \<Rightarrow> 'w \<Rightarrow> int \<times> 'w"
  sys_ioctl :: "int \<Rightarrow> u32 \<Rightarrow> u64 \<Rightarrow> 'w \<Rightarrow> int \<times> 'w"
  sys_close :: "int \<Rightarrow> 'w \<Rightarrow> int \<times> 'w"
  sys_open :: "string \<Rightarrow> 'w \<Rightarrow> int \<times> 'w"
  sys_write_dump :: "int \<Rightarrow> Dump \<Rightarrow> 'w \<Rightarrow> 'w"
  sys_write_peak :: "u64 \<times> u64 \<times> u64 \<Rightarrow> 'w \<Rightarrow> 'w"
  sys_fdinfo :: "int \<Rightarrow> 'w \<Rightarrow> string list option"
  sys_stat_ino :: "int \<Rightarrow> 'w \<Rightarrow> u64 option"
  sys_arg_fd :: "u64 \<Rightarrow> 'w \<Rightarrow> int"
  sys_unwind :: "'w \<Rightarrow> u64 \<Rightarrow> fault + unwind_result"
  sys_demangle :: "string \<Rightarrow> string option"
  sys_gettimeofday :: "'w \<Rightarrow> timeval"
  sys_time :: "'w \<Rightarrow> int"
  sys_getenv :: "'w \<Rightarrow> string \<Rightarrow> string option"
  sys_key_create :: "'w \<Rightarrow> int \<times> 'w"
  sys_sigaction :: "int \<Rightarrow> 'w \<Rightarrow> int \<times> 'w"
  sys_errno :: "'w \<Rightarrow> int"
  sys_set_errno :: "int \<Rightarrow> 'w \<Rightarrow> 'w"

definition ENOMEM :: int where "ENOMEM = 12"
definition EINVAL :: int where "EINVAL = 22"

section \<open>State\<close>

record DebugData =
  dd_config :: Config
  dd_pointer :: PointerData

text \<open>
  \<open>disable_key\<close> is the thread's value of \<open>g_disable_key\<close>, \<open>gpu_ioctl_alloc\<close> the thread-local
  flag; \<open>readers\<close> and \<open>writing\<close> count the thread's holds of the read-write lock. \<open>inode_set\<close> is
  the static set inside \<open>is_dma_buf\<close>.
\<close>

record 'w Proc =
  world :: 'w
  g_debug :: "DebugData option"
  disable_key :: bool
  gpu_ioctl_alloc :: bool
  inode_set :: "u64 set"
  readers :: nat
  writing :: bool

type_synonym ('w, 'a) op = "'w Proc \<Rightarrow> fault + 'a \<times> 'w Proc"

section \<open>Disabling, locking\<close>

definition DebugCallsDisabled :: "'w Proc \<Rightarrow> bool" where
  "DebugCallsDisabled s = disable_key s"

definition DebugDisableSet :: "bool \<Rightarrow> 'w Proc \<Rightarrow> 'w Proc" where
  "DebugDisableSet disable s = s\<lparr>disable_key := disable\<rparr>"

definition DebugDisableInitialize :: "'w Sys \<Rightarrow> 'w Proc \<Rightarrow> bool \<times> 'w Proc" where
  "DebugDisableInitialize sys s =
     (let (err, w) = sys_key_create sys (world s) in
      if err \<noteq> 0 then (False, s\<lparr>world := w\<rparr>)
      else (True, s\<lparr>world := w, disable_key := False\<rparr>))"

text \<open>A deleted key reads as null.\<close>

definition DebugDisableFinalize :: "'w Proc \<Rightarrow> 'w Proc" where
  "DebugDisableFinalize s = s\<lparr>disable_key := False\<rparr>"

definition ScopedDisableDebugCalls :: "('w, 'a) op \<Rightarrow> ('w, 'a) op" where
  "ScopedDisableDebugCalls body s =
     (let disabled = DebugCallsDisabled s;
          s1 = (if \<not> disabled then DebugDisableSet True s else s)
      in case body s1 of
           Inl e \<Rightarrow> Inl e
         | Inr (r, s2) \<Rightarrow> Inr (r, if \<not> disabled then DebugDisableSet False s2 else s2))"

text \<open>
  The lock as its holder sees it: \<open>pthread_rwlock_rdlock\<close> fails with \<open>EDEADLK\<close> for the thread
  that holds it for writing (the code ignores the result), and \<open>pthread_rwlock_unlock\<close> gives up
  whatever the thread holds.
\<close>

definition rwlock_rdlock :: "'w Proc \<Rightarrow> 'w Proc" where
  "rwlock_rdlock s = (if writing s then s else s\<lparr>readers := Suc (readers s)\<rparr>)"

definition rwlock_unlock :: "'w Proc \<Rightarrow> 'w Proc" where
  "rwlock_unlock s = (if writing s then s\<lparr>writing := False\<rparr> else s\<lparr>readers := readers s - 1\<rparr>)"

definition BlockAllOperations :: "'w Proc \<Rightarrow> 'w Proc" where
  "BlockAllOperations s = (if readers s = 0 then s\<lparr>writing := True\<rparr> else s)"

definition ScopedConcurrentLock :: "('w, 'a) op \<Rightarrow> ('w, 'a) op" where
  "ScopedConcurrentLock body s =
     (case body (rwlock_rdlock s) of
        Inl e \<Rightarrow> Inl e
      | Inr (r, s2) \<Rightarrow> Inr (r, rwlock_unlock s2))"

text \<open>The two guards at the top of every instrumented function.\<close>

definition guarded :: "('w, 'a) op \<Rightarrow> ('w, 'a) op" where
  "guarded body = ScopedConcurrentLock (ScopedDisableDebugCalls body)"

section \<open>Calls of the outside world and of the table\<close>

definition call_sys :: "('w \<Rightarrow> 'a \<times> 'w) \<Rightarrow> ('w, 'a) op" where
  "call_sys f s = (let (r, w) = f (world s) in Inr (r, s\<lparr>world := w\<rparr>))"

definition set_errno :: "'w Sys \<Rightarrow> int \<Rightarrow> 'w Proc \<Rightarrow> 'w Proc" where
  "set_errno sys e s = s\<lparr>world := sys_set_errno sys e (world s)\<rparr>"

definition TrackPointers :: "DebugData \<Rightarrow> bool" where
  "TrackPointers d = has_option (dd_config d) TRACK_ALLOCS"

text \<open>\<open>if (g_debug->TrackPointers()) g_debug->pointer->Add(...)\<close> and the same for \<open>Remove\<close>.\<close>

definition track :: "'w Sys \<Rightarrow> u64 \<Rightarrow> u64 \<Rightarrow> MemType \<Rightarrow> 'w Proc \<Rightarrow> fault + 'w Proc" where
  "track sys ptr sz type s =
     (case g_debug s of
        None \<Rightarrow> Inl Null_deref
      | Some d \<Rightarrow>
          if TrackPointers d
          then (case Add (dd_config d) (sys_unwind sys (world s)) (sys_gettimeofday sys (world s))
                       ptr sz type (dd_pointer d) of
                  Inl e \<Rightarrow> Inl e
                | Inr pd \<Rightarrow> Inr (s\<lparr>g_debug := Some (d\<lparr>dd_pointer := pd\<rparr>)\<rparr>))
          else Inr s)"

definition untrack :: "u64 \<Rightarrow> 'w Proc \<Rightarrow> fault + 'w Proc" where
  "untrack ptr s =
     (case g_debug s of
        None \<Rightarrow> Inl Null_deref
      | Some d \<Rightarrow>
          if TrackPointers d
          then Inr (s\<lparr>g_debug := Some (d\<lparr>dd_pointer := Remove (dd_config d) ptr (dd_pointer d)\<rparr>)\<rparr>)
          else Inr s)"

section \<open>Heap functions\<close>

definition InternalMalloc :: "'w Sys \<Rightarrow> u64 \<Rightarrow> ('w, u64) op" where
  "InternalMalloc sys sz s =
     (let (result, w) = sys_malloc sys sz (world s) in
      case track sys result sz HOST (s\<lparr>world := w\<rparr>) of
        Inl e \<Rightarrow> Inl e
      | Inr s' \<Rightarrow> Inr (result, s'))"

definition InternalFree :: "'w Sys \<Rightarrow> u64 \<Rightarrow> ('w, unit) op" where
  "InternalFree sys ptr s =
     (case untrack ptr s of
        Inl e \<Rightarrow> Inl e
      | Inr s' \<Rightarrow> Inr ((), s'\<lparr>world := sys_free sys ptr (world s')\<rparr>))"

definition debug_malloc :: "'w Sys \<Rightarrow> u64 \<Rightarrow> ('w, u64) op" where
  "debug_malloc sys sz s =
     (if DebugCallsDisabled s then call_sys (sys_malloc sys sz) s
      else guarded (\<lambda>s.
             if sz > MaxSize then Inr (0, set_errno sys ENOMEM s)
             else InternalMalloc sys sz s) s)"

definition debug_free :: "'w Sys \<Rightarrow> u64 \<Rightarrow> ('w, unit) op" where
  "debug_free sys ptr s =
     (if DebugCallsDisabled s \<or> ptr = 0 then Inr ((), s\<lparr>world := sys_free sys ptr (world s)\<rparr>)
      else guarded (InternalFree sys ptr) s)"

definition debug_realloc :: "'w Sys \<Rightarrow> u64 \<Rightarrow> u64 \<Rightarrow> ('w, u64) op" where
  "debug_realloc sys ptr bytes s =
     (if DebugCallsDisabled s then call_sys (sys_realloc sys ptr bytes) s
      else guarded (\<lambda>s.
             if ptr = 0 then InternalMalloc sys bytes s
             else if bytes = 0 then
               (case InternalFree sys ptr s of Inl e \<Rightarrow> Inl e | Inr (_, s') \<Rightarrow> Inr (0, s'))
             else if bytes > MaxSize then Inr (0, set_errno sys ENOMEM s)
             else
               (case untrack ptr s of
                  Inl e \<Rightarrow> Inl e
                | Inr s1 \<Rightarrow>
                    (let (new_pointer, w) = sys_realloc sys ptr bytes (world s1) in
                     case track sys new_pointer bytes HOST (s1\<lparr>world := w\<rparr>) of
                       Inl e \<Rightarrow> Inl e
                     | Inr s2 \<Rightarrow> Inr (new_pointer, s2)))) s)"

definition debug_calloc :: "'w Sys \<Rightarrow> u64 \<Rightarrow> u64 \<Rightarrow> ('w, u64) op" where
  "debug_calloc sys nmemb bytes s =
     (if DebugCallsDisabled s then call_sys (sys_calloc sys nmemb bytes) s
      else guarded (\<lambda>s.
             case mul_overflow nmemb bytes of
               None \<Rightarrow> Inr (0, set_errno sys ENOMEM s)
             | Some sz \<Rightarrow>
                 (let (pointer, w) = sys_calloc sys 1 sz (world s);
                      s1 = s\<lparr>world := w\<rparr>
                  in if pointer \<noteq> 0
                     then (case track sys pointer sz HOST s1 of
                             Inl e \<Rightarrow> Inl e | Inr s2 \<Rightarrow> Inr (pointer, s2))
                     else Inr (pointer, s1))) s)"

definition debug_memalign :: "'w Sys \<Rightarrow> u64 \<Rightarrow> u64 \<Rightarrow> ('w, u64) op" where
  "debug_memalign sys alignment bytes s =
     (if DebugCallsDisabled s then call_sys (sys_memalign sys alignment bytes) s
      else guarded (\<lambda>s.
             if bytes > MaxSize then Inr (0, set_errno sys ENOMEM s)
             else
               (let (pointer, w) = sys_memalign sys alignment bytes (world s);
                    s1 = s\<lparr>world := w\<rparr>
                in if pointer \<noteq> 0
                   then (case track sys pointer bytes HOST s1 of
                           Inl e \<Rightarrow> Inl e | Inr s2 \<Rightarrow> Inr (pointer, s2))
                   else Inr (pointer, s1))) s)"

definition powerof2 :: "u64 \<Rightarrow> bool" where "powerof2 x \<longleftrightarrow> (x - 1) AND x = 0"

text \<open>The result with the value stored through \<open>memptr\<close>, if one was stored.\<close>

definition debug_posix_memalign :: "'w Sys \<Rightarrow> u64 \<Rightarrow> u64 \<Rightarrow> ('w, int \<times> u64 option) op" where
  "debug_posix_memalign sys alignment sz s =
     (if DebugCallsDisabled s then call_sys (sys_posix_memalign sys alignment sz) s
      else if alignment < 8 \<or> \<not> powerof2 alignment then Inr ((EINVAL, None), s)
      else (let saved_errno = sys_errno sys (world s) in
            case debug_memalign sys alignment sz s of
              Inl e \<Rightarrow> Inl e
            | Inr (p, s1) \<Rightarrow>
                Inr ((if p \<noteq> 0 then 0 else ENOMEM, Some p), set_errno sys saved_errno s1)))"

section \<open>Device memory\<close>

text \<open>\<open>strtoull\<close>, base 10, with a null end pointer: out of range clamps, a minus sign negates.\<close>

definition strtoull10 :: "string \<Rightarrow> u64" where
  "strtoull10 s =
     (let (neg, rest) = take_sign (dropWhile c_isspace s);
          n = dec_value 0 (takeWhile c_isdigit rest)
      in if 2 ^ 64 \<le> n then u64_max else if neg then - of_nat n else of_nat n)"

definition has_prefix :: "string \<Rightarrow> string \<Rightarrow> bool" where
  "has_prefix p line \<longleftrightarrow> take (length p) line = p"

record FdInfo =
  is_dmabuf_file :: bool
  fi_inode :: u64
  fi_size :: u64

fun read_fdinfo :: "string list \<Rightarrow> FdInfo \<Rightarrow> FdInfo" where
  "read_fdinfo [] st = st"
| "read_fdinfo (line # rest) st =
     read_fdinfo rest
       (if has_prefix ''ino:'' line then st\<lparr>fi_inode := strtoull10 (drop 4 line)\<rparr>
        else if has_prefix ''size:'' line then st\<lparr>fi_size := strtoull10 (drop 5 line)\<rparr>
        else if has_prefix ''exp_name:'' line then st\<lparr>is_dmabuf_file := True\<rparr>
        else st)"

text \<open>The result, the value of \<open>*size\<close> (initially \<open>size0\<close>), and the state.\<close>

definition is_dma_buf :: "'w Sys \<Rightarrow> int \<Rightarrow> u64 \<Rightarrow> 'w Proc \<Rightarrow> bool \<times> u64 \<times> 'w Proc" where
  "is_dma_buf sys fd size0 s =
     (case sys_fdinfo sys fd (world s) of
        None \<Rightarrow> (False, size0, s)
      | Some file \<Rightarrow>
          (let st = read_fdinfo file \<lparr>is_dmabuf_file = False, fi_inode = u64_max, fi_size = size0\<rparr>;
               insert_inode = (\<lambda>inode. (inode \<notin> inode_set s, fi_size st,
                  s\<lparr>inode_set := insert inode (inode_set s)\<rparr>))
           in if \<not> is_dmabuf_file st then (False, fi_size st, s)
              else if fi_inode st = u64_max then
                (case sys_stat_ino sys fd (world s) of
                   None \<Rightarrow> (False, fi_size st, s)
                 | Some inode \<Rightarrow> insert_inode inode)
              else insert_inode (fi_inode st)))"

text \<open>\<open>_IOWR(type, nr, size)\<close> and the requests the code knows, from the driver headers.\<close>

definition IOWR :: "nat \<Rightarrow> nat \<Rightarrow> nat \<Rightarrow> u32" where
  "IOWR type nr sz = of_nat (3 * 2 ^ 30 + sz * 2 ^ 16 + type * 2 ^ 8 + nr)"

definition KBASE_IOCTL_MEM_ALLOC :: u32 where "KBASE_IOCTL_MEM_ALLOC = IOWR 0x80 5 32"
definition KBASE_IOCTL_MEM_ALLOC_EX :: u32 where "KBASE_IOCTL_MEM_ALLOC_EX = IOWR 0x80 59 64"
definition IOCTL_KGSL_GPUOBJ_ALLOC :: u32 where "IOCTL_KGSL_GPUOBJ_ALLOC = IOWR 0x09 0x45 48"
definition DMA_HEAP_IOCTL_ALLOC :: u32 where "DMA_HEAP_IOCTL_ALLOC = IOWR 72 0 24"
definition CAM_MEM_ION_MAP_PA :: u32 where "CAM_MEM_ION_MAP_PA = IOWR 73 0 88"

lemmas ioctl_requests = KBASE_IOCTL_MEM_ALLOC_def KBASE_IOCTL_MEM_ALLOC_EX_def
  IOCTL_KGSL_GPUOBJ_ALLOC_def DMA_HEAP_IOCTL_ALLOC_def CAM_MEM_ION_MAP_PA_def IOWR_def

text \<open>The result, \<open>*fd\<close>, \<open>*size\<close> and the state.\<close>

definition handle_dma_node ::
  "'w Sys \<Rightarrow> u32 \<Rightarrow> u64 \<Rightarrow> int \<Rightarrow> u64 \<Rightarrow> 'w Proc \<Rightarrow> bool \<times> int \<times> u64 \<times> 'w Proc" where
  "handle_dma_node sys request arg fd0 size0 s =
     (if request = KBASE_IOCTL_MEM_ALLOC \<or> request = KBASE_IOCTL_MEM_ALLOC_EX \<or>
         request = IOCTL_KGSL_GPUOBJ_ALLOC
      then (False, fd0, size0, s\<lparr>gpu_ioctl_alloc := True\<rparr>)
      else if request = DMA_HEAP_IOCTL_ALLOC \<or> request = CAM_MEM_ION_MAP_PA
      then (let fd = sys_arg_fd sys arg (world s);
                (r, sz, s') = is_dma_buf sys fd size0 s
            in (r, fd, sz, s'))
      else (False, fd0, size0, s))"

definition fd_pointer :: "int \<Rightarrow> u64" where "fd_pointer fd = word_of_int fd"

definition debug_ioctl :: "'w Sys \<Rightarrow> int \<Rightarrow> u32 \<Rightarrow> u64 \<Rightarrow> ('w, int) op" where
  "debug_ioctl sys fd request arg s =
     (if DebugCallsDisabled s then call_sys (sys_ioctl sys fd request arg) s
      else guarded (\<lambda>s.
             let (ret, w) = sys_ioctl sys fd request arg (world s);
                 s1 = s\<lparr>world := w\<rparr>
             in case g_debug s1 of
                  None \<Rightarrow> Inl Null_deref
                | Some d \<Rightarrow>
                    if \<not> TrackPointers d then Inr (ret, s1)
                    else (let (hit, node_fd, node_sz, s2) = handle_dma_node sys request arg (- 1) 0 s1 in
                          if \<not> hit then Inr (ret, s2)
                          else (case track sys (fd_pointer node_fd) node_sz DMA s2 of
                                  Inl e \<Rightarrow> Inl e
                                | Inr s3 \<Rightarrow> Inr (ret, s3)))) s)"

definition debug_close :: "'w Sys \<Rightarrow> int \<Rightarrow> ('w, int) op" where
  "debug_close sys fd s =
     (if DebugCallsDisabled s then call_sys (sys_close sys fd) s
      else guarded (\<lambda>s.
             case untrack (fd_pointer fd) s of
               Inl e \<Rightarrow> Inl e
             | Inr s1 \<Rightarrow> call_sys (sys_close sys fd) s1) s)"

definition debug_mmap64 ::
  "'w Sys \<Rightarrow> u64 \<Rightarrow> u64 \<Rightarrow> int \<Rightarrow> int \<Rightarrow> int \<Rightarrow> int \<Rightarrow> ('w, u64) op" where
  "debug_mmap64 sys addr sz prot flags fd offset s =
     (if DebugCallsDisabled s then call_sys (sys_mmap sys addr sz prot flags fd offset) s
      else guarded (\<lambda>s.
             if sz > MaxSize then Inr (0, set_errno sys ENOMEM s)
             else
               (let (result, w) = sys_mmap sys addr sz prot flags fd offset (world s);
                    s1 = s\<lparr>world := w\<rparr>
                in case g_debug s1 of
                     None \<Rightarrow> Inl Null_deref
                   | Some d \<Rightarrow>
                       if TrackPointers d \<and> gpu_ioctl_alloc s1
                       then (case track sys result sz DMA (s1\<lparr>gpu_ioctl_alloc := False\<rparr>) of
                               Inl e \<Rightarrow> Inl e
                             | Inr s2 \<Rightarrow> Inr (result, s2))
                       else Inr (result, s1))) s)"

definition debug_mmap ::
  "'w Sys \<Rightarrow> u64 \<Rightarrow> u64 \<Rightarrow> int \<Rightarrow> int \<Rightarrow> int \<Rightarrow> int \<Rightarrow> ('w, u64) op" where
  "debug_mmap sys addr sz prot flags fd offset s =
     (if DebugCallsDisabled s then call_sys (sys_mmap sys addr sz prot flags fd offset) s
      else guarded (\<lambda>s.
             if sz > MaxSize then Inr (0, set_errno sys ENOMEM s)
             else
               (let (result, w) = sys_mmap sys addr sz prot flags fd offset (world s);
                    s1 = s\<lparr>world := w\<rparr>
                in case g_debug s1 of
                     None \<Rightarrow> Inl Null_deref
                   | Some d \<Rightarrow>
                       if \<not> TrackPointers d then Inr (result, s1)
                       else if fd < 0 then
                         (case track sys result sz MMAP s1 of
                            Inl e \<Rightarrow> Inl e
                          | Inr s2 \<Rightarrow> Inr (result, s2))
                       else
                         (let (hit, node_sz, s2) = is_dma_buf sys fd 0 s1 in
                          if \<not> hit then Inr (result, s2)
                          else (case track sys (fd_pointer fd) node_sz DMA s2 of
                                  Inl e \<Rightarrow> Inl e
                                | Inr s3 \<Rightarrow> Inr (result, s3))))) s)"

definition debug_munmap :: "'w Sys \<Rightarrow> u64 \<Rightarrow> u64 \<Rightarrow> ('w, int) op" where
  "debug_munmap sys addr sz s =
     (if DebugCallsDisabled s then call_sys (sys_munmap sys addr sz) s
      else guarded (\<lambda>s.
             case untrack addr s of
               Inl e \<Rightarrow> Inl e
             | Inr s1 \<Rightarrow> call_sys (sys_munmap sys addr sz) s1) s)"

section \<open>Dumping, start and end\<close>

definition debug_dump_heap :: "'w Sys \<Rightarrow> string \<Rightarrow> ('w, unit) op" where
  "debug_dump_heap sys file_name =
     guarded (\<lambda>s.
       let (fd, w) = sys_open sys file_name (world s);
           s1 = s\<lparr>world := w\<rparr>
       in if fd = - 1 then Inr ((), s1)
          else (case g_debug s1 of
                  None \<Rightarrow> Inl Null_deref
                | Some d \<Rightarrow>
                    (case DumpLiveToFile (dd_config d) (sys_demangle sys) (dd_pointer d) of
                       Inl e \<Rightarrow> Inl e
                     | Inr (dmp, pd) \<Rightarrow>
                         Inr ((), s1\<lparr>g_debug := Some (d\<lparr>dd_pointer := pd\<rparr>),
                           world := snd (sys_close sys fd (sys_write_dump sys fd dmp (world s1)))\<rparr>))))"

definition int_string :: "int \<Rightarrow> string" where
  "int_string i = (if i < 0 then ''-'' @ dec_string (nat (- i)) else dec_string (nat i))"

definition dump_name :: "DebugData \<Rightarrow> string \<Rightarrow> int \<Rightarrow> string" where
  "dump_name d tag t = backtrace_dump_prefix (dd_config d) @ tag @ int_string t @ ''.txt''"

definition singal_dump_heap :: "'w Sys \<Rightarrow> ('w, unit) op" where
  "singal_dump_heap sys s =
     (case g_debug s of
        None \<Rightarrow> Inl Null_deref
      | Some d \<Rightarrow>
          if has_option (dd_config d) BACKTRACE
          then debug_dump_heap sys (dump_name d ''.time.'' (sys_time sys (world s))) s
          else Inr ((), s))"

text \<open>\<open>DebugData::Initialize\<close>: the configuration, then an initialised table in fresh storage.\<close>

definition DebugData_Initialize :: "(string \<Rightarrow> string option) \<Rightarrow> PointerData \<Rightarrow> DebugData option" where
  "DebugData_Initialize getenv storage =
     (let (ok, cfg) = Init getenv Config_default in
      if \<not> ok then None
      else Some \<lparr>dd_config = cfg, dd_pointer = Initialize storage\<rparr>)"

definition debug_initialize :: "'w Sys \<Rightarrow> PointerData \<Rightarrow> 'w Proc \<Rightarrow> bool \<times> 'w Proc" where
  "debug_initialize sys storage s =
     (let (ok, s1) = DebugDisableInitialize sys s in
      if \<not> ok then (False, s1)
      else (case DebugData_Initialize (sys_getenv sys (world s1)) storage of
              None \<Rightarrow> (False, DebugDisableFinalize s1)
            | Some d \<Rightarrow>
                (let s2 = s1\<lparr>g_debug := Some d, readers := 0, writing := False\<rparr> in
                 if has_option (dd_config d) DUMP_ON_SIGNAL
                 then (let (r, w) = sys_sigaction sys (backtrace_dump_signal (dd_config d)) (world s2)
                       in (r = 0, s2\<lparr>world := w\<rparr>))
                 else (True, s2))))"

definition debug_finalize :: "'w Sys \<Rightarrow> ('w, unit) op" where
  "debug_finalize sys s =
     (case g_debug s of
        None \<Rightarrow> Inr ((), s)
      | Some d \<Rightarrow>
          (let s1 = DebugDisableSet True (BlockAllOperations s);
               dumped = (if has_option (dd_config d) BACKTRACE \<and> backtrace_dump_on_exit (dd_config d)
                         then debug_dump_heap sys (dump_name d ''.exit.'' (sys_time sys (world s1))) s1
                         else Inr ((), s1))
           in case dumped of
                Inl e \<Rightarrow> Inl e
              | Inr (_, s2) \<Rightarrow>
                  (case g_debug s2 of
                     None \<Rightarrow> Inl Null_deref
                   | Some d' \<Rightarrow>
                       Inr ((), if TrackPointers d'
                                then s2\<lparr>world := sys_write_peak sys (DumpPeakInfo (dd_pointer d')) (world s2)\<rparr>
                                else s2))))"

end
