(* ===== verification/MallocDebugProps.thy ===== *)
theory MallocDebugProps
  imports MallocDebug TableInterface
begin

text \<open>
  Properties of the instrumented functions: they leave the disable flag and the lock as they
  found them, are transparent while disabled, never fault on an initialised process, and keep the
  table a mirror of the C library's heap; with the cases where the mirror breaks.
\<close>

section \<open>All instrumented calls\<close>

datatype hook_call =
  H_malloc u64 | H_free u64 | H_realloc u64 u64 | H_calloc u64 u64 | H_memalign u64 u64
| H_posix_memalign u64 u64 | H_ioctl int u32 u64 | H_close int
| H_mmap64 u64 u64 int int int int | H_mmap u64 u64 int int int int | H_munmap u64 u64
| H_dump string

definition state_of :: "fault + 'a \<times> 'w Proc \<Rightarrow> fault + 'w Proc" where
  "state_of r = (case r of Inl e \<Rightarrow> Inl e | Inr (v, s) \<Rightarrow> Inr s)"

fun run_hook :: "'w Sys \<Rightarrow> hook_call \<Rightarrow> 'w Proc \<Rightarrow> fault + 'w Proc" where
  "run_hook sys (H_malloc n) s = state_of (debug_malloc sys n s)"
| "run_hook sys (H_free p) s = state_of (debug_free sys p s)"
| "run_hook sys (H_realloc p n) s = state_of (debug_realloc sys p n s)"
| "run_hook sys (H_calloc m n) s = state_of (debug_calloc sys m n s)"
| "run_hook sys (H_memalign a n) s = state_of (debug_memalign sys a n s)"
| "run_hook sys (H_posix_memalign a n) s = state_of (debug_posix_memalign sys a n s)"
| "run_hook sys (H_ioctl fd r a) s = state_of (debug_ioctl sys fd r a s)"
| "run_hook sys (H_close fd) s = state_of (debug_close sys fd s)"
| "run_hook sys (H_mmap64 a n pr fl fd off) s = state_of (debug_mmap64 sys a n pr fl fd off s)"
| "run_hook sys (H_mmap a n pr fl fd off) s = state_of (debug_mmap sys a n pr fl fd off s)"
| "run_hook sys (H_munmap a n) s = state_of (debug_munmap sys a n s)"
| "run_hook sys (H_dump f) s = state_of (debug_dump_heap sys f s)"

section \<open>Balance of the guards\<close>

definition guards :: "'w Proc \<Rightarrow> bool \<times> nat \<times> bool" where
  "guards s = (disable_key s, readers s, writing s)"

lemma guards_simps [simp]:
  "guards (s\<lparr>world := w\<rparr>) = guards s" "guards (s\<lparr>g_debug := g\<rparr>) = guards s"
  "guards (s\<lparr>gpu_ioctl_alloc := b\<rparr>) = guards s" "guards (s\<lparr>inode_set := i\<rparr>) = guards s"
  by (simp_all add: guards_def)

text \<open>A body keeps the guards.\<close>

definition keeps_guards :: "('w, 'a) op \<Rightarrow> bool" where
  "keeps_guards f \<longleftrightarrow> (\<forall>s r s'. f s = Inr (r, s') \<longrightarrow> guards s' = guards s)"

lemma keeps_guardsI: "(\<And>s r s'. f s = Inr (r, s') \<Longrightarrow> guards s' = guards s) \<Longrightarrow> keeps_guards f"
  by (simp add: keeps_guards_def)

lemma guarded_Inr:
  assumes "guarded body s = Inr (r, s')"
  obtains s1 t where "s1 = (if disable_key s then rwlock_rdlock s
      else (rwlock_rdlock s)\<lparr>disable_key := True\<rparr>)"
    "body s1 = Inr (r, t)"
    "s' = rwlock_unlock (if disable_key s then t else t\<lparr>disable_key := False\<rparr>)"
  using assms
  by (cases "disable_key s"; cases "writing s")
    (auto simp: guarded_def ScopedConcurrentLock_def ScopedDisableDebugCalls_def Let_def
      DebugCallsDisabled_def DebugDisableSet_def rwlock_rdlock_def split: sum.splits)

lemma guarded_keeps:
  assumes "guarded body s = Inr (r, s')" "\<not> writing s" "keeps_guards body"
  shows "guards s' = guards s"
proof -
  from assms(1) obtain s1 t where s1: "s1 = (if disable_key s then rwlock_rdlock s
      else (rwlock_rdlock s)\<lparr>disable_key := True\<rparr>)" and t: "body s1 = Inr (r, t)"
    and s': "s' = rwlock_unlock (if disable_key s then t else t\<lparr>disable_key := False\<rparr>)"
    by (rule guarded_Inr)
  have "guards t = guards s1" using assms(3) t by (auto simp: keeps_guards_def)
  then show ?thesis
    using assms(2) by (auto simp: s1 s' guards_def rwlock_rdlock_def rwlock_unlock_def split: if_splits)
qed

lemma track_guards: "track sys p n ty s = Inr s' \<Longrightarrow> guards s' = guards s"
  by (auto simp: track_def split: option.splits sum.splits if_splits)

lemma untrack_guards: "untrack p s = Inr s' \<Longrightarrow> guards s' = guards s"
  by (auto simp: untrack_def split: option.splits if_splits)

lemma is_dma_buf_guards: "is_dma_buf sys fd n s = (b, n', s') \<Longrightarrow> guards s' = guards s"
  by (auto simp: is_dma_buf_def Let_def split: option.splits if_splits)

lemma handle_dma_node_guards: "handle_dma_node sys r a fd n s = (b, fd', n', s') \<Longrightarrow> guards s' = guards s"
  by (auto simp: handle_dma_node_def Let_def split: if_splits prod.splits dest: is_dma_buf_guards)

lemmas part_guards = track_guards untrack_guards is_dma_buf_guards handle_dma_node_guards

lemma InternalMalloc_keeps: "InternalMalloc sys n s = Inr (r, s') \<Longrightarrow> guards s' = guards s"
  by (auto simp: InternalMalloc_def Let_def split: prod.splits sum.splits dest!: part_guards)

lemma InternalFree_keeps: "InternalFree sys p s = Inr (r, s') \<Longrightarrow> guards s' = guards s"
  by (auto simp: InternalFree_def split: sum.splits dest!: part_guards)

lemma call_sys_keeps: "call_sys f s = Inr (r, s') \<Longrightarrow> guards s' = guards s"
  by (auto simp: call_sys_def split: prod.splits)

lemma set_errno_keeps [simp]: "guards (set_errno sys e s) = guards s"
  by (simp add: set_errno_def)

lemmas body_keeps = part_guards InternalMalloc_keeps InternalFree_keeps call_sys_keeps

lemma debug_memalign_guards:
  assumes "debug_memalign sys a n s = Inr (r, s')" "\<not> writing s"
  shows "guards s' = guards s"
  using assms unfolding debug_memalign_def
  by (auto simp: Let_def intro!: keeps_guardsI elim!: guarded_keeps
      split: if_splits prod.splits sum.splits dest!: body_keeps)

lemmas hook_defs = debug_malloc_def debug_free_def debug_realloc_def debug_calloc_def
  debug_posix_memalign_def debug_ioctl_def debug_close_def debug_mmap64_def debug_mmap_def
  debug_munmap_def debug_dump_heap_def

lemma guards_kept:
  assumes "run_hook sys c s = Inr s'" "\<not> writing s"
  shows "disable_key s' = disable_key s \<and> readers s' = readers s \<and> writing s' = writing s"
proof -
  have "guards s' = guards s"
    using assms
    by (cases c) (auto simp: state_of_def hook_defs Let_def intro!: keeps_guardsI elim!: guarded_keeps
        split: if_splits sum.splits prod.splits option.splits
        dest: debug_memalign_guards dest!: body_keeps)
  then show ?thesis by (simp add: guards_def)
qed

text \<open>
  Property C15. Every instrumented function that returns leaves its thread's disable flag and
  its holds of the lock as it found them, on every path, when the thread does not hold the lock
  for writing.
\<close>

theorem hooks_balanced:
  assumes "run_hook sys c s = Inr s'" "\<not> writing s"
  shows "disable_key s' = disable_key s \<and> readers s' = readers s \<and> writing s' = writing s"
  using assms by (rule guards_kept)

section \<open>Transparency\<close>

text \<open>What the plain C library function or system call does to the world.\<close>

fun plain_world :: "'w Sys \<Rightarrow> hook_call \<Rightarrow> 'w \<Rightarrow> 'w" where
  "plain_world sys (H_malloc n) w = snd (sys_malloc sys n w)"
| "plain_world sys (H_free p) w = sys_free sys p w"
| "plain_world sys (H_realloc p n) w = snd (sys_realloc sys p n w)"
| "plain_world sys (H_calloc m n) w = snd (sys_calloc sys m n w)"
| "plain_world sys (H_memalign a n) w = snd (sys_memalign sys a n w)"
| "plain_world sys (H_posix_memalign a n) w = snd (sys_posix_memalign sys a n w)"
| "plain_world sys (H_ioctl fd r a) w = snd (sys_ioctl sys fd r a w)"
| "plain_world sys (H_close fd) w = snd (sys_close sys fd w)"
| "plain_world sys (H_mmap64 a n pr fl fd off) w = snd (sys_mmap sys a n pr fl fd off w)"
| "plain_world sys (H_mmap a n pr fl fd off) w = snd (sys_mmap sys a n pr fl fd off w)"
| "plain_world sys (H_munmap a n) w = snd (sys_munmap sys a n w)"
| "plain_world sys (H_dump f) w = w"


section \<open>Total correctness of the bodies\<close>

text \<open>\<open>wp m Q\<close>: the outcome is a return that satisfies \<open>Q\<close> with the world and the debug data.\<close>

definition wp :: "fault + 'a \<times> 'w Proc \<Rightarrow> ('a \<Rightarrow> 'w \<Rightarrow> DebugData option \<Rightarrow> bool) \<Rightarrow> bool" where
  "wp m Q \<longleftrightarrow> (\<exists>r t. m = Inr (r, t) \<and> Q r (world t) (g_debug t))"

lemma wp_Inr [simp]: "wp (Inr (r, t)) Q \<longleftrightarrow> Q r (world t) (g_debug t)"
  by (simp add: wp_def)

lemma rwlock_fields [simp]:
  "world (rwlock_rdlock s) = world s" "g_debug (rwlock_rdlock s) = g_debug s"
  "world (rwlock_unlock s) = world s" "g_debug (rwlock_unlock s) = g_debug s"
  by (simp_all add: rwlock_rdlock_def rwlock_unlock_def)

lemma set_errno_fields [simp]:
  "world (set_errno sys e s) = sys_set_errno sys e (world s)" "g_debug (set_errno sys e s) = g_debug s"
  by (simp_all add: set_errno_def)

lemma guarded_wp:
  assumes "\<And>s1. world s1 = world s \<Longrightarrow> g_debug s1 = g_debug s \<Longrightarrow> wp (body s1) Q"
  shows "wp (guarded body s) Q"
proof -
  let ?s1 = "if disable_key s then rwlock_rdlock s else (rwlock_rdlock s)\<lparr>disable_key := True\<rparr>"
  have "wp (body ?s1) Q" by (rule assms) simp_all
  then obtain r t where t: "body ?s1 = Inr (r, t)" "Q r (world t) (g_debug t)"
    by (auto simp: wp_def)
  then show ?thesis
    by (cases "disable_key s"; cases "writing s")
      (simp_all add: guarded_def ScopedConcurrentLock_def ScopedDisableDebugCalls_def Let_def wp_def
        DebugCallsDisabled_def DebugDisableSet_def rwlock_rdlock_def)
qed

text \<open>The process is initialised, tracks, and its table has room for \<open>n\<close> more entries.\<close>

definition up :: "nat \<Rightarrow> DebugData option \<Rightarrow> bool" where
  "up n g \<longleftrightarrow> (\<exists>d. g = Some d \<and> TrackPointers d \<and> table_good (dd_config d) n (dd_pointer d))"

definition ptrs :: "DebugData option \<Rightarrow> u64 \<Rightarrow> (u64 \<times> MemType) option" where
  "ptrs g = (case g of None \<Rightarrow> Map.empty | Some d \<Rightarrow> tracked_in (dd_pointer d))"

definition sane_sys :: "'w Sys \<Rightarrow> bool" where
  "sane_sys sys \<longleftrightarrow> (\<forall>w n. case sys_unwind sys w n of
     Inl e \<Rightarrow> False
   | Inr (code, fs, info) \<Rightarrow> (code = ERROR_NONE \<or> code = ERROR_MAX_FRAMES_EXCEEDED) \<longrightarrow> fs \<noteq> [])"

definition never_skips :: "'w Sys \<Rightarrow> bool" where
  "never_skips sys \<longleftrightarrow> (\<forall>w n. case sys_unwind sys w n of
     Inl e \<Rightarrow> True | Inr (code, fs, info) \<Rightarrow> code \<noteq> ERROR_EXIT_FUNC)"

lemma up_weaken: "up (Suc n) g \<Longrightarrow> up n g"
  by (auto simp: up_def intro: table.good_weaken)

lemma track_up:
  assumes "up (Suc n) (g_debug s)" "sane_sys sys"
  shows "\<exists>g. track sys p sz ty s = Inr (s\<lparr>g_debug := g\<rparr>) \<and> up n g \<and>
     (ptrs g = (ptrs (g_debug s))(p \<mapsto> (sz, ty)) \<or> \<not> never_skips sys \<and> ptrs g = ptrs (g_debug s))"
proof -
  obtain d where d: "g_debug s = Some d" "TrackPointers d" "table_good (dd_config d) (Suc n) (dd_pointer d)"
    using assms(1) by (auto simp: up_def)
  let ?a = "(sys_unwind sys (world s), sys_gettimeofday sys (world s))"
  have sane: "sane_unwind (dd_config d) ?a sz"
    using assms(2) unfolding sane_sys_def sane_unwind_def by simp
  have skips: "\<not> never_skips sys" if "skips_unwind (dd_config d) ?a sz"
    using that unfolding never_skips_def skips_unwind_def by (fastforce split: sum.splits)
  from table.enter_good [OF d(3) sane] obtain pd where
    "table_enter (dd_config d) ?a p sz ty (dd_pointer d) = Inr pd" "table_good (dd_config d) n pd"
    "tracked_in pd = (if skips_unwind (dd_config d) ?a sz then tracked_in (dd_pointer d)
       else (tracked_in (dd_pointer d))(p \<mapsto> (sz, ty)))" by blast
  then show ?thesis
    using d skips
    by (intro exI [of _ "Some (d\<lparr>dd_pointer := pd\<rparr>)"])
      (simp add: track_def table_enter_def up_def ptrs_def TrackPointers_def)
qed

lemma untrack_up:
  assumes "up n (g_debug s)"
  shows "\<exists>g. untrack p s = Inr (s\<lparr>g_debug := g\<rparr>) \<and> up n g \<and> ptrs g = (ptrs (g_debug s))(p := None)"
proof -
  obtain d where d: "g_debug s = Some d" "TrackPointers d" "table_good (dd_config d) n (dd_pointer d)"
    using assms by (auto simp: up_def)
  with table.leave_good [OF d(3), of p] show ?thesis
    by (intro exI [of _ "Some (d\<lparr>dd_pointer := Remove (dd_config d) p (dd_pointer d)\<rparr>)"])
      (simp add: untrack_def up_def ptrs_def TrackPointers_def)
qed

lemma is_dma_buf_fields:
  "is_dma_buf sys fd n s = (b, n', s') \<Longrightarrow> world s' = world s \<and> g_debug s' = g_debug s"
  by (auto simp: is_dma_buf_def Let_def split: option.splits if_splits)

lemma handle_dma_node_fields:
  "handle_dma_node sys q a fd n s = (b, fd', n', s') \<Longrightarrow> world s' = world s \<and> g_debug s' = g_debug s"
  by (auto simp: handle_dma_node_def Let_def split: if_splits prod.splits dest: is_dma_buf_fields)

text \<open>Rules for the calls of the table inside a body, and for a call passed through.\<close>

lemma wp_track:
  assumes "up (Suc n) (g_debug s)" "sane_sys sys"
    and "\<And>g. up n g \<Longrightarrow> ptrs g = (ptrs (g_debug s))(p \<mapsto> (sz, ty)) \<or> \<not> never_skips sys \<and> ptrs g = ptrs (g_debug s)
       \<Longrightarrow> wp (k (s\<lparr>g_debug := g\<rparr>)) Q"
  shows "wp (case track sys p sz ty s of Inl e \<Rightarrow> Inl e | Inr s' \<Rightarrow> k s') Q"
  using track_up [OF assms(1,2), of p sz ty] assms(3) by auto

lemma wp_untrack:
  assumes "up n (g_debug s)"
    and "\<And>g. up n g \<Longrightarrow> ptrs g = (ptrs (g_debug s))(p := None) \<Longrightarrow> wp (k (s\<lparr>g_debug := g\<rparr>)) Q"
  shows "wp (case untrack p s of Inl e \<Rightarrow> Inl e | Inr s' \<Rightarrow> k s') Q"
  using untrack_up [OF assms(1), of p] assms(2) by auto

lemma wp_call_sys: "(\<And>r w. f (world s) = (r, w) \<Longrightarrow> Q r w (g_debug s)) \<Longrightarrow> wp (call_sys f s) Q"
  by (cases "f (world s)") (simp add: call_sys_def)

lemma wp_mono: "wp m Q \<Longrightarrow> (\<And>r w g. Q r w g \<Longrightarrow> Q' r w g) \<Longrightarrow> wp m Q'"
  by (auto simp: wp_def)

lemma wp_bind_result:
  assumes "wp m (\<lambda>r w g. \<forall>t. world t = w \<longrightarrow> g_debug t = g \<longrightarrow> wp (k r t) Q)"
  shows "wp (case m of Inl e \<Rightarrow> Inl e | Inr (r, t) \<Rightarrow> k r t) Q"
  using assms by (auto simp: wp_def)

section \<open>Contracts of the heap functions\<close>

text \<open>
  Each contract: in an initialised process the call returns, and the tracked pointers change as
  stated. \<open>entered\<close> is the map after entering a pointer, which may be skipped.
\<close>

definition entered ::
  "'w Sys \<Rightarrow> (u64 \<Rightarrow> (u64 \<times> MemType) option) \<Rightarrow> u64 \<Rightarrow> u64 \<Rightarrow> MemType \<Rightarrow> (u64 \<Rightarrow> (u64 \<times> MemType) option) \<Rightarrow> bool" where
  "entered sys m p sz ty m' \<longleftrightarrow> m' = m(p \<mapsto> (sz, ty)) \<or> \<not> never_skips sys \<and> m' = m"

lemma InternalMalloc_wp:
  assumes "up (Suc n) (g_debug s)" "sane_sys sys"
  shows "wp (InternalMalloc sys sz s) (\<lambda>p w g. up n g \<and> sys_malloc sys sz (world s) = (p, w) \<and>
     entered sys (ptrs (g_debug s)) p sz HOST (ptrs g))"
  unfolding InternalMalloc_def Let_def
  by (cases "sys_malloc sys sz (world s)") (auto intro!: wp_track [where n = n] assms simp: entered_def)

lemma InternalFree_wp:
  assumes "up n (g_debug s)"
  shows "wp (InternalFree sys p s) (\<lambda>r w g. up n g \<and> w = sys_free sys p (world s) \<and>
     ptrs g = (ptrs (g_debug s))(p := None))"
  unfolding InternalFree_def by (auto intro!: wp_untrack [where n = n] assms)


lemma debug_malloc_wp:
  assumes "up (Suc n) (g_debug s)" "sane_sys sys" "\<not> disable_key s"
  shows "wp (debug_malloc sys sz s) (\<lambda>p w g. up n g \<and>
     (if sz > MaxSize then p = 0 \<and> w = sys_set_errno sys ENOMEM (world s) \<and> g = g_debug s
      else sys_malloc sys sz (world s) = (p, w) \<and> entered sys (ptrs (g_debug s)) p sz HOST (ptrs g)))"
proof -
  have "wp (InternalMalloc sys sz s1) (\<lambda>p w g. up n g \<and> sys_malloc sys sz (world s) = (p, w) \<and>
     entered sys (ptrs (g_debug s)) p sz HOST (ptrs g))"
    if "world s1 = world s" "g_debug s1 = g_debug s" for s1
    using InternalMalloc_wp [of n s1 sys sz] assms that by simp
  then show ?thesis
    using assms up_weaken by (auto simp: debug_malloc_def DebugCallsDisabled_def intro!: guarded_wp)
qed

lemma debug_free_wp:
  assumes "up n (g_debug s)" "\<not> disable_key s"
  shows "wp (debug_free sys p s) (\<lambda>r w g. up n g \<and> w = sys_free sys p (world s) \<and>
     ptrs g = (if p = 0 then ptrs (g_debug s) else (ptrs (g_debug s))(p := None)))"
proof -
  have "wp (InternalFree sys p s1) (\<lambda>r w g. up n g \<and> w = sys_free sys p (world s) \<and>
     ptrs g = (ptrs (g_debug s))(p := None))"
    if "world s1 = world s" "g_debug s1 = g_debug s" for s1
    using InternalFree_wp [of n s1 sys p] assms that by simp
  then show ?thesis
    using assms by (auto simp: debug_free_def DebugCallsDisabled_def intro!: guarded_wp)
qed

lemma debug_realloc_wp:
  assumes "up (Suc n) (g_debug s)" "sane_sys sys" "\<not> disable_key s"
  shows "wp (debug_realloc sys p sz s) (\<lambda>q w g. up n g \<and>
     (if p = 0 then sys_malloc sys sz (world s) = (q, w) \<and> entered sys (ptrs (g_debug s)) q sz HOST (ptrs g)
      else if sz = 0 then q = 0 \<and> w = sys_free sys p (world s) \<and> ptrs g = (ptrs (g_debug s))(p := None)
      else if sz > MaxSize then q = 0 \<and> w = sys_set_errno sys ENOMEM (world s) \<and> g = g_debug s
      else sys_realloc sys p sz (world s) = (q, w) \<and>
           entered sys ((ptrs (g_debug s))(p := None)) q sz HOST (ptrs g)))" (is "wp _ ?Q")
proof -
  let ?body = "\<lambda>s. if p = 0 then InternalMalloc sys sz s
             else if sz = 0 then
               (case InternalFree sys p s of Inl e \<Rightarrow> Inl e | Inr (_, s') \<Rightarrow> Inr (0, s'))
             else if sz > MaxSize then Inr (0, set_errno sys ENOMEM s)
             else
               (case untrack p s of
                  Inl e \<Rightarrow> Inl e
                | Inr s1 \<Rightarrow>
                    (let (new_pointer, w) = sys_realloc sys p sz (world s1) in
                     case track sys new_pointer sz HOST (s1\<lparr>world := w\<rparr>) of
                       Inl e \<Rightarrow> Inl e
                     | Inr s2 \<Rightarrow> Inr (new_pointer, s2)))"
  have "wp (?body t) ?Q" if t: "world t = world s" "g_debug t = g_debug s" for t
  proof -
    have up: "up (Suc n) (g_debug t)" using assms(1) t by simp
    consider "p = 0" | "p \<noteq> 0" "sz = 0" | "p \<noteq> 0" "sz \<noteq> 0" "sz > MaxSize"
      | "p \<noteq> 0" "sz \<noteq> 0" "\<not> sz > MaxSize" by blast
    then show ?thesis
    proof cases
      case 1
      then show ?thesis using InternalMalloc_wp [OF up assms(2), of sz] t by simp
    next
      case 2
      have "wp (case InternalFree sys p t of Inl e \<Rightarrow> Inl e | Inr (r, s') \<Rightarrow> Inr (0, s')) ?Q"
        by (rule wp_bind_result, rule wp_mono, rule InternalFree_wp [OF up_weaken [OF up]])
          (use 2 t in auto)
      then show ?thesis using 2 by simp
    next
      case 3
      then show ?thesis using up_weaken [OF up] t by simp
    next
      case 4
      have "wp (case untrack p t of
                  Inl e \<Rightarrow> Inl e
                | Inr s1 \<Rightarrow>
                    (let (new_pointer, w) = sys_realloc sys p sz (world s1) in
                     case track sys new_pointer sz HOST (s1\<lparr>world := w\<rparr>) of
                       Inl e \<Rightarrow> Inl e
                     | Inr s2 \<Rightarrow> Inr (new_pointer, s2))) ?Q"
      proof (rule wp_untrack [OF up])
        fix g assume g: "up (Suc n) g" "ptrs g = (ptrs (g_debug t))(p := None)"
        obtain q w where qw: "sys_realloc sys p sz (world s) = (q, w)" by fastforce
        have "wp (case track sys q sz HOST (t\<lparr>g_debug := g, world := w\<rparr>) of
            Inl e \<Rightarrow> Inl e | Inr s2 \<Rightarrow> Inr (q, s2)) ?Q"
          by (rule wp_track [where n = n]) (use g qw 4 assms(2) t in \<open>auto simp: entered_def\<close>)
        then show "wp (let (new_pointer, w) = sys_realloc sys p sz (world (t\<lparr>g_debug := g\<rparr>)) in
             case track sys new_pointer sz HOST (t\<lparr>g_debug := g, world := w\<rparr>) of
               Inl e \<Rightarrow> Inl e | Inr s2 \<Rightarrow> Inr (new_pointer, s2)) ?Q"
          using qw t by simp
      qed
      then show ?thesis using 4 by simp
    qed
  qed
  then have "wp (guarded ?body s) ?Q" by (rule guarded_wp)
  then show ?thesis using assms(3) by (simp add: debug_realloc_def DebugCallsDisabled_def)
qed

lemma debug_calloc_wp:
  assumes "up (Suc n) (g_debug s)" "sane_sys sys" "\<not> disable_key s"
  shows "wp (debug_calloc sys m k s) (\<lambda>p w g. up n g \<and>
     (case mul_overflow m k of
        None \<Rightarrow> p = 0 \<and> w = sys_set_errno sys ENOMEM (world s) \<and> g = g_debug s
      | Some sz \<Rightarrow> sys_calloc sys 1 sz (world s) = (p, w) \<and>
          (if p = 0 then g = g_debug s else entered sys (ptrs (g_debug s)) p sz HOST (ptrs g))))"
  using assms up_weaken [OF assms(1)]
  by (cases "mul_overflow m k")
    (auto simp: debug_calloc_def DebugCallsDisabled_def Let_def entered_def
      split: prod.splits intro!: guarded_wp wp_track [where n = n])

lemma debug_memalign_wp:
  assumes "up (Suc n) (g_debug s)" "sane_sys sys" "\<not> disable_key s"
  shows "wp (debug_memalign sys a sz s) (\<lambda>p w g. up n g \<and>
     (if sz > MaxSize then p = 0 \<and> w = sys_set_errno sys ENOMEM (world s) \<and> g = g_debug s
      else sys_memalign sys a sz (world s) = (p, w) \<and>
          (if p = 0 then g = g_debug s else entered sys (ptrs (g_debug s)) p sz HOST (ptrs g))))"
  using assms up_weaken [OF assms(1)]
  by (auto simp: debug_memalign_def DebugCallsDisabled_def Let_def entered_def
      split: prod.splits intro!: guarded_wp wp_track [where n = n])


lemma debug_posix_memalign_wp:
  assumes "up (Suc n) (g_debug s)" "sane_sys sys" "\<not> disable_key s"
  shows "wp (debug_posix_memalign sys a sz s) (\<lambda>r w g. up n g \<and>
     (if a < 8 \<or> \<not> powerof2 a then r = (EINVAL, None) \<and> w = world s \<and> g = g_debug s
      else \<exists>p w'. r = (if p \<noteq> 0 then 0 else ENOMEM, Some p) \<and>
             w = sys_set_errno sys (sys_errno sys (world s)) w' \<and>
             (if sz > MaxSize then p = 0 \<and> w' = sys_set_errno sys ENOMEM (world s) \<and> g = g_debug s
              else sys_memalign sys a sz (world s) = (p, w') \<and>
                  (if p = 0 then g = g_debug s else entered sys (ptrs (g_debug s)) p sz HOST (ptrs g)))))"
    (is "wp _ ?Q")
proof (cases "a < 8 \<or> \<not> powerof2 a")
  case True
  then show ?thesis
    using assms up_weaken [OF assms(1)] by (simp add: debug_posix_memalign_def DebugCallsDisabled_def)
next
  case False
  have "wp (case debug_memalign sys a sz s of
              Inl e \<Rightarrow> Inl e
            | Inr (p, s1) \<Rightarrow> Inr ((if p \<noteq> 0 then 0 else ENOMEM, Some p),
                set_errno sys (sys_errno sys (world s)) s1)) ?Q"
    by (rule wp_bind_result, rule wp_mono, rule debug_memalign_wp [OF assms])
      (use False in \<open>auto split: if_splits\<close>)
  then show ?thesis
    using False assms(3) by (simp add: debug_posix_memalign_def DebugCallsDisabled_def Let_def)
qed

section \<open>The device functions return\<close>

lemma debug_ioctl_wp:
  fixes s :: "'w Proc"
  assumes "up (Suc n) (g_debug s)" "sane_sys sys" "\<not> disable_key s"
  shows "wp (debug_ioctl sys fd q a s) (\<lambda>r w g. up n g \<and> sys_ioctl sys fd q a (world s) = (r, w))"
proof -
  obtain r w where rw: "sys_ioctl sys fd q a (world s) = (r, w)" by fastforce
  obtain d where d: "g_debug s = Some d" "TrackPointers d" using assms(1) by (auto simp: up_def)
  have "wp (guarded (\<lambda>s.
             let (ret, w) = sys_ioctl sys fd q a (world s);
                 s1 = s\<lparr>world := w\<rparr>
             in case g_debug s1 of
                  None \<Rightarrow> Inl Null_deref
                | Some d \<Rightarrow>
                    if \<not> TrackPointers d then Inr (ret, s1)
                    else (let (hit, node_fd, node_sz, s2) = handle_dma_node sys q a (- 1) 0 s1 in
                          if \<not> hit then Inr (ret, s2)
                          else (case track sys (fd_pointer node_fd) node_sz DMA s2 of
                                  Inl e \<Rightarrow> Inl e
                                | Inr s3 \<Rightarrow> Inr (ret, s3)))) s)
      (\<lambda>r w g. up n g \<and> sys_ioctl sys fd q a (world s) = (r, w))"
  proof (rule guarded_wp)
    fix t :: "'w Proc" assume t: "world t = world s" "g_debug t = g_debug s"
    obtain hit nfd nsz t2 where h: "handle_dma_node sys q a (- 1) 0 (t\<lparr>world := w\<rparr>) = (hit, nfd, nsz, t2)"
      by (metis prod_cases4)
    note f = handle_dma_node_fields [OF h]
    have "wp (case track sys (fd_pointer nfd) nsz DMA t2 of Inl e \<Rightarrow> Inl e | Inr s3 \<Rightarrow> Inr (r, s3))
        (\<lambda>r w g. up n g \<and> sys_ioctl sys fd q a (world s) = (r, w))"
      by (rule wp_track [where n = n]) (use assms f t rw in auto)
    then show "wp (let (ret, w) = sys_ioctl sys fd q a (world t); s1 = t\<lparr>world := w\<rparr>
             in case g_debug s1 of
                  None \<Rightarrow> Inl Null_deref
                | Some d \<Rightarrow>
                    if \<not> TrackPointers d then Inr (ret, s1)
                    else (let (hit, node_fd, node_sz, s2) = handle_dma_node sys q a (- 1) 0 s1 in
                          if \<not> hit then Inr (ret, s2)
                          else (case track sys (fd_pointer node_fd) node_sz DMA s2 of
                                  Inl e \<Rightarrow> Inl e
                                | Inr s3 \<Rightarrow> Inr (ret, s3))))
        (\<lambda>r w g. up n g \<and> sys_ioctl sys fd q a (world s) = (r, w))"
      using f h rw t d up_weaken [OF assms(1)] by simp
  qed
  then show ?thesis using assms(3) by (simp add: debug_ioctl_def DebugCallsDisabled_def)
qed

lemma debug_close_wp:
  assumes "up n (g_debug s)" "\<not> disable_key s"
  shows "wp (debug_close sys fd s) (\<lambda>r w g. up n g \<and> sys_close sys fd (world s) = (r, w) \<and>
     ptrs g = (ptrs (g_debug s))(fd_pointer fd := None))"
  using assms
  by (auto simp: debug_close_def DebugCallsDisabled_def
      intro!: guarded_wp wp_untrack [where n = n] wp_call_sys)

lemma debug_munmap_wp:
  assumes "up n (g_debug s)" "\<not> disable_key s"
  shows "wp (debug_munmap sys a sz s) (\<lambda>r w g. up n g \<and> sys_munmap sys a sz (world s) = (r, w) \<and>
     ptrs g = (ptrs (g_debug s))(a := None))"
  using assms
  by (auto simp: debug_munmap_def DebugCallsDisabled_def
      intro!: guarded_wp wp_untrack [where n = n] wp_call_sys)

lemma debug_mmap64_wp:
  assumes "up (Suc n) (g_debug s)" "sane_sys sys" "\<not> disable_key s"
  shows "wp (debug_mmap64 sys a sz pr fl fd off s) (\<lambda>r w g. up n g)"
  using assms up_weaken [OF assms(1)]
  by (auto simp: debug_mmap64_def DebugCallsDisabled_def Let_def
      split: prod.splits option.splits intro!: guarded_wp wp_track [where n = n])
    (auto simp: up_def)

lemma debug_mmap_wp:
  assumes "up (Suc n) (g_debug s)" "sane_sys sys" "\<not> disable_key s"
  shows "wp (debug_mmap sys a sz pr fl fd off s) (\<lambda>r w g. up n g)"
  using assms up_weaken [OF assms(1)]
  by (auto simp: debug_mmap_def DebugCallsDisabled_def Let_def
      split: prod.splits option.splits dest!: is_dma_buf_fields
      intro!: guarded_wp wp_track [where n = n])
    (auto simp: up_def)

lemma debug_dump_heap_wp:
  fixes s :: "'w Proc"
  assumes "up n (g_debug s)"
  shows "wp (debug_dump_heap sys f s) (\<lambda>r w g. up n g \<and> ptrs g = ptrs (g_debug s))"
  unfolding debug_dump_heap_def
proof (rule guarded_wp)
  fix t :: "'w Proc" assume t: "world t = world s" "g_debug t = g_debug s"
  obtain d where d: "g_debug s = Some d" "TrackPointers d" "table_good (dd_config d) n (dd_pointer d)"
    using assms by (auto simp: up_def)
  obtain dmp where dmp: "DumpLiveToFile (dd_config d) (sys_demangle sys) (dd_pointer d) =
      Inr (dmp, dd_pointer d\<lparr>peak_list := []\<rparr>)"
    using dump_returns [OF d(3) [unfolded table_good_def]] by blast
  have "up n (Some (d\<lparr>dd_pointer := dd_pointer d\<lparr>peak_list := []\<rparr>\<rparr>))"
    using d by (simp add: up_def TrackPointers_def table_good_def)
  moreover have "tracked_in (dd_pointer d\<lparr>peak_list := []\<rparr>) = tracked_in (dd_pointer d)"
    by (simp add: tracked_in_def fun_eq_iff)
  ultimately show "wp (let (fd, w) = sys_open sys f (world t); s1 = t\<lparr>world := w\<rparr>
       in if fd = - 1 then Inr ((), s1)
          else (case g_debug s1 of
                  None \<Rightarrow> Inl Null_deref
                | Some d \<Rightarrow>
                    (case DumpLiveToFile (dd_config d) (sys_demangle sys) (dd_pointer d) of
                       Inl e \<Rightarrow> Inl e
                     | Inr (dmp, pd) \<Rightarrow>
                         Inr ((), s1\<lparr>g_debug := Some (d\<lparr>dd_pointer := pd\<rparr>),
                           world := snd (sys_close sys fd (sys_write_dump sys fd dmp (world s1)))\<rparr>))))
      (\<lambda>r w g. up n g \<and> ptrs g = ptrs (g_debug s))"
    using d dmp t assms by (cases "sys_open sys f (world t)") (simp add: ptrs_def Let_def)
qed

lemma wp_up: "wp m (\<lambda>r w g. up n g \<and> Q r w g) \<Longrightarrow> \<exists>s'. state_of m = Inr s' \<and> up n (g_debug s')"
  by (auto simp: wp_def state_of_def)

lemma wp_up_only: "wp m (\<lambda>r w g. up n g) \<Longrightarrow> \<exists>s'. state_of m = Inr s' \<and> up n (g_debug s')"
  by (auto simp: wp_def state_of_def)

lemma hooks_return:
  assumes "up (Suc n) (g_debug s)" "sane_sys sys"
  shows "\<exists>s'. run_hook sys c s = Inr s' \<and> up n (g_debug s')"
proof (cases "disable_key s \<and> (\<forall>f. c \<noteq> H_dump f)")
  case True
  then show ?thesis
    using up_weaken [OF assms(1)]
    by (cases c) (auto simp: state_of_def hook_defs debug_memalign_def DebugCallsDisabled_def
        call_sys_def Let_def case_prod_beta)
next
  case False
  note u = up_weaken [OF assms(1)]
  show ?thesis
  proof (cases "\<exists>f. c = H_dump f")
    case True
    then show ?thesis using wp_up [OF debug_dump_heap_wp [OF u]] by auto
  next
    case not_dump: False
    with False have nd: "\<not> disable_key s" by blast
    show ?thesis
      using not_dump
      by (cases c) (simp_all add: wp_up [OF debug_malloc_wp [OF assms nd]]
          wp_up [OF debug_free_wp [OF u nd]] wp_up [OF debug_realloc_wp [OF assms nd]]
          wp_up [OF debug_calloc_wp [OF assms nd]] wp_up [OF debug_memalign_wp [OF assms nd]]
          wp_up [OF debug_posix_memalign_wp [OF assms nd]] wp_up [OF debug_ioctl_wp [OF assms nd]]
          wp_up [OF debug_close_wp [OF u nd]] wp_up [OF debug_munmap_wp [OF u nd]]
          wp_up_only [OF debug_mmap64_wp [OF assms nd]] wp_up_only [OF debug_mmap_wp [OF assms nd]])
  qed
qed


section \<open>The table mirrors the heap\<close>

text \<open>
  What the C library documents of its allocator, with \<open>live w\<close> the blocks (address to requested
  size) that are allocated in the world \<open>w\<close>: an allocation returns null or a block that was not
  live, \<open>free\<close> releases its block, \<open>realloc\<close> replaces it or fails and keeps it.
\<close>

definition fresh_block ::
  "('w \<Rightarrow> u64 \<Rightarrow> u64 option) \<Rightarrow> u64 \<Rightarrow> 'w \<Rightarrow> u64 \<times> 'w \<Rightarrow> bool" where
  "fresh_block live n w r \<longleftrightarrow>
     (if fst r = 0 then live (snd r) = live w
      else live w (fst r) = None \<and> live (snd r) = (live w)(fst r \<mapsto> n))"

definition allocator_laws :: "'w Sys \<Rightarrow> ('w \<Rightarrow> u64 \<Rightarrow> u64 option) \<Rightarrow> bool" where
  "allocator_laws sys live \<longleftrightarrow>
     (\<forall>w n. fresh_block live n w (sys_malloc sys n w)) \<and>
     (\<forall>w n. fresh_block live n w (sys_calloc sys 1 n w)) \<and>
     (\<forall>w a n. fresh_block live n w (sys_memalign sys a n w)) \<and>
     (\<forall>w. live (sys_free sys 0 w) = live w) \<and>
     (\<forall>w p. p \<noteq> 0 \<longrightarrow> live w p \<noteq> None \<longrightarrow> live (sys_free sys p w) = (live w)(p := None)) \<and>
     (\<forall>w p n q w'. live w p \<noteq> None \<longrightarrow> n \<noteq> 0 \<longrightarrow> sys_realloc sys p n w = (q, w') \<longrightarrow>
        (if q = 0 then live w' = live w
         else (q = p \<or> live w q = None) \<and> live w' = ((live w)(p := None))(q \<mapsto> n))) \<and>
     (\<forall>e w. live (sys_set_errno sys e w) = live w)"

lemma allocator_lawsD:
  assumes "allocator_laws sys live"
  shows "fresh_block live n w (sys_malloc sys n w)" "fresh_block live n w (sys_calloc sys 1 n w)"
    "fresh_block live n w (sys_memalign sys a n w)" "live (sys_free sys 0 w) = live w"
    "p \<noteq> 0 \<Longrightarrow> live w p \<noteq> None \<Longrightarrow> live (sys_free sys p w) = (live w)(p := None)"
    "live w p \<noteq> None \<Longrightarrow> n \<noteq> 0 \<Longrightarrow> sys_realloc sys p n w = (q, w') \<Longrightarrow>
       (if q = 0 then live w' = live w
        else (q = p \<or> live w q = None) \<and> live w' = ((live w)(p := None))(q \<mapsto> n))"
    "live (sys_set_errno sys e w) = live w"
proof -
  note a = assms [unfolded allocator_laws_def]
  show "fresh_block live n w (sys_malloc sys n w)"
    using a [THEN conjunct1] by blast
  show "fresh_block live n w (sys_calloc sys 1 n w)"
    using a [THEN conjunct2, THEN conjunct1] by blast
  show "fresh_block live n w (sys_memalign sys a n w)"
    using a [THEN conjunct2, THEN conjunct2, THEN conjunct1] by blast
  show "live (sys_free sys 0 w) = live w"
    using a [THEN conjunct2, THEN conjunct2, THEN conjunct2, THEN conjunct1] by blast
  show "p \<noteq> 0 \<Longrightarrow> live w p \<noteq> None \<Longrightarrow> live (sys_free sys p w) = (live w)(p := None)"
    using a [THEN conjunct2, THEN conjunct2, THEN conjunct2, THEN conjunct2, THEN conjunct1] by blast
  show "live w p \<noteq> None \<Longrightarrow> n \<noteq> 0 \<Longrightarrow> sys_realloc sys p n w = (q, w') \<Longrightarrow>
       (if q = 0 then live w' = live w
        else (q = p \<or> live w q = None) \<and> live w' = ((live w)(p := None))(q \<mapsto> n))"
    using a [THEN conjunct2, THEN conjunct2, THEN conjunct2, THEN conjunct2, THEN conjunct2, THEN conjunct1] by blast
  show "live (sys_set_errno sys e w) = live w"
    using a [THEN conjunct2, THEN conjunct2, THEN conjunct2, THEN conjunct2, THEN conjunct2, THEN conjunct2] by blast
qed

definition mirrors :: "('w \<Rightarrow> u64 \<Rightarrow> u64 option) \<Rightarrow> 'w \<Rightarrow> DebugData option \<Rightarrow> bool" where
  "mirrors live w g \<longleftrightarrow> (\<forall>p sz. p \<noteq> 0 \<longrightarrow> (ptrs g p = Some (sz, HOST) \<longleftrightarrow> live w p = Some sz))"

lemma mirrors_fresh:
  assumes "mirrors live w g" "fresh_block live n w (p, w')" "ptrs g' = (ptrs g)(p \<mapsto> (n, HOST))"
  shows "mirrors live w' g'"
  using assms unfolding mirrors_def fresh_block_def by (auto split: if_splits)

lemma mirrors_same: "mirrors live w g \<Longrightarrow> live w' = live w \<Longrightarrow> ptrs g' = ptrs g \<Longrightarrow> mirrors live w' g'"
  by (simp add: mirrors_def)

lemma mirrors_gone:
  "mirrors live w g \<Longrightarrow> live w' = (live w)(p := None) \<Longrightarrow> ptrs g' = (ptrs g)(p := None) \<Longrightarrow> mirrors live w' g'"
  by (simp add: mirrors_def)

lemma mirrors_moved:
  "mirrors live w g \<Longrightarrow> live w' = ((live w)(p := None))(q \<mapsto> n) \<Longrightarrow>
     ptrs g' = ((ptrs g)(p := None))(q \<mapsto> (n, HOST)) \<Longrightarrow> mirrors live w' g'"
  by (auto simp: mirrors_def)

text \<open>An allocation that is entered unless it is null.\<close>

lemma mirrors_alloc:
  assumes "mirrors live w g" "fresh_block live n w (p, w')"
    and "if p = 0 then g' = g else ptrs g' = (ptrs g)(p \<mapsto> (n, HOST))"
  shows "mirrors live w' g'"
proof (cases "p = 0")
  case True
  then show ?thesis using assms by (auto simp: fresh_block_def intro: mirrors_same)
next
  case False
  then show ?thesis using mirrors_fresh [OF assms(1,2)] assms(3) by simp
qed

lemma entered_always: "never_skips sys \<Longrightarrow> entered sys m p sz ty m' \<longleftrightarrow> m' = m(p \<mapsto> (sz, ty))"
  by (simp add: entered_def)

text \<open>The calls a correct program makes of the heap, a failing \<open>realloc\<close> excepted.\<close>

fun legal_call :: "'w Sys \<Rightarrow> ('w \<Rightarrow> u64 \<Rightarrow> u64 option) \<Rightarrow> hook_call \<Rightarrow> 'w \<Rightarrow> bool" where
  "legal_call sys live (H_malloc n) w = True"
| "legal_call sys live (H_free p) w = (p = 0 \<or> live w p \<noteq> None)"
| "legal_call sys live (H_realloc p n) w =
     (p = 0 \<or> live w p \<noteq> None \<and> (n = 0 \<or> n > MaxSize \<or> fst (sys_realloc sys p n w) \<noteq> 0))"
| "legal_call sys live (H_calloc m n) w = True"
| "legal_call sys live (H_memalign a n) w = True"
| "legal_call sys live (H_posix_memalign a n) w = True"
| "legal_call sys live _ w = False"

lemma wp_state_of: "wp m Q \<Longrightarrow> state_of m = Inr s' \<Longrightarrow> \<exists>r. Q r (world s') (g_debug s')"
  by (auto simp: wp_def state_of_def)

lemma mirror_step:
  fixes s :: "'w Proc"
  assumes ctx: "up (Suc n) (g_debug s)" "sane_sys sys" "\<not> disable_key s"
    and skip: "never_skips sys" and laws: "allocator_laws sys live"
    and m: "mirrors live (world s) (g_debug s)" and legal: "legal_call sys live c (world s)"
    and run: "run_hook sys c s = Inr s'"
  shows "mirrors live (world s') (g_debug s')"
proof (cases c)
  case (H_malloc sz)
  with run wp_state_of [OF debug_malloc_wp [OF ctx, of sz]] obtain p where
    "if sz > MaxSize then p = 0 \<and> world s' = sys_set_errno sys ENOMEM (world s) \<and> g_debug s' = g_debug s
     else sys_malloc sys sz (world s) = (p, world s') \<and>
       entered sys (ptrs (g_debug s)) p sz HOST (ptrs (g_debug s'))" by auto
  then show ?thesis
    using allocator_lawsD(1,7) [OF laws] m
    by (auto simp: entered_always [OF skip] split: if_splits intro: mirrors_same)
      (metis mirrors_fresh)
next
  case (H_free p)
  with run wp_state_of [OF debug_free_wp [OF ctx(1,3), of sys p]]
  have "world s' = sys_free sys p (world s)"
    "ptrs (g_debug s') = (if p = 0 then ptrs (g_debug s) else (ptrs (g_debug s))(p := None))" by auto
  then show ?thesis
    using allocator_lawsD(4,5) [OF laws] m legal H_free
    by (auto intro: mirrors_same mirrors_gone split: if_splits)
next
  case (H_realloc p sz)
  with run wp_state_of [OF debug_realloc_wp [OF ctx, of p sz]] obtain q where q:
    "if p = 0 then sys_malloc sys sz (world s) = (q, world s') \<and>
       entered sys (ptrs (g_debug s)) q sz HOST (ptrs (g_debug s'))
     else if sz = 0 then q = 0 \<and> world s' = sys_free sys p (world s) \<and>
       ptrs (g_debug s') = (ptrs (g_debug s))(p := None)
     else if sz > MaxSize then q = 0 \<and> world s' = sys_set_errno sys ENOMEM (world s) \<and> g_debug s' = g_debug s
     else sys_realloc sys p sz (world s) = (q, world s') \<and>
       entered sys ((ptrs (g_debug s))(p := None)) q sz HOST (ptrs (g_debug s'))" by auto
  consider "p = 0" | "p \<noteq> 0" "sz = 0" | "p \<noteq> 0" "sz \<noteq> 0" "sz > MaxSize"
    | "p \<noteq> 0" "sz \<noteq> 0" "\<not> sz > MaxSize" by blast
  then show ?thesis
  proof cases
    case 1
    then show ?thesis
      using q mirrors_fresh [OF m, of sz q "world s'" "g_debug s'"]
        allocator_lawsD(1) [OF laws, of sz "world s"]
      by (simp add: entered_always [OF skip])
  next
    case 2
    then show ?thesis
      using q allocator_lawsD(5) [OF laws, of p "world s"]
        mirrors_gone [OF m, of "world s'" p "g_debug s'"] legal H_realloc by simp
  next
    case 3
    then show ?thesis using q allocator_lawsD(7) [OF laws] m by (auto intro: mirrors_same)
  next
    case 4
    then have "live (world s) p \<noteq> None" "q \<noteq> 0" using legal H_realloc q by auto
    with 4 q allocator_lawsD(6) [OF laws this(1), of sz q "world s'"]
      mirrors_moved [OF m, of "world s'" p q sz "g_debug s'"] show ?thesis
      by (simp add: entered_always [OF skip])
  qed
next
  case (H_calloc a b)
  with run wp_state_of [OF debug_calloc_wp [OF ctx, of a b]] obtain p where
    "case mul_overflow a b of
        None \<Rightarrow> p = 0 \<and> world s' = sys_set_errno sys ENOMEM (world s) \<and> g_debug s' = g_debug s
      | Some sz \<Rightarrow> sys_calloc sys 1 sz (world s) = (p, world s') \<and>
          (if p = 0 then g_debug s' = g_debug s
           else entered sys (ptrs (g_debug s)) p sz HOST (ptrs (g_debug s')))" by auto
  then show ?thesis
    using allocator_lawsD(7) [OF laws] m
      mirrors_alloc [OF m, of "the (mul_overflow a b)" p "world s'" "g_debug s'"]
      allocator_lawsD(2) [OF laws, of "the (mul_overflow a b)" "world s"]
    by (cases "mul_overflow a b"; cases "p = 0") (auto simp: entered_always [OF skip] intro: mirrors_same)
next
  case (H_memalign a sz)
  with run wp_state_of [OF debug_memalign_wp [OF ctx, of a sz]] obtain p where
    "if sz > MaxSize then p = 0 \<and> world s' = sys_set_errno sys ENOMEM (world s) \<and> g_debug s' = g_debug s
      else sys_memalign sys a sz (world s) = (p, world s') \<and>
          (if p = 0 then g_debug s' = g_debug s
           else entered sys (ptrs (g_debug s)) p sz HOST (ptrs (g_debug s')))" by auto
  then show ?thesis
    using allocator_lawsD(7) [OF laws] m
      mirrors_alloc [OF m, of sz p "world s'" "g_debug s'"] allocator_lawsD(3) [OF laws, of sz "world s" a]
    by (cases "sz > MaxSize"; cases "p = 0") (auto simp: entered_always [OF skip] intro: mirrors_same)
next
  case (H_posix_memalign a sz)
  with run wp_state_of [OF debug_posix_memalign_wp [OF ctx, of a sz]] obtain p w' where
    "if a < 8 \<or> \<not> powerof2 a then world s' = world s \<and> g_debug s' = g_debug s
     else world s' = sys_set_errno sys (sys_errno sys (world s)) w' \<and>
       (if sz > MaxSize then p = 0 \<and> w' = sys_set_errno sys ENOMEM (world s) \<and> g_debug s' = g_debug s
        else sys_memalign sys a sz (world s) = (p, w') \<and>
          (if p = 0 then g_debug s' = g_debug s
           else entered sys (ptrs (g_debug s)) p sz HOST (ptrs (g_debug s'))))"
    by (cases "a < 8 \<or> \<not> powerof2 a") auto
  moreover have "mirrors live (sys_set_errno sys (sys_errno sys (world s)) w') (g_debug s') =
      mirrors live w' (g_debug s')" for w'
    by (simp add: mirrors_def allocator_lawsD(7) [OF laws])
  ultimately show ?thesis
    using allocator_lawsD(7) [OF laws] m
      mirrors_alloc [OF m, of sz p w' "g_debug s'"] allocator_lawsD(3) [OF laws, of sz "world s" a]
    by (cases "a < 8 \<or> \<not> powerof2 a"; cases "sz > MaxSize"; cases "p = 0")
      (auto simp: entered_always [OF skip] intro: mirrors_same)
qed (use legal in auto)


fun run_hooks :: "'w Sys \<Rightarrow> hook_call list \<Rightarrow> 'w Proc \<Rightarrow> fault + 'w Proc" where
  "run_hooks sys [] s = Inr s"
| "run_hooks sys (c # cs) s =
     (case run_hook sys c s of Inl e \<Rightarrow> Inl e | Inr s' \<Rightarrow> run_hooks sys cs s')"

fun legal_run :: "'w Sys \<Rightarrow> ('w \<Rightarrow> u64 \<Rightarrow> u64 option) \<Rightarrow> hook_call list \<Rightarrow> 'w Proc \<Rightarrow> bool" where
  "legal_run sys live [] s = True"
| "legal_run sys live (c # cs) s =
     (legal_call sys live c (world s) \<and>
      (case run_hook sys c s of Inl e \<Rightarrow> True | Inr s' \<Rightarrow> legal_run sys live cs s'))"


text \<open>
  When the C library's \<open>realloc\<close> fails, it keeps the block, but the table forgets
  it: the block is live and no longer tracked, and the null pointer is tracked with the size
  that was asked for.
\<close>

theorem failed_realloc_loses_block:
  assumes "up (Suc n) (g_debug s)" "sane_sys sys" "never_skips sys" "allocator_laws sys live"
    and "\<not> disable_key s"
    and "p \<noteq> 0" "sz \<noteq> 0" "sz \<le> MaxSize" "live (world s) p = Some m"
    and "fst (sys_realloc sys p sz (world s)) = 0"
  shows "\<exists>s'. debug_realloc sys p sz s = Inr (0, s') \<and> live (world s') p = Some m \<and>
     ptrs (g_debug s') p = None \<and> ptrs (g_debug s') 0 = Some (sz, HOST)"
proof -
  have "\<not> sz > MaxSize" using assms(8) by simp
  with debug_realloc_wp [OF assms(1,2,5), of p sz] assms(6,7) obtain q s'
    where r: "debug_realloc sys p sz s = Inr (q, s')" "sys_realloc sys p sz (world s) = (q, world s')"
      "ptrs (g_debug s') = ((ptrs (g_debug s))(p := None))(q \<mapsto> (sz, HOST))"
    by (auto simp: wp_def entered_always [OF assms(3)])
  then have "q = 0" using assms(10) by simp
  moreover have "live (world s') = live (world s)"
    using allocator_lawsD(6) [OF assms(4) _ assms(7) r(2)] assms(9) \<open>q = 0\<close> by simp
  ultimately show ?thesis using r assms(6,9) by simp
qed

section \<open>Device buffers are counted once\<close>

text \<open>The inode \<open>is_dma_buf\<close> finds for a descriptor that is a DMA buffer.\<close>

definition dma_inode :: "'w Sys \<Rightarrow> int \<Rightarrow> 'w \<Rightarrow> u64 option" where
  "dma_inode sys fd w =
     (case sys_fdinfo sys fd w of
        None \<Rightarrow> None
      | Some ls \<Rightarrow>
          (let st = read_fdinfo ls \<lparr>is_dmabuf_file = False, fi_inode = u64_max, fi_size = 0\<rparr> in
           if \<not> is_dmabuf_file st then None
           else if fi_inode st = u64_max then sys_stat_ino sys fd w else Some (fi_inode st)))"

lemma read_fdinfo_size:
  "is_dmabuf_file (read_fdinfo ls (st\<lparr>fi_size := n\<rparr>)) = is_dmabuf_file (read_fdinfo ls st)"
  "fi_inode (read_fdinfo ls (st\<lparr>fi_size := n\<rparr>)) = fi_inode (read_fdinfo ls st)"
proof -
  have "is_dmabuf_file (read_fdinfo ls st) = is_dmabuf_file (read_fdinfo ls st') \<and>
      fi_inode (read_fdinfo ls st) = fi_inode (read_fdinfo ls st')"
    if "is_dmabuf_file st = is_dmabuf_file st'" "fi_inode st = fi_inode st'" for st st'
    using that
  proof (induction ls arbitrary: st st')
    case (Cons l ls)
    show ?case unfolding read_fdinfo.simps by (rule Cons.IH) (use Cons.prems in auto)
  qed simp
  from this [of "st\<lparr>fi_size := n\<rparr>" st]
  show "is_dmabuf_file (read_fdinfo ls (st\<lparr>fi_size := n\<rparr>)) = is_dmabuf_file (read_fdinfo ls st)"
    "fi_inode (read_fdinfo ls (st\<lparr>fi_size := n\<rparr>)) = fi_inode (read_fdinfo ls st)"
    by simp_all
qed

lemma is_dma_buf_cases:
  "is_dma_buf sys fd n s = (b, n', s') \<Longrightarrow>
     (case dma_inode sys fd (world s) of
        None \<Rightarrow> \<not> b \<and> s' = s
      | Some i \<Rightarrow> b = (i \<notin> inode_set s) \<and> s' = s\<lparr>inode_set := insert i (inode_set s)\<rparr>)"
  using read_fdinfo_size [where st = "\<lparr>is_dmabuf_file = False, fi_inode = u64_max, fi_size = 0\<rparr>" and n = n]
  by (auto simp: is_dma_buf_def dma_inode_def Let_def split: option.splits if_splits)


text \<open>An inode that has been counted stays counted; a body keeps it.\<close>

definition counted :: "u64 \<Rightarrow> 'w Proc \<Rightarrow> bool" where
  "counted i s \<longleftrightarrow> i \<in> inode_set s"

definition keeps_counted :: "u64 \<Rightarrow> ('w, 'a) op \<Rightarrow> bool" where
  "keeps_counted i f \<longleftrightarrow> (\<forall>s r s'. f s = Inr (r, s') \<longrightarrow> counted i s \<longrightarrow> counted i s')"

lemma keeps_countedI:
  "(\<And>s r s'. f s = Inr (r, s') \<Longrightarrow> counted i s \<Longrightarrow> counted i s') \<Longrightarrow> keeps_counted i f"
  by (simp add: keeps_counted_def)

lemma counted_simps [simp]:
  "counted i (s\<lparr>world := w\<rparr>) = counted i s" "counted i (s\<lparr>g_debug := g\<rparr>) = counted i s"
  "counted i (s\<lparr>gpu_ioctl_alloc := b\<rparr>) = counted i s" "counted i (set_errno sys e s) = counted i s"
  by (simp_all add: counted_def set_errno_def)

lemma guarded_counted:
  assumes "guarded body s = Inr (r, s')" "keeps_counted i body" "counted i s"
  shows "counted i s'"
proof -
  from assms(1) obtain s1 t where s1: "s1 = (if disable_key s then rwlock_rdlock s
      else (rwlock_rdlock s)\<lparr>disable_key := True\<rparr>)" and t: "body s1 = Inr (r, t)"
    and s': "s' = rwlock_unlock (if disable_key s then t else t\<lparr>disable_key := False\<rparr>)"
    by (rule guarded_Inr)
  have "counted i s1" using assms(3) by (simp add: s1 counted_def rwlock_rdlock_def)
  then have "counted i t" using assms(2) t by (auto simp: keeps_counted_def)
  then show ?thesis by (simp add: s' counted_def rwlock_unlock_def)
qed

lemma track_counted: "track sys p n ty s = Inr s' \<Longrightarrow> counted i s' = counted i s"
  by (auto simp: track_def split: option.splits sum.splits if_splits)

lemma untrack_counted: "untrack p s = Inr s' \<Longrightarrow> counted i s' = counted i s"
  by (auto simp: untrack_def split: option.splits if_splits)

lemma is_dma_buf_counted: "is_dma_buf sys fd n s = (b, n', s') \<Longrightarrow> counted i s \<Longrightarrow> counted i s'"
  by (drule is_dma_buf_cases) (auto simp: counted_def split: option.splits)

lemma handle_dma_node_counted:
  "handle_dma_node sys q a fd n s = (b, fd', n', s') \<Longrightarrow> counted i s \<Longrightarrow> counted i s'"
  by (auto simp: handle_dma_node_def Let_def split: if_splits prod.splits dest: is_dma_buf_counted)

lemma is_dma_buf_kept: "is_dma_buf sys fd n s = (b, n', s') \<Longrightarrow> counted i s \<longrightarrow> counted i s'"
  using is_dma_buf_counted by blast

lemma handle_dma_node_kept:
  "handle_dma_node sys q a fd n s = (b, fd', n', s') \<Longrightarrow> counted i s \<longrightarrow> counted i s'"
  using handle_dma_node_counted by blast

lemma InternalMalloc_counted: "InternalMalloc sys n s = Inr (r, s') \<Longrightarrow> counted i s' = counted i s"
  by (auto simp: InternalMalloc_def Let_def track_counted split: prod.splits sum.splits)

lemma InternalFree_counted: "InternalFree sys p s = Inr (r, s') \<Longrightarrow> counted i s' = counted i s"
  by (auto simp: InternalFree_def untrack_counted split: sum.splits)

lemma call_sys_counted: "call_sys f s = Inr (r, s') \<Longrightarrow> counted i s' = counted i s"
  by (auto simp: call_sys_def split: prod.splits)

lemmas body_counted = track_counted untrack_counted InternalMalloc_counted InternalFree_counted
  call_sys_counted

lemma debug_memalign_counted:
  "debug_memalign sys a n s = Inr (r, s') \<Longrightarrow> counted i s \<Longrightarrow> counted i s'"
  unfolding debug_memalign_def
  by (auto simp: Let_def body_counted intro!: keeps_countedI elim!: guarded_counted
      split: if_splits prod.splits sum.splits)

lemma run_hook_counted:
  assumes "run_hook sys c s = Inr s'" "counted i s"
  shows "counted i s'"
  using assms
  by (cases c) (auto simp: state_of_def hook_defs Let_def body_counted
      intro!: keeps_countedI elim!: guarded_counted
      split: if_splits sum.splits prod.splits option.splits
      dest: debug_memalign_counted dest!: handle_dma_node_kept is_dma_buf_kept)

lemma run_hooks_counted: "run_hooks sys cs s = Inr s' \<Longrightarrow> counted i s \<Longrightarrow> counted i s'"
  by (induction cs arbitrary: s) (auto split: sum.splits dest: run_hook_counted)

text \<open>
  Property C20. A DMA buffer is entered once: after \<open>is_dma_buf\<close> has accepted a descriptor, no
  later run of calls makes it accept a descriptor of the same inode again.
\<close>

theorem dma_buffer_counted_once:
  assumes "is_dma_buf sys fd n s = (True, n1, s1)" "dma_inode sys fd (world s) = Some i"
    and "run_hooks sys cs s1 = Inr t" "dma_inode sys fd' (world t) = Some i"
  shows "\<exists>n2. is_dma_buf sys fd' k t = (False, n2, t)"
proof -
  have "counted i s1" using is_dma_buf_cases [OF assms(1)] assms(2) by (simp add: counted_def)
  then have c: "counted i t" by (rule run_hooks_counted [OF assms(3)])
  obtain b n2 t' where b: "is_dma_buf sys fd' k t = (b, n2, t')" by (metis prod_cases3)
  then show ?thesis
    using is_dma_buf_cases [OF b] assms(4) c
    by (simp add: counted_def insert_absorb)
qed

section \<open>Start and end of the process\<close>

lemma debug_initialize_up:
  assumes "debug_initialize sys storage s = (True, s')"
  shows "up (2 ^ 64 - 3) (g_debug s') \<and> ptrs (g_debug s') = Map.empty \<and>
     \<not> disable_key s' \<and> readers s' = 0 \<and> \<not> writing s' \<and>
     (\<exists>w. map_option dd_config (g_debug s') = Some (snd (Init (sys_getenv sys w) Config_default)))"
proof -
  let ?g = "\<lambda>w. \<lparr>dd_config = snd (Init (sys_getenv sys w) Config_default), dd_pointer = Initialize storage\<rparr>"
  have ok: "fst (Init g c) = True" for g c by (simp add: Init_def Let_def case_prod_beta)
  obtain w where g: "g_debug s' = Some (?g w)" and f: "\<not> disable_key s'" "readers s' = 0" "\<not> writing s'"
    using assms ok
    by (fastforce simp: debug_initialize_def DebugDisableInitialize_def DebugData_Initialize_def Let_def
        case_prod_beta split: if_splits)
  have "TrackPointers (?g w)"
    using Init_has_option(2) by (simp add: TrackPointers_def)
  moreover have "ptrs (Some (?g w)) = Map.empty"
    by (simp add: ptrs_def tracked_in_def Initialize_def fun_eq_iff)
  ultimately show ?thesis
    using g f table_inv_Initialize by (auto simp: up_def table_good_def)
qed

text \<open>
  A successful start leaves the thread enabled and the lock free, the
  configuration \<open>Config::Init\<close> reads from the environment, tracking switched on, and an empty
  table with room for \<open>2^64 - 3\<close> entries.
\<close>

theorem debug_initialize_starts:
  assumes "debug_initialize sys storage s = (True, s')"
  shows "up (2 ^ 64 - 3) (g_debug s') \<and> ptrs (g_debug s') = Map.empty \<and>
     \<not> disable_key s' \<and> readers s' = 0 \<and> \<not> writing s' \<and>
     (\<exists>w. map_option dd_config (g_debug s') = Some (snd (Init (sys_getenv sys w) Config_default)))"
  using assms by (rule debug_initialize_up)

text \<open>
  At the end of the process all calls of the thread are disabled. The exclusive
  lock taken to block all other threads is still held exactly when no dump was written on exit:
  the dump's own scoped lock releases it.
\<close>

theorem debug_finalize_lock:
  assumes "up n (g_debug s)" "readers s = 0" "g_debug s = Some d"
  shows "\<exists>s'. debug_finalize sys s = Inr ((), s') \<and> disable_key s' \<and> up n (g_debug s') \<and>
     (writing s' \<longleftrightarrow> \<not> (has_option (dd_config d) BACKTRACE \<and> backtrace_dump_on_exit (dd_config d)))"
proof -
  let ?s1 = "s\<lparr>writing := True, disable_key := True\<rparr>"
  let ?f = "dump_name d ''.exit.'' (sys_time sys (world s))"
  have s1: "DebugDisableSet True (BlockAllOperations s) = ?s1"
    using assms(2) by (simp add: DebugDisableSet_def BlockAllOperations_def)
  have up1: "up n (g_debug ?s1)" using assms(1) by simp
  obtain s2 where s2: "debug_dump_heap sys ?f ?s1 = Inr ((), s2)" "up n (g_debug s2)"
    using debug_dump_heap_wp [OF up1, of sys ?f] by (auto simp: wp_def)
  from s2(1) have "disable_key s2 \<and> \<not> writing s2"
    unfolding debug_dump_heap_def
    by (elim guarded_Inr) (auto simp: rwlock_rdlock_def rwlock_unlock_def Let_def
        split: if_splits prod.splits option.splits sum.splits)
  with s2 assms show ?thesis
    by (cases "has_option (dd_config d) BACKTRACE \<and> backtrace_dump_on_exit (dd_config d)")
      (auto simp: debug_finalize_def s1 up_def split: option.splits)
qed

text \<open>
  \<open>debug_posix_memalign\<close> answers with the documented codes and leaves \<open>errno\<close> as it
  was: \<open>EINVAL\<close> and nothing stored for an alignment below 8 or not a power of two, otherwise 0
  or \<open>ENOMEM\<close> according to the pointer it stored.
\<close>

theorem posix_memalign_codes:
  assumes "up (Suc n) (g_debug s)" "sane_sys sys" "\<not> disable_key s"
    and "\<And>e w. sys_errno sys (sys_set_errno sys e w) = e"
  shows "\<exists>code stored s'. debug_posix_memalign sys a sz s = Inr ((code, stored), s') \<and>
     sys_errno sys (world s') = sys_errno sys (world s) \<and>
     (code = EINVAL \<and> stored = None \<longleftrightarrow> a < 8 \<or> \<not> powerof2 a) \<and>
     (\<not> (a < 8 \<or> \<not> powerof2 a) \<longrightarrow>
        (\<exists>p. stored = Some p \<and> (code = 0 \<and> p \<noteq> 0 \<or> code = ENOMEM \<and> p = 0)))"
  using debug_posix_memalign_wp [OF assms(1-3), of a sz] assms(4)
  by (auto simp: wp_def split: if_splits)

end
