(* ===== verification/MallocSamples.thy ===== *)
theory MallocSamples
  imports MallocDebugProps
begin

text \<open>
  A concrete C library and process that the theorems of \<open>MallocDebugProps\<close> are applied to: an
  allocator with one block, a \<open>realloc\<close> that fails above 1000 bytes, and two descriptors of one
  DMA buffer.
\<close>

record sample_world =
  sw_live :: "u64 \<Rightarrow> u64 option"
  sw_errno :: int

definition sample_alloc :: "u64 \<Rightarrow> sample_world \<Rightarrow> u64 \<times> sample_world" where
  "sample_alloc n w =
     (if sw_live w 4096 = None then (4096, w\<lparr>sw_live := (sw_live w)(4096 \<mapsto> n)\<rparr>) else (0, w))"

definition sample_realloc :: "u64 \<Rightarrow> u64 \<Rightarrow> sample_world \<Rightarrow> u64 \<times> sample_world" where
  "sample_realloc p n w =
     (if p = 0 \<or> n > 1000 then (0, w) else (p, w\<lparr>sw_live := (sw_live w)(p \<mapsto> n)\<rparr>))"

definition sample_sys :: "sample_world Sys" where
  "sample_sys = \<lparr>
     sys_malloc = sample_alloc,
     sys_free = (\<lambda>p w. if p = 0 then w else w\<lparr>sw_live := (sw_live w)(p := None)\<rparr>),
     sys_calloc = (\<lambda>m n. sample_alloc (m * n)),
     sys_realloc = sample_realloc,
     sys_memalign = (\<lambda>a. sample_alloc),
     sys_posix_memalign = (\<lambda>a n w. ((ENOMEM, None), w)),
     sys_mmap = (\<lambda>a n pr fl fd off w. (u64_max, w)),
     sys_munmap = (\<lambda>a n w. (0, w)),
     sys_ioctl = (\<lambda>fd r a w. (0, w)),
     sys_close = (\<lambda>fd w. (0, w)),
     sys_open = (\<lambda>f w. (3, w)),
     sys_write_dump = (\<lambda>fd d w. w),
     sys_write_peak = (\<lambda>p w. w),
     sys_fdinfo = (\<lambda>fd w. if fd = 5 \<or> fd = 6 then Some [''ino:7'', ''size:64'', ''exp_name:a''] else None),
     sys_stat_ino = (\<lambda>fd w. None),
     sys_arg_fd = (\<lambda>a w. 5),
     sys_unwind = (\<lambda>w n. Inr (ERROR_UNWIND_INFO, [], [])),
     sys_demangle = (\<lambda>s. None),
     sys_gettimeofday = (\<lambda>w. sample_time),
     sys_time = (\<lambda>w. 0),
     sys_getenv = (\<lambda>w n. None),
     sys_key_create = (\<lambda>w. (0, w)),
     sys_sigaction = (\<lambda>n w. (0, w)),
     sys_errno = sw_errno,
     sys_set_errno = (\<lambda>e w. w\<lparr>sw_errno := e\<rparr>)\<rparr>"

definition sample_debug :: DebugData where
  "sample_debug = \<lparr>dd_config = Config_default\<lparr>options := TRACK_ALLOCS\<rparr>, dd_pointer = sample_table\<rparr>"

definition sample_proc :: "sample_world Proc" where
  "sample_proc = \<lparr>world = \<lparr>sw_live = Map.empty, sw_errno = 0\<rparr>, g_debug = Some sample_debug,
     disable_key = False, gpu_ioctl_alloc = False, inode_set = {}, readers = 0, writing = False\<rparr>"

lemma sample_laws: "allocator_laws sample_sys sw_live"
  by (auto simp: allocator_laws_def fresh_block_def sample_sys_def sample_alloc_def sample_realloc_def
      split: if_splits)

lemma sample_sane: "sane_sys sample_sys" "never_skips sample_sys"
  by (simp_all add: sane_sys_def never_skips_def sample_sys_def)

lemma up_mono: "up n g \<Longrightarrow> m \<le> n \<Longrightarrow> up m g"
  unfolding up_def table_good_def table_inv_def using room_mono by auto

lemma sample_up: "up (2 ^ 64 - 3) (g_debug sample_proc)"
  using sample_inv
  by (simp add: up_def sample_proc_def sample_debug_def table_good_def TrackPointers_def has_option_def
      option_bits)

lemma sample_up_small: "up (Suc 0) (g_debug sample_proc)" "up 2 (g_debug sample_proc)"
  using up_mono [OF sample_up] by simp_all

lemma sample_fields [simp]:
  "disable_key sample_proc = False" "writing sample_proc = False" "readers sample_proc = 0"
  "world sample_proc = \<lparr>sw_live = Map.empty, sw_errno = 0\<rparr>" "inode_set sample_proc = {}"
  by (simp_all add: sample_proc_def)

lemma sample_ptrs [simp]: "ptrs (g_debug sample_proc) = Map.empty"
  by (simp add: ptrs_def sample_proc_def sample_debug_def tracked_in_def sample_table_def
      Initialize_def fun_eq_iff)

section \<open>Witnesses\<close>

lemma sample_malloc_returns: "\<exists>s'. run_hook sample_sys (H_malloc 16) sample_proc = Inr s' \<and> up 0 (g_debug s')"
  by (rule hooks_return [OF sample_up_small(1) sample_sane(1)])

lemma hooks_balanced_witness:
  "\<exists>s'. run_hook sample_sys (H_malloc 16) sample_proc = Inr s' \<and> readers s' = 0 \<and> \<not> disable_key s'"
proof -
  obtain s' where s': "run_hook sample_sys (H_malloc 16) sample_proc = Inr s'"
    using sample_malloc_returns by blast
  with hooks_balanced [OF this] show ?thesis by simp
qed




text \<open>A process in which the block at 4096 has been allocated and is tracked.\<close>

lemma sample_with_block:
  "\<exists>s. run_hook sample_sys (H_malloc 16) sample_proc = Inr s \<and> up 1 (g_debug s) \<and> \<not> disable_key s \<and>
     world s = \<lparr>sw_live = [4096 \<mapsto> 16], sw_errno = 0\<rparr>"
proof -
  obtain s where s: "run_hook sample_sys (H_malloc 16) sample_proc = Inr s" "up 1 (g_debug s)"
    using hooks_return [of 1 sample_proc sample_sys "H_malloc 16"] sample_up_small(2) sample_sane(1)
    by (auto simp: numeral_2_eq_2)
  have "\<not> (16 > MaxSize)" by (simp add: word_less_nat_alt unat_MaxSize)
  then have "sys_malloc sample_sys 16 (world sample_proc) = (4096, world s)"
    using wp_state_of [OF debug_malloc_wp [OF sample_up_small(1) sample_sane(1), of 16]] s(1)
    by (auto simp: sample_sys_def sample_alloc_def)
  then show ?thesis
    using s guards_kept [OF s(1)] by (auto simp: sample_sys_def sample_alloc_def)
qed

lemma failed_realloc_loses_block_witness:
  "\<exists>s s'. debug_realloc sample_sys 4096 2000 s = Inr (0, s') \<and>
     sw_live (world s') 4096 = Some 16 \<and> ptrs (g_debug s') 4096 = None"
proof -
  obtain s :: "sample_world Proc" where s: "up (Suc 0) (g_debug s)" "\<not> disable_key s" "world s = \<lparr>sw_live = [4096 \<mapsto> 16], sw_errno = 0\<rparr>"
    using sample_with_block by auto
  have "2000 \<le> MaxSize" by (simp add: word_le_nat_alt unat_MaxSize)
  with failed_realloc_loses_block [OF s(1) sample_sane sample_laws s(2), of 4096 2000 16] s(3)
  show ?thesis by (auto simp: sample_sys_def sample_realloc_def)
qed

lemma sample_inode: "dma_inode sample_sys 5 w = Some 7" "dma_inode sample_sys 6 w = Some 7"
  by (simp_all add: dma_inode_def sample_sys_def has_prefix_def strtoull10_def
      c_isspace_def c_isdigit_def Let_def)

lemma dma_buffer_counted_once_witness:
  "\<exists>n s1 m. is_dma_buf sample_sys 5 0 sample_proc = (True, n, s1) \<and>
     is_dma_buf sample_sys 6 0 s1 = (False, m, s1)"
proof -
  obtain b n s1 where b: "is_dma_buf sample_sys 5 0 sample_proc = (b, n, s1)" by (metis prod_cases3)
  then have "b" using is_dma_buf_cases [OF b] sample_inode by simp
  with dma_buffer_counted_once [of sample_sys 5 0 sample_proc n s1 7 "[]" s1 6 0] b sample_inode
  show ?thesis by auto
qed

lemma debug_initialize_starts_witness:
  "\<exists>s'. debug_initialize sample_sys sample_blank sample_proc = (True, s') \<and> up (2 ^ 64 - 3) (g_debug s')"
proof -
  have "fst (debug_initialize sample_sys sample_blank sample_proc)"
    by (simp add: debug_initialize_def DebugDisableInitialize_def DebugData_Initialize_def Init_def
        sample_sys_def Let_def case_prod_beta)
  then obtain s' where "debug_initialize sample_sys sample_blank sample_proc = (True, s')"
    by (metis prod.collapse)
  with debug_initialize_starts [OF this] show ?thesis by blast
qed

lemma debug_finalize_lock_witness:
  "\<exists>s'. debug_finalize sample_sys sample_proc = Inr ((), s') \<and> writing s'"
proof -
  have g: "g_debug sample_proc = Some sample_debug" by (simp add: sample_proc_def)
  have "\<not> has_option (dd_config sample_debug) BACKTRACE"
    by (simp add: sample_debug_def has_option_def option_bits)
  with debug_finalize_lock [OF sample_up _ g, of sample_sys] show ?thesis by auto
qed

lemma posix_memalign_codes_witness:
  "\<exists>stored s'. debug_posix_memalign sample_sys 12 16 sample_proc = Inr ((EINVAL, stored), s')"
proof -
  have "sys_errno sample_sys (sys_set_errno sample_sys e w) = e" for e w by (simp add: sample_sys_def)
  moreover have "\<not> powerof2 12" by (simp add: powerof2_def)
  ultimately show ?thesis
    using posix_memalign_codes [OF sample_up_small(1) sample_sane(1), of 12 16] by auto
qed

end
