(* ===== verification/AllocHook.thy ===== *)
theory AllocHook
  imports MallocSamples
begin

text \<open>
  The interposed C functions of \<open>src/alloc_hook.cpp\<close>: each resolves the C library's function,
  and then calls it directly while the hook is being set up (for the mapping functions also
  before the program's constructors have run), or hands over to the instrumented function of the
  one \<open>AllocHook\<close> object, which the first such call constructs.
\<close>

section \<open>State\<close>

text \<open>
  \<open>m_sys\<close> holds the names whose \<open>m_sys_\<close> pointer is set; \<open>dlsym_has\<close> says which names
  \<open>dlopen\<close> and \<open>dlsym\<close> find. \<open>hook_built\<close> is the guard of the function-local static object.
\<close>

record 'w Hook =
  hk_proc :: "'w Proc"
  m_sys :: "string set"
  allocHook_setup :: bool
  in_preinit_phase :: bool
  hook_built :: bool

type_synonym ('w, 'a) hook_op = "'w Hook \<Rightarrow> fault + 'a \<times> 'w Hook"

definition RESOLVE :: "(string \<Rightarrow> bool) \<Rightarrow> string \<Rightarrow> 'w Hook \<Rightarrow> 'w Hook" where
  "RESOLVE dlsym_has name h =
     (if name \<notin> m_sys h \<and> dlsym_has name then h\<lparr>m_sys := insert name (m_sys h)\<rparr> else h)"

text \<open>A call of a function of the process, and one through an \<open>m_sys_\<close> pointer.\<close>

definition on_proc :: "('w, 'a) op \<Rightarrow> ('w, 'a) hook_op" where
  "on_proc f h =
     (case f (hk_proc h) of Inl e \<Rightarrow> Inl e | Inr (r, s) \<Rightarrow> Inr (r, h\<lparr>hk_proc := s\<rparr>))"

definition through :: "string \<Rightarrow> ('w \<Rightarrow> 'a \<times> 'w) \<Rightarrow> ('w, 'a) hook_op" where
  "through name f h = (if name \<notin> m_sys h then Inl Null_deref else on_proc (call_sys f) h)"

text \<open>
  \<open>AllocHook::AllocHook\<close> (the result of \<open>debug_initialize\<close> is dropped) and \<open>AllocHook::inst\<close>:
  entering the initialisation of the static object again while it runs is undefined.
\<close>

definition AllocHook_construct :: "'w Sys \<Rightarrow> PointerData \<Rightarrow> 'w Hook \<Rightarrow> 'w Hook" where
  "AllocHook_construct sys storage h =
     (let h1 = h\<lparr>allocHook_setup := True\<rparr>;
          h2 = h1\<lparr>hk_proc := snd (debug_initialize sys storage (hk_proc h1))\<rparr>
      in h2\<lparr>allocHook_setup := False\<rparr>)"

definition inst :: "'w Sys \<Rightarrow> PointerData \<Rightarrow> 'w Hook \<Rightarrow> fault + 'w Hook" where
  "inst sys storage h =
     (if hook_built h then Inr h
      else if allocHook_setup h then Inl Recursive_init
      else Inr ((AllocHook_construct sys storage h)\<lparr>hook_built := True\<rparr>))"

definition via_inst :: "'w Sys \<Rightarrow> PointerData \<Rightarrow> ('w, 'a) op \<Rightarrow> ('w, 'a) hook_op" where
  "via_inst sys storage f h =
     (case inst sys storage h of Inl e \<Rightarrow> Inl e | Inr h' \<Rightarrow> on_proc f h')"

definition mark_init_done :: "'w Hook \<Rightarrow> 'w Hook" where
  "mark_init_done h = h\<lparr>in_preinit_phase := False\<rparr>"

section \<open>The interposed functions\<close>

definition malloc :: "(string \<Rightarrow> bool) \<Rightarrow> 'w Sys \<Rightarrow> PointerData \<Rightarrow> u64 \<Rightarrow> ('w, u64) hook_op" where
  "malloc dlsym_has sys storage sz h0 =
     (let h = RESOLVE dlsym_has ''malloc'' h0 in
      if allocHook_setup h then through ''malloc'' (sys_malloc sys sz) h
      else via_inst sys storage (debug_malloc sys sz) h)"

definition free :: "(string \<Rightarrow> bool) \<Rightarrow> 'w Sys \<Rightarrow> PointerData \<Rightarrow> u64 \<Rightarrow> ('w, unit) hook_op" where
  "free dlsym_has sys storage ptr h0 =
     (let h = RESOLVE dlsym_has ''free'' h0 in
      if allocHook_setup h then through ''free'' (\<lambda>w. ((), sys_free sys ptr w)) h
      else via_inst sys storage (debug_free sys ptr) h)"

definition calloc :: "(string \<Rightarrow> bool) \<Rightarrow> 'w Sys \<Rightarrow> PointerData \<Rightarrow> u64 \<Rightarrow> u64 \<Rightarrow> ('w, u64) hook_op" where
  "calloc dlsym_has sys storage a b h0 =
     (let h = RESOLVE dlsym_has ''calloc'' h0 in
      if allocHook_setup h then through ''calloc'' (sys_calloc sys a b) h
      else via_inst sys storage (debug_calloc sys a b) h)"

definition realloc :: "(string \<Rightarrow> bool) \<Rightarrow> 'w Sys \<Rightarrow> PointerData \<Rightarrow> u64 \<Rightarrow> u64 \<Rightarrow> ('w, u64) hook_op" where
  "realloc dlsym_has sys storage ptr sz h0 =
     (let h = RESOLVE dlsym_has ''realloc'' h0 in
      if allocHook_setup h then through ''realloc'' (sys_realloc sys ptr sz) h
      else via_inst sys storage (debug_realloc sys ptr sz) h)"

definition memalign :: "(string \<Rightarrow> bool) \<Rightarrow> 'w Sys \<Rightarrow> PointerData \<Rightarrow> u64 \<Rightarrow> u64 \<Rightarrow> ('w, u64) hook_op" where
  "memalign dlsym_has sys storage alignment bytes h0 =
     via_inst sys storage (debug_memalign sys alignment bytes) (RESOLVE dlsym_has ''memalign'' h0)"

definition posix_memalign ::
  "(string \<Rightarrow> bool) \<Rightarrow> 'w Sys \<Rightarrow> PointerData \<Rightarrow> u64 \<Rightarrow> u64 \<Rightarrow> ('w, int \<times> u64 option) hook_op" where
  "posix_memalign dlsym_has sys storage alignment sz h0 =
     via_inst sys storage (debug_posix_memalign sys alignment sz)
       (RESOLVE dlsym_has ''posix_memalign'' (RESOLVE dlsym_has ''memalign'' h0))"

definition mmap ::
  "'w Sys \<Rightarrow> PointerData \<Rightarrow> u64 \<Rightarrow> u64 \<Rightarrow> int \<Rightarrow> int \<Rightarrow> int \<Rightarrow> int \<Rightarrow> ('w, u64) hook_op" where
  "mmap sys storage addr sz prot flags fd offset h =
     (if in_preinit_phase h \<or> allocHook_setup h
      then on_proc (call_sys (sys_mmap sys addr sz prot flags fd offset)) h
      else via_inst sys storage (debug_mmap sys addr sz prot flags fd offset) h)"

definition munmap :: "'w Sys \<Rightarrow> PointerData \<Rightarrow> u64 \<Rightarrow> u64 \<Rightarrow> ('w, int) hook_op" where
  "munmap sys storage addr sz h =
     (if in_preinit_phase h \<or> allocHook_setup h
      then on_proc (call_sys (sys_munmap sys addr sz)) h
      else via_inst sys storage (debug_munmap sys addr sz) h)"

definition ioctl :: "'w Sys \<Rightarrow> PointerData \<Rightarrow> int \<Rightarrow> u32 \<Rightarrow> u64 \<Rightarrow> ('w, int) hook_op" where
  "ioctl sys storage fd request arg h = via_inst sys storage (debug_ioctl sys fd request arg) h"

definition close :: "'w Sys \<Rightarrow> PointerData \<Rightarrow> int \<Rightarrow> ('w, int) hook_op" where
  "close sys storage fd h = via_inst sys storage (debug_close sys fd) h"

definition mmap64 ::
  "'w Sys \<Rightarrow> PointerData \<Rightarrow> u64 \<Rightarrow> u64 \<Rightarrow> int \<Rightarrow> int \<Rightarrow> int \<Rightarrow> int \<Rightarrow> ('w, u64) hook_op" where
  "mmap64 sys storage addr sz prot flags fd offset h =
     (if in_preinit_phase h \<or> allocHook_setup h
      then on_proc (call_sys (sys_mmap sys addr sz prot flags fd offset)) h
      else via_inst sys storage (debug_mmap64 sys addr sz prot flags fd offset) h)"

definition checkpoint :: "'w Sys \<Rightarrow> PointerData \<Rightarrow> string \<Rightarrow> ('w, unit) hook_op" where
  "checkpoint sys storage file_name h = via_inst sys storage (debug_dump_heap sys file_name) h"

section \<open>Which functions can be called while the hook is set up\<close>

definition setting_up :: "'w Hook \<Rightarrow> bool" where
  "setting_up h \<longleftrightarrow> allocHook_setup h \<and> \<not> hook_built h"

lemma via_inst_setting_up: "setting_up h \<Longrightarrow> via_inst sys storage f h = Inl Recursive_init"
  by (simp add: setting_up_def via_inst_def inst_def)

lemma RESOLVE_fields [simp]:
  "allocHook_setup (RESOLVE d n h) = allocHook_setup h" "hook_built (RESOLVE d n h) = hook_built h"
  "hk_proc (RESOLVE d n h) = hk_proc h" "in_preinit_phase (RESOLVE d n h) = in_preinit_phase h"
  by (simp_all add: RESOLVE_def)

lemma RESOLVE_found: "d n \<Longrightarrow> n \<in> m_sys (RESOLVE d n h)"
  by (simp add: RESOLVE_def)

lemma through_found: "d n \<Longrightarrow> through n f (RESOLVE d n h) = on_proc (call_sys f) (RESOLVE d n h)"
  by (simp add: through_def RESOLVE_found)

lemma setting_up_RESOLVE [simp]: "setting_up (RESOLVE d n h) = setting_up h"
  by (simp add: setting_up_def)

text \<open>
  While the hook object is being constructed, \<open>malloc\<close>, \<open>free\<close>, \<open>calloc\<close>,
  \<open>realloc\<close> and the mapping functions are the plain C library and system calls on the world, so
  the construction may allocate; \<open>memalign\<close>, \<open>posix_memalign\<close>, \<open>ioctl\<close> and \<open>close\<close> enter the
  construction again.
\<close>

theorem setup_reentry:
  assumes "setting_up h" "\<And>n. dlsym_has n"
  shows "malloc dlsym_has sys st sz h = on_proc (call_sys (sys_malloc sys sz)) (RESOLVE dlsym_has ''malloc'' h) \<and>
     free dlsym_has sys st ptr h =
       on_proc (call_sys (\<lambda>w. ((), sys_free sys ptr w))) (RESOLVE dlsym_has ''free'' h) \<and>
     calloc dlsym_has sys st a sz h = on_proc (call_sys (sys_calloc sys a sz)) (RESOLVE dlsym_has ''calloc'' h) \<and>
     realloc dlsym_has sys st ptr sz h =
       on_proc (call_sys (sys_realloc sys ptr sz)) (RESOLVE dlsym_has ''realloc'' h) \<and>
     mmap sys st ptr sz pr fl fd off h = on_proc (call_sys (sys_mmap sys ptr sz pr fl fd off)) h \<and>
     mmap64 sys st ptr sz pr fl fd off h = on_proc (call_sys (sys_mmap sys ptr sz pr fl fd off)) h \<and>
     munmap sys st ptr sz h = on_proc (call_sys (sys_munmap sys ptr sz)) h \<and>
     memalign dlsym_has sys st a sz h = Inl Recursive_init \<and>
     posix_memalign dlsym_has sys st a sz h = Inl Recursive_init \<and>
     ioctl sys st fd q ptr h = Inl Recursive_init \<and>
     close sys st fd h = Inl Recursive_init"
proof -
  have "allocHook_setup h" using assms(1) by (simp add: setting_up_def)
  then show ?thesis
    using assms
    by (simp add: malloc_def free_def calloc_def realloc_def mmap_def mmap64_def munmap_def memalign_def
        posix_memalign_def ioctl_def close_def via_inst_setting_up Let_def through_found)
qed

text \<open>A process before its first call.\<close>

definition sample_hook :: "sample_world Hook" where
  "sample_hook = \<lparr>hk_proc = sample_proc\<lparr>g_debug := None\<rparr>, m_sys = {}, allocHook_setup = False,
     in_preinit_phase = True, hook_built = False\<rparr>"

lemma setup_reentry_witness:
  "malloc (\<lambda>_. True) sample_sys sample_blank 16 (sample_hook\<lparr>allocHook_setup := True\<rparr>) =
     Inr (4096, (RESOLVE (\<lambda>_. True) ''malloc'' (sample_hook\<lparr>allocHook_setup := True\<rparr>))
       \<lparr>hk_proc := (hk_proc sample_hook)\<lparr>world := \<lparr>sw_live = [4096 \<mapsto> 16], sw_errno = 0\<rparr>\<rparr>\<rparr>)"
proof -
  have "setting_up (sample_hook\<lparr>allocHook_setup := True\<rparr>)"
    by (simp add: setting_up_def sample_hook_def)
  from setup_reentry [OF this, of "\<lambda>_. True"] show ?thesis
    by (simp add: on_proc_def call_sys_def sample_sys_def sample_alloc_def sample_hook_def)
qed

section \<open>The first call\<close>

text \<open>
  When the C library and the start of the instrumentation succeed, the first
  call constructs the hook once, and from then on every call of \<open>malloc\<close> is the instrumented
  one: it returns in an initialised process, with the table listing what it handed out.
\<close>

theorem first_malloc_constructs:
  fixes h :: "'w Hook"
  assumes "\<not> hook_built h" "\<not> allocHook_setup h" "\<And>n. dlsym_has n"
    and "fst (debug_initialize sys st (hk_proc h))" "sane_sys sys" "never_skips sys" "sz \<le> MaxSize"
  shows "\<exists>p h'. malloc dlsym_has sys st sz h = Inr (p, h') \<and> hook_built h' \<and> \<not> allocHook_setup h' \<and>
     up (2 ^ 64 - 4) (g_debug (hk_proc h')) \<and> ptrs (g_debug (hk_proc h')) = [p \<mapsto> (sz, HOST)] \<and>
     inst sys st h' = Inr h'"
proof -
  let ?h = "RESOLVE dlsym_has ''malloc'' h"
  let ?s = "snd (debug_initialize sys st (hk_proc h))"
  have "debug_initialize sys st (hk_proc h) = (True, ?s)" using assms(4) by (metis prod.collapse)
  from debug_initialize_up [OF this] have s: "up (Suc (2 ^ 64 - 4)) (g_debug ?s)"
    "ptrs (g_debug ?s) = Map.empty" "\<not> disable_key ?s" by simp_all
  from debug_malloc_wp [OF s(1) assms(5) s(3), of sz] assms(7) s(2) obtain p t where
    t: "debug_malloc sys sz ?s = Inr (p, t)" "up (2 ^ 64 - 4) (g_debug t)" "ptrs (g_debug t) = [p \<mapsto> (sz, HOST)]"
    by (auto simp: wp_def entered_always [OF assms(6)] not_less [symmetric])
  have "inst sys st ?h = Inr (?h\<lparr>hk_proc := ?s, allocHook_setup := False, hook_built := True\<rparr>)"
    using assms(1,2) by (simp add: inst_def AllocHook_construct_def Let_def)
  then have "malloc dlsym_has sys st sz h =
      Inr (p, ?h\<lparr>allocHook_setup := False, hook_built := True, hk_proc := t\<rparr>)"
    using assms(2) t(1) by (simp add: malloc_def Let_def via_inst_def on_proc_def)
  then show ?thesis using t by (simp add: inst_def)
qed

lemma first_malloc_constructs_witness:
  "\<exists>p h'. malloc (\<lambda>_. True) sample_sys sample_blank 16 sample_hook = Inr (p, h') \<and> hook_built h' \<and>
     ptrs (g_debug (hk_proc h')) = [p \<mapsto> (16, HOST)]"
proof -
  have "fst (debug_initialize sample_sys sample_blank (hk_proc sample_hook))"
    by (simp add: debug_initialize_def DebugDisableInitialize_def DebugData_Initialize_def Init_def
        sample_sys_def Let_def case_prod_beta)
  moreover have "16 \<le> MaxSize" by (simp add: word_le_nat_alt unat_MaxSize)
  ultimately show ?thesis
    using first_malloc_constructs [OF _ _ _ _ sample_sane, where h = sample_hook and
        dlsym_has = "\<lambda>_. True" and st = sample_blank and sz = 16]
    by (auto simp: sample_hook_def)
qed

end
