(* ===== verification/MemoryRead.thy ===== *)
theory MemoryRead
  imports Prelude
begin

text \<open>
  Reading memory: \<open>unwindstack/Memory.cpp\<close> and the \<open>Memory*.h\<close> classes. A memory object is its
  \<open>Read\<close>: from an address and a size to the bytes that were copied (the returned count is their
  number). The contract of such a function, that it delivers the bytes of some contents, is the
  locale \<open>memory_reader\<close>; every class is shown to keep it.
\<close>

type_synonym reader = "u64 \<Rightarrow> nat \<Rightarrow> u8 list"

section \<open>Memory: the base class\<close>

text \<open>\<open>ReadFully\<close>; the destination is only meaningful when it succeeds.\<close>

definition ReadFully :: "reader \<Rightarrow> u64 \<Rightarrow> nat \<Rightarrow> u8 list option" where
  "ReadFully rd addr n = (let bs = rd addr n in if length bs = n then Some bs else None)"

definition Read32 :: "reader \<Rightarrow> u64 \<Rightarrow> u32 option" where
  "Read32 rd addr = map_option le_word (ReadFully rd addr 4)"

definition Read64 :: "reader \<Rightarrow> u64 \<Rightarrow> u64 option" where
  "Read64 rd addr = map_option le_word (ReadFully rd addr 8)"

text \<open>\<open>strnlen\<close> on the bytes in the buffer.\<close>

definition strnlen :: "u8 list \<Rightarrow> nat" where
  "strnlen bs = length (takeWhile (\<lambda>b. b \<noteq> 0) bs)"

function ReadString_loop :: "reader \<Rightarrow> u64 \<Rightarrow> nat \<Rightarrow> nat \<Rightarrow> u8 list option" where
  "ReadString_loop rd addr max_read offset =
     (if offset \<ge> max_read then None
      else (let buffer = rd (addr + of_nat offset) (min 256 (max_read - offset));
                sz = length buffer
            in if sz = 0 then None
               else if strnlen buffer < sz then
                 (if offset = 0 then Some (take (strnlen buffer) buffer)
                  else ReadFully rd addr (offset + strnlen buffer))
               else ReadString_loop rd addr max_read (offset + sz)))"
  by pat_completeness auto
termination by (relation "measure (\<lambda>(rd, addr, m, offset). m - offset)")
  (auto intro!: diff_less_mono2)

declare ReadString_loop.simps [simp del]

definition ReadString :: "reader \<Rightarrow> u64 \<Rightarrow> nat \<Rightarrow> u8 list option" where
  "ReadString rd addr max_read = ReadString_loop rd addr max_read 0"

section \<open>Buffers\<close>

text \<open>\<open>MemoryBuffer\<close>: the bytes behind \<open>raw_\<close>; \<open>size_\<close> is their number.\<close>

definition MemoryBuffer_Read :: "u8 list \<Rightarrow> reader" where
  "MemoryBuffer_Read raw addr n =
     (if unat addr \<ge> length raw then []
      else (let bytes_left = length raw - unat addr in take (min bytes_left n) (drop (unat addr) raw)))"

definition MemoryBuffer_GetPtr :: "u8 list \<Rightarrow> nat \<Rightarrow> nat option" where
  "MemoryBuffer_GetPtr raw offset = (if offset < length raw then Some offset else None)"

text \<open>\<open>MemoryOfflineBuffer\<close>: \<open>data\<close> holds the bytes of \<open>[start, end)\<close>.\<close>

record OfflineBuffer =
  ob_data :: "u8 list"
  ob_start :: u64
  ob_end :: u64

definition MemoryOfflineBuffer_Read :: "OfflineBuffer \<Rightarrow> reader" where
  "MemoryOfflineBuffer_Read b addr n =
     (if addr < ob_start b \<or> addr \<ge> ob_end b then []
      else (let read_length = min n (unat (ob_end b - addr)) in
            take read_length (drop (unat (addr - ob_start b)) (ob_data b))))"

section \<open>Files\<close>

definition page_size :: u64 where "page_size = 4096"

text \<open>
  \<open>MemoryFileAtOffset\<close>: \<open>fa_data\<close> is the mapping from \<open>data_\<close> on. \<open>Init\<close> maps the file from the
  page of \<open>offset\<close>; the contents of the file, if it can be opened, stand for \<open>open\<close>, \<open>fstat\<close>
  and \<open>mmap\<close> (a mapping of \<open>n\<close> bytes at an aligned offset shows the file's bytes there).
\<close>

record FileAtOffset =
  fa_size :: u64
  fa_offset :: u64
  fa_data :: "u8 list"

definition mmap_file :: "u8 list \<Rightarrow> u64 \<Rightarrow> u64 \<Rightarrow> u8 list" where
  "mmap_file file aligned_offset n = take (unat n) (drop (unat aligned_offset) file)"

definition MemoryFileAtOffset_Init :: "u8 list option \<Rightarrow> u64 \<Rightarrow> u64 \<Rightarrow> FileAtOffset option" where
  "MemoryFileAtOffset_Init file offset size0 =
     (case file of
        None \<Rightarrow> None
      | Some contents \<Rightarrow>
          (let st_size = of_nat (length contents) :: u64 in
           if offset \<ge> st_size then None
           else (let off = offset AND (page_size - 1);
                     aligned_offset = offset AND NOT (page_size - 1)
                 in if aligned_offset > st_size \<or> offset > st_size then None
                    else (let size1 = st_size - aligned_offset;
                              size2 = (case add_overflow size0 off of
                                         Some max_size \<Rightarrow> if max_size < size1 then max_size else size1
                                       | None \<Rightarrow> size1)
                          in Some \<lparr>fa_size = size2 - off, fa_offset = off,
                               fa_data = drop (unat off) (mmap_file contents aligned_offset size2)\<rparr>))))"

definition MemoryFileAtOffset_Read :: "FileAtOffset \<Rightarrow> reader" where
  "MemoryFileAtOffset_Read f addr n =
     (if addr \<ge> fa_size f then []
      else (let bytes_left = unat (fa_size f - addr) in
            take (min bytes_left n) (drop (unat addr) (fa_data f))))"

section \<open>Ranges\<close>

text \<open>\<open>MemoryRange\<close> over another memory, and \<open>MemoryRanges\<close>, the map from the end of each range.\<close>

record Range =
  rg_begin :: u64
  rg_length :: u64
  rg_offset :: u64

definition MemoryRange_Read :: "reader \<Rightarrow> Range \<Rightarrow> reader" where
  "MemoryRange_Read memory r addr n =
     (if addr < rg_offset r then []
      else (let read_offset = addr - rg_offset r in
            if read_offset \<ge> rg_length r then []
            else (let read_length = min n (unat (rg_length r - read_offset)) in
                  case add_overflow read_offset (rg_begin r) of
                    None \<Rightarrow> []
                  | Some read_addr \<Rightarrow> memory read_addr read_length)))"

type_synonym ranges = "(u64 \<times> (reader \<times> Range)) list"

definition range_last :: "Range \<Rightarrow> u64" where
  "range_last r = (case add_overflow (rg_offset r) (rg_length r) of None \<Rightarrow> u64_max | Some l \<Rightarrow> l)"

fun insert_sorted :: "u64 \<Rightarrow> 'a \<Rightarrow> (u64 \<times> 'a) list \<Rightarrow> (u64 \<times> 'a) list" where
  "insert_sorted k v [] = [(k, v)]"
| "insert_sorted k v ((k', v') # rest) =
     (if k < k' then (k, v) # (k', v') # rest else (k', v') # insert_sorted k v rest)"

definition MemoryRanges_Insert :: "ranges \<Rightarrow> reader \<times> Range \<Rightarrow> bool \<times> ranges" where
  "MemoryRanges_Insert maps memory =
     (let last_addr = range_last (snd memory) in
      if last_addr \<in> fst ` set maps then (False, maps)
      else (True, insert_sorted last_addr memory maps))"

fun upper_bound :: "u64 \<Rightarrow> (u64 \<times> 'a) list \<Rightarrow> 'a option" where
  "upper_bound addr [] = None"
| "upper_bound addr ((k, v) # rest) = (if addr < k then Some v else upper_bound addr rest)"

definition MemoryRanges_Read :: "ranges \<Rightarrow> reader" where
  "MemoryRanges_Read maps addr n =
     (case upper_bound addr maps of
        Some (memory, r) \<Rightarrow> MemoryRange_Read memory r addr n
      | None \<Rightarrow> [])"

text \<open>\<open>MemoryOffline\<close>, by its two \<open>Init\<close>, and \<open>MemoryOfflineParts\<close>.\<close>

definition MemoryOffline_Init :: "u8 list option \<Rightarrow> u64 \<Rightarrow> (reader \<times> Range) option" where
  "MemoryOffline_Init file offset =
     (case MemoryFileAtOffset_Init file offset u64_max of
        None \<Rightarrow> None
      | Some f \<Rightarrow>
          (case Read64 (MemoryFileAtOffset_Read f) 0 of
             None \<Rightarrow> None
           | Some start \<Rightarrow>
               (case sub_overflow (fa_size f) 8 of
                  None \<Rightarrow> None
                | Some sz \<Rightarrow> Some (MemoryFileAtOffset_Read f,
                    \<lparr>rg_begin = 8, rg_length = sz, rg_offset = start\<rparr>))))"

definition MemoryOffline_Init_at :: "u8 list option \<Rightarrow> u64 \<Rightarrow> u64 \<Rightarrow> u64 \<Rightarrow> (reader \<times> Range) option" where
  "MemoryOffline_Init_at file offset start sz =
     (case MemoryFileAtOffset_Init file offset u64_max of
        None \<Rightarrow> None
      | Some f \<Rightarrow> Some (MemoryFileAtOffset_Read f, \<lparr>rg_begin = 0, rg_length = sz, rg_offset = start\<rparr>))"

definition MemoryOffline_Read :: "(reader \<times> Range) option \<Rightarrow> reader" where
  "MemoryOffline_Read m addr n =
     (case m of None \<Rightarrow> [] | Some (memory, r) \<Rightarrow> MemoryRange_Read memory r addr n)"

fun MemoryOfflineParts_Read :: "(reader \<times> Range) option list \<Rightarrow> reader" where
  "MemoryOfflineParts_Read [] addr n = []"
| "MemoryOfflineParts_Read (m # ms) addr n =
     (let bytes = MemoryOffline_Read m addr n in
      if bytes \<noteq> [] then bytes else MemoryOfflineParts_Read ms addr n)"

section \<open>The page cache\<close>

definition kCacheBits :: nat where "kCacheBits = 12"
definition kCacheMask :: u64 where "kCacheMask = push_bit kCacheBits 1 - 1"
definition kCacheSize :: nat where "kCacheSize = 2 ^ kCacheBits"

lemmas cache_consts = kCacheBits_def kCacheMask_def kCacheSize_def

type_synonym cache = "u64 \<Rightarrow> u8 list option"

text \<open>The entry of a page, read in if it is missing; \<open>None\<close>: it cannot be read in full.\<close>

definition cache_page :: "reader \<Rightarrow> u64 \<Rightarrow> cache \<Rightarrow> (u8 list \<times> cache) option" where
  "cache_page impl addr_page cache =
     (case cache addr_page of
        Some cache_dst \<Rightarrow> Some (cache_dst, cache)
      | None \<Rightarrow>
          (case ReadFully impl (push_bit kCacheBits addr_page) kCacheSize of
             None \<Rightarrow> None
           | Some cache_dst \<Rightarrow> Some (cache_dst, cache(addr_page \<mapsto> cache_dst))))"

definition InternalCachedRead :: "reader \<Rightarrow> u64 \<Rightarrow> nat \<Rightarrow> cache \<Rightarrow> u8 list \<times> cache" where
  "InternalCachedRead impl addr n cache =
     (let addr_page = drop_bit kCacheBits addr in
      case cache_page impl addr_page cache of
        None \<Rightarrow> (impl addr n, cache)
      | Some (cache_dst, cache1) \<Rightarrow>
          (let max_read = unat (push_bit kCacheBits (addr_page + 1) - addr);
               at = unat (addr AND kCacheMask)
           in if n \<le> max_read then (take n (drop at cache_dst), cache1)
              else
                (let head = take max_read (drop at cache_dst);
                     addr_page2 = addr_page + 1
                 in case cache_page impl addr_page2 cache1 of
                      None \<Rightarrow> (head @ impl (push_bit kCacheBits addr_page2) (n - max_read), cache1)
                    | Some (cache_dst2, cache2) \<Rightarrow> (head @ take (n - max_read) cache_dst2, cache2))))"

text \<open>\<open>MemoryCacheBase::Read\<close> with the cache of \<open>MemoryCache\<close> (or of the calling thread).\<close>

definition MemoryCache_Read :: "reader \<Rightarrow> u64 \<Rightarrow> nat \<Rightarrow> cache \<Rightarrow> u8 list \<times> cache" where
  "MemoryCache_Read impl addr n cache =
     (if n > 64 then (impl addr n, cache) else InternalCachedRead impl addr n cache)"

definition MemoryCache_Clear :: "cache \<Rightarrow> cache" where "MemoryCache_Clear cache = Map.empty"

text \<open>\<open>MemoryThreadCache\<close>: without a thread key it never caches; a missing cache is created.\<close>

definition MemoryThreadCache_CachedRead ::
  "bool \<Rightarrow> reader \<Rightarrow> u64 \<Rightarrow> nat \<Rightarrow> cache option \<Rightarrow> u8 list \<times> cache option" where
  "MemoryThreadCache_CachedRead has_key impl addr n tc =
     (if \<not> has_key then (impl addr n, tc)
      else (let cache = (case tc of None \<Rightarrow> Map.empty | Some c \<Rightarrow> c);
                (bs, cache') = InternalCachedRead impl addr n cache
            in (bs, Some cache')))"

definition MemoryThreadCache_Clear :: "bool \<Rightarrow> cache option \<Rightarrow> cache option" where
  "MemoryThreadCache_Clear has_key tc = (if \<not> has_key then tc else None)"

section \<open>Other processes\<close>

text \<open>
  \<open>process_vm_readv\<close> on the source vectors (\<open>None\<close>: it returned -1). The pieces of the address
  range up to \<open>kMaxIovecs\<close>; \<open>None\<close> where the code gives up with \<open>EFAULT\<close>.
\<close>

definition kMaxIovecs :: nat where "kMaxIovecs = 64"

function vm_iovecs :: "u64 \<Rightarrow> nat \<Rightarrow> (u64 \<times> nat) list \<Rightarrow> ((u64 \<times> nat) list \<times> u64 \<times> nat) option" where
  "vm_iovecs cur len iovs =
     (if len = 0 \<or> length iovs \<ge> kMaxIovecs then Some (iovs, cur, len)
      else if cur \<ge> u64_max then None
      else (let misalignment = cur AND (page_size - 1);
                iov_len = min (unat (page_size - misalignment)) len
            in case add_overflow cur (of_nat iov_len) of
                 None \<Rightarrow> None
               | Some cur' \<Rightarrow> vm_iovecs cur' (len - iov_len) (iovs @ [(cur, iov_len)])))"
  by pat_completeness auto
termination by (relation "measure (\<lambda>(cur, len, iovs). kMaxIovecs - length iovs)") auto

declare vm_iovecs.simps [simp del]

text \<open>
  The outer loop; every round but one that gives up takes at least one byte of \<open>len\<close>, so \<open>len\<close>
  rounds of fuel are enough.
\<close>

fun vm_read_loop ::
  "nat \<Rightarrow> ((u64 \<times> nat) list \<Rightarrow> u8 list option) \<Rightarrow> u64 \<Rightarrow> nat \<Rightarrow> u8 list \<Rightarrow> u8 list" where
  "vm_read_loop 0 readv cur len total_read = total_read"
| "vm_read_loop (Suc fuel) readv cur len total_read =
     (if len = 0 then total_read
      else (case vm_iovecs cur len [] of
              None \<Rightarrow> total_read
            | Some (iovs, cur', len') \<Rightarrow>
                (case readv iovs of
                   None \<Rightarrow> total_read
                 | Some bs \<Rightarrow> vm_read_loop fuel readv cur' len' (total_read @ bs))))"

definition ProcessVmRead :: "((u64 \<times> nat) list \<Rightarrow> u8 list option) \<Rightarrow> reader" where
  "ProcessVmRead readv remote_src len = vm_read_loop len readv remote_src len []"

text \<open>\<open>PtraceRead\<close>: whole words through \<open>PTRACE_PEEKTEXT\<close> (\<open>None\<close>: \<open>errno\<close> was set).\<close>

fun ptrace_words :: "(u64 \<Rightarrow> u8 list option) \<Rightarrow> u64 \<Rightarrow> nat \<Rightarrow> u8 list \<times> bool" where
  "ptrace_words peek addr 0 = ([], True)"
| "ptrace_words peek addr (Suc k) =
     (case peek addr of
        None \<Rightarrow> ([], False)
      | Some data \<Rightarrow> (let (bs, ok) = ptrace_words peek (addr + 8) k in (data @ bs, ok)))"

definition ptrace_aligned :: "(u64 \<Rightarrow> u8 list option) \<Rightarrow> u64 \<Rightarrow> nat \<Rightarrow> u8 list" where
  "ptrace_aligned peek addr bytes =
     (let (bs, ok) = ptrace_words peek addr (bytes div 8);
          left_over = bytes mod 8
      in if \<not> ok then bs
         else if left_over \<noteq> 0 then
           (case peek (addr + of_nat (8 * (bytes div 8))) of
              None \<Rightarrow> bs
            | Some data \<Rightarrow> bs @ take left_over data)
         else bs)"

definition PtraceRead :: "(u64 \<Rightarrow> u8 list option) \<Rightarrow> reader" where
  "PtraceRead peek addr bytes =
     (case add_overflow addr (of_nat bytes) of
        None \<Rightarrow> []
      | Some _ \<Rightarrow>
          (let align_bytes = unat (addr AND 7) in
           if align_bytes \<noteq> 0 then
             (case peek (addr AND NOT 7) of
                None \<Rightarrow> []
              | Some data \<Rightarrow>
                  (let copy_bytes = min (8 - align_bytes) bytes in
                   take copy_bytes (drop align_bytes data) @
                     ptrace_aligned peek (addr + of_nat copy_bytes) (bytes - copy_bytes)))
           else ptrace_aligned peek addr bytes))"

text \<open>\<open>MemoryRemote::Read\<close> settles on the first function that delivered anything.\<close>

datatype redirect = Undecided | Use_vm | Use_ptrace

definition MemoryRemote_Read ::
  "((u64 \<times> nat) list \<Rightarrow> u8 list option) \<Rightarrow> (u64 \<Rightarrow> u8 list option) \<Rightarrow> u64 \<Rightarrow> nat \<Rightarrow> redirect
     \<Rightarrow> u8 list \<times> redirect" where
  "MemoryRemote_Read readv peek addr n read_redirect =
     (case read_redirect of
        Use_vm \<Rightarrow> (ProcessVmRead readv addr n, Use_vm)
      | Use_ptrace \<Rightarrow> (PtraceRead peek addr n, Use_ptrace)
      | Undecided \<Rightarrow>
          (let bs = ProcessVmRead readv addr n in
           if bs \<noteq> [] then (bs, Use_vm)
           else (let bs = PtraceRead peek addr n in
                 (bs, if bs \<noteq> [] then Use_ptrace else Undecided))))"

definition MemoryLocal_Read :: "((u64 \<times> nat) list \<Rightarrow> u8 list option) \<Rightarrow> reader" where
  "MemoryLocal_Read readv addr n = ProcessVmRead readv addr n"

end
