(* ===== verification/MemoryProps.thy ===== *)
theory MemoryProps
  imports MemoryRead
begin

text \<open>
  The contract of a memory object's \<open>Read\<close>, as two locales: \<open>memory_reader\<close> (what is delivered
  are bytes of the contents) and \<open>full_reader\<close> (as many as there are). Contents are indexed by
  unbounded addresses, so that nothing is said to be at an address that wrapped around. The
  facts on \<open>ReadFully\<close> and \<open>ReadString\<close> are proved once from the contract; the classes are
  interpretations, and a range over a reader is one again.
\<close>

type_synonym contents = "nat \<Rightarrow> u8 option"

section \<open>Bytes at an address\<close>

definition bytes_at :: "contents \<Rightarrow> nat \<Rightarrow> u8 list \<Rightarrow> bool" where
  "bytes_at mem a bs \<longleftrightarrow> (\<forall>i < length bs. mem (a + i) = Some (bs ! i))"

lemma bytes_at_Nil [simp]: "bytes_at mem a []"
  by (simp add: bytes_at_def)

lemma bytes_at_append:
  "bytes_at mem a (xs @ ys) \<longleftrightarrow> bytes_at mem a xs \<and> bytes_at mem (a + length xs) ys"
proof
  assume l: "bytes_at mem a (xs @ ys)"
  have "mem (a + i) = Some (xs ! i)" if "i < length xs" for i
    using l that by (auto simp: bytes_at_def nth_append dest: spec [of _ i])
  moreover have "mem (a + length xs + i) = Some (ys ! i)" if "i < length ys" for i
    using l that by (auto simp: bytes_at_def nth_append add.assoc dest: spec [of _ "length xs + i"])
  ultimately show "bytes_at mem a xs \<and> bytes_at mem (a + length xs) ys" by (simp add: bytes_at_def)
next
  assume r: "bytes_at mem a xs \<and> bytes_at mem (a + length xs) ys"
  have "mem (a + i) = Some ((xs @ ys) ! i)" if "i < length (xs @ ys)" for i
  proof (cases "i < length xs")
    case False
    then have "i - length xs < length ys" "a + i = a + length xs + (i - length xs)" using that by auto
    then show ?thesis using r False by (auto simp: bytes_at_def nth_append)
  qed (use r in \<open>auto simp: bytes_at_def nth_append\<close>)
  then show "bytes_at mem a (xs @ ys)" by (simp add: bytes_at_def)
qed

lemma bytes_at_take: "bytes_at mem a bs \<Longrightarrow> bytes_at mem a (take n bs)"
  by (simp add: bytes_at_def)

lemma bytes_at_drop:
  assumes "bytes_at mem a bs"
  shows "bytes_at mem (a + n) (drop n bs)"
proof (cases "n \<le> length bs")
  case True
  have "bytes_at mem a (take n bs @ drop n bs)" using assms by simp
  then show ?thesis using True by (simp only: bytes_at_append length_take min_absorb2)
qed simp

lemma bytes_at_unique: "bytes_at mem a xs \<Longrightarrow> bytes_at mem a ys \<Longrightarrow> length xs = length ys \<Longrightarrow> xs = ys"
  by (rule nth_equalityI) (auto simp: bytes_at_def)

lemma bytes_at_single [simp]: "bytes_at mem a [b] \<longleftrightarrow> mem a = Some b"
  by (simp add: bytes_at_def)

lemma unat_add_lt:
  fixes a :: u64
  shows "unat a + n < 2 ^ 64 \<Longrightarrow> unat (a + of_nat n) = unat a + n"
  by (simp add: unat_word_ariths unat_of_nat)

lemma takeWhile_prefix: "take (length (takeWhile P xs)) xs = takeWhile P xs"
  by (induction xs) auto

section \<open>The contract\<close>

locale memory_reader =
  fixes rd :: reader and mem :: contents
  assumes bounded: "length (rd a n) \<le> n"
    and sound: "bytes_at mem (unat a) (rd a n)"
begin

lemma ReadFully_sound:
  "ReadFully rd a n = Some bs \<Longrightarrow> bytes_at mem (unat a) bs \<and> length bs = n"
  using sound [of a n] by (auto simp: ReadFully_def Let_def split: if_splits)

lemma ReadString_loop_sound:
  assumes "ReadString_loop rd a m off = Some s" "unat a + m < 2 ^ 64"
    and "bytes_at mem (unat a) pre" "0 \<notin> set pre" "length pre = off"
  shows "bytes_at mem (unat a) (s @ [0]) \<and> 0 \<notin> set s \<and> length s < m"
  using assms
proof (induction "m - off" arbitrary: off pre rule: less_induct)
  case less
  let ?buf = "rd (a + of_nat off) (min 256 (m - off))"
  let ?k = "strnlen ?buf"
  have off: "off < m" "?buf \<noteq> []"
    using less.prems(1) by (auto simp: ReadString_loop.simps [of rd a m off] Let_def split: if_splits)
  have len: "length ?buf \<le> m - off" using bounded [of "a + of_nat off" "min 256 (m - off)"] by simp
  have "unat (a + of_nat off) = unat a + off"
    using unat_add_lt [of a off] less.prems(2) off(1) by simp
  then have buf: "bytes_at mem (unat a + off) ?buf" using sound by metis
  show ?case
  proof (cases "?k < length ?buf")
    case True
    have tk: "take ?k ?buf = takeWhile (\<lambda>b. b \<noteq> 0) ?buf" by (simp add: strnlen_def takeWhile_prefix)
    have z: "?buf ! ?k = 0" using True nth_length_takeWhile by (force simp: strnlen_def)
    have "bytes_at mem (unat a + off) (take ?k ?buf @ [?buf ! ?k])"
      using buf True by (metis bytes_at_take take_Suc_conv_app_nth)
    then have whole: "bytes_at mem (unat a) ((pre @ take ?k ?buf) @ [0])"
      using less.prems(3,5) by (simp add: bytes_at_append z)
    have nz: "0 \<notin> set (pre @ take ?k ?buf)"
      using less.prems(4) by (auto simp: tk dest: set_takeWhileD)
    have "s = pre @ take ?k ?buf"
    proof (cases "off = 0")
      case True
      then show ?thesis
        using less.prems(1,5) off \<open>?k < length ?buf\<close>
        by (simp add: ReadString_loop.simps [of rd a m 0] Let_def)
    next
      case False
      then have "ReadFully rd a (off + ?k) = Some s"
        using less.prems(1) off True by (simp add: ReadString_loop.simps [of rd a m off] Let_def)
      from ReadFully_sound [OF this] show ?thesis
        using whole less.prems(5) True by (intro bytes_at_unique [of mem "unat a"])
          (auto simp: bytes_at_append min_def)
    qed
    moreover have "off + ?k < m" using True len off(1) by linarith
    ultimately show ?thesis using whole nz less.prems(5) True by simp
  next
    case False
    then have "takeWhile (\<lambda>b. b \<noteq> 0) ?buf = ?buf"
      by (metis strnlen_def length_takeWhile_le nat_less_le takeWhile_prefix take_all_iff le_refl)
    then have nz: "0 \<notin> set ?buf" by (metis (mono_tags, lifting) takeWhile_eq_all_conv)
    have "ReadString_loop rd a m (off + length ?buf) = Some s"
      using less.prems(1) off False by (simp add: ReadString_loop.simps [of rd a m off] Let_def)
    moreover have "m - (off + length ?buf) < m - off" using off by (intro diff_less_mono2) auto
    ultimately show ?thesis
      using less.hyps [of "off + length ?buf" "pre @ ?buf"] less.prems nz buf
      by (simp add: bytes_at_append)
  qed
qed

lemma ReadString_sound:
  "ReadString rd a m = Some s \<Longrightarrow> unat a + m < 2 ^ 64 \<Longrightarrow>
     bytes_at mem (unat a) (s @ [0]) \<and> 0 \<notin> set s \<and> length s < m"
  unfolding ReadString_def by (rule ReadString_loop_sound [where pre = "[]"]) auto

end

text \<open>The reader delivers every byte there is.\<close>

locale full_reader = memory_reader +
  assumes maximal: "bytes_at mem (unat a) bs \<Longrightarrow> length bs \<le> n \<Longrightarrow> length bs \<le> length (rd a n)"
begin

lemma full_read:
  assumes "bytes_at mem (unat a) bs" "length bs = n"
  shows "rd a n = bs"
  using maximal [OF assms(1), of n] bounded [of a n] assms
  by (intro bytes_at_unique [OF sound assms(1)]) simp

lemma ReadFully_iff: "ReadFully rd a n = Some bs \<longleftrightarrow> bytes_at mem (unat a) bs \<and> length bs = n"
proof
  assume "bytes_at mem (unat a) bs \<and> length bs = n"
  then show "ReadFully rd a n = Some bs" using full_read [of a bs n] by (simp add: ReadFully_def)
qed (rule ReadFully_sound)

lemma ReadString_loop_complete:
  assumes "bytes_at mem (unat a) (s @ [0])" "0 \<notin> set s" "length s < m" "unat a + m < 2 ^ 64"
    and "off \<le> length s"
  shows "ReadString_loop rd a m off = Some s"
  using assms(5)
proof (induction "length s - off" arbitrary: off rule: less_induct)
  case less
  let ?buf = "rd (a + of_nat off) (min 256 (m - off))"
  let ?k = "strnlen ?buf"
  have at: "unat (a + of_nat off) = unat a + off"
    using unat_add_lt [of a off] assms(3,4) less.prems by simp
  have rest: "bytes_at mem (unat a + off) (drop off s @ [0])"
    using bytes_at_drop [OF assms(1), of off] less.prems by simp
  let ?n = "min (min 256 (m - off)) (length s - off + 1)"
  have l: "length (take ?n (drop off s @ [0])) = ?n" using less.prems by (simp only: length_take) simp
  then have "length (take ?n (drop off s @ [0])) \<le> min 256 (m - off)" by (metis min.cobounded1)
  from maximal [of "a + of_nat off", unfolded at, OF bytes_at_take [OF rest] this]
  have "length ?buf \<ge> ?n" by (simp only: l)
  moreover have "?n > 0" using assms(3) less.prems by simp
  ultimately have ne: "?buf \<noteq> []" "length ?buf \<ge> ?n" by auto
  have buf: "bytes_at mem (unat a + off) ?buf" using sound [of "a + of_nat off"] at by simp
  have nth: "?buf ! i = (drop off s @ [0]) ! i" if "i < length ?buf" "i \<le> length s - off" for i
    using buf rest that less.prems unfolding bytes_at_def by (metis (no_types, lifting) length_append_singleton
        length_drop less_Suc_eq_le option.inject)
  have sn: "s ! j \<noteq> 0" if "j < length s" for j using assms(2) that nth_mem by metis
  show ?case
  proof (cases "length s - off < length ?buf")
    case True
    have "?buf ! (length s - off) = 0" using nth [OF True] less.prems by (simp add: nth_append)
    moreover have "?buf ! i \<noteq> 0" if "i < length s - off" for i
      using nth [of i] that True sn [of "off + i"] less.prems by (auto simp: nth_append)
    ultimately have "takeWhile (\<lambda>b. b \<noteq> 0) ?buf = take (length s - off) ?buf"
      by (intro takeWhile_eq_take_P_nth) auto
    then have k: "?k = length s - off" using True by (simp add: strnlen_def)
    have "ReadFully rd a (length s) = Some s"
      using assms(1) by (simp add: ReadFully_iff bytes_at_append)
    moreover have "take (length s) ?buf = s" if "off = 0"
      using that True nth by (intro nth_equalityI) (auto simp: nth_append)
    ultimately show ?thesis
      using assms(3) less.prems ne k True
      by (auto simp: ReadString_loop.simps [of rd a m off] Let_def)
  next
    case False
    have "\<forall>i < length ?buf. ?buf ! i \<noteq> 0"
      using nth False sn less.prems by (auto simp: nth_append)
    then have "takeWhile (\<lambda>b. b \<noteq> 0) ?buf = ?buf"
      by (subst takeWhile_eq_all_conv) (auto simp: in_set_conv_nth)
    then have "?k = length ?buf" unfolding strnlen_def by (rule arg_cong)
    moreover have "off + length ?buf \<le> length s" using False less.prems by linarith
    moreover have "length s - (off + length ?buf) < length s - off"
    proof (rule diff_less_mono2)
      have "0 < length ?buf" using ne(1) by simp
      then show "off < length s" "off < off + length ?buf" using False by linarith+
    qed
    ultimately show ?thesis
      using less.hyps [of "off + length ?buf"] assms(3) less.prems ne(1)
      by (subst ReadString_loop.simps) (simp add: Let_def)
  qed
qed

lemma ReadString_iff:
  assumes "unat a + m < 2 ^ 64"
  shows "ReadString rd a m = Some s \<longleftrightarrow>
     bytes_at mem (unat a) (s @ [0]) \<and> 0 \<notin> set s \<and> length s < m"
  using ReadString_sound [OF _ assms] ReadString_loop_complete [OF _ _ _ assms, of s 0]
  by (auto simp: ReadString_def)

end


section \<open>The classes\<close>

definition list_contents :: "u8 list \<Rightarrow> contents" where
  "list_contents raw x = (if x < length raw then Some (raw ! x) else None)"

lemma bytes_at_list:
  "bytes_at (list_contents raw) a bs \<longleftrightarrow> bs = [] \<or> (\<exists>rest. drop a raw = bs @ rest)"
proof
  assume l: "bytes_at (list_contents raw) a bs"
  have n: "a + i < length raw \<and> raw ! (a + i) = bs ! i" if "i < length bs" for i
    using l that by (auto simp: bytes_at_def list_contents_def split: if_splits)
  show "bs = [] \<or> (\<exists>rest. drop a raw = bs @ rest)"
  proof (cases bs rule: rev_cases)
    case (snoc cs c)
    then have "a + length bs \<le> length raw" using n [of "length cs"] by simp
    then have "take (length bs) (drop a raw) = bs"
      using n by (intro nth_equalityI) auto
    then show ?thesis by (metis append_take_drop_id)
  qed simp
next
  assume r: "bs = [] \<or> (\<exists>rest. drop a raw = bs @ rest)"
  show "bytes_at (list_contents raw) a bs"
  proof (cases "bs = []")
    case False
    then obtain rest where d: "drop a raw = bs @ rest" using r by blast
    have "a + i < length raw \<and> raw ! (a + i) = bs ! i" if "i < length bs" for i
    proof -
      have "length raw - a = length bs + length rest" using arg_cong [OF d, of length] by simp
      then have "a + i < length raw" using that by linarith
      moreover have "drop a raw ! i = bs ! i" using d that by (simp add: nth_append)
      ultimately show ?thesis by (simp add: nth_drop)
    qed
    then show ?thesis by (simp add: bytes_at_def list_contents_def)
  qed simp
qed

lemma bytes_at_take_drop: "bytes_at (list_contents raw) a (take n (drop a raw))"
  by (metis bytes_at_list append_take_drop_id)

lemma bytes_at_drop_all: "bytes_at (list_contents raw) a (drop a raw)"
  by (metis bytes_at_list append_Nil2)

text \<open>A read that takes a prefix of what is left of a byte list.\<close>

lemma list_reader:
  fixes rd :: reader
  assumes "\<And>a n. rd a n = take n (drop (unat a) raw)"
  shows "full_reader rd (list_contents raw)"
proof unfold_locales
  show "length (rd a n) \<le> n" for a n by (simp add: assms)
  show "bytes_at (list_contents raw) (unat a) (rd a n)" for a n
    by (simp add: assms bytes_at_take_drop)
  fix a :: u64 and bs n
  assume b: "bytes_at (list_contents raw) (unat a) bs" "length bs \<le> n"
  show "length bs \<le> length (rd a n)"
  proof (cases "bs = []")
    case False
    with b obtain rest where "drop (unat a) raw = bs @ rest" by (auto simp: bytes_at_list)
    then show ?thesis using b(2) by (simp add: assms)
  qed simp
qed

lemma MemoryBuffer_Read_eq: "MemoryBuffer_Read raw a n = take n (drop (unat a) raw)"
  by (simp add: MemoryBuffer_Read_def Let_def min_def)

interpretation buffer: full_reader "MemoryBuffer_Read raw" "list_contents raw" for raw
  by (rule list_reader) (rule MemoryBuffer_Read_eq)

text \<open>The bytes a file object shows.\<close>

definition file_bytes :: "FileAtOffset \<Rightarrow> u8 list" where
  "file_bytes f = take (unat (fa_size f)) (fa_data f)"

lemma MemoryFileAtOffset_Read_eq: "MemoryFileAtOffset_Read f a n = take n (drop (unat a) (file_bytes f))"
proof (cases "a < fa_size f")
  case True
  then have "unat (fa_size f - a) = unat (fa_size f) - unat a"
    by (simp add: unat_sub word_less_nat_alt word_le_nat_alt)
  then show ?thesis
    using True by (simp add: MemoryFileAtOffset_Read_def file_bytes_def Let_def drop_take min.commute)
next
  case False
  then show ?thesis
    by (simp add: MemoryFileAtOffset_Read_def file_bytes_def not_less word_le_nat_alt)
qed

interpretation mapped_file: full_reader "MemoryFileAtOffset_Read f" "list_contents (file_bytes f)" for f
  by (rule list_reader) (rule MemoryFileAtOffset_Read_eq)

definition offline_contents :: "OfflineBuffer \<Rightarrow> contents" where
  "offline_contents b x =
     (if unat (ob_start b) \<le> x \<and> x < unat (ob_end b) then list_contents (ob_data b) (x - unat (ob_start b))
      else None)"

lemma MemoryOfflineBuffer_Read_eq:
  "MemoryOfflineBuffer_Read b a n =
     (if ob_start b \<le> a \<and> a < ob_end b
      then take n (take (unat (ob_end b) - unat a) (drop (unat a - unat (ob_start b)) (ob_data b)))
      else [])"
  by (auto simp: MemoryOfflineBuffer_Read_def Let_def unat_sub not_less not_le min.commute
      dest: less_imp_le)

lemma offline_bytes:
  assumes "unat (ob_start b) \<le> a" "a < unat (ob_end b)"
  shows "bytes_at (offline_contents b) a bs \<longleftrightarrow>
     bytes_at (list_contents (ob_data b)) (a - unat (ob_start b)) bs \<and> a + length bs \<le> unat (ob_end b)"
proof -
  have "a + length bs \<le> unat (ob_end b)" if "bytes_at (offline_contents b) a bs"
    using that assms by (cases bs rule: rev_cases)
      (auto simp: bytes_at_def offline_contents_def split: if_splits dest: spec [of _ "length bs - 1"])
  moreover have "offline_contents b (a + i) = list_contents (ob_data b) (a - unat (ob_start b) + i)"
    if "a + length bs \<le> unat (ob_end b)" "i < length bs" for i
    using that assms by (simp add: offline_contents_def)
  ultimately show ?thesis unfolding bytes_at_def by auto
qed

interpretation offline: full_reader "MemoryOfflineBuffer_Read b" "offline_contents b" for b
proof unfold_locales
  show "length (MemoryOfflineBuffer_Read b a n) \<le> n" for a n by (auto simp: MemoryOfflineBuffer_Read_eq min_def)
  show "bytes_at (offline_contents b) (unat a) (MemoryOfflineBuffer_Read b a n)" for a n
  proof (cases "ob_start b \<le> a \<and> a < ob_end b")
    case True
    then have r: "unat (ob_start b) \<le> unat a" "unat a < unat (ob_end b)"
      by (simp_all add: word_le_nat_alt word_less_nat_alt)
    show ?thesis
      unfolding offline_bytes [OF r] using True r
      by (auto simp: MemoryOfflineBuffer_Read_eq min_def intro: bytes_at_take bytes_at_take_drop bytes_at_drop_all)
  qed (auto simp: MemoryOfflineBuffer_Read_eq)
  fix a :: u64 and bs n
  assume b: "bytes_at (offline_contents b) (unat a) bs" "length bs \<le> n"
  show "length bs \<le> length (MemoryOfflineBuffer_Read b a n)"
  proof (cases "bs = []")
    case False
    then have "offline_contents b (unat a) \<noteq> None" using b(1) by (auto simp: bytes_at_def dest: spec [of _ 0])
    then have r: "unat (ob_start b) \<le> unat a" "unat a < unat (ob_end b)"
      by (auto simp: offline_contents_def split: if_splits)
    from b(1) [unfolded offline_bytes [OF r]] False obtain rest where
      d: "drop (unat a - unat (ob_start b)) (ob_data b) = bs @ rest" and e: "unat a + length bs \<le> unat (ob_end b)"
      by (auto simp: bytes_at_list)
    from arg_cong [OF d, of length] e b(2) r show ?thesis
      by (simp add: MemoryOfflineBuffer_Read_eq word_le_nat_alt word_less_nat_alt)
  qed simp
qed

section \<open>A range over a reader\<close>

definition range_contents :: "contents \<Rightarrow> Range \<Rightarrow> contents" where
  "range_contents mem r x =
     (if unat (rg_offset r) \<le> x \<and> x - unat (rg_offset r) < unat (rg_length r)
      then mem (x - unat (rg_offset r) + unat (rg_begin r)) else None)"

locale ranged = memory_reader + fixes r :: Range
begin

lemma range_bounded: "length (MemoryRange_Read rd r a n) \<le> n"
  using le_trans [OF bounded] by (auto simp: MemoryRange_Read_def Let_def split: option.splits)

lemma range_sound: "bytes_at (range_contents mem r) (unat a) (MemoryRange_Read rd r a n)"
proof (cases "MemoryRange_Read rd r a n = []")
  case False
  let ?o = "a - rg_offset r"
  let ?n = "min n (unat (rg_length r - ?o))"
  obtain x where g: "rg_offset r \<le> a" "?o < rg_length r" "add_overflow ?o (rg_begin r) = Some x"
    and rd: "MemoryRange_Read rd r a n = rd x ?n"
    using False by (auto simp: MemoryRange_Read_def Let_def not_less not_le split: if_splits option.splits)
  have o: "unat ?o = unat a - unat (rg_offset r)" using g(1) by (simp add: unat_sub)
  have x: "unat x = unat ?o + unat (rg_begin r)" using add_overflow_SomeD [OF g(3)] by (rule conjunct2)
  have l: "unat (rg_length r - ?o) = unat (rg_length r) - unat ?o"
    using g(2) by (simp add: unat_sub)
  have len: "length (rd x ?n) \<le> unat (rg_length r) - unat ?o"
    using bounded [of x ?n] l by simp
  have "range_contents mem r (unat a + i) = Some (rd x ?n ! i)" if "i < length (rd x ?n)" for i
  proof -
    have "mem (unat x + i) = Some (rd x ?n ! i)" using sound [of x ?n] that by (simp add: bytes_at_def)
    moreover have "unat (rg_offset r) \<le> unat a" using g(1) by (simp add: word_le_nat_alt)
    moreover have "unat a + i - unat (rg_offset r) < unat (rg_length r)"
      using that len o calculation(2) by linarith
    moreover have "unat a + i - unat (rg_offset r) + unat (rg_begin r) = unat x + i"
      using x o calculation(2) by linarith
    ultimately show ?thesis by (simp add: range_contents_def)
  qed
  then show ?thesis by (simp add: rd bytes_at_def)
qed simp

end

sublocale ranged \<subseteq> range: memory_reader "MemoryRange_Read rd r" "range_contents mem r"
  by unfold_locales (rule range_bounded, rule range_sound)

interpretation file_range: ranged "MemoryFileAtOffset_Read f" "list_contents (file_bytes f)" r for f r
  by unfold_locales


section \<open>The cache\<close>

lemma unat_page: "unat (drop_bit 12 a) = unat a div 4096" for a :: u64
  using unat_drop_bit_eq [of 12 a] by (simp add: drop_bit_eq_div unat_div)

lemma unat_in_page: "unat (a AND kCacheMask) = unat a mod 4096" for a :: u64
proof -
  have "kCacheMask = mask 12" by (simp add: cache_consts mask_eq_exp_minus_1)
  moreover have "unat (a AND mask 12) = unat a mod 4096"
    unfolding take_bit_eq_mask [symmetric] unsigned_take_bit_eq take_bit_eq_mod by (simp add: unat_mod)
  ultimately show ?thesis by simp
qed

lemma unat_page_start: "unat p < 2 ^ 52 \<Longrightarrow> unat (push_bit 12 p) = unat p * 4096" for p :: u64
  by (simp add: push_bit_eq_mult unat_word_ariths)

context full_reader
begin

lemma read_split:
  assumes "bytes_at mem (unat a) xs" "length xs \<le> n" "unat a + n < 2 ^ 64"
  shows "rd a n = xs @ rd (a + of_nat (length xs)) (n - length xs)"
proof -
  let ?b = "a + of_nat (length xs)"
  have b: "unat ?b = unat a + length xs" using assms(2,3) by (intro unat_add_lt) simp
  have "length xs \<le> length (rd a n)" using maximal [OF assms(1,2)] .
  then have pre: "take (length xs) (rd a n) = xs"
    by (intro bytes_at_unique [OF bytes_at_take [OF sound] assms(1)]) simp
  have "bytes_at mem (unat ?b) (drop (length xs) (rd a n))"
    using bytes_at_drop [OF sound, of a "length xs" n] b by simp
  moreover have "length (drop (length xs) (rd a n)) \<le> n - length xs" using bounded [of a n] by simp
  ultimately have le: "length (drop (length xs) (rd a n)) \<le> length (rd ?b (n - length xs))"
    by (rule maximal)
  have "bytes_at mem (unat a) (xs @ rd ?b (n - length xs))"
    using assms(1) sound [of ?b "n - length xs"] b by (simp add: bytes_at_append)
  moreover have "length (xs @ rd ?b (n - length xs)) \<le> n" using bounded [of ?b "n - length xs"] assms(2) by simp
  ultimately have "length (xs @ rd ?b (n - length xs)) \<le> length (rd a n)" by (rule maximal)
  with le have "length (drop (length xs) (rd a n)) = length (rd ?b (n - length xs))" by simp
  then have "drop (length xs) (rd a n) = rd ?b (n - length xs)"
    using bytes_at_drop [OF sound, of a "length xs" n] sound [of ?b "n - length xs"] b
    by (intro bytes_at_unique [of mem "unat ?b"]) auto
  then show ?thesis using pre by (metis append_take_drop_id)
qed

text \<open>A cache agrees with the memory: each entry is a whole page of it.\<close>

definition agrees :: "cache \<Rightarrow> bool" where
  "agrees cache \<longleftrightarrow> (\<forall>p bs. cache p = Some bs \<longrightarrow> length bs = 4096 \<and>
     (unat p < 2 ^ 52 \<longrightarrow> bytes_at mem (unat p * 4096) bs))"

lemma cache_page_agrees:
  assumes "agrees cache" "unat p < 2 ^ 52" "cache_page rd p cache = Some (bs, cache')"
  shows "agrees cache' \<and> length bs = 4096 \<and> bytes_at mem (unat p * 4096) bs"
proof (cases "cache p")
  case None
  with assms(3) have r: "ReadFully rd (push_bit 12 p) 4096 = Some bs" "cache' = cache(p \<mapsto> bs)"
    by (auto simp: cache_page_def cache_consts split: option.splits)
  from ReadFully_sound [OF r(1)] unat_page_start [OF assms(2)]
  have "bytes_at mem (unat p * 4096) bs" "length bs = 4096" by simp_all
  then show ?thesis using assms(1) r(2) by (auto simp: agrees_def)
next
  case (Some cs)
  then show ?thesis using assms by (auto simp: cache_page_def agrees_def)
qed

lemma InternalCachedRead_agrees:
  assumes "agrees cache" "n \<le> 4096" "unat a + n < 2 ^ 64"
  shows "\<exists>cache'. InternalCachedRead rd a n cache = (rd a n, cache') \<and> agrees cache'"
proof (cases "cache_page rd (drop_bit 12 a) cache")
  case None
  then show ?thesis using assms(1) by (simp add: InternalCachedRead_def Let_def cache_consts)
next
  case (Some r)
  obtain bs cache1 where r: "cache_page rd (drop_bit 12 a) cache = Some (bs, cache1)"
    using Some by (cases r) auto
  let ?p = "drop_bit 12 a" and ?at = "unat a mod 4096"
  have "unat a < 2 ^ 64" using unsigned_less [of a] by simp
  then have p: "unat ?p < 2 ^ 52" by (simp add: unat_page)
  from cache_page_agrees [OF assms(1) p r] have c1: "agrees cache1" and l: "length bs = 4096"
    and b: "bytes_at mem (unat ?p * 4096) bs" by blast+
  have a: "unat ?p * 4096 + ?at = unat a" by (simp add: unat_page)
  have tail: "bytes_at mem (unat a) (drop ?at bs)" using bytes_at_drop [OF b, of ?at] a by simp
  have "unat ?p * 4096 + ?at < 2 ^ 64" using \<open>unat a < 2 ^ 64\<close> a by simp
  then have "unat (push_bit 12 ?p + of_nat ?at) = unat a"
    using unat_add_lt [of "push_bit 12 ?p" ?at] unat_page_start [OF p] a by simp
  then have aw: "a = push_bit 12 ?p + of_nat ?at" by (metis word_unat_eq_iff)
  have "push_bit 12 (?p + 1) - a = 4096 - of_nat ?at"
    by (subst aw) (simp only: push_bit_eq_mult, simp add: algebra_simps)
  then have max: "unat (push_bit 12 (?p + 1) - a) = 4096 - ?at"
    by (simp add: unat_sub word_le_nat_alt unat_of_nat)
  have un: "InternalCachedRead rd a n cache =
      (if n \<le> 4096 - ?at then (take n (drop ?at bs), cache1)
       else (case cache_page rd (?p + 1) cache1 of
          None \<Rightarrow> (take (4096 - ?at) (drop ?at bs) @ rd (push_bit 12 (?p + 1)) (n - (4096 - ?at)), cache1)
        | Some (cache_dst2, cache2) \<Rightarrow>
            (take (4096 - ?at) (drop ?at bs) @ take (n - (4096 - ?at)) cache_dst2, cache2)))"
    unfolding InternalCachedRead_def Let_def kCacheBits_def r option.case prod.case max unat_in_page
    by simp
  show ?thesis
  proof (cases "n \<le> 4096 - ?at")
    case True
    have "rd a n = take n (drop ?at bs)"
      by (rule full_read [OF bytes_at_take [OF tail]]) (use True l in simp)
    then show ?thesis using True c1 by (simp add: un)
  next
    case False
    let ?head = "drop ?at bs" and ?k = "n - (4096 - ?at)"
    have lh: "length ?head = 4096 - ?at" using l by simp
    have "unat ?p * 4096 + 4096 < 2 ^ 64" using False assms(3) a by linarith
    then have p1: "unat (?p + 1) = unat ?p + 1" "unat (?p + 1) < 2 ^ 52"
      by (simp_all add: unat_word_ariths)
    have "a + of_nat (4096 - ?at) = push_bit 12 (?p + 1)"
    proof -
      have "of_nat (4096 - ?at) = push_bit 12 (?p + 1) - a"
        unfolding max [symmetric] by (simp only: of_nat_unat ucast_id)
      then show ?thesis by simp
    qed
    then have rd: "rd a n = ?head @ rd (push_bit 12 (?p + 1)) ?k"
      using read_split [OF tail, of n] False assms(3) lh by simp
    show ?thesis
    proof (cases "cache_page rd (?p + 1) cache1")
      case None
      then show ?thesis using False c1 rd lh by (simp add: un)
    next
      case (Some q)
      obtain bs2 cache2 where q: "cache_page rd (?p + 1) cache1 = Some (bs2, cache2)"
        using Some by (cases q) auto
      from cache_page_agrees [OF c1 p1(2) q] have c2: "agrees cache2" "length bs2 = 4096"
        "bytes_at mem (unat (?p + 1) * 4096) bs2" by blast+
      have "rd (push_bit 12 (?p + 1)) ?k = take ?k bs2"
        using bytes_at_take [OF c2(3)] unat_page_start [OF p1(2)] c2(2) assms(2)
        by (intro full_read) auto
      then show ?thesis using False rd lh q c2(1) by (simp add: un)
    qed
  qed
qed

lemma MemoryCache_agrees:
  assumes "agrees cache" "unat a + n < 2 ^ 64"
  shows "\<exists>cache'. MemoryCache_Read rd a n cache = (rd a n, cache') \<and> agrees cache'"
  using InternalCachedRead_agrees [OF assms(1) _ assms(2)] assms(1)
  by (simp add: MemoryCache_Read_def)

end

end
