(* ===== verification/ProcessRead.thy ===== *)
theory ProcessRead
  imports MemoryProps
begin

text \<open>
  Properties of the memory classes: strings, files, core files, the cache, and reads of another
  process through \<open>process_vm_readv\<close>, which hold for requests that fit one batch of pieces and
  fail beyond.
\<close>

section \<open>Strings, files and cache\<close>

text \<open>
  Property C26. \<open>ReadString\<close> on a buffer returns a string exactly when the buffer has a zero byte
  among the first \<open>max_read\<close> bytes from the address, and then the bytes before the first one,
  although it reads in blocks of 256 and rereads a string that spans blocks.
\<close>

theorem ReadString_finds_string:
  assumes "unat a + m < 2 ^ 64"
  shows "ReadString (MemoryBuffer_Read raw) a m = Some s \<longleftrightarrow>
     (\<exists>rest. drop (unat a) raw = s @ 0 # rest) \<and> 0 \<notin> set s \<and> length s < m"
  by (simp add: buffer.ReadString_iff [OF assms] bytes_at_list)

lemma ReadString_finds_string_witness:
  "ReadString (MemoryBuffer_Read [9, 104, 105, 0, 7]) 1 10 = Some [104, 105]"
  using ReadString_finds_string [of 1 10 "[9, 104, 105, 0, 7]" "[104, 105]"] by simp

lemma file_bytes_Init:
  assumes init: "MemoryFileAtOffset_Init (Some file) offset sz = Some f" and len: "length file < 2 ^ 64"
  shows "file_bytes f = take (unat sz) (drop (unat offset) file)" (is ?bytes)
    and "unat (fa_size f) = length (file_bytes f)" (is ?size)
proof -
  let ?st = "of_nat (length file) :: u64"
  let ?off = "offset AND (page_size - 1)" and ?al = "offset AND NOT (page_size - 1)"
  let ?s1 = "?st - ?al"
  let ?s2 = "case add_overflow sz ?off of Some ms \<Rightarrow> if ms < ?s1 then ms else ?s1 | None \<Rightarrow> ?s1"
  have st: "unat ?st = length file" using len by (simp add: unat_of_nat)
  have o: "offset < ?st" and f: "fa_size f = ?s2 - ?off" "fa_data f = drop (unat ?off) (mmap_file file ?al ?s2)"
    using init by (auto simp: MemoryFileAtOffset_Init_def Let_def not_le split: if_splits)
  have split: "unat ?al + unat ?off = unat offset"
  proof -
    have "?al + ?off = ?al OR ?off" by (rule disjunctive_add) (simp add: bit_and_iff bit_not_iff)
    also have "\<dots> = offset" by (rule bit_eqI) (auto simp: bit_or_iff bit_and_iff bit_not_iff)
    finally have e: "?off = offset - ?al" by (simp add: algebra_simps)
    have "?al \<le> offset" by (rule word_and_le2)
    then show ?thesis by (simp only: e unat_sub) (simp add: word_le_nat_alt)
  qed
  have s1: "unat ?s1 = length file - unat ?al"
    using st o split by (simp add: unat_sub word_le_nat_alt word_less_nat_alt)
  have off: "unat ?off < unat ?s1" using s1 o split st by (simp add: word_less_nat_alt)
  have s2: "unat ?s2 = min (unat ?s1) (unat sz + unat ?off)"
  proof (cases "add_overflow sz ?off")
    case None
    then have "2 ^ 64 \<le> unat sz + unat ?off" by (simp add: add_overflow_def split: if_splits)
    then show ?thesis using None unat64_less [of ?s1] by simp
  next
    case (Some ms)
    then have "unat ms = unat sz + unat ?off" using add_overflow_SomeD [OF Some] by (rule_tac conjunct2)
    then show ?thesis using Some by (simp add: word_less_nat_alt min_def)
  qed
  then have sz: "unat (?s2 - ?off) = min (unat ?s1 - unat ?off) (unat sz)"
    using off by (subst unat_sub) (auto simp: word_le_nat_alt min_def)
  have "drop (unat ?off) (mmap_file file ?al ?s2) = take (unat ?s2 - unat ?off) (drop (unat offset) file)"
    by (simp add: mmap_file_def drop_take split [symmetric] add.commute)
  then show ?bytes using sz s1 s2 split by (simp add: file_bytes_def f min_def)
  then show ?size using sz s1 split by (simp add: f min_def)
qed

text \<open>
  A file opened at any offset and with any size limit shows the bytes of the file
  from that offset on, cut to the limit, although it is mapped from the page that holds the
  offset.
\<close>

theorem file_shows_its_bytes:
  assumes "MemoryFileAtOffset_Init (Some file) offset sz = Some f" "length file < 2 ^ 64"
  shows "MemoryFileAtOffset_Read f a n = take n (drop (unat a) (take (unat sz) (drop (unat offset) file)))"
  by (simp add: MemoryFileAtOffset_Read_eq file_bytes_Init(1) [OF assms])


lemma file_shows_its_bytes_witness:
  "\<exists>f. MemoryFileAtOffset_Init (Some [1, 2, 3, 4, 5]) 2 2 = Some f \<and> MemoryFileAtOffset_Read f 1 9 = [4]"
proof -
  obtain f where f: "MemoryFileAtOffset_Init (Some [1, 2, 3, 4, 5]) 2 2 = Some f"
    by (simp add: MemoryFileAtOffset_Init_def Let_def page_size_def)
  from file_shows_its_bytes [OF f] f show ?thesis by simp
qed

text \<open>
  A core file whose first word is \<open>start\<close> shows the bytes behind that word at the
  addresses from \<open>start\<close> on, and nothing below it.
\<close>

theorem core_file_maps_from_start:
  assumes "MemoryOffline_Init (Some file) 0 = Some m" "length file < 2 ^ 64"
  shows "8 \<le> length file \<and>
     MemoryOffline_Read (Some m) a n =
       (if a < le_word (take 8 file) then []
        else take n (drop (8 + unat (a - le_word (take 8 file))) file))"
proof -
  obtain f where f: "MemoryFileAtOffset_Init (Some file) 0 u64_max = Some f"
    using assms(1) by (auto simp: MemoryOffline_Init_def split: option.splits)
  have fb: "file_bytes f = file"
    using file_bytes_Init(1) [OF f assms(2)] assms(2) by (simp add: unat_u64_max)
  from assms(1) f obtain start sz where r: "Read64 (MemoryFileAtOffset_Read f) 0 = Some start"
    "sub_overflow (fa_size f) 8 = Some sz"
    "m = (MemoryFileAtOffset_Read f, \<lparr>rg_begin = 8, rg_length = sz, rg_offset = start\<rparr>)"
    by (auto simp: MemoryOffline_Init_def split: option.splits)
  from r(1) have l: "8 \<le> length file" and start: "start = le_word (take 8 file)"
    by (auto simp: Read64_def ReadFully_def Let_def MemoryFileAtOffset_Read_eq fb split: if_splits)
  have size: "unat (fa_size f) = length file" using file_bytes_Init(2) [OF f assms(2)] fb by simp
  have sz: "unat sz = length file - 8"
    using r(2) size by (auto simp: sub_overflow_def unat_sub split: if_splits)
  let ?o = "a - start"
  have rd: "MemoryOffline_Read (Some m) a n = (if a < start then []
      else if unat ?o \<ge> unat sz then []
      else (case add_overflow ?o 8 of None \<Rightarrow> []
            | Some x \<Rightarrow> take (min n (unat (sz - ?o))) (drop (unat x) file)))"
    by (simp add: r(3) MemoryOffline_Read_def MemoryRange_Read_def Let_def MemoryFileAtOffset_Read_eq fb
        word_le_nat_alt cong: option.case_cong)
  show ?thesis
  proof (cases "a < start \<or> unat ?o \<ge> unat sz")
    case True
    then show ?thesis using l sz start by (auto simp: rd)
  next
    case False
    then have "unat ?o + 8 < 2 ^ 64" using sz assms(2) by linarith
    then have "add_overflow ?o 8 = Some (?o + 8)" "unat (?o + 8) = unat ?o + 8"
      using unat_add_lt [of ?o 8] by (simp_all add: add_overflow_def)
    moreover have "unat (sz - ?o) = length file - (8 + unat ?o)"
      using False sz by (simp add: unat_sub word_le_nat_alt)
    ultimately have "MemoryOffline_Read (Some m) a n =
        take (min n (length file - (8 + unat ?o))) (drop (8 + unat ?o) file)"
      using False by (simp add: rd add.commute)
    also have "\<dots> = take n (drop (8 + unat ?o) file)" by (simp add: min_def)
    finally show ?thesis using False l start by simp
  qed
qed

lemma core_file_maps_from_start_witness:
  "\<exists>m. MemoryOffline_Init (Some [0, 16, 0, 0, 0, 0, 0, 0, 7, 8, 9]) 0 = Some m \<and>
     MemoryOffline_Read (Some m) 4097 5 = [8, 9]"
proof -
  let ?file = "[0, 16, 0, 0, 0, 0, 0, 0, 7, 8, 9] :: u8 list"
  obtain f where f: "MemoryFileAtOffset_Init (Some ?file) 0 u64_max = Some f"
    by (simp add: MemoryFileAtOffset_Init_def Let_def page_size_def)
  have fb: "file_bytes f = ?file" "unat (fa_size f) = 11"
    using file_bytes_Init [OF f] by (simp_all add: unat_u64_max)
  have "8 \<le> fa_size f" using fb(2) by (simp add: word_le_nat_alt)
  then obtain m where m: "MemoryOffline_Init (Some ?file) 0 = Some m"
    using f by (auto simp: MemoryOffline_Init_def Read64_def ReadFully_def MemoryFileAtOffset_Read_eq fb
        sub_overflow_def)
  from core_file_maps_from_start [OF m, of 4097 5] m show ?thesis by (simp add: le_word_def)
qed




section \<open>Reading another process\<close>

text \<open>
  \<open>process_vm_readv\<close> transfers a number of whole pieces, in order, and stops at the first that
  is not mapped.
\<close>

definition readv_law :: "contents \<Rightarrow> ((u64 \<times> nat) list \<Rightarrow> u8 list option) \<Rightarrow> bool" where
  "readv_law mem readv \<longleftrightarrow> (\<forall>iovs bs. readv iovs = Some bs \<longrightarrow>
     (\<exists>k bss. bs = concat bss \<and>
        list_all2 (\<lambda>(a, l) b. length b = l \<and> bytes_at mem (unat a) b) (take k iovs) bss))"

text \<open>The pieces follow each other from an address on.\<close>

fun contiguous :: "nat \<Rightarrow> (u64 \<times> nat) list \<Rightarrow> bool" where
  "contiguous a [] = True"
| "contiguous a ((b, l) # iovs) = (unat b = a \<and> contiguous (a + l) iovs)"

definition total :: "(u64 \<times> nat) list \<Rightarrow> nat" where
  "total iovs = sum_list (map snd iovs)"

lemma contiguous_snoc:
  "contiguous a (iovs @ [(b, l)]) \<longleftrightarrow> contiguous a iovs \<and> unat b = a + total iovs"
  by (induction iovs arbitrary: a) (auto simp: total_def add.assoc)

lemma contiguous_take: "contiguous a iovs \<Longrightarrow> contiguous a (take k iovs)"
proof (induction iovs arbitrary: a k)
  case (Cons e iovs)
  then show ?case by (cases k; cases e) auto
qed simp

lemma total_take: "total (take k iovs) \<le> total iovs"
  by (metis total_def append_take_drop_id le_add1 map_append sum_list_append)

lemma contiguous_bytes:
  assumes "list_all2 (\<lambda>(a, l) b. length b = l \<and> bytes_at mem (unat a) b) iovs bss" "contiguous a iovs"
  shows "bytes_at mem a (concat bss) \<and> length (concat bss) = total iovs"
  using assms
proof (induction iovs bss arbitrary: a rule: list_all2_induct)
  case (Cons e es b bs)
  then show ?case by (cases e) (auto simp: bytes_at_append total_def)
qed (simp add: total_def)

lemma vm_iovecs_step:
  assumes "len \<noteq> 0" "length iovs < kMaxIovecs" "vm_iovecs cur len iovs = Some r"
  obtains cur' where "vm_iovecs cur' (len - min (4096 - unat cur mod 4096) len)
       (iovs @ [(cur, min (4096 - unat cur mod 4096) len)]) = Some r"
    "unat cur' = unat cur + min (4096 - unat cur mod 4096) len"
proof -
  let ?l = "min (unat (page_size - (cur AND (page_size - 1)))) len"
  have "page_size - 1 = mask 12" by (simp add: page_size_def mask_eq_exp_minus_1)
  then have m: "unat (cur AND (page_size - 1)) = unat cur mod 4096"
    using unat_in_page [of cur] by (simp add: cache_consts mask_eq_exp_minus_1)
  then have "cur AND (page_size - 1) \<le> page_size" by (simp add: page_size_def word_le_nat_alt)
  then have l: "?l = min (4096 - unat cur mod 4096) len"
    by (simp add: unat_sub m) (simp add: page_size_def)
  have "?l < 2 ^ 64" using l by simp
  then have ul: "unat (of_nat ?l :: u64) = ?l" by (simp add: unat_of_nat)
  from assms obtain cur' where c: "add_overflow cur (of_nat ?l) = Some cur'"
    "vm_iovecs cur' (len - ?l) (iovs @ [(cur, ?l)]) = Some r"
    by (auto simp: vm_iovecs.simps [of cur len iovs] Let_def split: if_splits option.splits)
  have "unat cur' = unat cur + ?l" using add_overflow_SomeD [OF c(1), THEN conjunct2] ul by simp
  with c(2) show thesis unfolding l by (rule that)
qed

lemma less_a_page: "m + len \<le> Suc j * 4096 \<Longrightarrow> m < 4096 \<Longrightarrow> len - (4096 - m) \<le> j * (4096 :: nat)"
  by simp

lemma vm_iovecs_pieces:
  assumes "vm_iovecs cur len iovs = Some (iovs', cur', len')" "contiguous a iovs" "unat cur = a + total iovs"
  shows "contiguous a iovs' \<and> unat cur' = a + total iovs' \<and> total iovs' + len' = total iovs + len \<and>
     (len = 0 \<or> unat cur mod 4096 + len \<le> (64 - length iovs) * 4096 \<longrightarrow> len' = 0)"
  using assms
proof (induction len arbitrary: cur iovs rule: less_induct)
  case (less len)
  show ?case
  proof (cases "len = 0 \<or> length iovs \<ge> kMaxIovecs")
    case True
    then show ?thesis
      using less.prems by (auto simp: vm_iovecs.simps [of cur len iovs] kMaxIovecs_def)
  next
    case False
    let ?l = "min (4096 - unat cur mod 4096) len"
    have "len \<noteq> 0" "length iovs < kMaxIovecs" using False by auto
    from vm_iovecs_step [OF this less.prems(1)] obtain cur2 where c: "vm_iovecs cur2 (len - ?l) (iovs @ [(cur, ?l)]) = Some (iovs', cur', len')"
      "unat cur2 = unat cur + ?l" by blast
    have "0 < ?l" using False by (simp add: less_imp_diff_less)
    then have lt: "len - ?l < len" using False by simp
    have ct: "contiguous a (iovs @ [(cur, ?l)])" "unat cur2 = a + total (iovs @ [(cur, ?l)])"
      using less.prems(2,3) c(2) by (simp_all add: contiguous_snoc total_def)
    have step: "len - ?l = 0 \<or> unat cur2 mod 4096 + (len - ?l) \<le> (64 - length (iovs @ [(cur, ?l)])) * 4096"
      if "len = 0 \<or> unat cur mod 4096 + len \<le> (64 - length iovs) * 4096"
    proof (cases "len \<le> 4096 - unat cur mod 4096")
      case nofit: False
      define q m where "q = unat cur div 4096" and "m = unat cur mod 4096"
      have "unat cur = q * 4096 + m" "m < 4096" by (simp_all add: q_def m_def)
      moreover have "unat cur2 = unat cur + (4096 - m)" using c(2) nofit by (simp add: m_def)
      ultimately have "unat cur2 = (q + 1) * 4096" by simp
      then have "unat cur2 mod 4096 = 0" by simp
      moreover obtain j where j: "64 - length iovs = Suc j" "64 - length (iovs @ [(cur, ?l)]) = j"
        using False by (cases "64 - length iovs") (auto simp: kMaxIovecs_def)
      moreover have "len - ?l \<le> j * 4096"
      proof -
        have "unat cur mod 4096 + len \<le> Suc j * 4096" using that False j(1) by simp
        moreover have "unat cur mod 4096 < 4096" by simp
        ultimately have "len - (4096 - unat cur mod 4096) \<le> j * 4096" by (rule less_a_page)
        moreover have "?l = 4096 - unat cur mod 4096" using nofit by (intro min_absorb1) (rule less_imp_le, simp)
        ultimately show ?thesis by metis
      qed
      ultimately show ?thesis by simp
    qed simp
    have "total (iovs @ [(cur, ?l)]) + (len - ?l) = total iovs + len" by (simp add: total_def)
    then show ?thesis using less.IH [OF lt c(1) ct] step by metis
  qed
qed


lemma vm_read_step:
  assumes "readv_law mem readv" "vm_iovecs cur len [] = Some (iovs, cur', len')" "readv iovs = Some bs"
  shows "bytes_at mem (unat cur) bs \<and> length bs \<le> len"
proof -
  from vm_iovecs_pieces [OF assms(2), of "unat cur"] have c: "contiguous (unat cur) iovs" "total iovs \<le> len"
    by (auto simp: total_def)
  from assms(1,3) obtain k bss where b: "bs = concat bss"
    "list_all2 (\<lambda>(a, l) b. length b = l \<and> bytes_at mem (unat a) b) (take k iovs) bss"
    unfolding readv_law_def by blast
  from contiguous_bytes [OF b(2) contiguous_take [OF c(1)]] c(2) total_take [of k iovs] b(1)
  show ?thesis by simp
qed

text \<open>
  Property C30. A read of another process that fits 64 pages (counted from the page of its
  address) delivers bytes of that process at exactly the requested address, and at most as many
  as requested, whatever part of it the kernel transfers.
\<close>

theorem process_read_sound:
  assumes "readv_law mem readv" "unat a mod 4096 + n \<le> 64 * 4096"
  shows "bytes_at mem (unat a) (ProcessVmRead readv a n) \<and> length (ProcessVmRead readv a n) \<le> n"
proof (cases n)
  case (Suc k)
  show ?thesis
  proof (cases "vm_iovecs a n []")
    case (Some r)
    obtain iovs cur' len' where v: "vm_iovecs a n [] = Some (iovs, cur', len')" using Some by (cases r) auto
    with vm_iovecs_pieces [OF v, of "unat a"] assms(2) have "len' = 0" by (simp add: total_def)
    then show ?thesis
      using v Suc vm_read_step [OF assms(1) v]
      by (cases k) (auto simp: ProcessVmRead_def split: option.splits)
  qed (use Suc in \<open>simp add: ProcessVmRead_def\<close>)
qed (simp add: ProcessVmRead_def)

lemma process_read_sound_witness:
  "length (ProcessVmRead (\<lambda>iovs. Some (concat (map (\<lambda>(a, l). replicate l 7) iovs))) 5000 10) \<le> 10"
proof -
  have "readv_law (\<lambda>_. Some 7) (\<lambda>iovs. Some (concat (map (\<lambda>(a, l). replicate l 7) iovs)))"
    unfolding readv_law_def
  proof (intro allI impI, rule exI, rule exI, rule conjI)
    fix iovs :: "(u64 \<times> nat) list" and bs :: "u8 list"
    assume "Some (concat (map (\<lambda>(a, l). replicate l 7) iovs)) = Some bs"
    then show "bs = concat (map (\<lambda>(a, l). replicate l 7) iovs)" by simp
    show "list_all2 (\<lambda>(a, l) b. length b = l \<and> bytes_at (\<lambda>_. Some 7) (unat a) b) (take (length iovs) iovs)
        (map (\<lambda>(a, l). replicate l 7) iovs)"
      by (auto simp: list_all2_conv_all_nth bytes_at_def split: prod.splits)
  qed
  from process_read_sound [OF this, of 5000 10] show ?thesis by simp
qed

section \<open>Beyond one batch\<close>

text \<open>64 whole pages from a page border make the first batch.\<close>

lemma vm_iovecs_batch:
  assumes "length iovs + k = 64" "4096 * k \<le> len" "unat cur mod 4096 = 0" "unat cur + 4096 * k < 2 ^ 64"
  shows "\<exists>new cur'. vm_iovecs cur len iovs = Some (iovs @ new, cur', len - 4096 * k) \<and>
     unat cur' = unat cur + 4096 * k \<and> (k \<noteq> 0 \<longrightarrow> new \<noteq> [] \<and> hd new = (cur, 4096))"
  using assms
proof (induction k arbitrary: iovs len cur)
  case 0
  then show ?case by (simp add: vm_iovecs.simps [of cur len iovs] kMaxIovecs_def)
next
  case (Suc k)
  have "page_size - 1 = mask 12" by (simp add: page_size_def mask_eq_exp_minus_1)
  then have "unat (cur AND (page_size - 1)) = 0"
    using unat_in_page [of cur] Suc.prems(3) by (simp add: cache_consts mask_eq_exp_minus_1)
  then have "cur AND (page_size - 1) = 0" by (simp add: unat_eq_0)
  then have l: "min (unat (page_size - (cur AND (page_size - 1)))) len = 4096"
    using Suc.prems(2) by (simp add: page_size_def)
  have c: "unat (cur + 4096) = unat cur + 4096" using unat_add_lt [of cur 4096] Suc.prems(4) by simp
  have "add_overflow cur (of_nat 4096) = Some (cur + 4096)"
    using Suc.prems(4) by (simp add: add_overflow_def)
  moreover have "\<not> cur \<ge> u64_max" using Suc.prems(4) by (simp add: word_le_nat_alt unat_u64_max)
  ultimately have "vm_iovecs cur len iovs = vm_iovecs (cur + 4096) (len - 4096) (iovs @ [(cur, 4096)])"
    using Suc.prems(1,2) l by (simp add: vm_iovecs.simps [of cur len iovs] kMaxIovecs_def Let_def)
  moreover have "\<exists>new cur'. vm_iovecs (cur + 4096) (len - 4096) (iovs @ [(cur, 4096)]) =
      Some ((iovs @ [(cur, 4096)]) @ new, cur', len - 4096 - 4096 * k) \<and>
      unat cur' = unat (cur + 4096) + 4096 * k \<and> (k \<noteq> 0 \<longrightarrow> new \<noteq> [] \<and> hd new = (cur + 4096, 4096))"
    using Suc.prems c by (intro Suc.IH) (simp_all add: mod_add_self2)
  ultimately show ?case using c by (fastforce simp: algebra_simps)
qed

text \<open>A kernel that transfers one piece per call, of a memory whose bytes are their page number.\<close>

definition page_contents :: contents where
  "page_contents x = Some (of_nat (x div 4096))"

definition one_piece :: "(u64 \<times> nat) list \<Rightarrow> u8 list option" where
  "one_piece iovs = Some (case iovs of [] \<Rightarrow> [] | (a, l) # _ \<Rightarrow>
     map (\<lambda>i. of_nat ((unat a + i) div 4096)) [0..<l])"

lemma one_piece_law: "readv_law page_contents one_piece"
  unfolding readv_law_def
proof (intro allI impI)
  fix iovs bs
  assume b: "one_piece iovs = Some bs"
  show "\<exists>k bss. bs = concat bss \<and>
     list_all2 (\<lambda>(a, l) b. length b = l \<and> bytes_at page_contents (unat a) b) (take k iovs) bss"
  proof (cases iovs)
    case Nil
    then show ?thesis using b by (intro exI [of _ 0] exI [of _ "[]"]) (simp add: one_piece_def)
  next
    case (Cons e r)
    then show ?thesis
      using b by (intro exI [of _ 1] exI [of _ "[bs]"])
        (auto simp: one_piece_def bytes_at_def page_contents_def split: prod.splits)
  qed
qed

lemma vm_read_two:
  assumes "len \<noteq> 0" "vm_iovecs cur len [] = Some (iovs1, cur1, len1)" "readv iovs1 = Some bs1"
    and "len1 \<noteq> 0" "vm_iovecs cur1 len1 [] = Some (iovs2, cur2, 0)" "readv iovs2 = Some bs2"
  shows "vm_read_loop (Suc (Suc k)) readv cur len [] = bs1 @ bs2"
proof -
  have "vm_read_loop k readv cur2 0 t = t" for t by (cases k) simp_all
  then show ?thesis using assms by simp
qed

text \<open>
  Beyond 64 pages a short transfer of the first batch is not noticed: the next batch is appended
  to what was transferred, and byte 4096 of the result is not the byte at offset 4096.
\<close>

theorem process_read_skips:
  "\<exists>mem readv a n. readv_law mem readv \<and> \<not> bytes_at mem (unat a) (ProcessVmRead readv a n)"
proof -
  let ?n = "64 * 4096 + 1"
  obtain new cur' where v: "vm_iovecs 0 ?n [] = Some (new, cur', 1)" "unat cur' = 262144"
    "new \<noteq> []" "hd new = (0, 4096)"
    using vm_iovecs_batch [of "[]" 64 ?n 0] by auto
  then obtain rest where new: "new = (0, 4096) # rest" by (cases new) auto
  let ?zeros = "map (\<lambda>i. of_nat ((unat (0 :: u64) + i) div 4096)) [0..<4096] :: u8 list"
  have b1: "one_piece new = Some ?zeros" by (simp add: one_piece_def new)
  have cur: "cur' = 262144" using v(2) by (simp add: word_unat_eq_iff)
  have "vm_iovecs cur' 1 [] = Some ([(cur', 1)], cur' + 1, 0)"
    by (simp add: vm_iovecs.simps [of _ "Suc 0"] vm_iovecs.simps [of _ 0] kMaxIovecs_def page_size_def cur
        add_overflow_def Let_def word_le_nat_alt unat_u64_max)
  moreover have "one_piece [(cur', 1)] = Some [64]" by (simp add: one_piece_def cur)
  ultimately have "vm_read_loop (Suc (Suc 262143)) one_piece 0 ?n [] = ?zeros @ [64]"
    by (intro vm_read_two [where readv = one_piece and ?iovs1.0 = new and ?cur1.0 = cur' and ?len1.0 = 1
        and ?iovs2.0 = "[(cur', 1)]" and ?cur2.0 = "cur' + 1"]) (use v(1) b1 in simp_all)
  then have r: "ProcessVmRead one_piece 0 ?n = ?zeros @ [64]" by (simp add: ProcessVmRead_def)
  have "\<not> bytes_at page_contents (unat (0 :: u64)) (?zeros @ [64])"
    by (auto simp: bytes_at_append page_contents_def)
  then show ?thesis using one_piece_law r by metis
qed

end
