(* ===== verification/DwarfMem.thy ===== *)
theory DwarfMem
  imports MemoryProps
begin

text \<open>
  Reading DWARF data: \<open>unwindstack/DwarfMemory.cpp\<close>, \<open>include/unwindstack/DwarfMemory.h\<close> and
  \<open>DwarfEncoding.h\<close>. An operation on a state has three outcomes: done with a value and the new
  state; failed (it returns false) with the state it leaves, which callers still report; and
  undefined (C++ leaves a shift by 64 bits or more undefined). \<open>asz\<close> is \<open>sizeof(AddressType)\<close>, 4 or 8.
\<close>

datatype ('a, 's) outcome = Done 'a 's | Failed 's | Undef

fun bind_outcome :: "('a, 's) outcome \<Rightarrow> ('a \<Rightarrow> 's \<Rightarrow> ('b, 's) outcome) \<Rightarrow> ('b, 's) outcome" where
  "bind_outcome (Done x s) f = f x s"
| "bind_outcome (Failed s) f = Failed s"
| "bind_outcome Undef f = Undef"

lemma bind_outcome_Done [simp]:
  "bind_outcome m f = Done y t \<longleftrightarrow> (\<exists>x s. m = Done x s \<and> f x s = Done y t)"
  by (cases m) auto

record DwarfMemory =
  cur_offset :: u64
  pc_offset :: u64
  data_offset :: u64
  func_offset :: u64
  text_offset :: u64

definition INT64_MAX :: u64 where "INT64_MAX = 0x7fffffffffffffff"

definition DwarfMemory_init :: DwarfMemory where
  "DwarfMemory_init = \<lparr>cur_offset = 0, pc_offset = INT64_MAX, data_offset = - 1, func_offset = - 1,
     text_offset = - 1\<rparr>"

type_synonym 'a dread = "DwarfMemory \<Rightarrow> ('a, DwarfMemory) outcome"

section \<open>Bytes and fixed-size integers\<close>

definition ReadBytes :: "reader \<Rightarrow> nat \<Rightarrow> u8 list dread" where
  "ReadBytes rd num_bytes dm =
     (case ReadFully rd (cur_offset dm) num_bytes of
        None \<Rightarrow> Failed dm
      | Some bs \<Rightarrow> Done bs (dm\<lparr>cur_offset := cur_offset dm + of_nat num_bytes\<rparr>))"

definition read_unsigned :: "reader \<Rightarrow> nat \<Rightarrow> u64 dread" where
  "read_unsigned rd n dm = bind_outcome (ReadBytes rd n dm) (\<lambda>bs dm'. Done (le_word bs) dm')"

text \<open>\<open>ReadSigned\<close> of an \<open>n\<close>-byte type: sign extension from bit \<open>8 n - 1\<close>.\<close>

definition sign_extend :: "nat \<Rightarrow> u64 \<Rightarrow> u64" where
  "sign_extend n w = (if bit w (8 * n - 1) then w OR NOT (mask (8 * n)) else w)"

definition ReadSigned :: "reader \<Rightarrow> nat \<Rightarrow> u64 dread" where
  "ReadSigned rd n dm =
     bind_outcome (ReadBytes rd n dm) (\<lambda>bs dm'. Done (sign_extend n (le_word bs)) dm')"

section \<open>LEB128\<close>

text \<open>The common loop: the value, the final shift and the last byte.\<close>

function leb_loop :: "reader \<Rightarrow> nat \<Rightarrow> u64 \<Rightarrow> (u64 \<times> nat \<times> u8) dread" where
  "leb_loop rd shift cur_value dm =
     (case ReadBytes rd 1 dm of
        Failed dm' \<Rightarrow> Failed dm'
      | Undef \<Rightarrow> Undef
      | Done bs dm' \<Rightarrow>
          (let byte = hd bs in
           if shift \<ge> 64 then Undef
           else (let v = cur_value + push_bit shift (ucast (byte AND 0x7f)) in
                 if byte AND 0x80 \<noteq> 0 then leb_loop rd (shift + 7) v dm'
                 else Done (v, shift + 7, byte) dm')))"
  by pat_completeness auto
termination by (relation "measure (\<lambda>(rd, shift, v, dm). 64 - shift)") auto

declare leb_loop.simps [simp del]

definition ReadULEB128 :: "reader \<Rightarrow> u64 dread" where
  "ReadULEB128 rd dm = bind_outcome (leb_loop rd 0 0 dm) (\<lambda>(v, shift, byte) dm'. Done v dm')"

definition ReadSLEB128 :: "reader \<Rightarrow> u64 dread" where
  "ReadSLEB128 rd dm =
     bind_outcome (leb_loop rd 0 0 dm) (\<lambda>(v, shift, byte) dm'.
       if byte AND 0x40 \<noteq> 0
       then (if shift \<ge> 64 then Undef else Done (v OR push_bit shift (- 1)) dm')
       else Done v dm')"

section \<open>Encoded values\<close>

definition DW_EH_PE_omit :: u8 where "DW_EH_PE_omit = 0xff"
definition DW_EH_PE_absptr :: u8 where "DW_EH_PE_absptr = 0x00"
definition DW_EH_PE_uleb128 :: u8 where "DW_EH_PE_uleb128 = 0x01"
definition DW_EH_PE_udata2 :: u8 where "DW_EH_PE_udata2 = 0x02"
definition DW_EH_PE_udata4 :: u8 where "DW_EH_PE_udata4 = 0x03"
definition DW_EH_PE_udata8 :: u8 where "DW_EH_PE_udata8 = 0x04"
definition DW_EH_PE_sleb128 :: u8 where "DW_EH_PE_sleb128 = 0x09"
definition DW_EH_PE_sdata2 :: u8 where "DW_EH_PE_sdata2 = 0x0a"
definition DW_EH_PE_sdata4 :: u8 where "DW_EH_PE_sdata4 = 0x0b"
definition DW_EH_PE_sdata8 :: u8 where "DW_EH_PE_sdata8 = 0x0c"
definition DW_EH_PE_pcrel :: u8 where "DW_EH_PE_pcrel = 0x10"
definition DW_EH_PE_textrel :: u8 where "DW_EH_PE_textrel = 0x20"
definition DW_EH_PE_datarel :: u8 where "DW_EH_PE_datarel = 0x30"
definition DW_EH_PE_funcrel :: u8 where "DW_EH_PE_funcrel = 0x40"
definition DW_EH_PE_aligned :: u8 where "DW_EH_PE_aligned = 0x50"
definition DW_EH_PE_udata1 :: u8 where "DW_EH_PE_udata1 = 0x0d"
definition DW_EH_PE_sdata1 :: u8 where "DW_EH_PE_sdata1 = 0x0e"
definition DW_EH_PE_block :: u8 where "DW_EH_PE_block = 0x0f"

lemmas pe_defs = DW_EH_PE_omit_def DW_EH_PE_absptr_def DW_EH_PE_uleb128_def DW_EH_PE_udata2_def
  DW_EH_PE_udata4_def DW_EH_PE_udata8_def DW_EH_PE_sleb128_def DW_EH_PE_sdata2_def
  DW_EH_PE_sdata4_def DW_EH_PE_sdata8_def DW_EH_PE_pcrel_def DW_EH_PE_textrel_def
  DW_EH_PE_datarel_def DW_EH_PE_funcrel_def DW_EH_PE_aligned_def DW_EH_PE_udata1_def
  DW_EH_PE_sdata1_def DW_EH_PE_block_def

definition GetEncodedSize :: "nat \<Rightarrow> u8 \<Rightarrow> nat" where
  "GetEncodedSize asz encoding =
     (let e = encoding AND 0x0f in
      if e = DW_EH_PE_absptr then asz
      else if e = DW_EH_PE_udata1 \<or> e = DW_EH_PE_sdata1 then 1
      else if e = DW_EH_PE_udata2 \<or> e = DW_EH_PE_sdata2 then 2
      else if e = DW_EH_PE_udata4 \<or> e = DW_EH_PE_sdata4 then 4
      else if e = DW_EH_PE_udata8 \<or> e = DW_EH_PE_sdata8 then 8
      else 0)"

text \<open>The \<open>CHECK\<close> on the low bits holds by the only call, which masks them away.\<close>

definition AdjustEncodedValue :: "u8 \<Rightarrow> u64 \<Rightarrow> u64 dread" where
  "AdjustEncodedValue encoding v dm =
     (if encoding = DW_EH_PE_absptr then Done v dm
      else if encoding = DW_EH_PE_pcrel then
        (if pc_offset dm = INT64_MAX then Failed dm else Done (v + pc_offset dm) dm)
      else if encoding = DW_EH_PE_textrel then
        (if text_offset dm = - 1 then Failed dm else Done (v + text_offset dm) dm)
      else if encoding = DW_EH_PE_datarel then
        (if data_offset dm = - 1 then Failed dm else Done (v + data_offset dm) dm)
      else if encoding = DW_EH_PE_funcrel then
        (if func_offset dm = - 1 then Failed dm else Done (v + func_offset dm) dm)
      else Failed dm)"

definition read_format :: "reader \<Rightarrow> nat \<Rightarrow> u8 \<Rightarrow> u64 dread" where
  "read_format rd asz e dm =
     (if e = DW_EH_PE_absptr then read_unsigned rd asz dm
      else if e = DW_EH_PE_uleb128 then ReadULEB128 rd dm
      else if e = DW_EH_PE_sleb128 then ReadSLEB128 rd dm
      else if e = DW_EH_PE_udata1 then read_unsigned rd 1 dm
      else if e = DW_EH_PE_sdata1 then ReadSigned rd 1 dm
      else if e = DW_EH_PE_udata2 then read_unsigned rd 2 dm
      else if e = DW_EH_PE_sdata2 then ReadSigned rd 2 dm
      else if e = DW_EH_PE_udata4 then read_unsigned rd 4 dm
      else if e = DW_EH_PE_sdata4 then ReadSigned rd 4 dm
      else if e = DW_EH_PE_udata8 then read_unsigned rd 8 dm
      else if e = DW_EH_PE_sdata8 then ReadSigned rd 8 dm
      else Failed dm)"

text \<open>\<open>__builtin_add_overflow\<close> stores the wrapped sum in the offset also when it reports an overflow.\<close>

definition ReadEncodedValue :: "reader \<Rightarrow> nat \<Rightarrow> u8 \<Rightarrow> u64 dread" where
  "ReadEncodedValue rd asz encoding dm =
     (if encoding = DW_EH_PE_omit then Done 0 dm
      else if encoding = DW_EH_PE_aligned then
        (let dm' = dm\<lparr>cur_offset := cur_offset dm + of_nat (asz - 1)\<rparr> in
         if add_overflow (cur_offset dm) (of_nat (asz - 1)) = None then Failed dm'
         else read_unsigned rd asz (dm'\<lparr>cur_offset := cur_offset dm' AND - of_nat asz\<rparr>))
      else bind_outcome (read_format rd asz (encoding AND 0x0f) dm)
             (AdjustEncodedValue (encoding AND 0x70)))"

section \<open>Round trips\<close>

text \<open>The encoders of the DWARF standard, as the reference.\<close>

fun uleb_bytes :: "nat \<Rightarrow> u8 list" where
  "uleb_bytes v = (if v < 128 then [of_nat v] else of_nat (128 + v mod 128) # uleb_bytes (v div 128))"

declare uleb_bytes.simps [simp del]

function sleb_bytes :: "int \<Rightarrow> u8 list" where
  "sleb_bytes v =
     (if - 64 \<le> v \<and> v < 64 then [of_int (v mod 128)]
      else of_int (128 + v mod 128) # sleb_bytes (v div 128))"
  by pat_completeness auto
termination by (relation "measure (\<lambda>v. nat \<bar>v\<bar>)") auto

declare sleb_bytes.simps [simp del]

text \<open>What the loop reads: groups of seven bits, all but the last byte with the top bit set.\<close>

fun leb_value :: "u8 list \<Rightarrow> nat" where
  "leb_value [] = 0"
| "leb_value (b # bs) = unat b mod 128 + 128 * leb_value bs"

fun leb_wf :: "u8 list \<Rightarrow> bool" where
  "leb_wf [] = False"
| "leb_wf [b] = (unat b < 128)"
| "leb_wf (b # bs) = (128 \<le> unat b \<and> leb_wf bs)"

lemma low_bits: "ucast (b AND 0x7f) = (of_nat (unat b mod 128) :: u64)" for b :: u8
proof -
  have "b AND 0x7f = take_bit 7 b" by (simp add: take_bit_eq_mask mask_eq_exp_minus_1)
  then have "unat (b AND 0x7f) = unat b mod 128" by (simp add: unsigned_take_bit_eq take_bit_eq_mod unat_mod)
  then show ?thesis by (metis of_nat_unat)
qed

lemma top_bit: "b AND 0x80 \<noteq> 0 \<longleftrightarrow> 128 \<le> unat b" for b :: u8
proof -
  have "b AND 0x80 = b AND push_bit 7 1" by simp
  then have "b AND 0x80 \<noteq> 0 \<longleftrightarrow> bit b 7" by (simp add: bit_iff_and_push_bit_not_eq_0)
  also have "bit b 7 \<longleftrightarrow> bit (unat b) 7" by (simp only: bit_unsigned_iff) simp
  also have "\<dots> \<longleftrightarrow> odd (unat b div 128)" by (simp add: bit_iff_odd)
  also have "\<dots> \<longleftrightarrow> 128 \<le> unat b"
  proof -
    have "unat b < 2 ^ LENGTH(8)" by (rule unsigned_less)
    then have "unat b < 256" by simp
    then have "unat b div 128 = 0 \<or> unat b div 128 = 1" by auto
    then show ?thesis by (auto simp: div_eq_0_iff)
  qed
  finally show ?thesis .
qed

lemma six_bit: "unat b < 128 \<Longrightarrow> b AND 0x40 \<noteq> 0 \<longleftrightarrow> 64 \<le> unat b" for b :: u8
proof -
  assume l: "unat b < 128"
  have "b AND 0x40 = b AND push_bit 6 1" by simp
  then have "b AND 0x40 \<noteq> 0 \<longleftrightarrow> bit b 6" by (simp add: bit_iff_and_push_bit_not_eq_0)
  also have "bit b 6 \<longleftrightarrow> bit (unat b) 6" by (simp only: bit_unsigned_iff) simp
  also have "\<dots> \<longleftrightarrow> odd (unat b div 64)" by (simp add: bit_iff_odd)
  also have "\<dots> \<longleftrightarrow> 64 \<le> unat b"
  proof -
    from l have "unat b div 64 = 0 \<or> unat b div 64 = 1" by auto
    then show ?thesis by (auto simp: div_eq_0_iff)
  qed
  finally show ?thesis .
qed

context full_reader
begin

lemma ReadBytes_at:
  assumes "bytes_at mem (unat (cur_offset dm)) bs" "length bs = n"
  shows "ReadBytes rd n dm = Done bs (dm\<lparr>cur_offset := cur_offset dm + of_nat n\<rparr>)"
  using assms by (simp add: ReadBytes_def ReadFully_iff [THEN iffD2])

lemma leb_loop_reads:
  assumes "leb_wf bs" "bytes_at mem (unat (cur_offset dm)) bs"
    "unat (cur_offset dm) + length bs < 2 ^ 64" "shift + 7 * length bs < 71"
  shows "leb_loop rd shift acc dm =
     Done (acc + push_bit shift (of_nat (leb_value bs)), shift + 7 * length bs, last bs)
       (dm\<lparr>cur_offset := cur_offset dm + of_nat (length bs)\<rparr>)"
  using assms
proof (induction bs arbitrary: shift acc dm rule: leb_wf.induct)
  case (2 b)
  then have "ReadBytes rd 1 dm = Done [b] (dm\<lparr>cur_offset := cur_offset dm + 1\<rparr>)"
    using ReadBytes_at [of dm "[b]" 1] by simp
  then show ?case using 2 top_bit [of b] by (simp add: leb_loop.simps [of rd shift] Let_def low_bits)
next
  case (3 b c bs)
  let ?dm = "dm\<lparr>cur_offset := cur_offset dm + 1\<rparr>"
  have "bytes_at mem (unat (cur_offset dm)) ([b] @ c # bs)" using 3(3) by simp
  then have b: "bytes_at mem (unat (cur_offset dm)) [b]" and r: "bytes_at mem (unat (cur_offset dm) + 1) (c # bs)"
    using bytes_at_append [of mem _ "[b]" "c # bs"] by simp_all
  have o: "unat (cur_offset ?dm) = unat (cur_offset dm) + 1"
    using unat_add_lt [of "cur_offset dm" 1] 3(4) by simp
  have "ReadBytes rd 1 dm = Done [b] ?dm" using ReadBytes_at [OF b, of 1] by simp
  then have "leb_loop rd shift acc dm =
      leb_loop rd (shift + 7) (acc + push_bit shift (of_nat (unat b mod 128))) ?dm"
    using 3(2,5) top_bit [of b] by (simp add: leb_loop.simps [of rd shift] Let_def low_bits)
  also have "\<dots> = Done (acc + push_bit shift (of_nat (unat b mod 128)) +
        push_bit (shift + 7) (of_nat (leb_value (c # bs))), shift + 7 + 7 * length (c # bs), last (c # bs))
      (?dm\<lparr>cur_offset := cur_offset ?dm + of_nat (length (c # bs))\<rparr>)"
    using 3 r o by (intro "3.IH") simp_all
  finally show ?case by (simp add: push_bit_eq_mult power_add algebra_simps)
qed simp

lemma leb_loop_too_long:
  assumes "leb_wf bs" "bytes_at mem (unat (cur_offset dm)) bs"
    "unat (cur_offset dm) + length bs < 2 ^ 64" "71 \<le> shift + 7 * length bs" "shift mod 7 = 0"
  shows "leb_loop rd shift acc dm = Undef"
  using assms
proof (induction bs arbitrary: shift acc dm rule: leb_wf.induct)
  case (2 b)
  then have "ReadBytes rd 1 dm = Done [b] (dm\<lparr>cur_offset := cur_offset dm + 1\<rparr>)"
    using ReadBytes_at [of dm "[b]" 1] by simp
  then show ?case using 2 by (simp add: leb_loop.simps [of rd shift] Let_def)
next
  case (3 b c bs)
  let ?dm = "dm\<lparr>cur_offset := cur_offset dm + 1\<rparr>"
  have "bytes_at mem (unat (cur_offset dm)) ([b] @ c # bs)" using 3(3) by simp
  then have b: "bytes_at mem (unat (cur_offset dm)) [b]" and r: "bytes_at mem (unat (cur_offset dm) + 1) (c # bs)"
    using bytes_at_append [of mem _ "[b]" "c # bs"] by simp_all
  have o: "unat (cur_offset ?dm) = unat (cur_offset dm) + 1"
    using unat_add_lt [of "cur_offset dm" 1] 3(4) by simp
  have rb: "ReadBytes rd 1 dm = Done [b] ?dm" using ReadBytes_at [OF b, of 1] by simp
  have "leb_loop rd (shift + 7) v ?dm = Undef" for v
    using 3 r o by (intro "3.IH") simp_all
  then show ?case using 3(2) rb top_bit [of b] by (simp add: leb_loop.simps [of rd shift] Let_def)
qed simp

end

section \<open>Round trips of LEB128\<close>

lemma uleb_bytes_facts:
  "leb_wf (uleb_bytes v) \<and> leb_value (uleb_bytes v) = v \<and> (v < 128 ^ k \<longrightarrow> 0 < k \<longrightarrow> length (uleb_bytes v) \<le> k)"
proof (induction v arbitrary: k rule: uleb_bytes.induct)
  case (1 v)
  show ?case
  proof (cases "v < 128")
    case True
    then show ?thesis by (simp add: uleb_bytes.simps unat_of_nat)
  next
    case False
    have "v mod 128 < 128" by simp
    then have u: "unat (of_nat (128 + v mod 128) :: u8) = 128 + v mod 128"
      by (simp only: unat_of_nat) simp
    have ne: "uleb_bytes (v div 128) \<noteq> []" by (simp add: uleb_bytes.simps)
    note IH = 1 [OF False]
    have "length (uleb_bytes (v div 128)) \<le> k - 1" if "v < 128 ^ k" "0 < k"
    proof -
      have "k \<noteq> 1" using that(1) False by auto
      then have "1 < k" using that(2) by simp
      moreover have "v div 128 < 128 ^ (k - 1)"
        using that by (simp add: less_mult_imp_div_less power_eq_if mult.commute)
      ultimately show ?thesis using IH [of "k - 1"] by simp
    qed
    then show ?thesis
      using False IH [of 0] u ne
      by (cases "uleb_bytes (v div 128)") (auto simp: uleb_bytes.simps [of v])
  qed
qed

lemma unat_of_int8: "0 \<le> x \<Longrightarrow> x < 256 \<Longrightarrow> int (unat (of_int x :: u8)) = x"
  by (simp add: uint_word_of_int)

lemma leb_Cons:
  "bs \<noteq> [] \<Longrightarrow> leb_wf (b # bs) = (128 \<le> unat b \<and> leb_wf bs)"
  by (cases bs) auto

lemma sleb_bytes_facts:
  "leb_wf (sleb_bytes v) \<and> int (leb_value (sleb_bytes v)) = v mod 128 ^ length (sleb_bytes v) \<and>
   (last (sleb_bytes v) AND 0x40 \<noteq> 0 \<longleftrightarrow> v < 0) \<and> sleb_bytes v \<noteq> []"
proof (induction v rule: sleb_bytes.induct)
  case (1 v)
  have m: "0 \<le> v mod 128" "v mod 128 < 128" by simp_all
  show ?case
  proof (cases "- 64 \<le> v \<and> v < 64")
    case True
    have u: "int (unat (of_int (v mod 128) :: u8)) = v mod 128"
      using m by (intro unat_of_int8) auto
    have "64 \<le> v mod 128 \<longleftrightarrow> v < 0" using True by presburger
    then have n: "64 \<le> unat (of_int (v mod 128) :: u8) \<longleftrightarrow> v < 0" using u by linarith
    have l: "unat (of_int (v mod 128) :: u8) < 128" using u m by linarith
    have "int (unat (of_int (v mod 128) :: u8) mod 128) = v mod 128" using u l by simp
    then show ?thesis using True l n six_bit [OF l] by (simp add: sleb_bytes.simps [of v])
  next
    case False
    let ?b = "of_int (128 + v mod 128) :: u8" and ?r = "sleb_bytes (v div 128)"
    have u: "int (unat ?b) = 128 + v mod 128"
      using m by (intro unat_of_int8) auto
    have IH: "leb_wf ?r" "int (leb_value ?r) = v div 128 mod 128 ^ length ?r"
      "(last ?r AND 0x40 \<noteq> 0) = (v div 128 < 0)" "?r \<noteq> []"
      using 1 [OF False] by auto
    have e: "sleb_bytes v = ?b # ?r" using False by (simp add: sleb_bytes.simps [of v])
    have "128 \<le> unat ?b" using u m by linarith
    then have w: "leb_wf (?b # ?r)" using IH(1,4) by (simp add: leb_Cons)
    have "int (unat ?b mod 128) = v mod 128" using u by (simp add: zmod_int)
    then have "int (leb_value (?b # ?r)) = v mod 128 + 128 * (v div 128 mod 128 ^ length ?r)"
      using IH(2) by simp
    also have "\<dots> = v mod (128 * 128 ^ length ?r)"
      by (simp add: zmod_zmult2_eq)
    finally show ?thesis using w IH(3,4) unfolding e using pos_imp_zdiv_neg_iff [of 128 v] by simp
  qed
qed

lemma sleb_bytes_length:
  "length (sleb_bytes v) \<le> Suc j \<longleftrightarrow> - (64 * 128 ^ j) \<le> v \<and> v < 64 * 128 ^ j"
proof (induction v arbitrary: j rule: sleb_bytes.induct)
  case (1 v)
  show ?case
  proof (cases "- 64 \<le> v \<and> v < 64")
    case True
    have "(1 :: int) \<le> 128 ^ j" by simp
    then have "- (64 * 128 ^ j) \<le> v \<and> v < 64 * 128 ^ j" using True by linarith
    then show ?thesis using True by (simp add: sleb_bytes.simps [of v])
  next
    case False
    then have e: "length (sleb_bytes v) = Suc (length (sleb_bytes (v div 128)))"
      by (subst sleb_bytes.simps) auto
    show ?thesis
    proof (cases j)
      case 0
      have "sleb_bytes (v div 128) \<noteq> []" using sleb_bytes_facts [of "v div 128"] by simp
      then have "\<not> length (sleb_bytes v) \<le> Suc j" using e 0 by simp
      then show ?thesis using False 0 by simp
    next
      case (Suc i)
      have "length (sleb_bytes v) \<le> Suc j \<longleftrightarrow> - (64 * 128 ^ i) \<le> v div 128 \<and> v div 128 < 64 * 128 ^ i"
        using 1 [OF False, of i] e Suc by simp
      also have "\<dots> \<longleftrightarrow> - (64 * 128 ^ i) * 128 \<le> v \<and> v < 64 * 128 ^ i * 128" by linarith
      finally show ?thesis by (simp add: Suc)
    qed
  qed
qed

text \<open>The loop on the bytes of a buffer, from the current offset.\<close>

lemma buffer_leb_loop:
  assumes "drop (unat (cur_offset dm)) raw = bs @ rest" "length raw < 2 ^ 64" "leb_wf bs" "length bs \<le> 10"
  shows "leb_loop (MemoryBuffer_Read raw) 0 0 dm =
    Done (of_nat (leb_value bs), 7 * length bs, last bs) (dm\<lparr>cur_offset := cur_offset dm + of_nat (length bs)\<rparr>)"
proof -
  have "length (drop (unat (cur_offset dm)) raw) = length bs + length rest" using assms(1) by simp
  moreover have "bs \<noteq> []" using assms(3) by auto
  ultimately have "unat (cur_offset dm) + length bs \<le> length raw" by (cases "bs") auto
  then show ?thesis
    using buffer.leb_loop_reads [OF assms(3), of raw dm 0 0] assms by (auto simp: bytes_at_list)
qed

lemma buffer_ULEB128:
  assumes "drop (unat (cur_offset dm)) raw = uleb_bytes (unat v) @ rest" "length raw < 2 ^ 64"
  shows "length (uleb_bytes (unat v)) \<le> 10 \<and>
     ReadULEB128 (MemoryBuffer_Read raw) dm =
       Done v (dm\<lparr>cur_offset := cur_offset dm + of_nat (length (uleb_bytes (unat v)))\<rparr>)"
proof -
  have "unat v < 128 ^ 10" using unat64_less [of v] by simp
  then have f: "leb_wf (uleb_bytes (unat v))" "leb_value (uleb_bytes (unat v)) = unat v"
    "length (uleb_bytes (unat v)) \<le> 10"
    using uleb_bytes_facts [of "unat v" 10] by simp_all
  show ?thesis using buffer_leb_loop [OF assms f(1,3)] f by (simp add: ReadULEB128_def)
qed

text \<open>
  Property C31. Every 64-bit value is read back from its ULEB128 encoding, which has at most ten
  bytes; the reader stops right behind it and keeps its offsets.
\<close>

theorem ULEB128_roundtrip:
  assumes "drop (unat (cur_offset dm)) raw = uleb_bytes (unat v) @ rest" "length raw < 2 ^ 64"
  shows "length (uleb_bytes (unat v)) \<le> 10 \<and>
     ReadULEB128 (MemoryBuffer_Read raw) dm =
       Done v (dm\<lparr>cur_offset := cur_offset dm + of_nat (length (uleb_bytes (unat v)))\<rparr>)"
  using assms by (rule buffer_ULEB128)

lemma ULEB128_roundtrip_witness:
  "ReadULEB128 (MemoryBuffer_Read [1, 0xe5, 0x8e, 0x26, 7]) (DwarfMemory_init\<lparr>cur_offset := 1\<rparr>) =
     Done 624485 (DwarfMemory_init\<lparr>cur_offset := 4\<rparr>)"
proof -
  have e: "uleb_bytes (unat (624485 :: u64)) = [0xe5, 0x8e, 0x26]"
    by (simp add: uleb_bytes.simps)
  show ?thesis
    using ULEB128_roundtrip [of "DwarfMemory_init\<lparr>cur_offset := 1\<rparr>" "[1, 0xe5, 0x8e, 0x26, 7]" 624485 "[7]"]
    unfolding e by simp
qed

lemma sign_fill:
  assumes "n < 64" "x < 2 ^ n"
  shows "(of_nat x :: u64) OR push_bit n (- 1) = of_int (int x - 2 ^ n)"
proof -
  have "(of_nat x :: u64) = take_bit n (of_nat x)"
    using assms(2) by (metis take_bit_of_nat take_bit_nat_eq_self)
  then have "(of_nat x :: u64) AND push_bit n (- 1) = 0"
    by (metis (no_types) and_zero_eq bit_and_iff bit_push_bit_iff bit_take_bit_iff bit_eqI linorder_not_le bit_0_eq bot_apply bot_bool_def)
  then have "(of_nat x :: u64) OR push_bit n (- 1) = of_nat x + push_bit n (- 1)"
    by (simp add: disjunctive_add_eq_or)
  then show ?thesis by (simp add: push_bit_eq_mult)
qed

lemma buffer_SLEB128:
  assumes "drop (unat (cur_offset dm)) raw = sleb_bytes v @ rest" "length raw < 2 ^ 64"
    and "- (2 ^ 63) \<le> v" "v < 2 ^ 63"
  shows "ReadSLEB128 (MemoryBuffer_Read raw) dm =
     (if v < - (2 ^ 62) then Undef
      else Done (of_int v) (dm\<lparr>cur_offset := cur_offset dm + of_nat (length (sleb_bytes v))\<rparr>))"
proof -
  let ?n = "length (sleb_bytes v)"
  have f: "leb_wf (sleb_bytes v)" "int (leb_value (sleb_bytes v)) = v mod 128 ^ ?n"
    "last (sleb_bytes v) AND 0x40 \<noteq> 0 \<longleftrightarrow> v < 0"
    using sleb_bytes_facts [of v] by auto
  have l: "?n \<le> 10" using sleb_bytes_length [of v 9] assms(3,4) by simp
  have r: "leb_loop (MemoryBuffer_Read raw) 0 0 dm =
      Done (of_nat (leb_value (sleb_bytes v)), 7 * ?n, last (sleb_bytes v))
        (dm\<lparr>cur_offset := cur_offset dm + of_nat ?n\<rparr>)"
    using assms(1,2) f(1) l by (rule buffer_leb_loop)
  have nine: "?n \<le> 9 \<longleftrightarrow> - (2 ^ 62) \<le> v \<and> v < 2 ^ 62" using sleb_bytes_length [of v 8] by simp
  show ?thesis
  proof (cases "v < 0")
    case True
    show ?thesis
    proof (cases "v < - (2 ^ 62)")
      case False
      then have n: "?n \<le> 9" using True nine by simp
      have "v \<ge> - (128 ^ ?n)"
        using sleb_bytes_length [of v "?n - 1"] f(1) by (cases ?n) auto
      then have "v mod 128 ^ ?n = v + 128 ^ ?n"
        using True by (subst mod_add_self2 [symmetric]) (rule mod_pos_pos_trivial, auto)
      then have x: "int (leb_value (sleb_bytes v)) = v + 2 ^ (7 * ?n)" using f(2) by (simp add: power_mult)
      then have "int (leb_value (sleb_bytes v)) < int (2 ^ (7 * ?n))" using True by simp
      then have "leb_value (sleb_bytes v) < 2 ^ (7 * ?n)" by (simp only: of_nat_less_iff)
      then show ?thesis using r f(3) True False n x sign_fill [of "7 * ?n" "leb_value (sleb_bytes v)"]
        by (simp add: ReadSLEB128_def)
    qed (use r f(3) True nine in \<open>simp add: ReadSLEB128_def\<close>)
  next
    case False
    have "v < 128 ^ ?n"
      using sleb_bytes_length [of v "?n - 1"] f(1) by (cases ?n) auto
    then have "int (leb_value (sleb_bytes v)) = v" using f(2) False by (simp add: mod_pos_pos_trivial)
    then have "(of_nat (leb_value (sleb_bytes v)) :: u64) = of_int v" by (metis of_int_of_nat_eq)
    then show ?thesis using r f(3) False by (simp add: ReadSLEB128_def)
  qed
qed

text \<open>
  A signed 64-bit value from \<open>- 2 ^ 62\<close> on is read back from its SLEB128 encoding.
  Below that its ten bytes make the reader shift by 70, which C++ leaves undefined.
\<close>

theorem SLEB128_roundtrip:
  assumes "drop (unat (cur_offset dm)) raw = sleb_bytes v @ rest" "length raw < 2 ^ 64"
    and "- (2 ^ 63) \<le> v" "v < 2 ^ 63"
  shows "ReadSLEB128 (MemoryBuffer_Read raw) dm =
     (if v < - (2 ^ 62) then Undef
      else Done (of_int v) (dm\<lparr>cur_offset := cur_offset dm + of_nat (length (sleb_bytes v))\<rparr>))"
  using assms by (rule buffer_SLEB128)

lemma SLEB128_roundtrip_witness:
  "ReadSLEB128 (MemoryBuffer_Read [0x80, 0x7f, 9]) DwarfMemory_init =
     Done (- 128) (DwarfMemory_init\<lparr>cur_offset := 2\<rparr>) \<and>
   ReadSLEB128 (MemoryBuffer_Read [0x80, 0x80, 0x80, 0x80, 0x80, 0x80, 0x80, 0x80, 0x80, 0x7f]) DwarfMemory_init =
     Undef"
proof -
  have a: "sleb_bytes (- 128) = [0x80, 0x7f]" by (simp add: sleb_bytes.simps)
  have b: "sleb_bytes (- (2 ^ 63)) = [0x80, 0x80, 0x80, 0x80, 0x80, 0x80, 0x80, 0x80, 0x80, 0x7f]"
    by (simp add: sleb_bytes.simps)
  show ?thesis
    using SLEB128_roundtrip [of DwarfMemory_init "[0x80, 0x7f, 9]" "- 128" "[9]"]
      SLEB128_roundtrip [of DwarfMemory_init "sleb_bytes (- (2 ^ 63))" "- (2 ^ 63)" "[]"]
    unfolding a b by (simp add: DwarfMemory_init_def)
qed

text \<open>The value of little-endian bytes, in two's complement for the signed formats.\<close>

definition format_value :: "u8 \<Rightarrow> u8 list \<Rightarrow> int" where
  "format_value encoding bs =
     (if encoding AND 0x0f \<in> {DW_EH_PE_sdata1, DW_EH_PE_sdata2, DW_EH_PE_sdata4, DW_EH_PE_sdata8} \<and>
         2 ^ (8 * length bs - 1) \<le> le_nat bs
      then int (le_nat bs) - 2 ^ (8 * length bs) else int (le_nat bs))"

lemma sign_extend_value:
  assumes "length bs = n" "0 < n" "n \<le> 8"
  shows "sign_extend n (le_word bs) =
     of_int (if 2 ^ (8 * n - 1) \<le> le_nat bs then int (le_nat bs) - 2 ^ (8 * n) else int (le_nat bs))"
proof -
  let ?x = "le_nat bs"
  have b: "?x < 2 ^ (8 * n)" using le_nat_bound [of bs] assms(1) by (simp add: power_mult)
  have "(2 :: nat) ^ (8 * n) = 2 * 2 ^ (8 * n - 1)" using assms(2) by (simp flip: power_Suc)
  then have d: "?x div 2 ^ (8 * n - 1) < 2" using b by (simp add: less_mult_imp_div_less)
  have "bit (of_nat ?x :: u64) (8 * n - 1) \<longleftrightarrow> bit ?x (8 * n - 1)"
    using assms(2,3) by (auto simp: bit_of_nat_iff)
  also have "\<dots> \<longleftrightarrow> 2 ^ (8 * n - 1) \<le> ?x"
  proof -
    have "?x div 2 ^ (8 * n - 1) = 0 \<or> ?x div 2 ^ (8 * n - 1) = 1" using d by linarith
    moreover have "?x div 2 ^ (8 * n - 1) = 0 \<longleftrightarrow> ?x < 2 ^ (8 * n - 1)" by (simp add: div_eq_0_iff)
    ultimately show ?thesis by (auto simp: bit_iff_odd not_less)
  qed
  finally have s: "bit (of_nat ?x :: u64) (8 * n - 1) \<longleftrightarrow> 2 ^ (8 * n - 1) \<le> ?x" .
  show ?thesis
  proof (cases "n = 8")
    case True
    have "(of_int (int ?x - 2 ^ 64) :: u64) = of_nat ?x" by simp
    moreover have "mask (8 * n) = (- 1 :: u64)" using True by (simp add: mask_eq_exp_minus_1)
    ultimately show ?thesis using True by (simp add: sign_extend_def le_word_def)
  next
    case False
    then have "(of_nat ?x :: u64) OR push_bit (8 * n) (- 1) = of_int (int ?x - 2 ^ (8 * n))"
      using assms b by (intro sign_fill) auto
    then show ?thesis using s by (simp add: sign_extend_def le_word_def push_bit_minus_one_eq_not_mask)
  qed
qed

text \<open>
  A fixed-size encoded value takes exactly the bytes \<open>GetEncodedSize\<close> announces, read
  little-endian and, for the signed formats, in two's complement; when they cannot be read the
  reader stays where it is.
\<close>

theorem encoded_value_fixed:
  assumes "asz \<in> {4, 8}" "encoding \<noteq> DW_EH_PE_omit" "encoding \<noteq> DW_EH_PE_aligned"
    and "0 < GetEncodedSize asz encoding"
  shows "ReadEncodedValue rd asz encoding dm =
     (case ReadFully rd (cur_offset dm) (GetEncodedSize asz encoding) of
        None \<Rightarrow> Failed dm
      | Some bs \<Rightarrow> AdjustEncodedValue (encoding AND 0x70) (of_int (format_value encoding bs))
          (dm\<lparr>cur_offset := cur_offset dm + of_nat (GetEncodedSize asz encoding)\<rparr>))"
proof -
  have l: "length bs = n" if "ReadFully rd a n = Some bs" for a n bs
    using that by (auto simp: ReadFully_def Let_def split: if_splits)
  have le: "le_word bs = (of_int (int (le_nat bs)) :: u64)" for bs by (simp add: le_word_def)
  have "encoding AND 0x0f \<in> {DW_EH_PE_absptr, DW_EH_PE_udata1, DW_EH_PE_sdata1, DW_EH_PE_udata2, DW_EH_PE_sdata2,
      DW_EH_PE_udata4, DW_EH_PE_sdata4, DW_EH_PE_udata8, DW_EH_PE_sdata8}"
    using assms(4) by (auto simp: GetEncodedSize_def Let_def split: if_splits)
  then consider "encoding AND 0x0f = DW_EH_PE_absptr" | "encoding AND 0x0f = DW_EH_PE_udata1"
    | "encoding AND 0x0f = DW_EH_PE_sdata1" | "encoding AND 0x0f = DW_EH_PE_udata2"
    | "encoding AND 0x0f = DW_EH_PE_sdata2" | "encoding AND 0x0f = DW_EH_PE_udata4"
    | "encoding AND 0x0f = DW_EH_PE_sdata4" | "encoding AND 0x0f = DW_EH_PE_udata8"
    | "encoding AND 0x0f = DW_EH_PE_sdata8" by blast
  then show ?thesis
    using assms(1-3) sign_extend_value [OF l]
    by cases (auto simp: ReadEncodedValue_def read_format_def GetEncodedSize_def read_unsigned_def ReadSigned_def
        ReadBytes_def format_value_def pe_defs le l split: option.split)
qed

lemma encoded_value_fixed_witness:
  "ReadEncodedValue (MemoryBuffer_Read [0xfe, 0xff, 1]) 8 (0x10 + DW_EH_PE_sdata2) (DwarfMemory_init\<lparr>pc_offset := 0x100\<rparr>) =
     Done 0xfe (DwarfMemory_init\<lparr>pc_offset := 0x100, cur_offset := 2\<rparr>)"
  using encoded_value_fixed [of 8 "0x1a" "MemoryBuffer_Read [0xfe, 0xff, 1]" "DwarfMemory_init\<lparr>pc_offset := 0x100\<rparr>"]
  by (simp add: GetEncodedSize_def pe_defs ReadFully_def MemoryBuffer_Read_def DwarfMemory_init_def format_value_def
      AdjustEncodedValue_def INT64_MAX_def)

end
