(* ===== verification/Registers.thy ===== *)
theory Registers
  imports MemoryRead
begin

text \<open>
  The registers of a thread: \<open>include/unwindstack/Regs.h\<close>, \<open>Regs.cpp\<close> and the six classes
  \<open>Regs<Arch>.cpp\<close> with their register numbers (\<open>Machine<Arch>.h\<close>), kernel structures
  (\<open>User<Arch>.h\<close>) and signal contexts (\<open>Ucontext<Arch>.h\<close>). One record stands for every class, its
  field \<open>regs_arch\<close> for the dynamic type; \<open>'a\<close> is \<open>AddressType\<close>. A virtual function dispatches on it.
  \<open>xpac\<close> is the instruction that clears the pointer authentication code, without effect before
  Armv8.3 and off bionic.
\<close>

section \<open>Architectures and register numbers\<close>

datatype ArchEnum = ARCH_UNKNOWN | ARCH_ARM | ARCH_ARM64 | ARCH_X86 | ARCH_X86_64 | ARCH_MIPS | ARCH_MIPS64

fun ArchIs32Bit :: "ArchEnum \<Rightarrow> bool" where
  "ArchIs32Bit ARCH_ARM = True"
| "ArchIs32Bit ARCH_X86 = True"
| "ArchIs32Bit ARCH_MIPS = True"
| "ArchIs32Bit _ = False"

definition ARM64_PREG_RA_SIGN_STATE :: u32 where "ARM64_PREG_RA_SIGN_STATE = 34"
definition ARM64_PREG_FIRST :: u32 where "ARM64_PREG_FIRST = ARM64_PREG_RA_SIGN_STATE"
definition ARM64_PREG_LAST :: u32 where "ARM64_PREG_LAST = 35"

definition ARM_REG_SP :: nat where "ARM_REG_SP = 13"
definition ARM_REG_LR :: nat where "ARM_REG_LR = 14"
definition ARM_REG_PC :: nat where "ARM_REG_PC = 15"
definition ARM_REG_LAST :: nat where "ARM_REG_LAST = 16"

definition ARM64_REG_R30 :: nat where "ARM64_REG_R30 = 30"
definition ARM64_REG_LR :: nat where "ARM64_REG_LR = 30"
definition ARM64_REG_SP :: nat where "ARM64_REG_SP = 31"
definition ARM64_REG_PC :: nat where "ARM64_REG_PC = 32"
definition ARM64_REG_PSTATE :: nat where "ARM64_REG_PSTATE = 33"
definition ARM64_REG_LAST :: nat where "ARM64_REG_LAST = 34"

definition MIPS_REG_R0 :: nat where "MIPS_REG_R0 = 0"
definition MIPS_REG_SP :: nat where "MIPS_REG_SP = 29"
definition MIPS_REG_R31 :: nat where "MIPS_REG_R31 = 31"
definition MIPS_REG_RA :: nat where "MIPS_REG_RA = 31"
definition MIPS_REG_PC :: nat where "MIPS_REG_PC = 32"
definition MIPS_REG_LAST :: nat where "MIPS_REG_LAST = 33"

definition MIPS64_REG_SP :: nat where "MIPS64_REG_SP = 29"
definition MIPS64_REG_R31 :: nat where "MIPS64_REG_R31 = 31"
definition MIPS64_REG_RA :: nat where "MIPS64_REG_RA = 31"
definition MIPS64_REG_PC :: nat where "MIPS64_REG_PC = 32"
definition MIPS64_REG_LAST :: nat where "MIPS64_REG_LAST = 33"

definition X86_REG_EAX :: nat where "X86_REG_EAX = 0"
definition X86_REG_ECX :: nat where "X86_REG_ECX = 1"
definition X86_REG_EDX :: nat where "X86_REG_EDX = 2"
definition X86_REG_EBX :: nat where "X86_REG_EBX = 3"
definition X86_REG_ESP :: nat where "X86_REG_ESP = 4"
definition X86_REG_EBP :: nat where "X86_REG_EBP = 5"
definition X86_REG_ESI :: nat where "X86_REG_ESI = 6"
definition X86_REG_EDI :: nat where "X86_REG_EDI = 7"
definition X86_REG_EIP :: nat where "X86_REG_EIP = 8"
definition X86_REG_LAST :: nat where "X86_REG_LAST = 16"
definition X86_REG_SP :: nat where "X86_REG_SP = 4"
definition X86_REG_PC :: nat where "X86_REG_PC = 8"

definition X86_64_REG_RAX :: nat where "X86_64_REG_RAX = 0"
definition X86_64_REG_RDX :: nat where "X86_64_REG_RDX = 1"
definition X86_64_REG_RCX :: nat where "X86_64_REG_RCX = 2"
definition X86_64_REG_RBX :: nat where "X86_64_REG_RBX = 3"
definition X86_64_REG_RSI :: nat where "X86_64_REG_RSI = 4"
definition X86_64_REG_RDI :: nat where "X86_64_REG_RDI = 5"
definition X86_64_REG_RBP :: nat where "X86_64_REG_RBP = 6"
definition X86_64_REG_RSP :: nat where "X86_64_REG_RSP = 7"
definition X86_64_REG_R8 :: nat where "X86_64_REG_R8 = 8"
definition X86_64_REG_R9 :: nat where "X86_64_REG_R9 = 9"
definition X86_64_REG_R10 :: nat where "X86_64_REG_R10 = 10"
definition X86_64_REG_R11 :: nat where "X86_64_REG_R11 = 11"
definition X86_64_REG_R12 :: nat where "X86_64_REG_R12 = 12"
definition X86_64_REG_R13 :: nat where "X86_64_REG_R13 = 13"
definition X86_64_REG_R14 :: nat where "X86_64_REG_R14 = 14"
definition X86_64_REG_R15 :: nat where "X86_64_REG_R15 = 15"
definition X86_64_REG_RIP :: nat where "X86_64_REG_RIP = 16"
definition X86_64_REG_LAST :: nat where "X86_64_REG_LAST = 17"
definition X86_64_REG_SP :: nat where "X86_64_REG_SP = 7"
definition X86_64_REG_PC :: nat where "X86_64_REG_PC = 16"

lemmas reg_numbers =
  ARM_REG_SP_def ARM_REG_LR_def ARM_REG_PC_def ARM_REG_LAST_def ARM64_REG_R30_def ARM64_REG_LR_def
  ARM64_REG_SP_def ARM64_REG_PC_def ARM64_REG_PSTATE_def ARM64_REG_LAST_def MIPS_REG_R0_def
  MIPS_REG_SP_def MIPS_REG_R31_def MIPS_REG_RA_def MIPS_REG_PC_def MIPS_REG_LAST_def
  MIPS64_REG_SP_def MIPS64_REG_R31_def MIPS64_REG_RA_def MIPS64_REG_PC_def MIPS64_REG_LAST_def
  X86_REG_EAX_def X86_REG_ECX_def X86_REG_EDX_def X86_REG_EBX_def X86_REG_ESP_def X86_REG_EBP_def
  X86_REG_ESI_def X86_REG_EDI_def X86_REG_EIP_def X86_REG_LAST_def X86_REG_SP_def X86_REG_PC_def
  X86_64_REG_RAX_def X86_64_REG_RDX_def X86_64_REG_RCX_def X86_64_REG_RBX_def X86_64_REG_RSI_def
  X86_64_REG_RDI_def X86_64_REG_RBP_def X86_64_REG_RSP_def X86_64_REG_R8_def X86_64_REG_R9_def
  X86_64_REG_R10_def X86_64_REG_R11_def X86_64_REG_R12_def X86_64_REG_R13_def X86_64_REG_R14_def
  X86_64_REG_R15_def X86_64_REG_RIP_def X86_64_REG_LAST_def X86_64_REG_SP_def X86_64_REG_PC_def

section \<open>The register object\<close>

text \<open>\<open>pseudo_regs\<close> and \<open>pac_mask\<close> are members of \<open>RegsArm64\<close> only.\<close>

record (overloaded) 'a Regs =
  regs_arch :: ArchEnum
  reg_values :: "'a word list"
  pseudo_regs :: "u64 list"
  pac_mask :: u64
  dex_pc :: u64

definition RegsImpl :: "ArchEnum \<Rightarrow> nat \<Rightarrow> 'a::len Regs" where
  "RegsImpl arch total_regs = \<lparr>regs_arch = arch, reg_values = replicate total_regs 0, pseudo_regs = [],
     pac_mask = 0, dex_pc = 0\<rparr>"

definition total_regs :: "'a::len Regs \<Rightarrow> nat" where
  "total_regs r = length (reg_values r)"

definition reg_at :: "nat \<Rightarrow> 'a::len Regs \<Rightarrow> 'a word" where
  "reg_at i r = reg_values r ! i"

definition set_reg :: "nat \<Rightarrow> 'a::len word \<Rightarrow> 'a Regs \<Rightarrow> 'a Regs" where
  "set_reg i v r = r\<lparr>reg_values := (reg_values r)[i := v]\<rparr>"

definition set_dex_pc :: "u64 \<Rightarrow> 'a::len Regs \<Rightarrow> 'a Regs" where
  "set_dex_pc v r = r\<lparr>dex_pc := v\<rparr>"

text \<open>
  Reading straight into \<open>regs_.data()\<close>: the bytes that were read replace those from offset \<open>off\<close> on,
  also when they are fewer than asked for. \<open>k\<close> is the size of a register.
\<close>

definition le_words :: "nat \<Rightarrow> u8 list \<Rightarrow> 'a::len word list" where
  "le_words k bs = map (\<lambda>i. le_word (take k (drop (k * i) bs))) [0..<length bs div k]"

definition raw_bytes :: "nat \<Rightarrow> 'a::len word list \<Rightarrow> u8 list" where
  "raw_bytes k ws = concat (map (\<lambda>w. le_bytes k (unat w)) ws)"

definition copy_in :: "nat \<Rightarrow> nat \<Rightarrow> u8 list \<Rightarrow> 'a::len Regs \<Rightarrow> 'a Regs" where
  "copy_in k off bs r =
     (let raw = raw_bytes k (reg_values r) in
      r\<lparr>reg_values := le_words k (take off raw @ bs @ drop (off + length bs) raw)\<rparr>)"

definition ReadFully_in :: "reader \<Rightarrow> u64 \<Rightarrow> nat \<Rightarrow> nat \<Rightarrow> nat \<Rightarrow> 'a::len Regs \<Rightarrow> bool \<times> 'a Regs" where
  "ReadFully_in rd addr n k off r =
     (let bs = rd addr n in (length bs = n, copy_in k off bs r))"

text \<open>\<open>Memory::Read\<close> used as a condition: any byte will do.\<close>

definition Read_in :: "reader \<Rightarrow> u64 \<Rightarrow> nat \<Rightarrow> nat \<Rightarrow> nat \<Rightarrow> 'a::len Regs \<Rightarrow> bool \<times> 'a Regs" where
  "Read_in rd addr n k off r = (let bs = rd addr n in (bs \<noteq> [], copy_in k off bs r))"

section \<open>The classes\<close>

subsection \<open>Program counter and stack pointer\<close>

definition RegsArm_new :: "'a::len Regs" where "RegsArm_new = RegsImpl ARCH_ARM ARM_REG_LAST"
definition RegsArm_pc :: "'a::len Regs \<Rightarrow> u64" where "RegsArm_pc r = ucast (reg_at ARM_REG_PC r)"
definition RegsArm_sp :: "'a::len Regs \<Rightarrow> u64" where "RegsArm_sp r = ucast (reg_at ARM_REG_SP r)"
definition RegsArm_set_pc :: "u64 \<Rightarrow> 'a::len Regs \<Rightarrow> 'a Regs" where "RegsArm_set_pc pc = set_reg ARM_REG_PC (ucast pc)"
definition RegsArm_set_sp :: "u64 \<Rightarrow> 'a::len Regs \<Rightarrow> 'a Regs" where "RegsArm_set_sp sp = set_reg ARM_REG_SP (ucast sp)"

definition RegsMips_new :: "'a::len Regs" where "RegsMips_new = RegsImpl ARCH_MIPS MIPS_REG_LAST"
definition RegsMips_pc :: "'a::len Regs \<Rightarrow> u64" where "RegsMips_pc r = ucast (reg_at MIPS_REG_PC r)"
definition RegsMips_sp :: "'a::len Regs \<Rightarrow> u64" where "RegsMips_sp r = ucast (reg_at MIPS_REG_SP r)"
definition RegsMips_set_pc :: "u64 \<Rightarrow> 'a::len Regs \<Rightarrow> 'a Regs" where "RegsMips_set_pc pc = set_reg MIPS_REG_PC (ucast pc)"
definition RegsMips_set_sp :: "u64 \<Rightarrow> 'a::len Regs \<Rightarrow> 'a Regs" where "RegsMips_set_sp sp = set_reg MIPS_REG_SP (ucast sp)"

definition RegsMips64_new :: "'a::len Regs" where "RegsMips64_new = RegsImpl ARCH_MIPS64 MIPS64_REG_LAST"
definition RegsMips64_pc :: "'a::len Regs \<Rightarrow> u64" where "RegsMips64_pc r = ucast (reg_at MIPS64_REG_PC r)"
definition RegsMips64_sp :: "'a::len Regs \<Rightarrow> u64" where "RegsMips64_sp r = ucast (reg_at MIPS64_REG_SP r)"
definition RegsMips64_set_pc :: "u64 \<Rightarrow> 'a::len Regs \<Rightarrow> 'a Regs" where "RegsMips64_set_pc pc = set_reg MIPS64_REG_PC (ucast pc)"
definition RegsMips64_set_sp :: "u64 \<Rightarrow> 'a::len Regs \<Rightarrow> 'a Regs" where "RegsMips64_set_sp sp = set_reg MIPS64_REG_SP (ucast sp)"

definition RegsX86_new :: "'a::len Regs" where "RegsX86_new = RegsImpl ARCH_X86 X86_REG_LAST"
definition RegsX86_pc :: "'a::len Regs \<Rightarrow> u64" where "RegsX86_pc r = ucast (reg_at X86_REG_PC r)"
definition RegsX86_sp :: "'a::len Regs \<Rightarrow> u64" where "RegsX86_sp r = ucast (reg_at X86_REG_SP r)"
definition RegsX86_set_pc :: "u64 \<Rightarrow> 'a::len Regs \<Rightarrow> 'a Regs" where "RegsX86_set_pc pc = set_reg X86_REG_PC (ucast pc)"
definition RegsX86_set_sp :: "u64 \<Rightarrow> 'a::len Regs \<Rightarrow> 'a Regs" where "RegsX86_set_sp sp = set_reg X86_REG_SP (ucast sp)"

definition RegsX86_64_new :: "'a::len Regs" where "RegsX86_64_new = RegsImpl ARCH_X86_64 X86_64_REG_LAST"
definition RegsX86_64_pc :: "'a::len Regs \<Rightarrow> u64" where "RegsX86_64_pc r = ucast (reg_at X86_64_REG_PC r)"
definition RegsX86_64_sp :: "'a::len Regs \<Rightarrow> u64" where "RegsX86_64_sp r = ucast (reg_at X86_64_REG_SP r)"
definition RegsX86_64_set_pc :: "u64 \<Rightarrow> 'a::len Regs \<Rightarrow> 'a Regs" where "RegsX86_64_set_pc pc = set_reg X86_64_REG_PC (ucast pc)"
definition RegsX86_64_set_sp :: "u64 \<Rightarrow> 'a::len Regs \<Rightarrow> 'a Regs" where "RegsX86_64_set_sp sp = set_reg X86_64_REG_SP (ucast sp)"

definition SetPseudoRegister :: "u16 \<Rightarrow> u64 \<Rightarrow> 'a::len Regs \<Rightarrow> bool \<times> 'a Regs" where
  "SetPseudoRegister rid v r =
     (if regs_arch r = ARCH_ARM64 \<and> ARM64_PREG_FIRST \<le> ucast rid \<and> ucast rid < ARM64_PREG_LAST
      then (True, r\<lparr>pseudo_regs := (pseudo_regs r)[unat (ucast rid - ARM64_PREG_FIRST) := v]\<rparr>)
      else (False, r))"

definition GetPseudoRegister :: "u16 \<Rightarrow> 'a::len Regs \<Rightarrow> u64 option" where
  "GetPseudoRegister rid r =
     (if regs_arch r = ARCH_ARM64 \<and> ARM64_PREG_FIRST \<le> ucast rid \<and> ucast rid < ARM64_PREG_LAST
      then Some (pseudo_regs r ! unat (ucast rid - ARM64_PREG_FIRST)) else None)"

definition ResetPseudoRegisters :: "'a::len Regs \<Rightarrow> 'a Regs" where
  "ResetPseudoRegisters r =
     (if regs_arch r = ARCH_ARM64 then snd (SetPseudoRegister (ucast ARM64_PREG_RA_SIGN_STATE) 0 r) else r)"

definition IsRASigned :: "'a::len Regs \<Rightarrow> bool" where
  "IsRASigned r =
     (case GetPseudoRegister (ucast ARM64_PREG_RA_SIGN_STATE) r of None \<Rightarrow> False | Some v \<Rightarrow> v \<noteq> 0)"

definition SetPACMask :: "u64 \<Rightarrow> 'a::len Regs \<Rightarrow> 'a Regs" where
  "SetPACMask m r = r\<lparr>pac_mask := m\<rparr>"

definition strip_pac :: "(u64 \<Rightarrow> u64) \<Rightarrow> u64 \<Rightarrow> u64 \<Rightarrow> u64" where
  "strip_pac xpac pc m = (if m \<noteq> 0 then pc AND NOT m else xpac pc)"

definition RegsArm64_new :: "'a::len Regs" where
  "RegsArm64_new = (ResetPseudoRegisters (RegsImpl ARCH_ARM64 ARM64_REG_LAST\<lparr>pseudo_regs := [0]\<rparr>))\<lparr>pac_mask := 0\<rparr>"
definition RegsArm64_pc :: "'a::len Regs \<Rightarrow> u64" where "RegsArm64_pc r = ucast (reg_at ARM64_REG_PC r)"
definition RegsArm64_sp :: "'a::len Regs \<Rightarrow> u64" where "RegsArm64_sp r = ucast (reg_at ARM64_REG_SP r)"
definition RegsArm64_set_pc :: "(u64 \<Rightarrow> u64) \<Rightarrow> u64 \<Rightarrow> 'a::len Regs \<Rightarrow> 'a Regs" where
  "RegsArm64_set_pc xpac pc r =
     set_reg ARM64_REG_PC (ucast (if pc \<noteq> 0 \<and> IsRASigned r then strip_pac xpac pc (pac_mask r) else pc)) r"
definition RegsArm64_set_sp :: "u64 \<Rightarrow> 'a::len Regs \<Rightarrow> 'a Regs" where
  "RegsArm64_set_sp sp = set_reg ARM64_REG_SP (ucast sp)"
definition RegsArm64_fallback_pc :: "(u64 \<Rightarrow> u64) \<Rightarrow> 'a::len Regs \<Rightarrow> 'a Regs" where
  "RegsArm64_fallback_pc xpac r =
     set_reg ARM64_REG_PC (ucast (strip_pac xpac (ucast (reg_at ARM64_REG_PC r)) (pac_mask r))) r"

text \<open>The virtual functions.\<close>

definition regs_pc :: "'a::len Regs \<Rightarrow> u64" where
  "regs_pc r =
     (case regs_arch r of
        ARCH_ARM \<Rightarrow> RegsArm_pc r
      | ARCH_ARM64 \<Rightarrow> RegsArm64_pc r
      | ARCH_X86 \<Rightarrow> RegsX86_pc r
      | ARCH_X86_64 \<Rightarrow> RegsX86_64_pc r
      | ARCH_MIPS \<Rightarrow> RegsMips_pc r
      | ARCH_MIPS64 \<Rightarrow> RegsMips64_pc r
      | ARCH_UNKNOWN \<Rightarrow> 0)"

definition regs_sp :: "'a::len Regs \<Rightarrow> u64" where
  "regs_sp r =
     (case regs_arch r of
        ARCH_ARM \<Rightarrow> RegsArm_sp r
      | ARCH_ARM64 \<Rightarrow> RegsArm64_sp r
      | ARCH_X86 \<Rightarrow> RegsX86_sp r
      | ARCH_X86_64 \<Rightarrow> RegsX86_64_sp r
      | ARCH_MIPS \<Rightarrow> RegsMips_sp r
      | ARCH_MIPS64 \<Rightarrow> RegsMips64_sp r
      | ARCH_UNKNOWN \<Rightarrow> 0)"

definition set_pc :: "(u64 \<Rightarrow> u64) \<Rightarrow> u64 \<Rightarrow> 'a::len Regs \<Rightarrow> 'a Regs" where
  "set_pc xpac v r =
     (case regs_arch r of
        ARCH_ARM \<Rightarrow> RegsArm_set_pc v r
      | ARCH_ARM64 \<Rightarrow> RegsArm64_set_pc xpac v r
      | ARCH_X86 \<Rightarrow> RegsX86_set_pc v r
      | ARCH_X86_64 \<Rightarrow> RegsX86_64_set_pc v r
      | ARCH_MIPS \<Rightarrow> RegsMips_set_pc v r
      | ARCH_MIPS64 \<Rightarrow> RegsMips64_set_pc v r
      | ARCH_UNKNOWN \<Rightarrow> r)"

definition set_sp :: "u64 \<Rightarrow> 'a::len Regs \<Rightarrow> 'a Regs" where
  "set_sp v r =
     (case regs_arch r of
        ARCH_ARM \<Rightarrow> RegsArm_set_sp v r
      | ARCH_ARM64 \<Rightarrow> RegsArm64_set_sp v r
      | ARCH_X86 \<Rightarrow> RegsX86_set_sp v r
      | ARCH_X86_64 \<Rightarrow> RegsX86_64_set_sp v r
      | ARCH_MIPS \<Rightarrow> RegsMips_set_sp v r
      | ARCH_MIPS64 \<Rightarrow> RegsMips64_set_sp v r
      | ARCH_UNKNOWN \<Rightarrow> r)"

definition fallback_pc :: "(u64 \<Rightarrow> u64) \<Rightarrow> 'a::len Regs \<Rightarrow> 'a Regs" where
  "fallback_pc xpac r = (if regs_arch r = ARCH_ARM64 then RegsArm64_fallback_pc xpac r else r)"

section \<open>The return address\<close>

definition RegsArm_SetPcFromReturnAddress :: "'a::len Regs \<Rightarrow> bool \<times> 'a Regs" where
  "RegsArm_SetPcFromReturnAddress r =
     (if reg_at ARM_REG_PC r = reg_at ARM_REG_LR r then (False, r) else (True, set_reg ARM_REG_PC (reg_at ARM_REG_LR r) r))"

definition RegsArm64_SetPcFromReturnAddress :: "'a::len Regs \<Rightarrow> bool \<times> 'a Regs" where
  "RegsArm64_SetPcFromReturnAddress r =
     (if reg_at ARM64_REG_PC r = reg_at ARM64_REG_LR r then (False, r) else (True, set_reg ARM64_REG_PC (reg_at ARM64_REG_LR r) r))"

definition RegsMips_SetPcFromReturnAddress :: "'a::len Regs \<Rightarrow> bool \<times> 'a Regs" where
  "RegsMips_SetPcFromReturnAddress r =
     (if reg_at MIPS_REG_PC r = reg_at MIPS_REG_RA r then (False, r) else (True, set_reg MIPS_REG_PC (reg_at MIPS_REG_RA r) r))"

definition RegsMips64_SetPcFromReturnAddress :: "'a::len Regs \<Rightarrow> bool \<times> 'a Regs" where
  "RegsMips64_SetPcFromReturnAddress r =
     (if reg_at MIPS64_REG_PC r = reg_at MIPS64_REG_RA r then (False, r) else (True, set_reg MIPS64_REG_PC (reg_at MIPS64_REG_RA r) r))"

definition RegsX86_SetPcFromReturnAddress :: "reader \<Rightarrow> 'a::len Regs \<Rightarrow> bool \<times> 'a Regs" where
  "RegsX86_SetPcFromReturnAddress process_memory r =
     (case ReadFully process_memory (ucast (reg_at X86_REG_SP r)) 4 of
        None \<Rightarrow> (False, r)
      | Some bs \<Rightarrow>
          (let new_pc = le_word bs in
           if new_pc = reg_at X86_REG_PC r then (False, r) else (True, set_reg X86_REG_PC new_pc r)))"

definition RegsX86_64_SetPcFromReturnAddress :: "reader \<Rightarrow> 'a::len Regs \<Rightarrow> bool \<times> 'a Regs" where
  "RegsX86_64_SetPcFromReturnAddress process_memory r =
     (case ReadFully process_memory (ucast (reg_at X86_64_REG_SP r)) 8 of
        None \<Rightarrow> (False, r)
      | Some bs \<Rightarrow>
          (let new_pc = le_word bs in
           if new_pc = reg_at X86_64_REG_PC r then (False, r) else (True, set_reg X86_64_REG_PC new_pc r)))"

definition SetPcFromReturnAddress :: "reader \<Rightarrow> 'a::len Regs \<Rightarrow> bool \<times> 'a Regs" where
  "SetPcFromReturnAddress process_memory r =
     (case regs_arch r of
        ARCH_ARM \<Rightarrow> RegsArm_SetPcFromReturnAddress r
      | ARCH_ARM64 \<Rightarrow> RegsArm64_SetPcFromReturnAddress r
      | ARCH_X86 \<Rightarrow> RegsX86_SetPcFromReturnAddress process_memory r
      | ARCH_X86_64 \<Rightarrow> RegsX86_64_SetPcFromReturnAddress process_memory r
      | ARCH_MIPS \<Rightarrow> RegsMips_SetPcFromReturnAddress r
      | ARCH_MIPS64 \<Rightarrow> RegsMips64_SetPcFromReturnAddress r
      | ARCH_UNKNOWN \<Rightarrow> (False, r))"

section \<open>Adjusting a return address to its call\<close>

text \<open>\<open>elf\<close>: whether it is valid, its load bias and its memory.\<close>

definition GetPcAdjustment :: "u64 \<Rightarrow> bool \<Rightarrow> u64 \<Rightarrow> reader \<Rightarrow> ArchEnum \<Rightarrow> u64" where
  "GetPcAdjustment rel_pc elf_valid load_bias elf_memory arch =
     (case arch of
        ARCH_ARM \<Rightarrow>
          if \<not> elf_valid then 2
          else if rel_pc < load_bias then (if rel_pc < 2 then 0 else 2)
          else (let adjusted_rel_pc = rel_pc - load_bias in
                if adjusted_rel_pc < 5 then (if adjusted_rel_pc < 2 then 0 else 2)
                else if adjusted_rel_pc AND 1 \<noteq> 0 then
                  (case ReadFully elf_memory (adjusted_rel_pc - 5) 4 of
                     None \<Rightarrow> 2
                   | Some bs \<Rightarrow> if (le_word bs :: u32) AND 0xe000f000 \<noteq> 0xe000f000 then 2 else 4)
                else 4)
      | ARCH_ARM64 \<Rightarrow> if rel_pc < 4 then 0 else 4
      | ARCH_MIPS \<Rightarrow> if rel_pc < 8 then 0 else 8
      | ARCH_MIPS64 \<Rightarrow> if rel_pc < 8 then 0 else 8
      | ARCH_X86 \<Rightarrow> if rel_pc = 0 then 0 else 1
      | ARCH_X86_64 \<Rightarrow> if rel_pc = 0 then 0 else 1
      | ARCH_UNKNOWN \<Rightarrow> 0)"

end
