(* ===== verification/RegisterInfo.thy ===== *)
theory RegisterInfo
  imports Registers
begin

text \<open>
  \<open>RegsInfo\<close> (\<open>unwindstack/RegsInfo.h\<close>): the registers of a frame and the values saved before they
  were overwritten. \<open>None\<close> is a call that aborts, shifts by 64 bits or reads outside the registers.
\<close>

definition MAX_REGISTERS :: nat where "MAX_REGISTERS = 64"

record (overloaded) 'a RegsInfo =
  ri_regs :: "'a Regs"
  saved_reg_map :: u64
  saved_regs :: "nat \<Rightarrow> 'a word"

definition IsSaved :: "'a::len RegsInfo \<Rightarrow> nat \<Rightarrow> bool option" where
  "IsSaved ri reg =
     (if reg > MAX_REGISTERS then None
      else if reg = 64 then None
      else Some (bit (saved_reg_map ri) reg))"

definition Get :: "'a::len RegsInfo \<Rightarrow> nat \<Rightarrow> 'a word option" where
  "Get ri reg =
     (case IsSaved ri reg of
        None \<Rightarrow> None
      | Some saved \<Rightarrow>
          if saved then Some (saved_regs ri reg)
          else if reg < total_regs (ri_regs ri) then Some (reg_at reg (ri_regs ri)) else None)"

text \<open>\<open>Save\<close>; the register itself is left to the caller to write.\<close>

definition Save :: "'a::len RegsInfo \<Rightarrow> nat \<Rightarrow> 'a RegsInfo option" where
  "Save ri reg =
     (if reg \<ge> MAX_REGISTERS then None
      else if reg < total_regs (ri_regs ri)
      then Some (ri\<lparr>saved_reg_map := saved_reg_map ri OR push_bit reg 1,
                    saved_regs := (saved_regs ri)(reg := reg_at reg (ri_regs ri))\<rparr>)
      else None)"

definition Total :: "'a::len RegsInfo \<Rightarrow> nat" where
  "Total ri = total_regs (ri_regs ri)"

lemma Get_defined: "reg < Total ri \<Longrightarrow> Total ri \<le> 64 \<Longrightarrow> Get ri reg \<noteq> None"
  by (simp add: Get_def IsSaved_def Total_def MAX_REGISTERS_def)

text \<open>What \<open>Get\<close> shows does not change when registers are overwritten after they were saved.\<close>

lemma Get_Save:
  assumes "Save ri reg = Some ri'"
  shows "Get (ri'\<lparr>ri_regs := set_reg reg v (ri_regs ri')\<rparr>) r =
     (if r = reg then Some (reg_at reg (ri_regs ri)) else Get ri r)"
proof -
  let ?m = "saved_reg_map ri OR push_bit reg 1"
  have r: "reg < 64" and ri': "ri' = ri\<lparr>saved_reg_map := ?m,
      saved_regs := (saved_regs ri)(reg := reg_at reg (ri_regs ri))\<rparr>"
    using assms by (simp_all add: Save_def MAX_REGISTERS_def split: if_splits)
  from r have m: "bit ?m r \<longleftrightarrow> bit (saved_reg_map ri) r \<or> r = reg"
    by (auto simp: bit_or_iff bit_exp_iff)
  show ?thesis
  proof (cases "r = reg")
    case True
    then show ?thesis using r m by (simp add: ri' Get_def IsSaved_def MAX_REGISTERS_def)
  next
    case False
    then have "bit ?m r = bit (saved_reg_map ri) r" using m by simp
    then show ?thesis using False
      by (simp add: ri' Get_def IsSaved_def total_regs_def reg_at_def set_reg_def del: bit_or_iff)
  qed
qed

end
