(* ===== verification/DwarfOps.thy ===== *)
theory DwarfOps
  imports DwarfOpTable RegisterInfo "HOL-Library.Signed_Division"
begin

text \<open>
  The evaluator of DWARF expressions: \<open>unwindstack/DwarfOp.cpp\<close> and \<open>DwarfOp.h\<close>. The word type
  \<open>'a\<close> is \<open>AddressType\<close>, of 32 or 64 bits. An operation returns true (\<open>Done\<close>), returns false with
  \<open>last_error_\<close> set (\<open>Failed\<close>), or does what C++ leaves undefined: it pops an empty stack, indexes
  outside stack or operands, shifts by the width or more, or overflows a signed value.
\<close>

datatype DwarfErrorCode =
    DWARF_ERROR_NONE | DWARF_ERROR_MEMORY_INVALID | DWARF_ERROR_ILLEGAL_VALUE
  | DWARF_ERROR_ILLEGAL_STATE | DWARF_ERROR_STACK_INDEX_NOT_VALID | DWARF_ERROR_NOT_IMPLEMENTED
  | DWARF_ERROR_TOO_MANY_ITERATIONS | DWARF_ERROR_CFA_NOT_DEFINED
  | DWARF_ERROR_UNSUPPORTED_VERSION | DWARF_ERROR_NO_FDES

record DwarfErrorData =
  code :: DwarfErrorCode
  address :: u64

text \<open>\<open>stack\<close> has the top first, as \<open>push_front\<close> builds it.\<close>

record (overloaded) 'a DwarfOp =
  op_memory :: DwarfMemory
  dex_pc_set :: bool
  is_register :: bool
  last_error :: DwarfErrorData
  cur_op :: u8
  operands :: "'a word list"
  stack :: "'a word list"

text \<open>What the evaluator works on: \<open>memory_\<close>, \<open>regular_memory_\<close> and \<open>regs_info_\<close>.\<close>

record (overloaded) 'a OpEnv =
  dwarf_memory :: reader
  regular_memory :: reader
  regs_info :: "'a RegsInfo"

type_synonym ('a, 'b) op_result = "('b, 'a DwarfOp) outcome"
type_synonym 'a handler = "'a OpEnv \<Rightarrow> 'a DwarfOp \<Rightarrow> ('a, unit) op_result"

abbreviation address_size :: "'a::len itself \<Rightarrow> nat" where
  "address_size T \<equiv> LENGTH('a) div 8"

section \<open>Stack and operands\<close>

definition fail_code :: "DwarfErrorCode \<Rightarrow> 'a::len DwarfOp \<Rightarrow> ('a, 'b) op_result" where
  "fail_code c s = Failed (s\<lparr>last_error := (last_error s)\<lparr>code := c\<rparr>\<rparr>)"

definition fail_memory :: "u64 \<Rightarrow> 'a::len DwarfOp \<Rightarrow> ('a, 'b) op_result" where
  "fail_memory a s = Failed (s\<lparr>last_error := \<lparr>code = DWARF_ERROR_MEMORY_INVALID, address = a\<rparr>\<rparr>)"

definition StackPop :: "'a::len DwarfOp \<Rightarrow> ('a, 'a word) op_result" where
  "StackPop s = (case stack s of [] \<Rightarrow> Undef | v # vs \<Rightarrow> Done v (s\<lparr>stack := vs\<rparr>))"

definition StackAt :: "nat \<Rightarrow> 'a::len DwarfOp \<Rightarrow> ('a, 'a word) op_result" where
  "StackAt i s = (if i < length (stack s) then Done (stack s ! i) s else Undef)"

definition OperandAt :: "nat \<Rightarrow> 'a::len DwarfOp \<Rightarrow> ('a, 'a word) op_result" where
  "OperandAt i s = (if i < length (operands s) then Done (operands s ! i) s else Undef)"

definition push_front :: "'a::len word \<Rightarrow> 'a DwarfOp \<Rightarrow> ('a, unit) op_result" where
  "push_front v s = Done () (s\<lparr>stack := v # stack s\<rparr>)"

text \<open>\<open>stack_[i] = v\<close>.\<close>

definition set_stack :: "nat \<Rightarrow> 'a::len word \<Rightarrow> 'a DwarfOp \<Rightarrow> ('a, unit) op_result" where
  "set_stack i v s = (if i < length (stack s) then Done () (s\<lparr>stack := (stack s)[i := v]\<rparr>) else Undef)"

text \<open>\<open>stack_[0] = f(stack_[0])\<close>; \<open>None\<close> when computing the value is undefined.\<close>

definition update_top :: "('a::len word \<Rightarrow> 'a word option) \<Rightarrow> 'a DwarfOp \<Rightarrow> ('a, unit) op_result" where
  "update_top f s =
     bind_outcome (StackAt 0 s) (\<lambda>v s. case f v of None \<Rightarrow> Undef | Some v' \<Rightarrow> set_stack 0 v' s)"

text \<open>Pop the top, then combine the next value with it in place.\<close>

definition binary :: "('a::len word \<Rightarrow> 'a word \<Rightarrow> 'a word option) \<Rightarrow> 'a handler" where
  "binary f env s = bind_outcome (StackPop s) (\<lambda>top. update_top (\<lambda>v. f v top))"

definition bool_to_dwarf_bool :: "bool \<Rightarrow> 'a::len word" where
  "bool_to_dwarf_bool b = (if b then 1 else 0)"

definition signed_min :: "'a::len word" where
  "signed_min = push_bit (LENGTH('a) - 1) 1"

section \<open>The operations\<close>

definition op_deref :: "'a::len handler" where
  "op_deref env s =
     bind_outcome (StackPop s) (\<lambda>addr s.
       case ReadFully (regular_memory env) (ucast addr) (address_size TYPE('a)) of
         None \<Rightarrow> fail_memory (ucast addr) s
       | Some bs \<Rightarrow> push_front (le_word bs) s)"

definition op_deref_size :: "'a::len handler" where
  "op_deref_size env s =
     bind_outcome (OperandAt 0 s) (\<lambda>bytes_to_read s.
       if unat bytes_to_read > address_size TYPE('a) \<or> bytes_to_read = 0
       then fail_code DWARF_ERROR_ILLEGAL_VALUE s
       else bind_outcome (StackPop s) (\<lambda>addr s.
         case ReadFully (regular_memory env) (ucast addr) (unat bytes_to_read) of
           None \<Rightarrow> fail_memory (ucast addr) s
         | Some bs \<Rightarrow> push_front (le_word bs) s))"

definition op_push :: "'a::len handler" where
  "op_push env s = Done () (s\<lparr>stack := rev (operands s) @ stack s\<rparr>)"

definition op_dup :: "'a::len handler" where
  "op_dup env s = bind_outcome (StackAt 0 s) push_front"

definition op_drop :: "'a::len handler" where
  "op_drop env s = bind_outcome (StackPop s) (\<lambda>v s. Done () s)"

definition op_over :: "'a::len handler" where
  "op_over env s = bind_outcome (StackAt 1 s) push_front"

definition op_pick :: "'a::len handler" where
  "op_pick env s =
     bind_outcome (OperandAt 0 s) (\<lambda>index s.
       if unat index \<ge> length (stack s) then fail_code DWARF_ERROR_STACK_INDEX_NOT_VALID s
       else bind_outcome (StackAt (unat index) s) push_front)"

definition op_swap :: "'a::len handler" where
  "op_swap env s =
     bind_outcome (StackAt 0 s) (\<lambda>old_value s.
     bind_outcome (StackAt 1 s) (\<lambda>v1 s.
     bind_outcome (set_stack 0 v1 s) (\<lambda>_. set_stack 1 old_value)))"

definition op_rot :: "'a::len handler" where
  "op_rot env s =
     bind_outcome (StackAt 0 s) (\<lambda>top s.
     bind_outcome (StackAt 1 s) (\<lambda>v1 s.
     bind_outcome (set_stack 0 v1 s) (\<lambda>_ s.
     bind_outcome (StackAt 2 s) (\<lambda>v2 s.
     bind_outcome (set_stack 1 v2 s) (\<lambda>_. set_stack 2 top)))))"

definition op_abs :: "'a::len handler" where
  "op_abs env = update_top (\<lambda>v. if sint v < 0 then (if v = signed_min then None else Some (- v)) else Some v)"

definition op_and :: "'a::len handler" where
  "op_and = binary (\<lambda>v top. Some (v AND top))"

definition op_div :: "'a::len handler" where
  "op_div env s =
     bind_outcome (StackPop s) (\<lambda>top s.
       if top = 0 then fail_code DWARF_ERROR_ILLEGAL_VALUE s
       else update_top (\<lambda>v. if v = signed_min \<and> top = - 1 then None
                           else Some (word_of_int (sint v sdiv sint top))) s)"

definition op_minus :: "'a::len handler" where
  "op_minus = binary (\<lambda>v top. Some (v - top))"

definition op_mod :: "'a::len handler" where
  "op_mod env s =
     bind_outcome (StackPop s) (\<lambda>top s.
       if top = 0 then fail_code DWARF_ERROR_ILLEGAL_VALUE s
       else update_top (\<lambda>v. Some (v mod top)) s)"

definition op_mul :: "'a::len handler" where
  "op_mul = binary (\<lambda>v top. Some (v * top))"

definition op_neg :: "'a::len handler" where
  "op_neg env = update_top (\<lambda>v. if v = signed_min then None else Some (- v))"

definition op_not :: "'a::len handler" where
  "op_not env = update_top (\<lambda>v. Some (NOT v))"

definition op_or :: "'a::len handler" where
  "op_or = binary (\<lambda>v top. Some (v OR top))"

definition op_plus :: "'a::len handler" where
  "op_plus = binary (\<lambda>v top. Some (v + top))"

definition op_plus_uconst :: "'a::len handler" where
  "op_plus_uconst env s =
     bind_outcome (OperandAt 0 s) (\<lambda>operand. update_top (\<lambda>v. Some (v + operand)))"

definition op_shl :: "'a::len handler" where
  "op_shl = binary (\<lambda>v top. if unat top < LENGTH('a) then Some (push_bit (unat top) v) else None)"

definition op_shr :: "'a::len handler" where
  "op_shr = binary (\<lambda>v top. if unat top < LENGTH('a) then Some (drop_bit (unat top) v) else None)"

definition op_shra :: "'a::len handler" where
  "op_shra = binary (\<lambda>v top. if unat top < LENGTH('a) then Some (signed_drop_bit (unat top) v) else None)"

definition op_xor :: "'a::len handler" where
  "op_xor = binary (\<lambda>v top. Some (v XOR top))"

text \<open>The operand as an \<open>int16_t\<close>, and the cursor moved by it.\<close>

definition int16_offset :: "'a::len word \<Rightarrow> u64" where
  "int16_offset v = scast (ucast v :: u16)"

definition jump :: "u64 \<Rightarrow> 'a::len DwarfOp \<Rightarrow> ('a, unit) op_result" where
  "jump target s = Done () (s\<lparr>op_memory := (op_memory s)\<lparr>cur_offset := target\<rparr>\<rparr>)"

definition op_bra :: "'a::len handler" where
  "op_bra env s =
     bind_outcome (StackPop s) (\<lambda>top s.
     bind_outcome (OperandAt 0 s) (\<lambda>operand s.
       let offset = int16_offset operand in
       if top \<noteq> 0 then jump (cur_offset (op_memory s) + offset) s
       else jump (cur_offset (op_memory s) - offset) s))"

definition op_eq :: "'a::len handler" where
  "op_eq = binary (\<lambda>v top. Some (bool_to_dwarf_bool (v = top)))"

definition op_ge :: "'a::len handler" where
  "op_ge = binary (\<lambda>v top. Some (bool_to_dwarf_bool (v \<ge> top)))"

definition op_gt :: "'a::len handler" where
  "op_gt = binary (\<lambda>v top. Some (bool_to_dwarf_bool (v > top)))"

definition op_le :: "'a::len handler" where
  "op_le = binary (\<lambda>v top. Some (bool_to_dwarf_bool (v \<le> top)))"

definition op_lt :: "'a::len handler" where
  "op_lt = binary (\<lambda>v top. Some (bool_to_dwarf_bool (v < top)))"

definition op_ne :: "'a::len handler" where
  "op_ne = binary (\<lambda>v top. Some (bool_to_dwarf_bool (v \<noteq> top)))"

definition op_skip :: "'a::len handler" where
  "op_skip env s =
     bind_outcome (OperandAt 0 s) (\<lambda>operand s.
       jump (cur_offset (op_memory s) + int16_offset operand) s)"

definition op_lit :: "'a::len handler" where
  "op_lit env s = push_front (ucast (cur_op s) - 0x30) s"

definition op_reg :: "'a::len handler" where
  "op_reg env s = push_front (ucast (cur_op s) - 0x50) (s\<lparr>is_register := True\<rparr>)"

definition op_regx :: "'a::len handler" where
  "op_regx env s = bind_outcome (OperandAt 0 (s\<lparr>is_register := True\<rparr>)) push_front"

text \<open>Pushes the value of a register plus an operand.\<close>

definition push_register :: "nat \<Rightarrow> nat \<Rightarrow> 'a::len handler" where
  "push_register reg i env s =
     (case Get (regs_info env) reg of
        None \<Rightarrow> Undef
      | Some v \<Rightarrow> bind_outcome (OperandAt i s) (\<lambda>operand. push_front (v + operand)))"

definition op_breg :: "'a::len handler" where
  "op_breg env s =
     (let reg = unat (ucast (cur_op s) - 0x70 :: u16) in
      if reg \<ge> Total (regs_info env) then fail_code DWARF_ERROR_ILLEGAL_VALUE s
      else push_register reg 0 env s)"

definition op_bregx :: "'a::len handler" where
  "op_bregx env s =
     bind_outcome (OperandAt 0 s) (\<lambda>reg s.
       if unat reg \<ge> Total (regs_info env) then fail_code DWARF_ERROR_ILLEGAL_VALUE s
       else push_register (unat reg) 1 env s)"

definition op_nop :: "'a::len handler" where
  "op_nop env s = Done () s"

definition op_not_implemented :: "'a::len handler" where
  "op_not_implemented env s = fail_code DWARF_ERROR_NOT_IMPLEMENTED s"

text \<open>The list of handlers; the entry of \<open>OP_ILLEGAL\<close> is a null pointer, and calling it is undefined.\<close>

fun kOpHandleFuncList :: "DwarfOpHandleFunc \<Rightarrow> 'a::len handler" where
  "kOpHandleFuncList OP_ILLEGAL = (\<lambda>env s. Undef)"
| "kOpHandleFuncList OP_DEREF = op_deref"
| "kOpHandleFuncList OP_DEREF_SIZE = op_deref_size"
| "kOpHandleFuncList OP_PUSH = op_push"
| "kOpHandleFuncList OP_DUP = op_dup"
| "kOpHandleFuncList OP_DROP = op_drop"
| "kOpHandleFuncList OP_OVER = op_over"
| "kOpHandleFuncList OP_PICK = op_pick"
| "kOpHandleFuncList OP_SWAP = op_swap"
| "kOpHandleFuncList OP_ROT = op_rot"
| "kOpHandleFuncList OP_ABS = op_abs"
| "kOpHandleFuncList OP_AND = op_and"
| "kOpHandleFuncList OP_DIV = op_div"
| "kOpHandleFuncList OP_MINUS = op_minus"
| "kOpHandleFuncList OP_MOD = op_mod"
| "kOpHandleFuncList OP_MUL = op_mul"
| "kOpHandleFuncList OP_NEG = op_neg"
| "kOpHandleFuncList OP_NOT = op_not"
| "kOpHandleFuncList OP_OR = op_or"
| "kOpHandleFuncList OP_PLUS = op_plus"
| "kOpHandleFuncList OP_PLUS_UCONST = op_plus_uconst"
| "kOpHandleFuncList OP_SHL = op_shl"
| "kOpHandleFuncList OP_SHR = op_shr"
| "kOpHandleFuncList OP_SHRA = op_shra"
| "kOpHandleFuncList OP_XOR = op_xor"
| "kOpHandleFuncList OP_BRA = op_bra"
| "kOpHandleFuncList OP_EQ = op_eq"
| "kOpHandleFuncList OP_GE = op_ge"
| "kOpHandleFuncList OP_GT = op_gt"
| "kOpHandleFuncList OP_LE = op_le"
| "kOpHandleFuncList OP_LT = op_lt"
| "kOpHandleFuncList OP_NE = op_ne"
| "kOpHandleFuncList OP_SKIP = op_skip"
| "kOpHandleFuncList OP_LIT = op_lit"
| "kOpHandleFuncList OP_REG = op_reg"
| "kOpHandleFuncList OP_REGX = op_regx"
| "kOpHandleFuncList OP_BREG = op_breg"
| "kOpHandleFuncList OP_BREGX = op_bregx"
| "kOpHandleFuncList OP_NOP = op_nop"
| "kOpHandleFuncList OP_NOT_IMPLEMENTED = op_not_implemented"

section \<open>Decoding and evaluating\<close>

fun read_operands :: "u8 list \<Rightarrow> 'a::len handler" where
  "read_operands [] env s = Done () s"
| "read_operands (e # es) env s =
     (case ReadEncodedValue (dwarf_memory env) (address_size TYPE('a)) e (op_memory s) of
        Undef \<Rightarrow> Undef
      | Failed dm \<Rightarrow> fail_memory (cur_offset dm) (s\<lparr>op_memory := dm\<rparr>)
      | Done value dm \<Rightarrow>
          read_operands es env (s\<lparr>op_memory := dm, operands := operands s @ [ucast value]\<rparr>))"

definition Decode :: "'a::len handler" where
  "Decode env s0 =
     (let s = s0\<lparr>last_error := (last_error s0)\<lparr>code := DWARF_ERROR_NONE\<rparr>\<rparr> in
      case ReadBytes (dwarf_memory env) 1 (op_memory s) of
        Undef \<Rightarrow> Undef
      | Failed dm \<Rightarrow> fail_memory (cur_offset dm) (s\<lparr>op_memory := dm\<rparr>)
      | Done bs dm \<Rightarrow>
          (let s = s\<lparr>cur_op := hd bs, op_memory := dm\<rparr>;
               op = kCallbackTable ! unat (cur_op s)
           in if handle_func op = OP_ILLEGAL then fail_code DWARF_ERROR_ILLEGAL_VALUE s
              else if length (stack s) < num_required_stack_values op
              then fail_code DWARF_ERROR_STACK_INDEX_NOT_VALID s
              else bind_outcome
                     (read_operands (take (num_operands op) (op_operands op)) env (s\<lparr>operands := []\<rparr>))
                     (\<lambda>_. kOpHandleFuncList (handle_func op) env)))"

text \<open>
  The loop after the first two operations. The counter starts at 2, so that it meets 1000 exactly
  when it is no longer below it.
\<close>

function eval_loop :: "nat \<Rightarrow> u64 \<Rightarrow> 'a::len handler" where
  "eval_loop iterations end env s =
     (if cur_offset (op_memory s) < end then
        (case Decode env s of
           Undef \<Rightarrow> Undef
         | Failed s' \<Rightarrow> Failed s'
         | Done _ s' \<Rightarrow>
             if iterations \<ge> 1000 then fail_code DWARF_ERROR_TOO_MANY_ITERATIONS s'
             else eval_loop (iterations + 1) end env s')
      else Done () s)"
  by pat_completeness auto
termination by (relation "measure (\<lambda>(i, e, env, s). 1000 - i)") auto

declare eval_loop.simps [simp del]

definition Eval :: "u64 \<Rightarrow> u64 \<Rightarrow> 'a::len handler" where
  "Eval start end env s0 =
     (let s = s0\<lparr>is_register := False, stack := [], dex_pc_set := False,
                op_memory := (op_memory s0)\<lparr>cur_offset := start\<rparr>\<rparr>
      in if \<not> cur_offset (op_memory s) < end then Done () s
         else bind_outcome (Decode env s) (\<lambda>_ s.
           let check_for_drop = (cur_op s = 0x0c \<and> last (operands s) = 0x31584544) in
           if \<not> cur_offset (op_memory s) < end then Done () s
           else bind_outcome (Decode env s) (\<lambda>_ s.
             let s' = (if check_for_drop \<and> cur_op s = 0x13 then s\<lparr>dex_pc_set := True\<rparr> else s)
             in eval_loop 2 end env s')))"

end
