(* ===== verification/DwarfCfa.thy ===== *)
theory DwarfCfa
  imports DwarfOps
begin

text \<open>
  Call frame instructions: \<open>unwindstack/DwarfCfa.cpp\<close>, \<open>DwarfCfa.h\<close>, \<open>DwarfLocation.h\<close> and
  \<open>DwarfStructs.h\<close>. \<open>GetLocationInfo\<close> runs the instructions of a frame description up to a program
  counter and builds the row of the unwind table: where each register of the caller is found.
\<close>

section \<open>Data\<close>

datatype DwarfLocationEnum =
    DWARF_LOCATION_INVALID | DWARF_LOCATION_UNDEFINED | DWARF_LOCATION_OFFSET
  | DWARF_LOCATION_VAL_OFFSET | DWARF_LOCATION_REGISTER | DWARF_LOCATION_EXPRESSION
  | DWARF_LOCATION_VAL_EXPRESSION | DWARF_LOCATION_PSEUDO_REGISTER

text \<open>\<open>values[2]\<close> as two fields.\<close>

record DwarfLocation =
  loc_type :: DwarfLocationEnum
  value0 :: u64
  value1 :: u64

text \<open>\<open>cie_data_alignment_factor\<close> is read as signed.\<close>

record DwarfCie =
  cie_version :: u8
  cie_fde_address_encoding :: u8
  cie_lsda_encoding :: u8
  cie_segment_size :: u8
  cie_augmentation_string :: "u8 list"
  cie_personality_handler :: u64
  cie_cfa_instructions_offset :: u64
  cie_cfa_instructions_end :: u64
  cie_code_alignment_factor :: u64
  cie_data_alignment_factor :: u64
  cie_return_address_register :: u64
  cie_is_signal_frame :: bool

text \<open>The map of registers, with the members the struct adds; \<open>cie\<close> is null until \<open>DwarfSection\<close> sets it.\<close>

record DwarfLocations =
  locs :: "u32 \<rightharpoonup> DwarfLocation"
  locs_cie :: "DwarfCie option"
  pc_start :: u64
  pc_end :: u64

record DwarfFde =
  fde_cie_offset :: u64
  fde_cfa_instructions_offset :: u64
  fde_cfa_instructions_end :: u64
  fde_pc_start :: u64
  fde_pc_end :: u64
  fde_lsda_address :: u64
  fde_cie :: DwarfCie

definition CFA_REG :: u32 where "CFA_REG = 0xffff"

text \<open>\<open>cie_loc_regs_\<close> is null while the instructions of a CIE are run.\<close>

record CfaEnv =
  cfa_reader :: reader
  cfa_fde :: DwarfFde
  cfa_arch :: ArchEnum
  cie_loc_regs :: "DwarfLocations option"

text \<open>\<open>loc_regs\<close> is the row that \<open>GetLocationInfo\<close> fills.\<close>

record (overloaded) 'a DwarfCfa =
  cfa_error :: DwarfErrorData
  cfa_memory :: DwarfMemory
  cur_pc :: "'a word"
  cfa_operands :: "'a word list"
  loc_reg_state :: "DwarfLocations list"
  loc_regs :: DwarfLocations

type_synonym 'a cfa_result = "(unit, 'a DwarfCfa) outcome"
type_synonym 'a cfa_handler = "CfaEnv \<Rightarrow> 'a DwarfCfa \<Rightarrow> 'a cfa_result"

section \<open>Steps of the handlers\<close>

definition cfa_fail :: "DwarfErrorCode \<Rightarrow> 'a::len DwarfCfa \<Rightarrow> ('b, 'a DwarfCfa) outcome" where
  "cfa_fail c s = Failed (s\<lparr>cfa_error := (cfa_error s)\<lparr>code := c\<rparr>\<rparr>)"

definition cfa_fail_memory :: "DwarfMemory \<Rightarrow> 'a::len DwarfCfa \<Rightarrow> ('b, 'a DwarfCfa) outcome" where
  "cfa_fail_memory dm s = Failed (s\<lparr>cfa_memory := dm,
     cfa_error := \<lparr>code = DWARF_ERROR_MEMORY_INVALID, address = cur_offset dm\<rparr>\<rparr>)"

definition operand :: "nat \<Rightarrow> 'a::len DwarfCfa \<Rightarrow> ('a word, 'a DwarfCfa) outcome" where
  "operand i s = (if i < length (cfa_operands s) then Done (cfa_operands s ! i) s else Undef)"

definition location :: "DwarfLocationEnum \<Rightarrow> u64 \<Rightarrow> u64 \<Rightarrow> DwarfLocation" where
  "location t v w = \<lparr>loc_type = t, value0 = v, value1 = w\<rparr>"

definition set_loc_reg :: "u32 \<Rightarrow> DwarfLocation \<Rightarrow> 'a::len DwarfCfa \<Rightarrow> 'a cfa_result" where
  "set_loc_reg k l s = Done () (s\<lparr>loc_regs := (loc_regs s)\<lparr>locs := (locs (loc_regs s))(k \<mapsto> l)\<rparr>\<rparr>)"

definition erase_loc_reg :: "u32 \<Rightarrow> 'a::len DwarfCfa \<Rightarrow> 'a cfa_result" where
  "erase_loc_reg k s = Done () (s\<lparr>loc_regs := (loc_regs s)\<lparr>locs := (locs (loc_regs s))(k := None)\<rparr>\<rparr>)"

text \<open>The register back to what the CIE says of it.\<close>

definition restore_reg :: "u32 \<Rightarrow> 'a::len cfa_handler" where
  "restore_reg k env s =
     (case cie_loc_regs env of
        None \<Rightarrow> cfa_fail DWARF_ERROR_ILLEGAL_STATE s
      | Some cie \<Rightarrow>
          (case locs cie k of
             None \<Rightarrow> erase_loc_reg k s
           | Some l \<Rightarrow> set_loc_reg k l s))"

text \<open>
  \<open>static_cast<SignedType>(v) * data_alignment_factor\<close>, a product of \<open>int64_t\<close> whose overflow is
  undefined, stored in a \<open>SignedType\<close> and widened to \<open>uint64_t\<close>.
\<close>

definition scaled :: "CfaEnv \<Rightarrow> 'a::len word \<Rightarrow> u64 option" where
  "scaled env v =
     (let p = sint v * sint (cie_data_alignment_factor (fde_cie (cfa_fde env))) in
      if - (2 ^ 63) \<le> p \<and> p < 2 ^ 63 then Some (scast (word_of_int p :: 'a word)) else None)"

definition with_scaled ::
  "CfaEnv \<Rightarrow> 'a::len word \<Rightarrow> (u64 \<Rightarrow> 'a DwarfCfa \<Rightarrow> 'a cfa_result) \<Rightarrow> 'a DwarfCfa \<Rightarrow> 'a cfa_result" where
  "with_scaled env v f s = (case scaled env v of None \<Rightarrow> Undef | Some w \<Rightarrow> f w s)"

text \<open>The entry of the CFA itself, when it is a register with an offset.\<close>

definition update_cfa :: "(DwarfLocation \<Rightarrow> DwarfLocation) \<Rightarrow> 'a::len DwarfCfa \<Rightarrow> 'a cfa_result" where
  "update_cfa f s =
     (case locs (loc_regs s) CFA_REG of
        None \<Rightarrow> cfa_fail DWARF_ERROR_ILLEGAL_STATE s
      | Some l \<Rightarrow>
          if loc_type l \<noteq> DWARF_LOCATION_REGISTER then cfa_fail DWARF_ERROR_ILLEGAL_STATE s
          else set_loc_reg CFA_REG (f l) s)"

section \<open>The handlers\<close>

definition cfa_nop :: "'a::len cfa_handler" where
  "cfa_nop env s = Done () s"

definition cfa_set_loc :: "'a::len cfa_handler" where
  "cfa_set_loc env s = bind_outcome (operand 0 s) (\<lambda>new_pc s. Done () (s\<lparr>cur_pc := new_pc\<rparr>))"

definition cfa_advance_loc :: "'a::len cfa_handler" where
  "cfa_advance_loc env s =
     bind_outcome (operand 0 s) (\<lambda>v s. Done () (s\<lparr>cur_pc :=
       ucast (ucast (cur_pc s) + ucast v * cie_code_alignment_factor (fde_cie (cfa_fde env)))\<rparr>))"

definition cfa_offset :: "'a::len cfa_handler" where
  "cfa_offset env s =
     bind_outcome (operand 0 s) (\<lambda>reg s.
     bind_outcome (operand 1 s) (\<lambda>v.
       set_loc_reg (ucast reg) (location DWARF_LOCATION_OFFSET (ucast v) 0)))"

definition cfa_restore :: "'a::len cfa_handler" where
  "cfa_restore env s = bind_outcome (operand 0 s) (\<lambda>reg. restore_reg (ucast reg) env)"

definition cfa_undefined :: "'a::len cfa_handler" where
  "cfa_undefined env s =
     bind_outcome (operand 0 s) (\<lambda>reg. set_loc_reg (ucast reg) (location DWARF_LOCATION_UNDEFINED 0 0))"

definition cfa_same_value :: "'a::len cfa_handler" where
  "cfa_same_value env s = bind_outcome (operand 0 s) (\<lambda>reg. erase_loc_reg (ucast reg))"

definition cfa_register :: "'a::len cfa_handler" where
  "cfa_register env s =
     bind_outcome (operand 0 s) (\<lambda>reg s.
     bind_outcome (operand 1 s) (\<lambda>reg_dst.
       set_loc_reg (ucast reg) (location DWARF_LOCATION_REGISTER (ucast reg_dst) 0)))"

definition cfa_remember_state :: "'a::len cfa_handler" where
  "cfa_remember_state env s = Done () (s\<lparr>loc_reg_state := loc_regs s # loc_reg_state s\<rparr>)"

definition cfa_restore_state :: "'a::len cfa_handler" where
  "cfa_restore_state env s =
     (case loc_reg_state s of
        [] \<Rightarrow> Done () s
      | saved # rest \<Rightarrow> Done () (s\<lparr>loc_regs := saved, loc_reg_state := rest\<rparr>))"

definition cfa_def_cfa :: "'a::len cfa_handler" where
  "cfa_def_cfa env s =
     bind_outcome (operand 0 s) (\<lambda>reg s.
     bind_outcome (operand 1 s) (\<lambda>v.
       set_loc_reg CFA_REG (location DWARF_LOCATION_REGISTER (ucast reg) (ucast v))))"

definition cfa_def_cfa_register :: "'a::len cfa_handler" where
  "cfa_def_cfa_register env s =
     bind_outcome (operand 0 s) (\<lambda>reg. update_cfa (\<lambda>l. l\<lparr>value0 := ucast reg\<rparr>))"

definition cfa_def_cfa_offset :: "'a::len cfa_handler" where
  "cfa_def_cfa_offset env s =
     bind_outcome (operand 0 s) (\<lambda>v. update_cfa (\<lambda>l. l\<lparr>value1 := ucast v\<rparr>))"

text \<open>The length of a block and the offset behind it.\<close>

definition cfa_def_cfa_expression :: "'a::len cfa_handler" where
  "cfa_def_cfa_expression env s =
     bind_outcome (operand 0 s) (\<lambda>n s.
       set_loc_reg CFA_REG (location DWARF_LOCATION_VAL_EXPRESSION (ucast n) (cur_offset (cfa_memory s))) s)"

definition cfa_expression :: "'a::len cfa_handler" where
  "cfa_expression env s =
     bind_outcome (operand 0 s) (\<lambda>reg s.
     bind_outcome (operand 1 s) (\<lambda>n s.
       set_loc_reg (ucast reg) (location DWARF_LOCATION_EXPRESSION (ucast n) (cur_offset (cfa_memory s))) s))"

definition cfa_offset_extended_sf :: "'a::len cfa_handler" where
  "cfa_offset_extended_sf env s =
     bind_outcome (operand 0 s) (\<lambda>reg s.
     bind_outcome (operand 1 s) (\<lambda>v. with_scaled env v (\<lambda>off.
       set_loc_reg (ucast reg) (location DWARF_LOCATION_OFFSET off 0))))"

definition cfa_def_cfa_sf :: "'a::len cfa_handler" where
  "cfa_def_cfa_sf env s =
     bind_outcome (operand 0 s) (\<lambda>reg s.
     bind_outcome (operand 1 s) (\<lambda>v. with_scaled env v (\<lambda>off.
       set_loc_reg CFA_REG (location DWARF_LOCATION_REGISTER (ucast reg) off))))"

definition cfa_def_cfa_offset_sf :: "'a::len cfa_handler" where
  "cfa_def_cfa_offset_sf env s =
     (case locs (loc_regs s) CFA_REG of
        None \<Rightarrow> cfa_fail DWARF_ERROR_ILLEGAL_STATE s
      | Some l \<Rightarrow>
          if loc_type l \<noteq> DWARF_LOCATION_REGISTER then cfa_fail DWARF_ERROR_ILLEGAL_STATE s
          else bind_outcome (operand 0 s) (\<lambda>v. with_scaled env v (\<lambda>off.
                 set_loc_reg CFA_REG (l\<lparr>value1 := off\<rparr>))))"

definition cfa_val_offset :: "'a::len cfa_handler" where
  "cfa_val_offset env s =
     bind_outcome (operand 0 s) (\<lambda>reg s.
     bind_outcome (operand 1 s) (\<lambda>v. with_scaled env v (\<lambda>off.
       set_loc_reg (ucast reg) (location DWARF_LOCATION_VAL_OFFSET off 0))))"

definition cfa_val_offset_sf :: "'a::len cfa_handler" where
  "cfa_val_offset_sf env s =
     bind_outcome (operand 0 s) (\<lambda>reg s.
     bind_outcome (operand 1 s) (\<lambda>v. with_scaled env v (\<lambda>off.
       set_loc_reg (ucast reg) (location DWARF_LOCATION_VAL_OFFSET off 0))))"

definition cfa_val_expression :: "'a::len cfa_handler" where
  "cfa_val_expression env s =
     bind_outcome (operand 0 s) (\<lambda>reg s.
     bind_outcome (operand 1 s) (\<lambda>n s.
       set_loc_reg (ucast reg) (location DWARF_LOCATION_VAL_EXPRESSION (ucast n) (cur_offset (cfa_memory s))) s))"

text \<open>Negating the least value is undefined.\<close>

definition cfa_gnu_negative_offset_extended :: "'a::len cfa_handler" where
  "cfa_gnu_negative_offset_extended env s =
     bind_outcome (operand 0 s) (\<lambda>reg s.
     bind_outcome (operand 1 s) (\<lambda>v.
       if v = signed_min then (\<lambda>s. Undef)
       else set_loc_reg (ucast reg) (location DWARF_LOCATION_OFFSET (scast (- v)) 0)))"

definition cfa_aarch64_negate_ra_state :: "'a::len cfa_handler" where
  "cfa_aarch64_negate_ra_state env s =
     (if cfa_arch env \<noteq> ARCH_ARM64 then cfa_fail DWARF_ERROR_ILLEGAL_VALUE s
      else (case locs (loc_regs s) ARM64_PREG_RA_SIGN_STATE of
              None \<Rightarrow> set_loc_reg ARM64_PREG_RA_SIGN_STATE (location DWARF_LOCATION_PSEUDO_REGISTER 1 0) s
            | Some l \<Rightarrow> set_loc_reg ARM64_PREG_RA_SIGN_STATE (l\<lparr>value0 := value0 l XOR 1\<rparr>) s))"

text \<open>The table of handlers; null for the codes that are illegal.\<close>

definition cfa_callbacks :: "'a::len cfa_handler option list" where
  "cfa_callbacks =
     [Some cfa_nop, Some cfa_set_loc, Some cfa_advance_loc, Some cfa_advance_loc, Some cfa_advance_loc,
      Some cfa_offset, Some cfa_restore, Some cfa_undefined, Some cfa_same_value, Some cfa_register,
      Some cfa_remember_state, Some cfa_restore_state, Some cfa_def_cfa, Some cfa_def_cfa_register,
      Some cfa_def_cfa_offset, Some cfa_def_cfa_expression, Some cfa_expression,
      Some cfa_offset_extended_sf, Some cfa_def_cfa_sf, Some cfa_def_cfa_offset_sf, Some cfa_val_offset,
      Some cfa_val_offset_sf, Some cfa_val_expression] @ replicate 22 None @
     [Some cfa_aarch64_negate_ra_state, Some cfa_nop, Some cfa_gnu_negative_offset_extended] @
     replicate 16 None"

section \<open>The table of instructions\<close>

datatype DisplayType =
    DWARF_DISPLAY_NONE | DWARF_DISPLAY_REGISTER | DWARF_DISPLAY_NUMBER | DWARF_DISPLAY_SIGNED_NUMBER
  | DWARF_DISPLAY_EVAL_BLOCK | DWARF_DISPLAY_ADDRESS | DWARF_DISPLAY_SET_LOC | DWARF_DISPLAY_ADVANCE_LOC

record CfaInfo =
  cfa_name :: string
  cfa_supported_version :: nat
  cfa_num_operands :: nat
  cfa_operand_encodings :: "u8 list"
  cfa_display_operands :: "DisplayType list"

definition cfa_entry :: "string \<Rightarrow> nat \<Rightarrow> nat \<Rightarrow> u8 list \<Rightarrow> DisplayType list \<Rightarrow> CfaInfo" where
  "cfa_entry n v k ops disp = \<lparr>cfa_name = n, cfa_supported_version = v, cfa_num_operands = k,
     cfa_operand_encodings = ops, cfa_display_operands = disp\<rparr>"

definition illegal_cfa :: CfaInfo where
  "illegal_cfa = cfa_entry [] 0 0 [] []"

text \<open>The source lists 63 entries; the last of the array is zero.\<close>

definition cfa_ops_00 :: "CfaInfo list" where
  "cfa_ops_00 =
    [cfa_entry ''DW_CFA_nop'' 2 0 [] [],
     cfa_entry ''DW_CFA_set_loc'' 2 1 [DW_EH_PE_absptr] [DWARF_DISPLAY_SET_LOC],
     cfa_entry ''DW_CFA_advance_loc1'' 2 1 [DW_EH_PE_udata1] [DWARF_DISPLAY_ADVANCE_LOC],
     cfa_entry ''DW_CFA_advance_loc2'' 2 1 [DW_EH_PE_udata2] [DWARF_DISPLAY_ADVANCE_LOC],
     cfa_entry ''DW_CFA_advance_loc4'' 2 1 [DW_EH_PE_udata4] [DWARF_DISPLAY_ADVANCE_LOC],
     cfa_entry ''DW_CFA_offset_extended'' 2 2 [DW_EH_PE_uleb128, DW_EH_PE_uleb128] [DWARF_DISPLAY_REGISTER, DWARF_DISPLAY_NUMBER],
     cfa_entry ''DW_CFA_restore_extended'' 2 1 [DW_EH_PE_uleb128] [DWARF_DISPLAY_REGISTER],
     cfa_entry ''DW_CFA_undefined'' 2 1 [DW_EH_PE_uleb128] [DWARF_DISPLAY_REGISTER],
     cfa_entry ''DW_CFA_same_value'' 2 1 [DW_EH_PE_uleb128] [DWARF_DISPLAY_REGISTER],
     cfa_entry ''DW_CFA_register'' 2 2 [DW_EH_PE_uleb128, DW_EH_PE_uleb128] [DWARF_DISPLAY_REGISTER, DWARF_DISPLAY_REGISTER],
     cfa_entry ''DW_CFA_remember_state'' 2 0 [] [],
     cfa_entry ''DW_CFA_restore_state'' 2 0 [] [],
     cfa_entry ''DW_CFA_def_cfa'' 2 2 [DW_EH_PE_uleb128, DW_EH_PE_uleb128] [DWARF_DISPLAY_REGISTER, DWARF_DISPLAY_NUMBER],
     cfa_entry ''DW_CFA_def_cfa_register'' 2 1 [DW_EH_PE_uleb128] [DWARF_DISPLAY_REGISTER],
     cfa_entry ''DW_CFA_def_cfa_offset'' 2 1 [DW_EH_PE_uleb128] [DWARF_DISPLAY_NUMBER],
     cfa_entry ''DW_CFA_def_cfa_expression'' 2 1 [DW_EH_PE_block] [DWARF_DISPLAY_EVAL_BLOCK],
     cfa_entry ''DW_CFA_expression'' 2 2 [DW_EH_PE_uleb128, DW_EH_PE_block] [DWARF_DISPLAY_REGISTER, DWARF_DISPLAY_EVAL_BLOCK]]"

definition cfa_ops_11 :: "CfaInfo list" where
  "cfa_ops_11 =
    [cfa_entry ''DW_CFA_offset_extended_sf'' 2 2 [DW_EH_PE_uleb128, DW_EH_PE_sleb128] [DWARF_DISPLAY_REGISTER, DWARF_DISPLAY_SIGNED_NUMBER],
     cfa_entry ''DW_CFA_def_cfa_sf'' 2 2 [DW_EH_PE_uleb128, DW_EH_PE_sleb128] [DWARF_DISPLAY_REGISTER, DWARF_DISPLAY_SIGNED_NUMBER],
     cfa_entry ''DW_CFA_def_cfa_offset_sf'' 2 1 [DW_EH_PE_sleb128] [DWARF_DISPLAY_SIGNED_NUMBER],
     cfa_entry ''DW_CFA_val_offset'' 2 2 [DW_EH_PE_uleb128, DW_EH_PE_uleb128] [DWARF_DISPLAY_REGISTER, DWARF_DISPLAY_NUMBER],
     cfa_entry ''DW_CFA_val_offset_sf'' 2 2 [DW_EH_PE_uleb128, DW_EH_PE_sleb128] [DWARF_DISPLAY_REGISTER, DWARF_DISPLAY_SIGNED_NUMBER],
     cfa_entry ''DW_CFA_val_expression'' 2 2 [DW_EH_PE_uleb128, DW_EH_PE_block] [DWARF_DISPLAY_REGISTER, DWARF_DISPLAY_EVAL_BLOCK]] @
    replicate 22 illegal_cfa @
    [cfa_entry ''DW_CFA_AARCH64_negate_ra_state'' 3 0 [] [],
     cfa_entry ''DW_CFA_GNU_args_size'' 2 1 [DW_EH_PE_uleb128] [DWARF_DISPLAY_NUMBER],
     cfa_entry ''DW_CFA_GNU_negative_offset_extended'' 2 2 [DW_EH_PE_uleb128, DW_EH_PE_uleb128] [DWARF_DISPLAY_REGISTER, DWARF_DISPLAY_NUMBER]] @
    replicate 16 illegal_cfa"

definition kTable :: "CfaInfo list" where
  "kTable = cfa_ops_00 @ cfa_ops_11"

section \<open>Running the instructions\<close>

fun read_cfa_operands :: "u8 list \<Rightarrow> 'a::len cfa_handler" where
  "read_cfa_operands [] env s = Done () s"
| "read_cfa_operands (e # es) env s =
     (if e = DW_EH_PE_block then
        (case ReadULEB128 (cfa_reader env) (cfa_memory s) of
           Undef \<Rightarrow> Undef
         | Failed dm \<Rightarrow> cfa_fail_memory dm s
         | Done block_length dm \<Rightarrow>
             read_cfa_operands es env (s\<lparr>cfa_operands := cfa_operands s @ [ucast block_length],
               cfa_memory := dm\<lparr>cur_offset := cur_offset dm + block_length\<rparr>\<rparr>))
      else
        (case ReadEncodedValue (cfa_reader env) (address_size TYPE('a)) e (cfa_memory s) of
           Undef \<Rightarrow> Undef
         | Failed dm \<Rightarrow> cfa_fail_memory dm s
         | Done value dm \<Rightarrow>
             read_cfa_operands es env (s\<lparr>cfa_operands := cfa_operands s @ [ucast value], cfa_memory := dm\<rparr>)))"

text \<open>One instruction: the body of the loop of \<open>GetLocationInfo\<close> behind its two exits.\<close>

definition cfa_instruction :: "'a::len cfa_handler" where
  "cfa_instruction env s0 =
     (let s = s0\<lparr>loc_regs := (loc_regs s0)\<lparr>pc_start := ucast (cur_pc s0)\<rparr>, cfa_operands := []\<rparr> in
      case ReadBytes (cfa_reader env) 1 (cfa_memory s) of
        Undef \<Rightarrow> Undef
      | Failed dm \<Rightarrow> cfa_fail_memory dm s
      | Done bs dm \<Rightarrow>
          (let cfa_value = hd bs; cfa_low = cfa_value AND 0x3f; s = s\<lparr>cfa_memory := dm\<rparr> in
           if drop_bit 6 cfa_value = 1 then
             Done () (s\<lparr>cur_pc := ucast (ucast (cur_pc s) +
               ucast cfa_low * cie_code_alignment_factor (fde_cie (cfa_fde env)))\<rparr>)
           else if drop_bit 6 cfa_value = 2 then
             (case ReadULEB128 (cfa_reader env) (cfa_memory s) of
                Undef \<Rightarrow> Undef
              | Failed dm \<Rightarrow> cfa_fail_memory dm s
              | Done offset dm \<Rightarrow>
                  with_scaled env (ucast offset :: 'a word) (\<lambda>signed_offset.
                    set_loc_reg (ucast cfa_low) (location DWARF_LOCATION_OFFSET signed_offset 0))
                    (s\<lparr>cfa_memory := dm\<rparr>))
           else if drop_bit 6 cfa_value = 3 then restore_reg (ucast cfa_low) env s
           else
             (case cfa_callbacks ! unat cfa_low of
                None \<Rightarrow> cfa_fail DWARF_ERROR_ILLEGAL_VALUE s
              | Some func \<Rightarrow>
                  (let cfa = kTable ! unat cfa_low in
                   bind_outcome
                     (read_cfa_operands (take (cfa_num_operands cfa) (cfa_operand_encodings cfa)) env s)
                     (\<lambda>_. func env)))))"

text \<open>The loop need not end (a block may lead back), so its result is \<open>None\<close> when it does not.\<close>

partial_function (option) location_loop ::
  "u64 \<Rightarrow> u64 \<Rightarrow> CfaEnv \<Rightarrow> 'a::len DwarfCfa \<Rightarrow> 'a cfa_result option" where
  "location_loop pc end_offset env s =
     (if ucast (cur_pc s) > pc then
        Some (Done () (s\<lparr>loc_regs := (loc_regs s)\<lparr>pc_end := ucast (cur_pc s)\<rparr>\<rparr>))
      else if cur_offset (cfa_memory s) \<ge> end_offset then
        Some (Done () (s\<lparr>loc_regs := (loc_regs s)\<lparr>pc_end := fde_pc_end (cfa_fde env)\<rparr>\<rparr>))
      else (case cfa_instruction env s of
              Undef \<Rightarrow> Some Undef
            | Failed s' \<Rightarrow> Some (Failed s')
            | Done _ s' \<Rightarrow> location_loop pc end_offset env s'))"

definition GetLocationInfo ::
  "u64 \<Rightarrow> u64 \<Rightarrow> u64 \<Rightarrow> CfaEnv \<Rightarrow> 'a::len DwarfCfa \<Rightarrow> 'a cfa_result option" where
  "GetLocationInfo pc start_offset end_offset env s =
     (let regs = (case cie_loc_regs env of
                    None \<Rightarrow> locs (loc_regs s)
                  | Some cie \<Rightarrow> locs (loc_regs s) ++ locs cie);
          start = (ucast (fde_pc_start (cfa_fde env)) :: 'a word)
      in location_loop pc end_offset env (s\<lparr>
           cfa_error := \<lparr>code = DWARF_ERROR_NONE, address = 0\<rparr>,
           cfa_memory := (cfa_memory s)\<lparr>cur_offset := start_offset\<rparr>,
           cur_pc := start,
           loc_regs := (loc_regs s)\<lparr>locs := regs, pc_start := ucast start\<rparr>\<rparr>))"

end
