(* ===== verification/OrderedMap.thy ===== *)
theory OrderedMap
  imports Prelude
begin

text \<open>
  \<open>std::map\<close>: its interface as a contract, what follows from the contract alone, and its model as an
  association list with strictly increasing keys, which is the order of iteration.
\<close>

section \<open>The interface\<close>

text \<open>\<open>above k m\<close> are the entries from \<open>upper_bound(k)\<close> on.\<close>

locale ordered_map =
  fixes entries :: "'m \<Rightarrow> ('k::linorder \<times> 'v) list"
    and assign :: "'k \<Rightarrow> 'v \<Rightarrow> 'm \<Rightarrow> 'm"
    and above :: "'k \<Rightarrow> 'm \<Rightarrow> ('k \<times> 'v) list"
    and wf :: "'m \<Rightarrow> bool"
  assumes wf_sorted: "wf m \<Longrightarrow> sorted_wrt (<) (map fst (entries m))"
    and wf_assign: "wf m \<Longrightarrow> wf (assign k v m)"
    and entries_assign: "wf m \<Longrightarrow> map_of (entries (assign k v m)) = (map_of (entries m))(k \<mapsto> v)"
    and entries_above: "wf m \<Longrightarrow> above k m = filter (\<lambda>(e, v). k < e) (entries m)"
begin

text \<open>The entry at \<open>upper_bound(k)\<close> is the one with the least key above \<open>k\<close>.\<close>

lemma upper_bound_least:
  assumes "wf m" "above k m = (e, v) # rest"
  shows "map_of (entries m) e = Some v \<and> k < e \<and> (\<forall>e' v'. map_of (entries m) e' = Some v' \<longrightarrow> k < e' \<longrightarrow> e \<le> e')"
proof -
  let ?f = "filter (\<lambda>(e, v). k < e) (entries m)"
  have s: "sorted_wrt (<) (map fst (entries m))" using wf_sorted [OF assms(1)] .
  then have d: "distinct (map fst (entries m))" by (simp add: strict_sorted_iff)
  have f: "?f = (e, v) # rest" using assms entries_above by simp
  then have "(e, v) \<in> set ?f" by simp
  then have "(e, v) \<in> set (entries m)" "k < e" by auto
  moreover have "e \<le> e'" if "map_of (entries m) e' = Some v'" "k < e'" for e' v'
  proof -
    have "(e', v') \<in> set ?f" using that by (auto dest: map_of_SomeD)
    moreover have "sorted_wrt (<) (map fst ?f)" using s by (simp add: sorted_wrt_map sorted_wrt_filter)
    ultimately show "e \<le> e'" unfolding f by auto
  qed
  ultimately show ?thesis using d by simp
qed

lemma upper_bound_end:
  assumes "wf m" "above k m = []"
  shows "map_of (entries m) e = Some v \<Longrightarrow> e \<le> k"
  using assms entries_above [of m k] by (auto dest!: map_of_SomeD simp: filter_empty_conv not_less)

end

section \<open>The model\<close>

fun om_assign :: "'k::linorder \<Rightarrow> 'v \<Rightarrow> ('k \<times> 'v) list \<Rightarrow> ('k \<times> 'v) list" where
  "om_assign k v [] = [(k, v)]"
| "om_assign k v ((e, w) # m) =
     (if k < e then (k, v) # (e, w) # m else if k = e then (k, v) # m else (e, w) # om_assign k v m)"

definition upper_bound :: "'k::linorder \<Rightarrow> ('k \<times> 'v) list \<Rightarrow> ('k \<times> 'v) list" where
  "upper_bound k m = dropWhile (\<lambda>(e, v). e \<le> k) m"

definition om_wf :: "('k::linorder \<times> 'v) list \<Rightarrow> bool" where
  "om_wf m \<longleftrightarrow> sorted_wrt (<) (map fst m)"

lemma set_om_assign: "set (map fst (om_assign k v m)) = insert k (set (map fst m))"
  by (induction k v m rule: om_assign.induct) auto

lemma om_wf_assign: "om_wf m \<Longrightarrow> om_wf (om_assign k v m)"
proof (induction k v m rule: om_assign.induct)
  case (2 k v e w m)
  have "e < fst x" if "x \<in> set (om_assign k v m)" "\<not> k < e" "k \<noteq> e" for x
  proof -
    have "fst x \<in> set (map fst (om_assign k v m))" using that(1) by simp
    then have "fst x \<in> insert k (set (map fst m))" by (simp only: set_om_assign)
    then show "e < fst x" using 2(2) that(2,3) by (auto simp: om_wf_def)
  qed
  then show ?case using 2 by (auto simp: om_wf_def)
qed (simp add: om_wf_def)

lemma map_of_om_assign: "om_wf m \<Longrightarrow> map_of (om_assign k v m) = (map_of m)(k \<mapsto> v)"
  by (induction k v m rule: om_assign.induct) (auto simp: om_wf_def fun_eq_iff)

lemma upper_bound_filter: "om_wf m \<Longrightarrow> upper_bound k m = filter (\<lambda>(e, v). k < e) m"
proof (induction m)
  case (Cons x m)
  obtain e v where x: "x = (e, v)" by (cases x)
  have "filter (\<lambda>(e, v). k < e) m = m" if "\<not> e \<le> k"
    using Cons.prems that by (auto simp: om_wf_def x filter_id_conv)
  then show ?case using Cons by (auto simp: upper_bound_def om_wf_def x)
qed (simp add: upper_bound_def)

interpretation om: ordered_map "\<lambda>m. m" om_assign upper_bound om_wf
  by unfold_locales (simp_all add: om_wf_assign map_of_om_assign upper_bound_filter, simp add: om_wf_def)

end
