(* ===== verification/DwarfSection.thy ===== *)
theory DwarfSection
  imports DwarfCfa OrderedMap
begin

text \<open>
  Sections of call frame information: \<open>unwindstack/DwarfSection.cpp\<close> with \<open>DwarfSection.h\<close>,
  \<open>DwarfEhFrame.h\<close> and \<open>DwarfDebugFrame.h\<close>: reading the entries (CIEs and FDEs), the index from program
  counters to FDEs, and the lookup. The members of the derived class of \<open>DwarfEhFrameWithHdr.h\<close> are
  part of the state. A CIE that an FDE points to is never changed after it was read, so the pointer
  is the CIE itself.
\<close>

section \<open>State\<close>

datatype section_class = DEBUG_FRAME | EH_FRAME | EH_FRAME_WITH_HDR

record FdeInfo =
  fi_pc :: u64
  fi_offset :: u64

record DwarfSection =
  ds_memory :: DwarfMemory
  ds_error :: DwarfErrorData
  cie32_value :: u32
  cie64_value :: u64
  fde_entries :: "u64 \<rightharpoonup> DwarfFde"
  cie_entries :: "u64 \<rightharpoonup> DwarfCie"
  cie_rows :: "u64 \<rightharpoonup> DwarfLocations"
  row_cache :: "(u64 \<times> DwarfLocations) list"
  section_bias :: u64
  entries_offset :: u64
  entries_end :: u64
  ds_pc_offset :: u64
  fde_index :: "(u64 \<times> u64) list"
  hdr_version :: u8
  table_encoding :: u8
  table_entry_size :: nat
  hdr_entries_offset :: u64
  hdr_entries_data_offset :: u64
  hdr_section_bias :: u64
  fde_count :: u64
  fde_info :: "u64 \<rightharpoonup> FdeInfo"

text \<open>The memory of the section, its class, and \<open>sizeof(AddressType)\<close>.\<close>

record SectionEnv =
  sec_reader :: reader
  sec_class :: section_class
  sec_asz :: nat

definition DwarfSection_new :: "section_class \<Rightarrow> DwarfSection" where
  "DwarfSection_new cls = \<lparr>ds_memory = DwarfMemory_init, ds_error = \<lparr>code = DWARF_ERROR_NONE, address = 0\<rparr>,
     cie32_value = (if cls = DEBUG_FRAME then - 1 else 0), cie64_value = (if cls = DEBUG_FRAME then - 1 else 0),
     fde_entries = Map.empty, cie_entries = Map.empty, cie_rows = Map.empty, row_cache = [],
     section_bias = 0, entries_offset = 0, entries_end = 0, ds_pc_offset = 0, fde_index = [],
     hdr_version = 0, table_encoding = 0, table_entry_size = 0, hdr_entries_offset = 0,
     hdr_entries_data_offset = 0, hdr_section_bias = 0, fde_count = 0, fde_info = Map.empty\<rparr>"

text \<open>The member initialisers of the structs; the null \<open>cie\<close> of an FDE is set before it is read.\<close>

definition DwarfCie_init :: DwarfCie where
  "DwarfCie_init = \<lparr>cie_version = 0, cie_fde_address_encoding = 0, cie_lsda_encoding = 0, cie_segment_size = 0,
     cie_augmentation_string = [], cie_personality_handler = 0, cie_cfa_instructions_offset = 0,
     cie_cfa_instructions_end = 0, cie_code_alignment_factor = 0, cie_data_alignment_factor = 0,
     cie_return_address_register = 0, cie_is_signal_frame = False\<rparr>"

definition DwarfFde_init :: DwarfFde where
  "DwarfFde_init = \<lparr>fde_cie_offset = 0, fde_cfa_instructions_offset = 0, fde_cfa_instructions_end = 0,
     fde_pc_start = 0, fde_pc_end = 0, fde_lsda_address = 0, fde_cie = DwarfCie_init\<rparr>"

section \<open>Steps\<close>

text \<open>
  \<open>None\<close> is a computation that does not return. A function that returns false or a null pointer has
  \<open>Failed\<close>.
\<close>

type_synonym 'x sec = "DwarfSection \<Rightarrow> ('x, DwarfSection) outcome option"

definition sec_return :: "'x \<Rightarrow> 'x sec" where
  "sec_return x s = Some (Done x s)"

definition sec_bind :: "'x sec \<Rightarrow> ('x \<Rightarrow> 'y sec) \<Rightarrow> 'y sec" where
  "sec_bind m f s =
     (case m s of
        None \<Rightarrow> None
      | Some Undef \<Rightarrow> Some Undef
      | Some (Failed s') \<Rightarrow> Some (Failed s')
      | Some (Done x s') \<Rightarrow> f x s')"

definition sec_fail :: "DwarfErrorCode \<Rightarrow> 'x sec" where
  "sec_fail c s = Some (Failed (s\<lparr>ds_error := (ds_error s)\<lparr>code := c\<rparr>\<rparr>))"

definition sec_fail_memory :: "'x sec" where
  "sec_fail_memory s = Some (Failed (s\<lparr>ds_error :=
     \<lparr>code = DWARF_ERROR_MEMORY_INVALID, address = cur_offset (ds_memory s)\<rparr>\<rparr>))"

definition sec_read :: "'x dread \<Rightarrow> 'x sec" where
  "sec_read r s =
     (case r (ds_memory s) of
        Undef \<Rightarrow> Some Undef
      | Failed dm \<Rightarrow> sec_fail_memory (s\<lparr>ds_memory := dm\<rparr>)
      | Done x dm \<Rightarrow> Some (Done x (s\<lparr>ds_memory := dm\<rparr>)))"

definition set_memory :: "(DwarfMemory \<Rightarrow> DwarfMemory) \<Rightarrow> DwarfSection \<Rightarrow> DwarfSection" where
  "set_memory f s = s\<lparr>ds_memory := f (ds_memory s)\<rparr>"

definition sec_tell :: "u64 sec" where
  "sec_tell s = Some (Done (cur_offset (ds_memory s)) s)"

definition sec_seek :: "u64 \<Rightarrow> unit sec" where
  "sec_seek a s = Some (Done () (set_memory (cur_offset_update (\<lambda>_. a)) s))"

definition sec_pc_offset :: "u64 \<Rightarrow> unit sec" where
  "sec_pc_offset a s = Some (Done () (set_memory (pc_offset_update (\<lambda>_. a)) s))"

definition Read32_sec :: "SectionEnv \<Rightarrow> u32 sec" where
  "Read32_sec env = sec_bind (sec_read (ReadBytes (sec_reader env) 4)) (\<lambda>bs. sec_return (le_word bs))"

definition Read64_sec :: "SectionEnv \<Rightarrow> u64 sec" where
  "Read64_sec env = sec_bind (sec_read (ReadBytes (sec_reader env) 8)) (\<lambda>bs. sec_return (le_word bs))"

definition Read8_sec :: "SectionEnv \<Rightarrow> u8 sec" where
  "Read8_sec env = sec_bind (sec_read (ReadBytes (sec_reader env) 1)) (\<lambda>bs. sec_return (hd bs))"

section \<open>Virtual functions\<close>

definition GetCieOffsetFromFde32 :: "section_class \<Rightarrow> u32 \<Rightarrow> DwarfSection \<Rightarrow> u64" where
  "GetCieOffsetFromFde32 cls pointer s =
     (if cls = DEBUG_FRAME then entries_offset s + ucast pointer
      else cur_offset (ds_memory s) - ucast pointer - 4)"

definition GetCieOffsetFromFde64 :: "section_class \<Rightarrow> u64 \<Rightarrow> DwarfSection \<Rightarrow> u64" where
  "GetCieOffsetFromFde64 cls pointer s =
     (if cls = DEBUG_FRAME then entries_offset s + pointer
      else cur_offset (ds_memory s) - pointer - 8)"

definition AdjustPcFromFde :: "section_class \<Rightarrow> u64 \<Rightarrow> DwarfSection \<Rightarrow> u64" where
  "AdjustPcFromFde cls pc s =
     (if cls = DEBUG_FRAME then pc else pc + cur_offset (ds_memory s) - 4)"

definition DwarfSection_Init :: "u64 \<Rightarrow> u64 \<Rightarrow> u64 \<Rightarrow> DwarfSection \<Rightarrow> DwarfSection" where
  "DwarfSection_Init offset sz bias s = s\<lparr>
     section_bias := bias, entries_offset := offset, entries_end := offset + sz,
     ds_memory := (ds_memory s)\<lparr>func_offset := - 1, text_offset := - 1, cur_offset := offset\<rparr>,
     ds_pc_offset := offset\<rparr>"

section \<open>Common information entries\<close>

definition FillInCieHeader :: "SectionEnv \<Rightarrow> DwarfCie \<Rightarrow> DwarfCie sec" where
  "FillInCieHeader env cie0 =
     (let cie = cie0\<lparr>cie_lsda_encoding := DW_EH_PE_omit\<rparr> in
      sec_bind (Read32_sec env) (\<lambda>length32.
      if length32 = - 1 then
        sec_bind (Read64_sec env) (\<lambda>length64.
        sec_bind sec_tell (\<lambda>off.
        let cie = cie\<lparr>cie_cfa_instructions_end := off + length64, cie_fde_address_encoding := DW_EH_PE_sdata8\<rparr> in
        sec_bind (Read64_sec env) (\<lambda>cie_id s.
        if cie_id \<noteq> cie64_value s then sec_fail DWARF_ERROR_ILLEGAL_VALUE s
        else sec_return cie s)))
      else
        sec_bind sec_tell (\<lambda>off.
        let cie = cie\<lparr>cie_cfa_instructions_end := off + ucast length32, cie_fde_address_encoding := DW_EH_PE_sdata4\<rparr> in
        sec_bind (Read32_sec env) (\<lambda>cie_id s.
        if cie_id \<noteq> cie32_value s then sec_fail DWARF_ERROR_ILLEGAL_VALUE s
        else sec_return cie s))))"

text \<open>The loop that reads the augmentation string, its final zero included.\<close>

partial_function (option) read_augmentation ::
  "SectionEnv \<Rightarrow> u8 list \<Rightarrow> DwarfSection \<Rightarrow> (u8 list, DwarfSection) outcome option" where
  "read_augmentation env acc s =
     (case Read8_sec env s of
        None \<Rightarrow> None
      | Some r \<Rightarrow>
          (case r of
             Undef \<Rightarrow> Some Undef
           | Failed s' \<Rightarrow> Some (Failed s')
           | Done aug_value s' \<Rightarrow>
               if aug_value = 0 then Some (Done (acc @ [aug_value]) s')
               else read_augmentation env (acc @ [aug_value]) s'))"

text \<open>The characters \<open>L\<close>, \<open>P\<close>, \<open>R\<close> and \<open>S\<close> behind the first; others are passed over.\<close>

fun read_augmentation_data :: "SectionEnv \<Rightarrow> u8 list \<Rightarrow> DwarfCie \<Rightarrow> DwarfCie sec" where
  "read_augmentation_data env [] cie = sec_return cie"
| "read_augmentation_data env (c # cs) cie =
     (if c = 0x4c then
        sec_bind (Read8_sec env) (\<lambda>e. read_augmentation_data env cs (cie\<lparr>cie_lsda_encoding := e\<rparr>))
      else if c = 0x50 then
        sec_bind (Read8_sec env) (\<lambda>encoding.
        sec_bind (\<lambda>s. sec_pc_offset (ds_pc_offset s) s) (\<lambda>_.
        sec_bind (sec_read (ReadEncodedValue (sec_reader env) (sec_asz env) encoding)) (\<lambda>v.
        read_augmentation_data env cs (cie\<lparr>cie_personality_handler := v\<rparr>))))
      else if c = 0x52 then
        sec_bind (Read8_sec env) (\<lambda>e. read_augmentation_data env cs (cie\<lparr>cie_fde_address_encoding := e\<rparr>))
      else if c = 0x53 then read_augmentation_data env cs (cie\<lparr>cie_is_signal_frame := True\<rparr>)
      else read_augmentation_data env cs cie)"

definition FillInCie :: "SectionEnv \<Rightarrow> DwarfCie \<Rightarrow> DwarfCie sec" where
  "FillInCie env cie =
     sec_bind (Read8_sec env) (\<lambda>version.
     let cie = cie\<lparr>cie_version := version\<rparr> in
     if version \<noteq> 1 \<and> version \<noteq> 3 \<and> version \<noteq> 4 \<and> version \<noteq> 5 then sec_fail DWARF_ERROR_UNSUPPORTED_VERSION
     else
     sec_bind (read_augmentation env (cie_augmentation_string cie)) (\<lambda>aug.
     let cie = cie\<lparr>cie_augmentation_string := aug\<rparr> in
     sec_bind (if version = 4 \<or> version = 5 then
                 sec_bind sec_tell (\<lambda>off. sec_bind (sec_seek (off + 1)) (\<lambda>_. Read8_sec env))
               else sec_return (cie_segment_size cie)) (\<lambda>seg.
     let cie = cie\<lparr>cie_segment_size := seg\<rparr> in
     sec_bind (sec_read (ReadULEB128 (sec_reader env))) (\<lambda>caf.
     let cie = cie\<lparr>cie_code_alignment_factor := caf\<rparr> in
     sec_bind (sec_read (ReadSLEB128 (sec_reader env))) (\<lambda>daf.
     let cie = cie\<lparr>cie_data_alignment_factor := daf\<rparr> in
     sec_bind (if version = 1 then sec_bind (Read8_sec env) (\<lambda>r. sec_return (ucast r))
               else sec_read (ReadULEB128 (sec_reader env))) (\<lambda>rar.
     let cie = cie\<lparr>cie_return_address_register := rar\<rparr> in
     if aug ! 0 \<noteq> 0x7a then
       sec_bind sec_tell (\<lambda>off. sec_return (cie\<lparr>cie_cfa_instructions_offset := off\<rparr>))
     else
       sec_bind (sec_read (ReadULEB128 (sec_reader env))) (\<lambda>aug_length.
       sec_bind sec_tell (\<lambda>off.
       read_augmentation_data env (drop 1 aug)
         (cie\<lparr>cie_cfa_instructions_offset := off + aug_length\<rparr>)))))))))"

definition GetCieFromOffset :: "SectionEnv \<Rightarrow> u64 \<Rightarrow> DwarfCie sec" where
  "GetCieFromOffset env offset s =
     (case cie_entries s offset of
        Some cie \<Rightarrow> sec_return cie s
      | None \<Rightarrow>
          sec_bind (sec_bind (FillInCieHeader env DwarfCie_init) (FillInCie env))
            (\<lambda>cie s. Some (Done cie (s\<lparr>cie_entries := (cie_entries s)(offset \<mapsto> cie)\<rparr>)))
            (set_memory (\<lambda>dm. dm\<lparr>data_offset := entries_offset s, cur_offset := offset\<rparr>) s))"

section \<open>Frame description entries\<close>

definition FillInFdeHeader :: "SectionEnv \<Rightarrow> DwarfFde \<Rightarrow> DwarfFde sec" where
  "FillInFdeHeader env fde =
     sec_bind (Read32_sec env) (\<lambda>length32.
     if length32 = - 1 then
       sec_bind (Read64_sec env) (\<lambda>length64.
       sec_bind sec_tell (\<lambda>off.
       sec_bind (Read64_sec env) (\<lambda>value64 s.
       if value64 = cie64_value s then sec_fail DWARF_ERROR_ILLEGAL_VALUE s
       else sec_return (fde\<lparr>fde_cfa_instructions_end := off + length64,
              fde_cie_offset := GetCieOffsetFromFde64 (sec_class env) value64 s\<rparr>) s)))
     else
       sec_bind sec_tell (\<lambda>off.
       sec_bind (Read32_sec env) (\<lambda>value32 s.
       if value32 = cie32_value s then sec_fail DWARF_ERROR_ILLEGAL_VALUE s
       else sec_return (fde\<lparr>fde_cfa_instructions_end := off + ucast length32,
              fde_cie_offset := GetCieOffsetFromFde32 (sec_class env) value32 s\<rparr>) s)))"

text \<open>
  The start of the range: the offset for pc-relative values is cleared again, also when the read
  fails, and the value is adjusted with the cursor behind it.
\<close>

definition read_pc_start :: "SectionEnv \<Rightarrow> u8 \<Rightarrow> u64 sec" where
  "read_pc_start env e s0 =
     (let s = set_memory (\<lambda>dm. dm\<lparr>pc_offset := section_bias s0\<rparr>) s0 in
      case ReadEncodedValue (sec_reader env) (sec_asz env) e (ds_memory s) of
        Undef \<Rightarrow> Some Undef
      | Failed dm \<Rightarrow> sec_fail_memory (s\<lparr>ds_memory := dm\<lparr>pc_offset := 0\<rparr>\<rparr>)
      | Done v dm \<Rightarrow>
          (let s = s\<lparr>ds_memory := dm\<lparr>pc_offset := 0\<rparr>\<rparr> in
           sec_return (AdjustPcFromFde (sec_class env) v s) s))"

definition FillInFde :: "SectionEnv \<Rightarrow> DwarfFde \<Rightarrow> DwarfFde sec" where
  "FillInFde env fde =
     sec_bind sec_tell (\<lambda>cur.
     sec_bind (GetCieFromOffset env (fde_cie_offset fde)) (\<lambda>cie.
     let fde = fde\<lparr>fde_cie := cie\<rparr>;
         cur = (if cie_segment_size cie \<noteq> 0 then cur + ucast (cie_segment_size cie) else cur) in
     sec_bind (sec_seek cur) (\<lambda>_.
     sec_bind (read_pc_start env (cie_fde_address_encoding cie)) (\<lambda>start.
     sec_bind (sec_read (ReadEncodedValue (sec_reader env) (sec_asz env) (cie_fde_address_encoding cie))) (\<lambda>len.
     let fde = fde\<lparr>fde_pc_start := start, fde_pc_end := len + start\<rparr> in
     sec_bind (if cie_augmentation_string cie \<noteq> [] \<and> cie_augmentation_string cie ! 0 = 0x7a then
                 sec_bind (sec_read (ReadULEB128 (sec_reader env))) (\<lambda>aug_length.
                 sec_bind sec_tell (\<lambda>off.
                 sec_bind (\<lambda>s. sec_pc_offset (ds_pc_offset s) s) (\<lambda>_.
                 sec_bind (sec_read (ReadEncodedValue (sec_reader env) (sec_asz env) (cie_lsda_encoding cie))) (\<lambda>lsda.
                 sec_bind (sec_seek (off + aug_length)) (\<lambda>_.
                 sec_return (fde\<lparr>fde_lsda_address := lsda\<rparr>))))))
               else sec_return fde) (\<lambda>fde.
     sec_bind sec_tell (\<lambda>off. sec_return (fde\<lparr>fde_cfa_instructions_offset := off\<rparr>))))))))"

definition GetFdeFromOffset :: "SectionEnv \<Rightarrow> u64 \<Rightarrow> DwarfFde sec" where
  "GetFdeFromOffset env offset s =
     (case fde_entries s offset of
        Some fde \<Rightarrow> sec_return fde s
      | None \<Rightarrow>
          sec_bind (sec_bind (FillInFdeHeader env DwarfFde_init) (FillInFde env))
            (\<lambda>fde s. Some (Done fde (s\<lparr>fde_entries := (fde_entries s)(offset \<mapsto> fde)\<rparr>)))
            (set_memory (\<lambda>dm. dm\<lparr>data_offset := entries_offset s, cur_offset := offset\<rparr>) s))"

section \<open>The index\<close>

text \<open>Ends of ranges to their start and the offset of the FDE.\<close>

type_synonym DwarfFdeMap = "(u64 \<times> u64 \<times> u64) list"

text \<open>The loop from the iterator \<open>it\<close> on, with the map it walks over.\<close>

fun InsertFde_loop :: "u64 \<Rightarrow> u64 \<Rightarrow> u64 \<Rightarrow> DwarfFdeMap \<Rightarrow> DwarfFdeMap \<Rightarrow> u64 \<times> DwarfFdeMap" where
  "InsertFde_loop off start e [] fdes = (start, fdes)"
| "InsertFde_loop off start e ((ie, is, io) # it) fdes =
     (if start < e \<and> is < e then
        InsertFde_loop off ie e it (if start < is then om_assign is (start, off) fdes else fdes)
      else (start, fdes))"

definition InsertFde :: "u64 \<Rightarrow> DwarfFde \<Rightarrow> DwarfFdeMap \<Rightarrow> DwarfFdeMap" where
  "InsertFde off fde fdes =
     (let e = fde_pc_end fde;
          (start, fdes) = InsertFde_loop off (fde_pc_start fde) e (upper_bound (fde_pc_start fde) fdes) fdes
      in if start < e then om_assign e (start, off) fdes else fdes)"

text \<open>The entry at an offset: \<open>None\<close> for a CIE, the FDE otherwise, with the offset of the next entry.\<close>

definition GetNextCieOrFde :: "SectionEnv \<Rightarrow> u64 \<Rightarrow> (u64 \<times> DwarfFde option) sec" where
  "GetNextCieOrFde env start_offset =
     sec_bind (\<lambda>s. Some (Done () (set_memory (\<lambda>dm. dm\<lparr>data_offset := entries_offset s, cur_offset := start_offset\<rparr>) s))) (\<lambda>_.
     sec_bind (Read32_sec env) (\<lambda>value32.
     sec_bind
       (if value32 = - 1 then
          sec_bind (Read64_sec env) (\<lambda>length64.
          sec_bind sec_tell (\<lambda>off.
          sec_bind (Read64_sec env) (\<lambda>value64 s.
          sec_return (off + length64,
            if value64 = cie64_value s then Inl DW_EH_PE_sdata8
            else Inr (GetCieOffsetFromFde64 (sec_class env) value64 s)) s)))
        else
          sec_bind sec_tell (\<lambda>off.
          sec_bind (Read32_sec env) (\<lambda>pointer s.
          sec_return (off + ucast value32,
            if pointer = cie32_value s then Inl DW_EH_PE_sdata4
            else Inr (GetCieOffsetFromFde32 (sec_class env) pointer s)) s)))
     (\<lambda>(next_entries_offset, entry).
     case entry of
       Inl cie_fde_encoding \<Rightarrow>
         (\<lambda>s. case cie_entries s start_offset of
            Some cie \<Rightarrow> sec_return (next_entries_offset, None) s
          | None \<Rightarrow>
              sec_bind (FillInCie env (DwarfCie_init\<lparr>cie_lsda_encoding := DW_EH_PE_omit,
                  cie_cfa_instructions_end := next_entries_offset, cie_fde_address_encoding := cie_fde_encoding\<rparr>))
                (\<lambda>cie s. Some (Done (next_entries_offset, None)
                   (s\<lparr>cie_entries := (cie_entries s)(start_offset \<mapsto> cie)\<rparr>))) s)
     | Inr cie_offset \<Rightarrow>
         sec_bind (FillInFde env (DwarfFde_init\<lparr>fde_cfa_instructions_end := next_entries_offset,
             fde_cie_offset := cie_offset\<rparr>))
           (\<lambda>fde. sec_return (next_entries_offset, Some fde)))))"

text \<open>The loop of \<open>BuildFdeIndex\<close>; an entry that cannot be read ends it.\<close>

partial_function (option) BuildFdeIndex_loop ::
  "SectionEnv \<Rightarrow> u64 \<Rightarrow> DwarfFdeMap \<Rightarrow> DwarfSection \<Rightarrow> (DwarfFdeMap, DwarfSection) outcome option" where
  "BuildFdeIndex_loop env offset fdes s =
     (if offset < entries_end s then
        (case GetNextCieOrFde env offset s of
           None \<Rightarrow> None
         | Some r \<Rightarrow>
             (case r of
                Undef \<Rightarrow> Some Undef
              | Failed s' \<Rightarrow> Some (Done fdes s')
              | Done x s' \<Rightarrow>
                  (let fdes' = (case snd x of None \<Rightarrow> fdes | Some fde \<Rightarrow> InsertFde offset fde fdes) in
                   if fst x < cur_offset (ds_memory s') then Some (Done fdes' s')
                   else BuildFdeIndex_loop env (fst x) fdes' s')))
      else Some (Done fdes s))"

definition BuildFdeIndex :: "SectionEnv \<Rightarrow> unit sec" where
  "BuildFdeIndex env s =
     sec_bind (BuildFdeIndex_loop env (entries_offset s) [])
       (\<lambda>fdes s. Some (Done () (s\<lparr>fde_index := fde_index s @ map (\<lambda>(e, start, off). (e, off)) fdes\<rparr>))) s"

definition index_ready :: "SectionEnv \<Rightarrow> unit sec" where
  "index_ready env s = (if fde_index s = [] then BuildFdeIndex env s else sec_return () s)"

text \<open>A null pointer is \<open>None\<close> here: it is pushed onto the result.\<close>

fun GetFdes_loop :: "SectionEnv \<Rightarrow> (u64 \<times> u64) list \<Rightarrow> DwarfFde option list sec" where
  "GetFdes_loop env [] s = sec_return [] s"
| "GetFdes_loop env ((e, off) # index) s =
     (case GetFdeFromOffset env off s of
        None \<Rightarrow> None
      | Some Undef \<Rightarrow> Some Undef
      | Some (Failed s') \<Rightarrow> sec_bind (GetFdes_loop env index) (\<lambda>fdes. sec_return (None # fdes)) s'
      | Some (Done fde s') \<Rightarrow> sec_bind (GetFdes_loop env index) (\<lambda>fdes. sec_return (Some fde # fdes)) s')"

definition DwarfSection_GetFdes :: "SectionEnv \<Rightarrow> DwarfFde option list sec" where
  "DwarfSection_GetFdes env = sec_bind (index_ready env) (\<lambda>_ s. GetFdes_loop env (fde_index s) s)"

definition DwarfSection_GetFdeFromPc :: "SectionEnv \<Rightarrow> u64 \<Rightarrow> DwarfFde sec" where
  "DwarfSection_GetFdeFromPc env pc =
     sec_bind (index_ready env) (\<lambda>_ s.
       case upper_bound pc (fde_index s) of
         [] \<Rightarrow> Some (Failed s)
       | (e, off) # _ \<Rightarrow>
           sec_bind (GetFdeFromOffset env off)
             (\<lambda>fde s. if fde_pc_start fde \<le> pc then sec_return fde s else Some (Failed s)) s)"

end
