(* ===== verification/DwarfEhFrameHdr.thy ===== *)
theory DwarfEhFrameHdr
  imports DwarfSection
begin

text \<open>
  \<open>unwindstack/DwarfEhFrameWithHdr.cpp\<close> and \<open>DwarfEhFrameWithHdr.h\<close>: the lookup of FDEs through the
  sorted table of \<open>.eh_frame_hdr\<close>, by binary search with the entries read on demand and kept; and the
  virtual functions of the three section classes that the lookup goes through.
\<close>

definition IsEncodingRelative :: "u8 \<Rightarrow> bool" where
  "IsEncodingRelative encoding = (let e = drop_bit 4 encoding in 0 < e \<and> e \<le> DW_EH_PE_funcrel)"

definition EhFrameInit :: "u64 \<Rightarrow> u64 \<Rightarrow> u64 \<Rightarrow> DwarfSection \<Rightarrow> DwarfSection" where
  "EhFrameInit = DwarfSection_Init"

definition Hdr_Init :: "SectionEnv \<Rightarrow> u64 \<Rightarrow> u64 \<Rightarrow> unit sec" where
  "Hdr_Init env offset bias s0 =
     sec_bind (sec_read (ReadBytes (sec_reader env) 4)) (\<lambda>data s.
       let s = s\<lparr>hdr_version := data ! 0\<rparr> in
       if data ! 0 \<noteq> 1 then sec_fail DWARF_ERROR_UNSUPPORTED_VERSION s
       else
         (let entry_size = GetEncodedSize (sec_asz env) (data ! 3);
              s = s\<lparr>table_encoding := data ! 3, table_entry_size := entry_size\<rparr> in
          if entry_size = 0 then sec_fail DWARF_ERROR_ILLEGAL_VALUE s
          else
            sec_bind (\<lambda>s. sec_pc_offset (cur_offset (ds_memory s)) s) (\<lambda>_.
            sec_bind (sec_read (ReadEncodedValue (sec_reader env) (sec_asz env) (data ! 1))) (\<lambda>ptr_offset.
            sec_bind (\<lambda>s. sec_pc_offset (cur_offset (ds_memory s)) s) (\<lambda>_.
            sec_bind (sec_read (ReadEncodedValue (sec_reader env) (sec_asz env) (data ! 2))) (\<lambda>n s.
            let s = s\<lparr>fde_count := n\<rparr> in
            if n = 0 then sec_fail DWARF_ERROR_NO_FDES s
            else sec_return () (s\<lparr>hdr_entries_offset := cur_offset (ds_memory s),
                                  hdr_entries_data_offset := offset\<rparr>))))) s))
       (s0\<lparr>ds_memory := (ds_memory s0)\<lparr>func_offset := - 1, text_offset := - 1, data_offset := offset,
            cur_offset := offset\<rparr>, hdr_section_bias := bias\<rparr>)"

text \<open>\<open>info->pc\<close> has the width of an address.\<close>

definition GetFdeInfoFromIndex :: "SectionEnv \<Rightarrow> u64 \<Rightarrow> FdeInfo sec" where
  "GetFdeInfoFromIndex env index s0 =
     (case fde_info s0 index of
        Some info \<Rightarrow> sec_return info s0
      | None \<Rightarrow>
          sec_bind (sec_read (ReadEncodedValue (sec_reader env) (sec_asz env) (table_encoding s0))) (\<lambda>v.
          sec_bind (sec_read (ReadEncodedValue (sec_reader env) (sec_asz env) (table_encoding s0))) (\<lambda>off s.
          let v = (if IsEncodingRelative (table_encoding s) then v + hdr_section_bias s else v);
              info = \<lparr>fi_pc = take_bit (8 * sec_asz env) v, fi_offset = off\<rparr>
          in sec_return info (s\<lparr>fde_info := (fde_info s)(index \<mapsto> info)\<rparr>)))
          (set_memory (\<lambda>dm. dm\<lparr>data_offset := hdr_entries_data_offset s0,
             cur_offset := hdr_entries_offset s0 + 2 * index * of_nat (table_entry_size s0),
             pc_offset := 0\<rparr>) s0))"

text \<open>
  The binary search. The sum of the bounds can wrap for counts from 2^63 on, and the search then need
  not end. It yields the offset, or the last bound when no entry has exactly this program counter.
\<close>

partial_function (option) hdr_search ::
  "SectionEnv \<Rightarrow> u64 \<Rightarrow> u64 \<Rightarrow> u64 \<Rightarrow> DwarfSection \<Rightarrow> (u64 + u64, DwarfSection) outcome option" where
  "hdr_search env pc first last_index s =
     (if first < last_index then
        (let current = (first + last_index) div 2 in
         case GetFdeInfoFromIndex env current s of
           None \<Rightarrow> None
         | Some r \<Rightarrow>
             (case r of
                Undef \<Rightarrow> Some Undef
              | Failed s' \<Rightarrow> Some (Failed s')
              | Done info s' \<Rightarrow>
                  if pc = fi_pc info then Some (Done (Inl (fi_offset info)) s')
                  else if pc < fi_pc info then hdr_search env pc first current s'
                  else hdr_search env pc (current + 1) last_index s'))
      else Some (Done (Inr last_index) s))"

definition GetFdeOffsetFromPc :: "SectionEnv \<Rightarrow> u64 \<Rightarrow> u64 sec" where
  "GetFdeOffsetFromPc env pc s =
     (if fde_count s = 0 then Some (Failed s)
      else sec_bind (hdr_search env pc 0 (fde_count s)) (\<lambda>r.
        case r of
          Inl off \<Rightarrow> sec_return off
        | Inr last_index \<Rightarrow>
            if last_index \<noteq> 0 then
              sec_bind (GetFdeInfoFromIndex env (last_index - 1)) (\<lambda>info. sec_return (fi_offset info))
            else (\<lambda>s. Some (Failed s))) s)"

definition Hdr_GetFdeFromPc :: "SectionEnv \<Rightarrow> u64 \<Rightarrow> DwarfFde sec" where
  "Hdr_GetFdeFromPc env pc =
     sec_bind (GetFdeOffsetFromPc env pc) (\<lambda>fde_offset.
     sec_bind (GetFdeFromOffset env fde_offset) (\<lambda>fde.
     sec_bind (if fde_pc_start fde = fde_pc_end fde then DwarfSection_GetFdeFromPc env pc else sec_return fde) (\<lambda>fde.
     if pc < fde_pc_end fde then sec_return fde else sec_fail DWARF_ERROR_ILLEGAL_STATE)))"

text \<open>
  Listing the FDEs, up to the first that cannot be read; the count is from the file, so \<open>i\<close> counts up
  to it. An FDE without length is replaced by one that the index finds, if any.
\<close>

definition real_fde :: "SectionEnv \<Rightarrow> DwarfFde \<Rightarrow> DwarfFde sec" where
  "real_fde env fde s =
     (if fde_pc_start fde = fde_pc_end fde then
        (case DwarfSection_GetFdeFromPc env (fde_pc_start fde) s of
           None \<Rightarrow> None
         | Some Undef \<Rightarrow> Some Undef
         | Some (Failed s') \<Rightarrow> sec_return fde s'
         | Some (Done fde_real s') \<Rightarrow> sec_return fde_real s')
      else sec_return fde s)"

fun Hdr_GetFdes_loop :: "SectionEnv \<Rightarrow> nat \<Rightarrow> u64 \<Rightarrow> DwarfFde list \<Rightarrow> DwarfFde list sec" where
  "Hdr_GetFdes_loop env 0 i fdes s = sec_return fdes s"
| "Hdr_GetFdes_loop env (Suc k) i fdes s =
     (case sec_bind (GetFdeInfoFromIndex env i) (\<lambda>info. GetFdeFromOffset env (fi_offset info)) s of
        None \<Rightarrow> None
      | Some Undef \<Rightarrow> Some Undef
      | Some (Failed s') \<Rightarrow> sec_return fdes s'
      | Some (Done fde s') \<Rightarrow>
          sec_bind (real_fde env fde) (\<lambda>fde. Hdr_GetFdes_loop env k (i + 1) (fdes @ [fde])) s')"

definition Hdr_GetFdes :: "SectionEnv \<Rightarrow> DwarfFde list sec" where
  "Hdr_GetFdes env s = Hdr_GetFdes_loop env (unat (fde_count s)) 0 [] s"

section \<open>Dispatch\<close>

definition GetFdeFromPc :: "SectionEnv \<Rightarrow> u64 \<Rightarrow> DwarfFde sec" where
  "GetFdeFromPc env pc =
     (if sec_class env = EH_FRAME_WITH_HDR then Hdr_GetFdeFromPc env pc else DwarfSection_GetFdeFromPc env pc)"

definition GetFdes :: "SectionEnv \<Rightarrow> DwarfFde option list sec" where
  "GetFdes env =
     (if sec_class env = EH_FRAME_WITH_HDR then sec_bind (Hdr_GetFdes env) (\<lambda>l. sec_return (map Some l))
      else DwarfSection_GetFdes env)"

end
