(* ===== verification/DwarfRowEval.thy ===== *)
theory DwarfRowEval
  imports DwarfEhFrameHdr
begin

text \<open>
  From a row of the unwind table to the caller's registers: \<open>EvalExpression\<close>, \<open>EvalRegister\<close>,
  \<open>Eval\<close>, \<open>GetCfaLocationInfo\<close> and \<open>Step\<close> of \<open>unwindstack/DwarfSection.cpp\<close>. The row is an
  \<open>unordered_map\<close>; \<open>order\<close> is the order in which its registers are visited. \<open>xpac\<close> is as in
  \<open>Registers\<close>.
\<close>

section \<open>Evaluating a row\<close>

text \<open>The section, \<open>EvalInfo\<close>, and \<open>*finished\<close>.\<close>

record (overloaded) 'a EvalState =
  es_section :: DwarfSection
  es_info :: "'a RegsInfo"
  es_cfa :: "'a word"
  return_address_undefined :: bool
  es_finished :: bool

type_synonym ('a, 'x) eval = "'a EvalState \<Rightarrow> ('x, 'a EvalState) outcome"

definition eval_fail :: "DwarfErrorCode \<Rightarrow> ('a::len, 'x) eval" where
  "eval_fail c s = Failed (s\<lparr>es_section := (es_section s)\<lparr>ds_error := (ds_error (es_section s))\<lparr>code := c\<rparr>\<rparr>\<rparr>)"

definition eval_fail_memory :: "u64 \<Rightarrow> ('a::len, 'x) eval" where
  "eval_fail_memory a s = Failed (s\<lparr>es_section := (es_section s)\<lparr>ds_error :=
     \<lparr>code = DWARF_ERROR_MEMORY_INVALID, address = a\<rparr>\<rparr>\<rparr>)"

definition update_regs :: "('a::len Regs \<Rightarrow> 'a Regs) \<Rightarrow> 'a EvalState \<Rightarrow> 'a EvalState" where
  "update_regs f s = s\<lparr>es_info := (es_info s)\<lparr>ri_regs := f (ri_regs (es_info s))\<rparr>\<rparr>"

abbreviation es_regs :: "'a::len EvalState \<Rightarrow> 'a Regs" where
  "es_regs s \<equiv> ri_regs (es_info s)"

definition DwarfOp_new :: "DwarfMemory \<Rightarrow> 'a::len DwarfOp" where
  "DwarfOp_new dm = \<lparr>op_memory = dm, dex_pc_set = False, is_register = False,
     last_error = \<lparr>code = DWARF_ERROR_NONE, address = 0\<rparr>, cur_op = 0, operands = [], stack = []\<rparr>"

definition EvalExpression :: "reader \<Rightarrow> reader \<Rightarrow> DwarfLocation \<Rightarrow> ('a::len, 'a word \<times> bool) eval" where
  "EvalExpression rd mem loc s =
     (case Eval (value1 loc - value0 loc) (value1 loc)
             \<lparr>dwarf_memory = rd, regular_memory = mem, regs_info = es_info s\<rparr>
             (DwarfOp_new (ds_memory (es_section s))) of
        Undef \<Rightarrow> Undef
      | Failed op \<Rightarrow>
          Failed (s\<lparr>es_section := (es_section s)\<lparr>ds_memory := op_memory op, ds_error := last_error op\<rparr>\<rparr>)
      | Done _ op \<Rightarrow>
          (let s = s\<lparr>es_section := (es_section s)\<lparr>ds_memory := op_memory op\<rparr>\<rparr> in
           if stack op = [] then eval_fail DWARF_ERROR_ILLEGAL_STATE s
           else if is_register op then eval_fail DWARF_ERROR_NOT_IMPLEMENTED s
           else Done (hd (stack op), dex_pc_set op) s))"

text \<open>Reading straight into the register: the bytes read replace the low ones also when too few.\<close>

definition load_register :: "reader \<Rightarrow> u64 \<Rightarrow> nat \<Rightarrow> ('a::len, unit) eval" where
  "load_register mem a r s =
     (let n = address_size TYPE('a);
          bs = mem a n;
          s' = update_regs (set_reg r (le_word (bs @ drop (length bs) (le_bytes n (unat (reg_at r (es_regs s))))))) s
      in if length bs = n then Done () s' else eval_fail_memory a s')"

definition EvalRegister :: "reader \<Rightarrow> reader \<Rightarrow> DwarfCie \<Rightarrow> DwarfLocation \<Rightarrow> u32 \<Rightarrow> ('a::len, unit) eval" where
  "EvalRegister rd mem cie loc r s =
     (case loc_type loc of
        DWARF_LOCATION_OFFSET \<Rightarrow> load_register mem (ucast (es_cfa s) + value0 loc) (unat r) s
      | DWARF_LOCATION_VAL_OFFSET \<Rightarrow>
          Done () (update_regs (set_reg (unat r) (ucast (ucast (es_cfa s) + value0 loc))) s)
      | DWARF_LOCATION_REGISTER \<Rightarrow>
          (let cur_reg = ucast (value0 loc) :: u32 in
           if unat cur_reg \<ge> Total (es_info s) then eval_fail DWARF_ERROR_ILLEGAL_VALUE s
           else (case Get (es_info s) (unat cur_reg) of
                   None \<Rightarrow> Undef
                 | Some v \<Rightarrow> Done () (update_regs (set_reg (unat r) (ucast (ucast v + value1 loc))) s)))
      | DWARF_LOCATION_EXPRESSION \<Rightarrow>
          bind_outcome (EvalExpression rd mem loc s) (\<lambda>(v, is_dex_pc). load_register mem (ucast v) (unat r))
      | DWARF_LOCATION_VAL_EXPRESSION \<Rightarrow>
          bind_outcome (EvalExpression rd mem loc s) (\<lambda>(v, is_dex_pc) s.
            Done () (update_regs (\<lambda>rs. if is_dex_pc then set_dex_pc (ucast v) (set_reg (unat r) v rs)
                                       else set_reg (unat r) v rs) s))
      | DWARF_LOCATION_UNDEFINED \<Rightarrow>
          Done () (if ucast r = cie_return_address_register cie then s\<lparr>return_address_undefined := True\<rparr> else s)
      | DWARF_LOCATION_PSEUDO_REGISTER \<Rightarrow> eval_fail DWARF_ERROR_ILLEGAL_VALUE s
      | DWARF_LOCATION_INVALID \<Rightarrow> Done () s)"

text \<open>The body of the loop over the row, and the loop.\<close>

definition eval_entry ::
  "reader \<Rightarrow> reader \<Rightarrow> DwarfCie \<Rightarrow> (u32 \<rightharpoonup> DwarfLocation) \<Rightarrow> u32 \<Rightarrow> ('a::len, unit) eval" where
  "eval_entry rd mem cie row r s =
     (if r = CFA_REG then Done () s
      else (case row r of
              None \<Rightarrow> Done () s
            | Some loc \<Rightarrow>
                if unat r \<ge> total_regs (es_regs s) then
                  (if loc_type loc \<noteq> DWARF_LOCATION_PSEUDO_REGISTER then Done () s
                   else (let (ok, rs) = SetPseudoRegister (ucast r) (value0 loc) (es_regs s) in
                         if ok then Done () (update_regs (\<lambda>_. rs) s)
                         else eval_fail DWARF_ERROR_ILLEGAL_VALUE s))
                else (case Save (es_info s) (unat r) of
                        None \<Rightarrow> Undef
                      | Some ri \<Rightarrow> EvalRegister rd mem cie loc r (s\<lparr>es_info := ri\<rparr>))))"

fun eval_entries ::
  "reader \<Rightarrow> reader \<Rightarrow> DwarfCie \<Rightarrow> (u32 \<rightharpoonup> DwarfLocation) \<Rightarrow> u32 list \<Rightarrow> ('a::len, unit) eval" where
  "eval_entries rd mem cie row [] s = Done () s"
| "eval_entries rd mem cie row (r # rs) s =
     bind_outcome (eval_entry rd mem cie row r s) (\<lambda>_. eval_entries rd mem cie row rs)"

definition RegsInfo_new :: "'a::len Regs \<Rightarrow> 'a RegsInfo" where
  "RegsInfo_new r = \<lparr>ri_regs = r, saved_reg_map = 0, saved_regs = (\<lambda>_. 0)\<rparr>"

text \<open>The canonical frame address.\<close>

definition eval_cfa :: "reader \<Rightarrow> reader \<Rightarrow> DwarfLocation \<Rightarrow> ('a::len, unit) eval" where
  "eval_cfa rd mem loc s =
     (case loc_type loc of
        DWARF_LOCATION_REGISTER \<Rightarrow>
          if unat (value0 loc) \<ge> total_regs (es_regs s) then eval_fail DWARF_ERROR_ILLEGAL_VALUE s
          else Done () (s\<lparr>es_cfa := ucast (ucast (reg_at (unat (value0 loc)) (es_regs s)) + value1 loc)\<rparr>)
      | DWARF_LOCATION_VAL_EXPRESSION \<Rightarrow>
          bind_outcome (EvalExpression rd mem loc s) (\<lambda>(v, _) s. Done () (s\<lparr>es_cfa := v\<rparr>))
      | _ \<Rightarrow> eval_fail DWARF_ERROR_ILLEGAL_VALUE s)"

text \<open>The new program counter, the last frame, and the new stack pointer.\<close>

definition finish_frame :: "(u64 \<Rightarrow> u64) \<Rightarrow> DwarfCie \<Rightarrow> 'a::len EvalState \<Rightarrow> 'a EvalState" where
  "finish_frame xpac cie s =
     (let s = update_regs (\<lambda>rs. set_pc xpac
                (if return_address_undefined s then 0
                 else ucast (reg_at (unat (cie_return_address_register cie)) rs)) rs) s;
          s = s\<lparr>es_finished := (regs_pc (es_regs s) = 0 \<and> \<not> cie_is_signal_frame cie)\<rparr>
      in update_regs (set_sp (ucast (es_cfa s))) s)"

definition DwarfSection_Eval ::
  "(u64 \<Rightarrow> u64) \<Rightarrow> reader \<Rightarrow> reader \<Rightarrow> u32 list \<Rightarrow> DwarfCie \<Rightarrow> (u32 \<rightharpoonup> DwarfLocation) \<Rightarrow> ('a::len, unit) eval" where
  "DwarfSection_Eval xpac rd mem order cie row s =
     (if unat (cie_return_address_register cie) \<ge> total_regs (es_regs s) then eval_fail DWARF_ERROR_ILLEGAL_VALUE s
      else (case row CFA_REG of
              None \<Rightarrow> eval_fail DWARF_ERROR_CFA_NOT_DEFINED s
            | Some loc \<Rightarrow>
                (let rs = ResetPseudoRegisters (set_dex_pc 0 (es_regs s)) in
                 bind_outcome (eval_cfa rd mem loc (s\<lparr>es_info := RegsInfo_new rs, return_address_undefined := False\<rparr>)) (\<lambda>_ s.
                 bind_outcome (eval_entries rd mem cie row order s) (\<lambda>_ s.
                 Done () (finish_frame xpac cie s))))))"

section \<open>The row of a program counter\<close>

definition DwarfCfa_new :: "DwarfMemory \<Rightarrow> 'a::len DwarfCfa" where
  "DwarfCfa_new dm = \<lparr>cfa_error = \<lparr>code = DWARF_ERROR_NONE, address = 0\<rparr>, cfa_memory = dm, cur_pc = 0,
     cfa_operands = [], loc_reg_state = [],
     loc_regs = \<lparr>locs = Map.empty, locs_cie = None, pc_start = 0, pc_end = 0\<rparr>\<rparr>"

text \<open>One run of \<open>DwarfCfa\<close> on the memory of the section.\<close>

definition run_cfa ::
  "u64 \<Rightarrow> u64 \<Rightarrow> u64 \<Rightarrow> CfaEnv \<Rightarrow> 'a::len DwarfCfa \<Rightarrow> 'a DwarfCfa sec" where
  "run_cfa pc start_offset end_offset cenv c s =
     (case GetLocationInfo pc start_offset end_offset cenv (c\<lparr>cfa_memory := ds_memory s\<rparr>) of
        None \<Rightarrow> None
      | Some Undef \<Rightarrow> Some Undef
      | Some (Failed c') \<Rightarrow> Some (Failed (s\<lparr>ds_memory := cfa_memory c', ds_error := cfa_error c'\<rparr>))
      | Some (Done _ c') \<Rightarrow> Some (Done c' (s\<lparr>ds_memory := cfa_memory c'\<rparr>)))"

definition GetCfaLocationInfo :: "'a::len itself \<Rightarrow> SectionEnv \<Rightarrow> ArchEnum \<Rightarrow> u64 \<Rightarrow> DwarfFde \<Rightarrow> DwarfLocations sec" where
  "GetCfaLocationInfo T env arch pc fde s =
     (let cie = fde_cie fde; off = fde_cie_offset fde;
          cenv = \<lparr>cfa_reader = sec_reader env, cfa_fde = fde, cfa_arch = arch, cie_loc_regs = None\<rparr>;
          c0 = (DwarfCfa_new (ds_memory s) :: 'a DwarfCfa) in
      sec_bind
        (case cie_rows s off of
           Some row \<Rightarrow> sec_return c0
         | None \<Rightarrow>
             sec_bind (run_cfa pc (cie_cfa_instructions_offset cie) (cie_cfa_instructions_end cie) cenv c0)
               (\<lambda>c s. sec_return c (s\<lparr>cie_rows := (cie_rows s)(off \<mapsto> loc_regs c)\<rparr>)))
        (\<lambda>c s. sec_bind
           (run_cfa pc (fde_cfa_instructions_offset fde) (fde_cfa_instructions_end fde)
              (cenv\<lparr>cie_loc_regs := cie_rows s off\<rparr>) c)
           (\<lambda>c. sec_return (loc_regs c)) s) s)"

text \<open>
  A new row, entered into the cache: \<open>emplace\<close> keeps an entry that is already there for the same end.
  Every failure to find an FDE is reported as an illegal state.
\<close>

definition compute_row :: "'a::len itself \<Rightarrow> SectionEnv \<Rightarrow> ArchEnum \<Rightarrow> u64 \<Rightarrow> DwarfLocations sec" where
  "compute_row T env arch pc s0 =
     (case GetFdeFromPc env pc (s0\<lparr>ds_error := (ds_error s0)\<lparr>code := DWARF_ERROR_NONE\<rparr>\<rparr>) of
        None \<Rightarrow> None
      | Some Undef \<Rightarrow> Some Undef
      | Some (Failed s) \<Rightarrow> sec_fail DWARF_ERROR_ILLEGAL_STATE s
      | Some (Done fde s) \<Rightarrow>
          sec_bind (GetCfaLocationInfo T env arch pc fde) (\<lambda>row s.
            let row = row\<lparr>locs_cie := Some (fde_cie fde)\<rparr> in
            case map_of (row_cache s) (pc_end row) of
              Some old \<Rightarrow> sec_return old s
            | None \<Rightarrow> sec_return row (s\<lparr>row_cache := om_assign (pc_end row) row (row_cache s)\<rparr>)) s)"

definition find_row :: "'a::len itself \<Rightarrow> SectionEnv \<Rightarrow> ArchEnum \<Rightarrow> u64 \<Rightarrow> DwarfLocations sec" where
  "find_row T env arch pc s =
     (case upper_bound pc (row_cache s) of
        [] \<Rightarrow> compute_row T env arch pc s
      | (e, row) # _ \<Rightarrow> if pc < pc_start row then compute_row T env arch pc s else sec_return row s)"

section \<open>One step of an unwind\<close>

text \<open>The section, the registers, and what the pointers \<open>finished\<close> and \<open>is_signal_frame\<close> lead to.\<close>

record (overloaded) 'a StepState =
  ss_section :: DwarfSection
  ss_regs :: "'a Regs"
  ss_finished :: bool
  ss_signal_frame :: bool

definition after_eval :: "'a::len EvalState \<Rightarrow> 'a StepState \<Rightarrow> 'a StepState" where
  "after_eval es s = s\<lparr>ss_section := es_section es, ss_regs := es_regs es, ss_finished := es_finished es\<rparr>"

text \<open>\<open>iterate\<close> is the order in which \<open>unordered_map\<close> yields the keys of a row.\<close>

definition Step ::
  "(u64 \<Rightarrow> u64) \<Rightarrow> ((u32 \<rightharpoonup> DwarfLocation) \<Rightarrow> u32 list) \<Rightarrow> SectionEnv \<Rightarrow> reader \<Rightarrow> u64 \<Rightarrow> 'a::len StepState
     \<Rightarrow> (unit, 'a StepState) outcome option" where
  "Step xpac iterate env process_memory pc s =
     (case find_row TYPE('a) env (regs_arch (ss_regs s)) pc (ss_section s) of
        None \<Rightarrow> None
      | Some Undef \<Rightarrow> Some Undef
      | Some (Failed ds) \<Rightarrow> Some (Failed (s\<lparr>ss_section := ds\<rparr>))
      | Some (Done row ds) \<Rightarrow>
          (case locs_cie row of
             None \<Rightarrow> Some Undef
           | Some cie \<Rightarrow>
               (let s = s\<lparr>ss_section := ds, ss_signal_frame := cie_is_signal_frame cie\<rparr>;
                    es = \<lparr>es_section = ds, es_info = RegsInfo_new (ss_regs s), es_cfa = 0,
                          return_address_undefined = False, es_finished = ss_finished s\<rparr>
                in case DwarfSection_Eval xpac (sec_reader env) process_memory (iterate (locs row)) cie (locs row) es of
                     Undef \<Rightarrow> Some Undef
                   | Failed es' \<Rightarrow> Some (Failed (after_eval es' s))
                   | Done _ es' \<Rightarrow> Some (Done () (after_eval es' s)))))"

end
