(* ===== verification/DwarfOpProps.thy ===== *)
theory DwarfOpProps
  imports DwarfOps
begin

text \<open>
  Properties of the DWARF expression evaluator: what an operation can leave undefined, the bound on
  the number of operations, and that compiled expressions evaluate to their values.
\<close>

section \<open>Handlers and the table\<close>

lemmas stack_ops = StackPop_def StackAt_def OperandAt_def push_front_def set_stack_def
  update_top_def binary_def fail_code_def fail_memory_def jump_def push_register_def

lemmas op_defs = op_deref_def op_deref_size_def op_push_def op_dup_def op_drop_def op_over_def
  op_pick_def op_swap_def op_rot_def op_abs_def op_and_def op_div_def op_minus_def op_mod_def
  op_mul_def op_neg_def op_not_def op_or_def op_plus_def op_plus_uconst_def op_shl_def op_shr_def
  op_shra_def op_xor_def op_bra_def op_eq_def op_ge_def op_gt_def op_le_def op_lt_def op_ne_def
  op_skip_def op_lit_def op_reg_def op_regx_def op_breg_def op_bregx_def op_nop_def
  op_not_implemented_def

text \<open>How many stack values and operands a handler uses.\<close>

fun uses_stack :: "DwarfOpHandleFunc \<Rightarrow> nat" where
  "uses_stack OP_ROT = 3"
| "uses_stack OP_OVER = 2" | "uses_stack OP_SWAP = 2" | "uses_stack OP_AND = 2"
| "uses_stack OP_DIV = 2" | "uses_stack OP_MINUS = 2" | "uses_stack OP_MOD = 2"
| "uses_stack OP_MUL = 2" | "uses_stack OP_OR = 2" | "uses_stack OP_PLUS = 2"
| "uses_stack OP_SHL = 2" | "uses_stack OP_SHR = 2" | "uses_stack OP_SHRA = 2"
| "uses_stack OP_XOR = 2" | "uses_stack OP_EQ = 2" | "uses_stack OP_GE = 2" | "uses_stack OP_GT = 2"
| "uses_stack OP_LE = 2" | "uses_stack OP_LT = 2" | "uses_stack OP_NE = 2"
| "uses_stack OP_DEREF = 1" | "uses_stack OP_DEREF_SIZE = 1" | "uses_stack OP_DUP = 1"
| "uses_stack OP_DROP = 1" | "uses_stack OP_ABS = 1" | "uses_stack OP_NEG = 1"
| "uses_stack OP_NOT = 1" | "uses_stack OP_PLUS_UCONST = 1" | "uses_stack OP_BRA = 1"
| "uses_stack f = 0"

fun uses_operands :: "DwarfOpHandleFunc \<Rightarrow> nat" where
  "uses_operands OP_BREGX = 2"
| "uses_operands OP_DEREF_SIZE = 1" | "uses_operands OP_PICK = 1"
| "uses_operands OP_PLUS_UCONST = 1" | "uses_operands OP_BRA = 1" | "uses_operands OP_SKIP = 1"
| "uses_operands OP_REGX = 1" | "uses_operands OP_BREG = 1" | "uses_operands f = 0"

definition entry_ok :: "OpCallback \<Rightarrow> bool" where
  "entry_ok op \<longleftrightarrow> handle_func op = OP_ILLEGAL \<or>
     uses_stack (handle_func op) \<le> num_required_stack_values op \<and>
     uses_operands (handle_func op) \<le> num_operands op \<and> num_operands op \<le> length (op_operands op)"

lemma entry_ok_entry [simp]:
  "entry_ok (op_entry n f k m ops) \<longleftrightarrow>
     f = OP_ILLEGAL \<or> uses_stack f \<le> k \<and> uses_operands f \<le> m \<and> m \<le> length ops"
  by (simp add: entry_ok_def op_entry_def)

lemma entry_ok_illegal [simp]: "entry_ok illegal_op"
  by (simp add: illegal_op_def)

lemma list_all_replicate: "P x \<Longrightarrow> list_all P (replicate n x)"
  by (induction n) auto

lemma chunks_ok:
  "list_all entry_ok ops_00"
  "list_all entry_ok ops_10"
  "list_all entry_ok ops_20"
  "list_all entry_ok ops_30"
  "list_all entry_ok ops_40"
  "list_all entry_ok ops_50"
  "list_all entry_ok ops_60"
  "list_all entry_ok ops_70"
  "list_all entry_ok ops_80"
  "list_all entry_ok ops_90"
  "list_all entry_ok ops_a0"
  by (simp_all add: op_table_defs list_all_replicate)

lemma table_ok: "entry_ok (kCallbackTable ! unat (b :: u8))"
  by (rule table_all) (simp add: kCallbackTable_def chunks_ok)

text \<open>When the arithmetic of a handler is undefined on a stack.\<close>

fun arithmetic_undefined :: "DwarfOpHandleFunc \<Rightarrow> 'a::len word list \<Rightarrow> bool" where
  "arithmetic_undefined OP_ABS st = (st ! 0 = signed_min \<and> sint (st ! 0) < 0)"
| "arithmetic_undefined OP_NEG st = (st ! 0 = signed_min)"
| "arithmetic_undefined OP_DIV st = (st ! 0 \<noteq> 0 \<and> st ! 1 = signed_min \<and> st ! 0 = - 1)"
| "arithmetic_undefined OP_SHL st = (unat (st ! 0) \<ge> LENGTH('a))"
| "arithmetic_undefined OP_SHR st = (unat (st ! 0) \<ge> LENGTH('a))"
| "arithmetic_undefined OP_SHRA st = (unat (st ! 0) \<ge> LENGTH('a))"
| "arithmetic_undefined f st = False"

text \<open>What the steps of a handler can return.\<close>

lemma bind_outcome_Undef: "bind_outcome m f = Undef \<longleftrightarrow> m = Undef \<or> (\<exists>x t. m = Done x t \<and> f x t = Undef)"
  by (cases m) auto

lemma bind_outcome_Failed:
  "bind_outcome m f = Failed u \<longleftrightarrow> m = Failed u \<or> (\<exists>x t. m = Done x t \<and> f x t = Failed u)"
  by (cases m) auto

lemma step_outcomes [simp]:
  fixes s :: "'a::len DwarfOp"
  shows "StackPop s = Undef \<longleftrightarrow> stack s = []"
    "StackPop s = Done v t \<longleftrightarrow> (\<exists>vs. stack s = v # vs \<and> t = s\<lparr>stack := vs\<rparr>)"
    "StackPop s \<noteq> Failed t"
    "StackAt i s = Undef \<longleftrightarrow> length (stack s) \<le> i"
    "StackAt i s = Done v t \<longleftrightarrow> i < length (stack s) \<and> v = stack s ! i \<and> t = s"
    "StackAt i s \<noteq> Failed t"
    "OperandAt i s = Undef \<longleftrightarrow> length (operands s) \<le> i"
    "OperandAt i s = Done v t \<longleftrightarrow> i < length (operands s) \<and> v = operands s ! i \<and> t = s"
    "OperandAt i s \<noteq> Failed t"
    "set_stack i v s = Undef \<longleftrightarrow> length (stack s) \<le> i"
    "set_stack i v s = Done u t \<longleftrightarrow> i < length (stack s) \<and> t = s\<lparr>stack := (stack s)[i := v]\<rparr>"
    "set_stack i v s \<noteq> Failed t"
    "push_front v s \<noteq> Undef" "push_front v s \<noteq> Failed t"
    "jump a s \<noteq> Undef" "jump a s \<noteq> Failed t"
    "fail_code c s \<noteq> (Undef :: ('a, 'b) op_result)" "fail_memory a s \<noteq> (Undef :: ('a, 'b) op_result)"
  by (auto simp: StackPop_def StackAt_def OperandAt_def set_stack_def push_front_def jump_def
      fail_code_def fail_memory_def split: list.splits)

lemma update_top_Undef [simp]:
  "update_top f s = Undef \<longleftrightarrow> stack s = [] \<or> f (stack s ! 0) = None"
  by (auto simp: update_top_def bind_outcome_Undef split: option.splits)

lemma update_top_Failed [simp]: "update_top f s \<noteq> Failed t"
  by (auto simp: update_top_def bind_outcome_Failed split: option.splits)

lemma binary_Undef [simp]:
  "binary f env s = Undef \<longleftrightarrow> length (stack s) < 2 \<or> f (stack s ! 1) (stack s ! 0) = None"
  by (cases "stack s") (auto simp: binary_def bind_outcome_Undef Suc_le_eq numeral_2_eq_2 less_Suc_eq)

lemma binary_Failed [simp]: "binary f env s \<noteq> Failed t"
  by (auto simp: binary_def bind_outcome_Failed)

lemma handler_undefined_iff:
  fixes s :: "'a::len DwarfOp"
  assumes "f \<noteq> OP_ILLEGAL" "uses_stack f \<le> length (stack s)" "uses_operands f \<le> length (operands s)"
    "Total (regs_info env) \<le> 64"
  shows "kOpHandleFuncList f env s = Undef \<longleftrightarrow> arithmetic_undefined f (stack s)"
proof -
  have g: "Get (regs_info env) r \<noteq> None" if "\<not> Total (regs_info env) \<le> r" for r
    using Get_defined [of r "regs_info env"] that assms(4) by simp
  have r: "push_register r i env s \<noteq> Undef"
    if "\<not> Total (regs_info env) \<le> r" "i < length (operands s)" for r i
    using g [OF that(1)] that(2) by (auto simp: push_register_def bind_outcome_Undef)
  show ?thesis
    using assms(1-3) r
    by (cases f; cases "stack s"; cases "operands s")
      (auto simp: op_defs bind_outcome_Undef Let_def Suc_le_eq split: option.splits if_splits)
qed

text \<open>Reading operands keeps everything but the cursor and the operands.\<close>

lemma read_operands_Done:
  "read_operands es env s = Done u t \<Longrightarrow>
     length (operands t) = length (operands s) + length es \<and> stack t = stack s \<and> cur_op t = cur_op s"
  by (induction es arbitrary: s)
    (auto simp: fail_memory_def split: outcome.splits)

text \<open>
  Property C34. What \<open>Decode\<close> can leave undefined. The table's stack and operand counts suffice for
  every handler: no operation pops an empty stack, indexes outside the stack or the operands, or
  calls a missing handler, whatever the bytes are. What remains is the arithmetic of six
  operations (negating or dividing the least value, shifting by the width or more) and LEB128
  operands that are too long.
\<close>

theorem Decode_undefined_iff:
  fixes s :: "'a::len DwarfOp"
  assumes "Total (regs_info env) \<le> 64"
    and "ReadBytes (dwarf_memory env) 1 (op_memory s) = Done [b] dm"
  defines "op \<equiv> kCallbackTable ! unat b"
    and "s1 \<equiv> s\<lparr>last_error := (last_error s)\<lparr>code := DWARF_ERROR_NONE\<rparr>, cur_op := b, op_memory := dm,
                operands := []\<rparr>"
  shows "Decode env s = Undef \<longleftrightarrow>
     handle_func op \<noteq> OP_ILLEGAL \<and> num_required_stack_values op \<le> length (stack s) \<and>
     (case read_operands (take (num_operands op) (op_operands op)) env s1 of
        Undef \<Rightarrow> True | Failed t \<Rightarrow> False | Done _ t \<Rightarrow> arithmetic_undefined (handle_func op) (stack t))"
proof (cases "handle_func op = OP_ILLEGAL \<or> \<not> num_required_stack_values op \<le> length (stack s)")
  case True
  then show ?thesis using assms(2) by (auto simp: Decode_def Let_def op_def)
next
  case False
  have ok: "entry_ok op" unfolding op_def by (rule table_ok)
  have d: "Decode env s = bind_outcome (read_operands (take (num_operands op) (op_operands op)) env s1)
      (\<lambda>_. kOpHandleFuncList (handle_func op) env)"
    using False assms(2) by (auto simp: Decode_def Let_def op_def s1_def)
  show ?thesis
  proof (cases "read_operands (take (num_operands op) (op_operands op)) env s1")
    case (Done u t)
    then have "length (operands t) = num_operands op" "stack t = stack s"
      using read_operands_Done [OF Done] ok False by (auto simp: s1_def entry_ok_def)
    then show ?thesis using d Done False ok handler_undefined_iff [of "handle_func op" t env] assms(1)
      by (auto simp: entry_ok_def)
  qed (use d False in auto)
qed

text \<open>An environment whose expression is \<open>raw\<close>, with two registers and no other memory.\<close>

definition sample_env :: "u8 list \<Rightarrow> 64 OpEnv" where
  "sample_env raw = \<lparr>dwarf_memory = MemoryBuffer_Read raw, regular_memory = MemoryBuffer_Read [],
     regs_info = \<lparr>ri_regs = (RegsImpl ARCH_ARM64 2)\<lparr>reg_values := [0x1000, 0x2000]\<rparr>, saved_reg_map = 0, saved_regs = (\<lambda>_. 0)\<rparr>\<rparr>"

definition sample_op :: "64 word list \<Rightarrow> 64 DwarfOp" where
  "sample_op st = \<lparr>op_memory = DwarfMemory_init, dex_pc_set = False, is_register = False,
     last_error = \<lparr>code = DWARF_ERROR_NONE, address = 0\<rparr>, cur_op = 0, operands = [], stack = st\<rparr>"

lemmas length_ops =
  arg_cong [OF ops_00_def, of length, simplified] arg_cong [OF ops_10_def, of length, simplified]
  arg_cong [OF ops_20_def, of length, simplified] arg_cong [OF ops_30_def, of length, simplified]
  arg_cong [OF ops_40_def, of length, simplified] arg_cong [OF ops_50_def, of length, simplified]
  arg_cong [OF ops_60_def, of length, simplified] arg_cong [OF ops_70_def, of length, simplified]
  arg_cong [OF ops_80_def, of length, simplified] arg_cong [OF ops_90_def, of length, simplified]
  arg_cong [OF ops_a0_def, of length, simplified]

lemma Decode_undefined_iff_witness:
  "Decode (sample_env [0x24]) (sample_op [70, 1]) = Undef \<and>
   Decode (sample_env [0x24]) (sample_op [70]) \<noteq> Undef"
proof -
  have t: "Total (regs_info (sample_env [0x24])) \<le> 64" by (simp add: sample_env_def Total_def total_regs_def)
  have r: "ReadBytes (dwarf_memory (sample_env [0x24])) 1 (op_memory (sample_op st)) =
      Done [0x24] (DwarfMemory_init\<lparr>cur_offset := 1\<rparr>)" for st
    by (simp add: sample_env_def sample_op_def ReadBytes_def ReadFully_def MemoryBuffer_Read_def DwarfMemory_init_def)
  have e: "kCallbackTable ! unat (0x24 :: u8) = op_entry ''DW_OP_shl'' OP_SHL 2 0 []"
    by (simp add: kCallbackTable_def nth_append length_ops ops_20_def)
  show ?thesis
    using Decode_undefined_iff [OF t r] unfolding e
    by (simp add: op_entry_def sample_op_def)
qed

section \<open>The bound on the number of operations\<close>

text \<open>The flag \<open>dex_pc_set\<close> is written by \<open>Eval\<close> only: setting it commutes with every operation.\<close>

fun set_flag :: "bool \<Rightarrow> ('a::len, 'b) op_result \<Rightarrow> ('a, 'b) op_result" where
  "set_flag d (Done x t) = Done x (t\<lparr>dex_pc_set := d\<rparr>)"
| "set_flag d (Failed t) = Failed (t\<lparr>dex_pc_set := d\<rparr>)"
| "set_flag d Undef = Undef"

lemma set_flag_set_flag [simp]: "set_flag d (set_flag e m) = set_flag d m"
  by (cases m) auto

lemma set_flag_bind_outcome:
  "set_flag d (bind_outcome m h) = (case m of Undef \<Rightarrow> Undef | Failed t \<Rightarrow> Failed (t\<lparr>dex_pc_set := d\<rparr>)
     | Done x t \<Rightarrow> set_flag d (h x t))"
  by (cases m) auto

lemma set_flag_bind:
  "(\<And>x t. f x (t\<lparr>dex_pc_set := d\<rparr>) = set_flag d (f x t)) \<Longrightarrow>
     bind_outcome (set_flag d m) f = set_flag d (bind_outcome m f)"
  by (cases m) auto

lemma set_flag_steps [simp]:
  fixes s :: "'a::len DwarfOp"
  shows "StackPop (s\<lparr>dex_pc_set := d\<rparr>) = set_flag d (StackPop s)"
    "StackAt i (s\<lparr>dex_pc_set := d\<rparr>) = set_flag d (StackAt i s)"
    "OperandAt i (s\<lparr>dex_pc_set := d\<rparr>) = set_flag d (OperandAt i s)"
    "push_front v (s\<lparr>dex_pc_set := d\<rparr>) = set_flag d (push_front v s)"
    "set_stack i v (s\<lparr>dex_pc_set := d\<rparr>) = set_flag d (set_stack i v s)"
    "jump a (s\<lparr>dex_pc_set := d\<rparr>) = set_flag d (jump a s)"
    "fail_code c (s\<lparr>dex_pc_set := d\<rparr>) = set_flag d (fail_code c s :: ('a, 'b) op_result)"
    "fail_memory a (s\<lparr>dex_pc_set := d\<rparr>) = set_flag d (fail_memory a s :: ('a, 'b) op_result)"
  by (simp_all add: StackPop_def StackAt_def OperandAt_def push_front_def set_stack_def jump_def
      fail_code_def fail_memory_def split: list.split)

lemma set_flag_update_top [simp]: "update_top f (s\<lparr>dex_pc_set := d\<rparr>) = set_flag d (update_top f s)"
  by (auto simp: update_top_def intro!: set_flag_bind split: option.split)

lemma set_flag_binary [simp]: "binary f env (s\<lparr>dex_pc_set := d\<rparr>) = set_flag d (binary f env s)"
  by (auto simp: binary_def intro!: set_flag_bind)

lemma set_flag_push_register [simp]:
  "push_register r i env (s\<lparr>dex_pc_set := d\<rparr>) = set_flag d (push_register r i env s)"
  by (auto simp: push_register_def intro!: set_flag_bind split: option.split)

lemma set_flag_reg:
  "s\<lparr>dex_pc_set := d, is_register := r\<rparr> = s\<lparr>is_register := r\<rparr>\<lparr>dex_pc_set := d\<rparr>" for s :: "'a::len DwarfOp"
  by simp

lemma set_flag_handler:
  "kOpHandleFuncList f env (s\<lparr>dex_pc_set := d\<rparr>) = set_flag d (kOpHandleFuncList f env s)"
  by (cases f; (simp add: op_defs Let_def split: option.split)?;
      (intro set_flag_bind conjI impI allI | simp add: set_flag_reg split: option.split)+)

lemma set_flag_first:
  fixes s :: "'a::len DwarfOp"
  shows "s\<lparr>dex_pc_set := d, op_memory := dm, operands := vs\<rparr> = s\<lparr>op_memory := dm, operands := vs\<rparr>\<lparr>dex_pc_set := d\<rparr>"
    "s\<lparr>dex_pc_set := d, last_error := e, cur_op := b, op_memory := dm, operands := vs\<rparr> =
     s\<lparr>last_error := e, cur_op := b, op_memory := dm, operands := vs\<rparr>\<lparr>dex_pc_set := d\<rparr>"
  by simp_all

lemma set_flag_read_operands:
  "read_operands es env (s\<lparr>dex_pc_set := d\<rparr>) = set_flag d (read_operands es env s)"
proof (induction es arbitrary: s)
  case (Cons e es)
  show ?case
    by (simp add: fail_memory_def set_flag_first(1) Cons.IH split: outcome.split)
qed simp

lemma set_flag_Decode: "Decode env (s\<lparr>dex_pc_set := d\<rparr>) = set_flag d (Decode env s)"
proof -
  have r: "bind_outcome (read_operands es env (s\<lparr>dex_pc_set := d, last_error := e, cur_op := b, op_memory := dm,
        operands := []\<rparr>)) (\<lambda>_. kOpHandleFuncList f env) =
      set_flag d (bind_outcome (read_operands es env (s\<lparr>last_error := e, cur_op := b, op_memory := dm,
        operands := []\<rparr>)) (\<lambda>_. kOpHandleFuncList f env))" for es e b dm f
    by (simp only: set_flag_first(2) set_flag_read_operands set_flag_bind set_flag_handler)
  show ?thesis
    by (simp add: Decode_def Let_def fail_code_def fail_memory_def r split: outcome.split)
qed

text \<open>
  The reference: run operations from the start until the cursor reaches the end, and give up when
  the end is not reached after \<open>n\<close> operations and one more.
\<close>

primrec bounded_run :: "nat \<Rightarrow> u64 \<Rightarrow> 'a::len handler" where
  "bounded_run 0 end env s =
     (if cur_offset (op_memory s) < end
      then bind_outcome (Decode env s) (\<lambda>_. fail_code DWARF_ERROR_TOO_MANY_ITERATIONS)
      else Done () s)"
| "bounded_run (Suc n) end env s =
     (if cur_offset (op_memory s) < end
      then bind_outcome (Decode env s) (\<lambda>_. bounded_run n end env)
      else Done () s)"

lemma eval_loop_bounded_run: "m + n = 1000 \<Longrightarrow> eval_loop m end env s = bounded_run n end env s"
proof (induction n arbitrary: m s)
  case 0
  then show ?case by (simp add: eval_loop.simps [of 1000] split: outcome.split)
next
  case (Suc n)
  then show ?case by (simp add: eval_loop.simps [of m] split: outcome.split)
qed

lemma set_flag_bounded_run:
  "bounded_run n end env (s\<lparr>dex_pc_set := d\<rparr>) = set_flag d (bounded_run n end env s)"
  by (induction n arbitrary: s) (auto simp: set_flag_Decode intro!: set_flag_bind)

lemma set_flag_same: "set_flag (dex_pc_set s) (Decode env s) = Decode env s"
  using set_flag_Decode [where env = env and s = s and d = "dex_pc_set s"] by simp

definition start_state :: "u64 \<Rightarrow> 'a::len DwarfOp \<Rightarrow> 'a DwarfOp" where
  "start_state start s = s\<lparr>is_register := False, stack := [], dex_pc_set := False,
     op_memory := (op_memory s)\<lparr>cur_offset := start\<rparr>\<rparr>"

lemma Eval_bounded_run:
  "set_flag False (Eval start end env s) = bounded_run 1000 end env (start_state start s)"
proof -
  let ?s = "start_state start s"
  have l: "eval_loop 2 end env t = bounded_run 998 end env t" for t :: "'a DwarfOp"
    by (rule eval_loop_bounded_run) simp
  have two: "set_flag False (eval_loop 2 end env (if c then t\<lparr>dex_pc_set := True\<rparr> else t)) =
      set_flag False (bounded_run 998 end env t)" for c and t :: "'a DwarfOp"
    by (simp add: l set_flag_bounded_run)
  have "?s\<lparr>dex_pc_set := False\<rparr> = ?s" by (simp add: start_state_def)
  then have flag: "set_flag False (bounded_run n end env ?s) = bounded_run n end env ?s" for n
    using set_flag_bounded_run [of n "end" env False ?s] by simp
  have E: "Eval start end env s = (if \<not> cur_offset (op_memory ?s) < end then Done () ?s
     else bind_outcome (Decode env ?s) (\<lambda>_ t.
       if \<not> cur_offset (op_memory t) < end then Done () t
       else bind_outcome (Decode env t) (\<lambda>_ u. eval_loop 2 end env
         (if (cur_op t = 0x0c \<and> last (operands t) = 0x31584544) \<and> cur_op u = 0x13
          then u\<lparr>dex_pc_set := True\<rparr> else u))))"
    unfolding Eval_def Let_def start_state_def by simp
  have n: "(1000 :: nat) = Suc (Suc 998)" by simp
  have "set_flag False (Eval start end env s) = set_flag False (bounded_run 1000 end env ?s)"
    unfolding E n bounded_run.simps(2) by (simp add: two set_flag_bind_outcome split: outcome.split)
  then show ?thesis using flag [of 1000] by (simp del: bounded_run.simps)
qed

text \<open>
  Property C35. \<open>Eval\<close>, which unrolls its first two operations, is the plain loop that decodes from
  the start until the cursor reaches the end: whatever the branches do it returns after at most
  1000 operations, or fails after 1001 with \<open>DWARF_ERROR_TOO_MANY_ITERATIONS\<close>. Only the flag
  \<open>dex_pc_set\<close> is extra.
\<close>

theorem Eval_is_bounded_run:
  "set_flag False (Eval start end env s) = bounded_run 1000 end env (start_state start s)"
  by (rule Eval_bounded_run)

end
