(* ===== verification/DwarfExpr.thy ===== *)
theory DwarfExpr
  imports DwarfOpProps
begin

text \<open>
  Expressions over registers and memory, the DWARF code a compiler emits for them, and the proof
  that \<open>Eval\<close> computes their value, on 64-bit addresses.
\<close>

section \<open>Expressions\<close>

datatype binop = B_and | B_minus | B_mul | B_or | B_plus | B_xor | B_eq | B_ge | B_gt | B_le | B_lt | B_ne

datatype expr =
    Const u64
  | Register nat int
  | Deref expr
  | Not expr
  | Add_const expr u64
  | Bin binop expr expr

fun binop_value :: "binop \<Rightarrow> u64 \<Rightarrow> u64 \<Rightarrow> u64" where
  "binop_value B_and v w = v AND w"
| "binop_value B_minus v w = v - w"
| "binop_value B_mul v w = v * w"
| "binop_value B_or v w = v OR w"
| "binop_value B_plus v w = v + w"
| "binop_value B_xor v w = v XOR w"
| "binop_value B_eq v w = of_bool (v = w)"
| "binop_value B_ge v w = of_bool (v \<ge> w)"
| "binop_value B_gt v w = of_bool (v > w)"
| "binop_value B_le v w = of_bool (v \<le> w)"
| "binop_value B_lt v w = of_bool (v < w)"
| "binop_value B_ne v w = of_bool (v \<noteq> w)"

fun opcode :: "binop \<Rightarrow> u8" where
  "opcode B_and = 0x1a"
| "opcode B_minus = 0x1c"
| "opcode B_mul = 0x1e"
| "opcode B_or = 0x21"
| "opcode B_plus = 0x22"
| "opcode B_xor = 0x27"
| "opcode B_eq = 0x29"
| "opcode B_ge = 0x2a"
| "opcode B_gt = 0x2b"
| "opcode B_le = 0x2c"
| "opcode B_lt = 0x2d"
| "opcode B_ne = 0x2e"

text \<open>The value; \<open>None\<close> when a register does not exist or memory cannot be read.\<close>

fun expr_value :: "64 OpEnv \<Rightarrow> expr \<Rightarrow> u64 option" where
  "expr_value env (Const v) = Some v"
| "expr_value env (Register r off) =
     (if r < 32 \<and> r < Total (regs_info env) \<and> - (2 ^ 62) \<le> off \<and> off < 2 ^ 63
      then map_option (\<lambda>v. v + of_int off) (Get (regs_info env) r) else None)"
| "expr_value env (Deref e) =
     (case expr_value env e of
        None \<Rightarrow> None
      | Some a \<Rightarrow> map_option le_word (ReadFully (regular_memory env) a 8))"
| "expr_value env (Not e) = map_option (\<lambda>v. NOT v) (expr_value env e)"
| "expr_value env (Add_const e c) = map_option (\<lambda>v. v + c) (expr_value env e)"
| "expr_value env (Bin b e1 e2) =
     (case (expr_value env e1, expr_value env e2) of
        (Some v, Some w) \<Rightarrow> Some (binop_value b v w)
      | _ \<Rightarrow> None)"

fun compile :: "expr \<Rightarrow> u8 list" where
  "compile (Const v) = 0x0e # le_bytes 8 (unat v)"
| "compile (Register r off) = (of_nat (0x70 + r)) # sleb_bytes off"
| "compile (Deref e) = compile e @ [0x06]"
| "compile (Not e) = compile e @ [0x20]"
| "compile (Add_const e c) = compile e @ 0x23 # uleb_bytes (unat c)"
| "compile (Bin b e1 e2) = compile e1 @ compile e2 @ [opcode b]"

fun operations :: "expr \<Rightarrow> nat" where
  "operations (Const v) = 1"
| "operations (Register r off) = 1"
| "operations (Deref e) = operations e + 1"
| "operations (Not e) = operations e + 1"
| "operations (Add_const e c) = operations e + 1"
| "operations (Bin b e1 e2) = operations e1 + operations e2 + 1"

section \<open>Single operations\<close>

lemmas table_lookup = kCallbackTable_def nth_append length_ops

lemma entry_opcode:
  "\<exists>nm f. kCallbackTable ! unat (opcode b) = op_entry nm f 2 0 [] \<and> f \<noteq> OP_ILLEGAL \<and>
     kOpHandleFuncList f = binary (\<lambda>v top. Some (binop_value b v top))"
  by (cases b) (simp_all add: table_lookup ops_10_def ops_20_def op_entry_def op_and_def op_minus_def
      op_mul_def op_or_def op_plus_def op_xor_def op_eq_def op_ge_def op_gt_def op_le_def op_lt_def
      op_ne_def bool_to_dwarf_bool_def of_bool_def)

lemma entries:
  "kCallbackTable ! 0x0e = op_entry ''DW_OP_const8u'' OP_PUSH 0 1 [DW_EH_PE_udata8]"
  "kCallbackTable ! 0x06 = op_entry ''DW_OP_deref'' OP_DEREF 1 0 []"
  "kCallbackTable ! 0x20 = op_entry ''DW_OP_not'' OP_NOT 1 0 []"
  "kCallbackTable ! 0x23 = op_entry ''DW_OP_plus_uconst'' OP_PLUS_UCONST 1 1 [DW_EH_PE_uleb128]"
  by (simp_all add: table_lookup ops_00_def ops_20_def)

lemma entry_breg:
  assumes "r < 32"
  shows "\<exists>nm. kCallbackTable ! (0x70 + r) = op_entry nm OP_BREG 0 1 [DW_EH_PE_sleb128]"
proof -
  have "list_all (\<lambda>e. \<exists>nm. e = op_entry nm OP_BREG 0 1 [DW_EH_PE_sleb128]) (ops_70 @ ops_80)"
    by (simp add: ops_70_def ops_80_def op_entry_def)
  moreover have "kCallbackTable ! (0x70 + r) = (ops_70 @ ops_80) ! r"
    using assms by (simp add: table_lookup)
  ultimately show ?thesis using assms by (simp add: list_all_length length_ops)
qed


text \<open>The bytes at the cursor of a reader of \<open>raw\<close>, and the cursor behind them.\<close>

definition at_cursor :: "u8 list \<Rightarrow> DwarfMemory \<Rightarrow> u8 list \<Rightarrow> bool" where
  "at_cursor raw dm bs \<longleftrightarrow> length raw < 2 ^ 64 \<and> (\<exists>rest. drop (unat (cur_offset dm)) raw = bs @ rest)"

definition advance :: "nat \<Rightarrow> DwarfMemory \<Rightarrow> DwarfMemory" where
  "advance n dm = dm\<lparr>cur_offset := cur_offset dm + of_nat n\<rparr>"

lemma advance_advance [simp]: "advance n (advance m dm) = advance (m + n) dm"
  by (simp add: advance_def ac_simps)

lemma at_cursor_bound: "at_cursor raw dm bs \<Longrightarrow> bs \<noteq> [] \<Longrightarrow> unat (cur_offset dm) + length bs \<le> length raw"
  by (cases bs) (auto simp: at_cursor_def dest!: arg_cong [where f = length])

lemma cur_offset_advance:
  assumes "unat (cur_offset dm) + n < 2 ^ 64"
  shows "unat (cur_offset (advance n dm)) = unat (cur_offset dm) + n"
  using unat_add_lt [OF assms] by (simp add: advance_def)

lemma at_cursor_append:
  assumes "at_cursor raw dm (xs @ ys)"
  shows "at_cursor raw dm xs" "at_cursor raw (advance (length xs) dm) ys"
proof -
  show "at_cursor raw dm xs" using assms by (auto simp: at_cursor_def)
  show "at_cursor raw (advance (length xs) dm) ys"
  proof (cases "xs = []")
    case False
    then have "unat (cur_offset dm) + length xs < 2 ^ 64"
      using at_cursor_bound [of raw dm xs] assms by (auto simp: at_cursor_def)
    moreover obtain rest where "drop (unat (cur_offset dm)) raw = xs @ ys @ rest"
      using assms by (auto simp: at_cursor_def)
    then have "drop (length xs) (drop (unat (cur_offset dm)) raw) = ys @ rest" by simp
    ultimately show ?thesis using assms by (simp add: at_cursor_def cur_offset_advance add.commute)
  qed (use assms in \<open>simp add: advance_def\<close>)
qed

lemma ReadBytes_cursor:
  assumes "at_cursor raw dm bs" "length bs = n"
  shows "ReadBytes (MemoryBuffer_Read raw) n dm = Done bs (advance n dm)"
  using assms buffer.ReadBytes_at [of raw dm bs n]
  by (auto simp: at_cursor_def bytes_at_list advance_def)

lemma Encoded_udata8:
  assumes "at_cursor raw dm (le_bytes 8 (unat v))"
  shows "ReadEncodedValue (MemoryBuffer_Read raw) 8 DW_EH_PE_udata8 dm = Done v (advance 8 dm)"
proof -
  have "unat v mod 256 ^ 8 = unat v" using unat64_less [of v] by simp
  then have "le_word (le_bytes 8 (unat v)) = v" by (simp add: le_word_def le_nat_le_bytes)
  then show ?thesis using ReadBytes_cursor [OF assms, of 8]
    by (simp add: ReadEncodedValue_def read_format_def read_unsigned_def AdjustEncodedValue_def pe_defs)
qed

lemma Encoded_uleb:
  assumes "at_cursor raw dm (uleb_bytes (unat v))"
  shows "ReadEncodedValue (MemoryBuffer_Read raw) 8 DW_EH_PE_uleb128 dm =
     Done v (advance (length (uleb_bytes (unat v))) dm)"
  using assms buffer_ULEB128 [of dm raw v]
  by (auto simp: at_cursor_def ReadEncodedValue_def read_format_def AdjustEncodedValue_def pe_defs advance_def)

lemma Encoded_sleb:
  assumes "at_cursor raw dm (sleb_bytes v)" "- (2 ^ 62) \<le> v" "v < 2 ^ 63"
  shows "ReadEncodedValue (MemoryBuffer_Read raw) 8 DW_EH_PE_sleb128 dm =
     Done (of_int v) (advance (length (sleb_bytes v)) dm)"
  using assms buffer_SLEB128 [of dm raw v]
  by (auto simp: at_cursor_def ReadEncodedValue_def read_format_def AdjustEncodedValue_def pe_defs advance_def)

text \<open>The state in which a handler runs.\<close>

definition decoded :: "u8 \<Rightarrow> nat \<Rightarrow> u64 list \<Rightarrow> 64 DwarfOp \<Rightarrow> 64 DwarfOp" where
  "decoded b n vs s = s\<lparr>last_error := (last_error s)\<lparr>code := DWARF_ERROR_NONE\<rparr>, cur_op := b,
     op_memory := advance n (op_memory s), operands := vs\<rparr>"

lemma decoded_simps [simp]:
  "stack (decoded b n vs s) = stack s" "operands (decoded b n vs s) = vs" "cur_op (decoded b n vs s) = b"
  "op_memory (decoded b n vs s) = advance n (op_memory s)" "is_register (decoded b n vs s) = is_register s"
  by (simp_all add: decoded_def)

lemma Decode_plain:
  assumes "at_cursor raw (op_memory s) [b]" "dwarf_memory env = MemoryBuffer_Read raw"
    and "kCallbackTable ! unat b = op_entry nm f k 0 []" "f \<noteq> OP_ILLEGAL" "k \<le> length (stack s)"
  shows "Decode env s = kOpHandleFuncList f env (decoded b 1 [] s)"
  using ReadBytes_cursor [OF assms(1), of 1] assms(2-5)
  by (simp add: Decode_def Let_def op_entry_def decoded_def)

lemma Decode_operand:
  assumes "at_cursor raw (op_memory s) [b]" "dwarf_memory env = MemoryBuffer_Read raw"
    and "kCallbackTable ! unat b = op_entry nm f k 1 [e]" "f \<noteq> OP_ILLEGAL" "k \<le> length (stack s)"
    and "ReadEncodedValue (MemoryBuffer_Read raw) 8 e (advance 1 (op_memory s)) =
      Done v (advance m (advance 1 (op_memory s)))"
  shows "Decode env s = kOpHandleFuncList f env (decoded b (1 + m) [v] s)"
  using ReadBytes_cursor [OF assms(1), of 1] assms(2-6)
  by (simp add: Decode_def Let_def op_entry_def decoded_def)

section \<open>Compiled expressions\<close>

text \<open>\<open>n\<close> operations on \<open>len\<close> bytes push the value \<open>v\<close>.\<close>

definition computes :: "64 OpEnv \<Rightarrow> u64 \<Rightarrow> nat \<Rightarrow> nat \<Rightarrow> 64 DwarfOp \<Rightarrow> u64 \<Rightarrow> 64 DwarfOp \<Rightarrow> bool" where
  "computes env end n len s v t \<longleftrightarrow>
     (\<forall>k. bounded_run (n + k) end env s = bounded_run k end env t) \<and>
     stack t = v # stack s \<and> op_memory t = advance len (op_memory s) \<and> is_register t = is_register s"

lemma bounded_run_step:
  "Decode env s = Done () t \<Longrightarrow> cur_offset (op_memory s) < end \<Longrightarrow>
     bounded_run (Suc k) end env s = bounded_run k end env t"
  by simp

text \<open>One more operation behind a computation.\<close>

lemma computes_step:
  assumes "computes env end n len s v t" "Decode env t = Done () u"
    and "cur_offset (op_memory t) < end"
    and "stack u = w # stack s" "op_memory u = advance m (op_memory t)" "is_register u = is_register t"
  shows "computes env end (n + 1) (len + m) s w u"
proof -
  have r: "bounded_run (n + j) end env s = bounded_run j end env t" for j
    using assms(1) unfolding computes_def by blast
  have "bounded_run (n + 1 + k) end env s = bounded_run k end env u" for k
    using r [of "Suc k"] bounded_run_step [OF assms(2,3), of k] by (simp only: add.assoc plus_1_eq_Suc)
  then show ?thesis using assms by (simp add: computes_def)
qed

text \<open>Two computations in a row.\<close>

lemma computes_trans:
  assumes "computes env end n len s v t" "computes env end m len' t w u"
  shows "(\<forall>k. bounded_run (n + m + k) end env s = bounded_run k end env u) \<and>
     stack u = w # v # stack s \<and> op_memory u = advance (len + len') (op_memory s) \<and> is_register u = is_register s"
  using assms by (auto simp: computes_def add.assoc)

lemma compile_nonempty [simp]: "compile e \<noteq> []"
  by (cases e) auto

lemma below_end:
  assumes "unat (cur_offset dm) + n < unat end" 
  shows "cur_offset (advance n dm) < end"
proof -
  have "unat (cur_offset dm) + n < 2 ^ 64" using assms unat64_less [of "end"] by linarith
  then show ?thesis using assms by (simp add: word_less_nat_alt cur_offset_advance)
qed

lemma compile_computes:
  assumes "dwarf_memory env = MemoryBuffer_Read raw"
  shows "expr_value env e = Some v \<Longrightarrow> at_cursor raw (op_memory s) (compile e) \<Longrightarrow>
     unat (cur_offset (op_memory s)) + length (compile e) \<le> unat end \<Longrightarrow>
     \<exists>t. computes env end (operations e) (length (compile e)) s v t"
proof (induction e arbitrary: s v)
  case (Const c)
  have a: "at_cursor raw (op_memory s) [0x0e]" "at_cursor raw (advance 1 (op_memory s)) (le_bytes 8 (unat c))"
    using at_cursor_append [of raw "op_memory s" "[0x0e]" "le_bytes 8 (unat c)"] Const(2) by simp_all
  have "Decode env s = kOpHandleFuncList OP_PUSH env (decoded 0x0e (1 + 8) [c] s)"
    using assms entries(1) Encoded_udata8 [OF a(2)]
    by (intro Decode_operand [OF a(1), where k = 0]) simp_all
  then have "Decode env s = Done () ((decoded 0x0e (1 + 8) [c] s)\<lparr>stack := c # stack s\<rparr>)"
    by (simp add: op_push_def)
  moreover have "cur_offset (op_memory s) < end" using Const(3) by (simp add: word_less_nat_alt)
  ultimately show ?case using Const(1)
    by (intro exI [of _ "(decoded 0x0e (1 + 8) [c] s)\<lparr>stack := c # stack s\<rparr>"]) (simp add: computes_def)
next
  case (Register r off)
  let ?b = "of_nat (0x70 + r) :: u8" and ?n = "length (sleb_bytes off)"
  from Register(1) obtain g where r: "r < 32" "r < Total (regs_info env)" "- (2 ^ 62) \<le> off" "off < 2 ^ 63"
    and g: "Get (regs_info env) r = Some g" "v = g + of_int off"
    by (auto split: if_splits)
  have a: "at_cursor raw (op_memory s) [?b]" "at_cursor raw (advance 1 (op_memory s)) (sleb_bytes off)"
    using at_cursor_append [of raw "op_memory s" "[?b]" "sleb_bytes off"] Register(2) by simp_all
  have b: "unat ?b = 0x70 + r" using r(1) by (simp only: unat_of_nat) simp
  from entry_breg [OF r(1)] obtain nm where
    e: "kCallbackTable ! unat ?b = op_entry nm OP_BREG 0 1 [DW_EH_PE_sleb128]" unfolding b by auto
  have "Decode env s = kOpHandleFuncList OP_BREG env (decoded ?b (1 + ?n) [of_int off] s)"
    using assms e Encoded_sleb [OF a(2) r(3,4)] by (intro Decode_operand [OF a(1), where k = 0]) simp_all
  moreover have "unat (ucast ?b - 0x70 :: u16) = r"
  proof -
    have "(ucast ?b :: u16) = of_nat (unat ?b)" by simp
    then have "ucast ?b - 0x70 = (of_nat r :: u16)" unfolding b by simp
    then show ?thesis using r(1) by (simp add: unat_of_nat)
  qed
  ultimately have "Decode env s = Done () ((decoded ?b (1 + ?n) [of_int off] s)\<lparr>stack := v # stack s\<rparr>)"
    using g r(2) by (simp add: op_breg_def Let_def push_register_def OperandAt_def push_front_def)
  moreover have "cur_offset (op_memory s) < end" using Register(3) by (simp add: word_less_nat_alt)
  ultimately show ?case
    by (intro exI [of _ "(decoded ?b (1 + ?n) [of_int off] s)\<lparr>stack := v # stack s\<rparr>"]) (simp add: computes_def)
next
  case (Deref e)
  then obtain a bs where a: "expr_value env e = Some a" "ReadFully (regular_memory env) a 8 = Some bs" "v = le_word bs"
    by (auto split: option.splits)
  have c: "at_cursor raw (op_memory s) (compile e)" "at_cursor raw (advance (length (compile e)) (op_memory s)) [0x06]"
    using at_cursor_append [of raw "op_memory s" "compile e" "[0x06]"] Deref(3) by simp_all
  obtain t where t: "computes env end (operations e) (length (compile e)) s a t"
    using Deref.IH [OF a(1) c(1)] Deref(4) by auto
  then have tm: "op_memory t = advance (length (compile e)) (op_memory s)" "stack t = a # stack s"
    by (simp_all add: computes_def)
  have "Decode env t = kOpHandleFuncList OP_DEREF env (decoded 0x06 1 [] t)"
    using assms c(2) tm entries(2) by (intro Decode_plain [where k = 1]) simp_all
  then have "Decode env t = Done () ((decoded 0x06 1 [] t)\<lparr>stack := v # stack s\<rparr>)"
    using a tm by (simp add: op_deref_def StackPop_def push_front_def)
  moreover have "cur_offset (op_memory t) < end"
    using Deref(4) below_end by (simp add: tm)
  ultimately have "computes env end (operations e + 1) (length (compile e) + 1) s v
      ((decoded 0x06 1 [] t)\<lparr>stack := v # stack s\<rparr>)"
    by (intro computes_step [OF t]) simp_all
  then show ?case by auto
next
  case (Not e)
  then obtain a where a: "expr_value env e = Some a" "v = NOT a" by auto
  have c: "at_cursor raw (op_memory s) (compile e)" "at_cursor raw (advance (length (compile e)) (op_memory s)) [0x20]"
    using at_cursor_append [of raw "op_memory s" "compile e" "[0x20]"] Not(3) by simp_all
  obtain t where t: "computes env end (operations e) (length (compile e)) s a t"
    using Not.IH [OF a(1) c(1)] Not(4) by auto
  then have tm: "op_memory t = advance (length (compile e)) (op_memory s)" "stack t = a # stack s"
    by (simp_all add: computes_def)
  have "Decode env t = kOpHandleFuncList OP_NOT env (decoded 0x20 1 [] t)"
    using assms c(2) tm entries(3) by (intro Decode_plain [where k = 1]) simp_all
  then have "Decode env t = Done () ((decoded 0x20 1 [] t)\<lparr>stack := v # stack s\<rparr>)"
    using a tm by (simp add: op_not_def update_top_def StackAt_def set_stack_def)
  moreover have "cur_offset (op_memory t) < end" using Not(4) below_end by (simp add: tm)
  ultimately have "computes env end (operations e + 1) (length (compile e) + 1) s v
      ((decoded 0x20 1 [] t)\<lparr>stack := v # stack s\<rparr>)"
    by (intro computes_step [OF t]) simp_all
  then show ?case by auto
next
  case (Add_const e c)
  let ?n = "length (uleb_bytes (unat c))"
  from Add_const obtain a where a: "expr_value env e = Some a" "v = a + c" by auto
  have d: "at_cursor raw (op_memory s) (compile e)"
    "at_cursor raw (advance (length (compile e)) (op_memory s)) ([0x23] @ uleb_bytes (unat c))"
    using at_cursor_append [of raw "op_memory s" "compile e" "0x23 # uleb_bytes (unat c)"] Add_const(3) by simp_all
  obtain t where t: "computes env end (operations e) (length (compile e)) s a t"
    using Add_const.IH [OF a(1) d(1)] Add_const(4) by auto
  then have tm: "op_memory t = advance (length (compile e)) (op_memory s)" "stack t = a # stack s"
    by (simp_all add: computes_def)
  have b: "at_cursor raw (op_memory t) [0x23]" "at_cursor raw (advance 1 (op_memory t)) (uleb_bytes (unat c))"
    using at_cursor_append [OF d(2)] by (simp_all add: tm)
  have "Decode env t = kOpHandleFuncList OP_PLUS_UCONST env (decoded 0x23 (1 + ?n) [c] t)"
    using assms tm(2) entries(4) Encoded_uleb [OF b(2)] by (intro Decode_operand [OF b(1), where k = 1]) simp_all
  then have "Decode env t = Done () ((decoded 0x23 (1 + ?n) [c] t)\<lparr>stack := v # stack s\<rparr>)"
    using a tm by (simp add: op_plus_uconst_def OperandAt_def update_top_def StackAt_def set_stack_def)
  moreover have "cur_offset (op_memory t) < end" using Add_const(4) below_end by (simp add: tm)
  ultimately have "computes env end (operations e + 1) (length (compile e) + (1 + ?n)) s v
      ((decoded 0x23 (1 + ?n) [c] t)\<lparr>stack := v # stack s\<rparr>)"
    by (intro computes_step [OF t]) simp_all
  then show ?case by auto
next
  case (Bin b e1 e2)
  let ?l1 = "length (compile e1)" and ?l2 = "length (compile e2)"
  from Bin obtain x y where v: "expr_value env e1 = Some x" "expr_value env e2 = Some y" "v = binop_value b x y"
    by (auto split: option.splits)
  have d: "at_cursor raw (op_memory s) (compile e1)"
    "at_cursor raw (advance ?l1 (op_memory s)) (compile e2 @ [opcode b])"
    using at_cursor_append [of raw "op_memory s" "compile e1" "compile e2 @ [opcode b]"] Bin(4) by simp_all
  obtain t where t: "computes env end (operations e1) ?l1 s x t"
    using Bin.IH(1) [OF v(1) d(1)] Bin(5) by auto
  then have tm: "op_memory t = advance ?l1 (op_memory s)" by (simp add: computes_def)
  have e2: "at_cursor raw (op_memory t) (compile e2)" "at_cursor raw (advance ?l2 (op_memory t)) [opcode b]"
    using at_cursor_append [OF d(2)] by (simp_all add: tm)
  have "unat (cur_offset (op_memory s)) + ?l1 < 2 ^ 64" using Bin(5) unat64_less [of "end"] by simp
  then have "unat (cur_offset (op_memory t)) + ?l2 \<le> unat end"
    using Bin(5) by (simp add: tm cur_offset_advance)
  then obtain u where u: "computes env end (operations e2) ?l2 t y u"
    using Bin.IH(2) [OF v(2) e2(1)] by auto
  have um: "op_memory u = advance (?l1 + ?l2) (op_memory s)" "stack u = y # x # stack s" "is_register u = is_register s"
    and run: "bounded_run (operations e1 + operations e2 + k) end env s = bounded_run k end env u" for k
    using computes_trans [OF t u] by auto
  obtain nm f where f: "kCallbackTable ! unat (opcode b) = op_entry nm f 2 0 []" "f \<noteq> OP_ILLEGAL"
    "kOpHandleFuncList f = binary (\<lambda>v top. Some (binop_value b v top))"
    using entry_opcode by blast
  let ?w = "(decoded (opcode b) 1 [] u)\<lparr>stack := v # stack s\<rparr>"
  have "Decode env u = kOpHandleFuncList f env (decoded (opcode b) 1 [] u)"
    using assms e2(2) tm um f by (intro Decode_plain [where k = 2]) simp_all
  then have w: "Decode env u = Done () ?w"
    using v(3) um(2) f(3) by (simp add: binary_def StackPop_def update_top_def StackAt_def set_stack_def)
  have "cur_offset (op_memory u) < end" using Bin(5) below_end by (simp add: um)
  then have "bounded_run (operations (Bin b e1 e2) + k) end env s = bounded_run k end env ?w" for k
    using run [of "Suc k"] bounded_run_step [OF w, of "end" k] by simp
  then show ?case using um by (intro exI [of _ ?w]) (simp add: computes_def)
qed


lemma le_bytes_numeral:
  "le_bytes (numeral k) v = of_nat v # le_bytes (pred_numeral k) (v div 256)"
  by (subst numeral_eq_Suc) (rule le_bytes.simps)


end
