(* ===== verification/DwarfCfaProps.thy ===== *)
theory DwarfCfaProps
  imports DwarfCfa DwarfExpr
begin

text \<open>
  Call frame programs as lists of instructions, their encoding, and a reference interpreter on the
  list; \<open>GetLocationInfo\<close> on the encoded bytes is the reference interpreter. Without the bounds of
  an encoder it need not return.
\<close>

section \<open>Instructions and their encoding\<close>

datatype cfa_operand = Val u64 | Block "u8 list"

datatype cfi =
    Advance nat
  | Offset nat u64
  | Restore nat
  | Insn nat "cfa_operand list"

fun operand_value :: "cfa_operand \<Rightarrow> u64" where
  "operand_value (Val v) = v"
| "operand_value (Block bs) = of_nat (length bs)"

fun encode_operand :: "u8 \<Rightarrow> cfa_operand \<Rightarrow> u8 list" where
  "encode_operand e (Val v) =
     (if e = DW_EH_PE_uleb128 then uleb_bytes (unat v)
      else if e = DW_EH_PE_sleb128 then sleb_bytes (sint v)
      else le_bytes (GetEncodedSize 8 e) (unat v))"
| "encode_operand e (Block bs) = uleb_bytes (length bs) @ bs"

fun operand_ok :: "u8 \<Rightarrow> cfa_operand \<Rightarrow> bool" where
  "operand_ok e (Val v) \<longleftrightarrow> e = DW_EH_PE_uleb128 \<or> e = DW_EH_PE_sleb128 \<and> - (2 ^ 62) \<le> sint v \<or>
     e \<in> {DW_EH_PE_absptr, DW_EH_PE_udata1, DW_EH_PE_udata2, DW_EH_PE_udata4} \<and>
     unat v < 256 ^ GetEncodedSize 8 e"
| "operand_ok e (Block bs) \<longleftrightarrow> e = DW_EH_PE_block"

definition insn_encodings :: "nat \<Rightarrow> u8 list" where
  "insn_encodings n = take (cfa_num_operands (kTable ! n)) (cfa_operand_encodings (kTable ! n))"

fun cfi_ok :: "cfi \<Rightarrow> bool" where
  "cfi_ok (Advance n) \<longleftrightarrow> n < 64"
| "cfi_ok (Offset r v) \<longleftrightarrow> r < 64"
| "cfi_ok (Restore r) \<longleftrightarrow> r < 64"
| "cfi_ok (Insn n ops) \<longleftrightarrow> n < 64 \<and> (cfa_callbacks ! n :: 64 cfa_handler option) \<noteq> None \<and>
     list_all2 operand_ok (insn_encodings n) ops"

fun encode :: "cfi \<Rightarrow> u8 list" where
  "encode (Advance n) = [of_nat (0x40 + n)]"
| "encode (Offset r v) = of_nat (0x80 + r) # uleb_bytes (unat v)"
| "encode (Restore r) = [of_nat (0xc0 + r)]"
| "encode (Insn n ops) = of_nat n # concat (map2 encode_operand (insn_encodings n) ops)"

section \<open>The reference interpreter\<close>

text \<open>What an instruction does to the row; the cursor is already behind it.\<close>

fun execute :: "cfi \<Rightarrow> 64 cfa_handler" where
  "execute (Advance n) env s =
     Done () (s\<lparr>cur_pc := cur_pc s + of_nat n * cie_code_alignment_factor (fde_cie (cfa_fde env))\<rparr>)"
| "execute (Offset r v) env s =
     with_scaled env v (\<lambda>off. set_loc_reg (of_nat r) (location DWARF_LOCATION_OFFSET off 0)) s"
| "execute (Restore r) env s = restore_reg (of_nat r) env s"
| "execute (Insn n ops) env s = the (cfa_callbacks ! n) env (s\<lparr>cfa_operands := map operand_value ops\<rparr>)"

definition begin_insn :: "cfi \<Rightarrow> 64 DwarfCfa \<Rightarrow> 64 DwarfCfa" where
  "begin_insn i s = s\<lparr>loc_regs := (loc_regs s)\<lparr>pc_start := cur_pc s\<rparr>, cfa_operands := [],
     cfa_memory := advance (length (encode i)) (cfa_memory s)\<rparr>"

definition end_row :: "u64 \<Rightarrow> 64 DwarfCfa \<Rightarrow> 64 cfa_result" where
  "end_row a s = Done () (s\<lparr>loc_regs := (loc_regs s)\<lparr>pc_end := a\<rparr>\<rparr>)"

text \<open>Instructions are executed while the program counter of the row is not beyond \<open>pc\<close>.\<close>

fun run_cfi :: "u64 \<Rightarrow> CfaEnv \<Rightarrow> cfi list \<Rightarrow> 64 DwarfCfa \<Rightarrow> 64 cfa_result" where
  "run_cfi pc env [] s = end_row (if cur_pc s > pc then cur_pc s else fde_pc_end (cfa_fde env)) s"
| "run_cfi pc env (i # is) s =
     (if cur_pc s > pc then end_row (cur_pc s) s
      else bind_outcome (execute i env (begin_insn i s)) (\<lambda>_. run_cfi pc env is))"

definition cfa_start :: "u64 \<Rightarrow> CfaEnv \<Rightarrow> 64 DwarfCfa \<Rightarrow> 64 DwarfCfa" where
  "cfa_start start_offset env s = s\<lparr>
     cfa_error := \<lparr>code = DWARF_ERROR_NONE, address = 0\<rparr>,
     cfa_memory := (cfa_memory s)\<lparr>cur_offset := start_offset\<rparr>,
     cur_pc := fde_pc_start (cfa_fde env),
     loc_regs := (loc_regs s)\<lparr>
       locs := (case cie_loc_regs env of None \<Rightarrow> locs (loc_regs s) | Some cie \<Rightarrow> locs (loc_regs s) ++ locs cie),
       pc_start := fde_pc_start (cfa_fde env)\<rparr>\<rparr>"

section \<open>Handlers keep the cursor\<close>

lemmas cfa_steps = operand_def set_loc_reg_def erase_loc_reg_def restore_reg_def with_scaled_def
  update_cfa_def cfa_fail_def

lemmas cfa_defs = cfa_nop_def cfa_set_loc_def cfa_advance_loc_def cfa_offset_def cfa_restore_def
  cfa_undefined_def cfa_same_value_def cfa_register_def cfa_remember_state_def cfa_restore_state_def
  cfa_def_cfa_def cfa_def_cfa_register_def cfa_def_cfa_offset_def cfa_def_cfa_expression_def
  cfa_expression_def cfa_offset_extended_sf_def cfa_def_cfa_sf_def cfa_def_cfa_offset_sf_def
  cfa_val_offset_def cfa_val_offset_sf_def cfa_val_expression_def cfa_gnu_negative_offset_extended_def
  cfa_aarch64_negate_ra_state_def

definition keeps_cursor :: "'a::len cfa_handler \<Rightarrow> bool" where
  "keeps_cursor h \<longleftrightarrow> (\<forall>env s t. h env s = Done () t \<longrightarrow> cfa_memory t = cfa_memory s)"

lemma handlers_keep_cursor:
  "list_all (\<lambda>c. \<forall>h. c = Some h \<longrightarrow> keeps_cursor (h :: 'a::len cfa_handler)) cfa_callbacks"
  by (simp add: cfa_callbacks_def list_all_replicate)
    (auto simp: keeps_cursor_def cfa_defs cfa_steps split: option.splits list.splits if_splits)

lemma callback_keeps_cursor:
  assumes "cfa_callbacks ! n = Some h" "n < 64" "h env s = Done () t"
  shows "cfa_memory t = cfa_memory s"
proof -
  have "length (cfa_callbacks :: 'a cfa_handler option list) = 64" by (simp add: cfa_callbacks_def)
  then have "keeps_cursor h"
    using handlers_keep_cursor [where 'a = 'a] assms(1,2) by (auto simp: list_all_length)
  then show ?thesis using assms(3) by (simp add: keeps_cursor_def)
qed

lemma execute_keeps_cursor:
  assumes "execute i env s = Done () t" "cfi_ok i"
  shows "cfa_memory t = cfa_memory s"
proof (cases i)
  case (Insn n ops)
  then obtain h :: "64 cfa_handler" where "cfa_callbacks ! n = Some h" "n < 64" using assms(2) by auto
  then show ?thesis using callback_keeps_cursor [of n h env "s\<lparr>cfa_operands := map operand_value ops\<rparr>" t] assms(1)
    by (simp add: Insn)
qed (use assms(1) in \<open>auto simp: cfa_steps split: option.splits if_splits\<close>)

section \<open>Decoding what was encoded\<close>

lemma Encoded_fixed:
  assumes "at_cursor raw dm (le_bytes (GetEncodedSize 8 e) (unat v))" "unat v < 256 ^ GetEncodedSize 8 e"
    and "e \<in> {DW_EH_PE_absptr, DW_EH_PE_udata1, DW_EH_PE_udata2, DW_EH_PE_udata4}"
  shows "ReadEncodedValue (MemoryBuffer_Read raw) 8 e dm = Done v (advance (GetEncodedSize 8 e) dm)"
proof -
  let ?n = "GetEncodedSize 8 e"
  have "unat v mod 256 ^ ?n = unat v" using assms(2) by simp
  then have v: "le_word (le_bytes ?n (unat v)) = v" by (simp add: le_word_def le_nat_le_bytes)
  have r: "ReadBytes (MemoryBuffer_Read raw) ?n dm = Done (le_bytes ?n (unat v)) (advance ?n dm)"
    by (rule ReadBytes_cursor [OF assms(1)]) simp
  from assms(3) consider "e = DW_EH_PE_absptr" | "e = DW_EH_PE_udata1" | "e = DW_EH_PE_udata2" | "e = DW_EH_PE_udata4"
    by blast
  then show ?thesis
    using r v by cases (simp_all add: ReadEncodedValue_def read_format_def read_unsigned_def AdjustEncodedValue_def
        GetEncodedSize_def pe_defs)
qed

lemma ULEB_cursor:
  assumes "at_cursor raw dm (uleb_bytes (unat v))"
  shows "ReadULEB128 (MemoryBuffer_Read raw) dm = Done v (advance (length (uleb_bytes (unat v))) dm)"
  using assms buffer_ULEB128 [of dm raw v] by (auto simp: at_cursor_def advance_def)

text \<open>Blocks of a buffer are shorter than the address space.\<close>

lemma at_cursor_short: "at_cursor raw dm bs \<Longrightarrow> length bs < 2 ^ 64"
  by (cases "bs = []") (auto simp: at_cursor_def dest: arg_cong [where f = length])

lemma operand_not_block: "operand_ok e (Val v) \<Longrightarrow> e \<noteq> DW_EH_PE_block"
  by (auto simp: pe_defs)

lemma read_cfa_operands_encoded:
  assumes "list_all2 operand_ok es ops" "cfa_reader env = MemoryBuffer_Read raw"
    and "at_cursor raw (cfa_memory s) (concat (map2 encode_operand es ops))"
  shows "read_cfa_operands es env (s :: 64 DwarfCfa) = Done () (s\<lparr>cfa_operands := cfa_operands s @ map operand_value ops,
     cfa_memory := advance (length (concat (map2 encode_operand es ops))) (cfa_memory s)\<rparr>)"
  using assms
proof (induction es ops arbitrary: s rule: list_all2_induct)
  case Nil
  then show ?case by (simp add: advance_def)
next
  case (Cons e es p ops)
  let ?b = "encode_operand e p" and ?r = "concat (map2 encode_operand es ops)"
  have a: "at_cursor raw (cfa_memory s) ?b" "at_cursor raw (advance (length ?b) (cfa_memory s)) ?r"
    using at_cursor_append [of raw "cfa_memory s" ?b ?r] Cons(5) by simp_all
  let ?s = "s\<lparr>cfa_operands := cfa_operands s @ [operand_value p], cfa_memory := advance (length ?b) (cfa_memory s)\<rparr>"
  have "read_cfa_operands (e # es) env s = read_cfa_operands es env ?s"
  proof (cases p)
    case (Val v)
    then have nb: "e \<noteq> DW_EH_PE_block" using Cons(1) operand_not_block by blast
    from Cons(1) Val consider "e = DW_EH_PE_uleb128" | "e = DW_EH_PE_sleb128" "- (2 ^ 62) \<le> sint v"
      | "e \<in> {DW_EH_PE_absptr, DW_EH_PE_udata1, DW_EH_PE_udata2, DW_EH_PE_udata4}" "unat v < 256 ^ GetEncodedSize 8 e"
      by auto
    then have "ReadEncodedValue (MemoryBuffer_Read raw) 8 e (cfa_memory s) = Done v (advance (length ?b) (cfa_memory s))"
    proof cases
      case 1
      then show ?thesis using a(1) Encoded_uleb by (simp add: Val)
    next
      case 2
      have "sint v < 2 ^ 63" using sint_lt [of v] by simp
      then show ?thesis using 2 a(1) Encoded_sleb [of raw "cfa_memory s" "sint v"] by (simp add: Val pe_defs)
    next
      case 3
      then have "e \<noteq> DW_EH_PE_uleb128" "e \<noteq> DW_EH_PE_sleb128" by (auto simp: pe_defs)
      then show ?thesis using 3 a(1) Encoded_fixed by (simp add: Val)
    qed
    then show ?thesis using nb Cons(4) by (simp add: Val)
  next
    case (Block bs)
    have "at_cursor raw (cfa_memory s) (uleb_bytes (length bs))" "length bs < 2 ^ 64"
      using at_cursor_append [of raw "cfa_memory s" "uleb_bytes (length bs)" bs] a(1) at_cursor_short
      by (auto simp: Block)
    moreover from this have "unat (of_nat (length bs) :: u64) = length bs" by (simp add: unat_of_nat)
    ultimately have "ReadULEB128 (MemoryBuffer_Read raw) (cfa_memory s) =
        Done (of_nat (length bs)) (advance (length (uleb_bytes (length bs))) (cfa_memory s))"
      using ULEB_cursor [of raw "cfa_memory s" "of_nat (length bs)"] by simp
    then show ?thesis using Cons(1,4) by (simp add: Block advance_def ac_simps)
  qed
  also have "\<dots> = Done () (?s\<lparr>cfa_operands := cfa_operands ?s @ map operand_value ops,
      cfa_memory := advance (length ?r) (cfa_memory ?s)\<rparr>)"
    using Cons a(2) by (intro Cons.IH) simp_all
  finally show ?case by simp
qed

lemma opcode_bits:
  fixes b :: u8
  shows "unat (drop_bit 6 b) = unat b div 64" "unat (b AND 0x3f) = unat b mod 64"
proof -
  show "unat (drop_bit 6 b) = unat b div 64" 
    using unat_drop_bit_eq [of 6 b] by (simp add: drop_bit_eq_div unat_div)
  have "b AND 0x3f = take_bit 6 b" by (simp add: take_bit_eq_mask mask_eq_exp_minus_1)
  then show "unat (b AND 0x3f) = unat b mod 64" by (simp add: unsigned_take_bit_eq take_bit_eq_mod unat_mod)
qed

lemma opcode_kind:
  fixes b :: u8
  assumes "unat b = 64 * k + n" "n < 64"
  shows "drop_bit 6 b = of_nat k" "unat (b AND 0x3f) = n" "ucast (b AND 0x3f) = (of_nat n :: 'a::len word)"
proof -
  have "(of_nat (unat (drop_bit 6 b)) :: u8) = of_nat k" using assms by (simp only: opcode_bits) simp
  then show "drop_bit 6 b = of_nat k" by simp
  show n: "unat (b AND 0x3f) = n" using assms by (simp add: opcode_bits)
  have "ucast (b AND 0x3f) = (of_nat (unat (b AND 0x3f)) :: 'a word)" by simp
  then show "ucast (b AND 0x3f) = (of_nat n :: 'a word)" unfolding n .
qed

lemma unat_opcode: "m < 256 \<Longrightarrow> unat (of_nat m :: u8) = m"
  by (simp add: unat_of_nat)

lemma cfa_instruction_encoded:
  assumes "cfi_ok i" "cfa_reader env = MemoryBuffer_Read raw" "at_cursor raw (cfa_memory s) (encode i)"
  shows "cfa_instruction env s = execute i env (begin_insn i s)"
proof -
  have one: "ReadBytes (MemoryBuffer_Read raw) 1 (cfa_memory s) = Done [b] (advance 1 (cfa_memory s))"
    "at_cursor raw (advance 1 (cfa_memory s)) bs" if "encode i = b # bs" for b bs
    using at_cursor_append [of raw "cfa_memory s" "[b]" bs] assms(3) that ReadBytes_cursor [of raw "cfa_memory s" "[b]" 1]
    by simp_all
  show ?thesis
  proof (cases i)
    case (Advance n)
    then have n: "n < 64" using assms(1) by simp
    have b: "unat (of_nat (0x40 + n) :: u8) = 64 * 1 + n" using n by (subst unat_opcode) simp_all
    show ?thesis using one(1) [of "of_nat (0x40 + n)" "[]"] assms(2) opcode_kind(1,2) [OF b n]
        opcode_kind(3) [OF b n, where 'a = 64]
      by (simp add: cfa_instruction_def begin_insn_def Advance)
  next
    case (Offset r v)
    then have n: "r < 64" using assms(1) by simp
    have b: "unat (of_nat (0x80 + r) :: u8) = 64 * 2 + r" using n by (subst unat_opcode) simp_all
    have "ReadULEB128 (MemoryBuffer_Read raw) (advance 1 (cfa_memory s)) =
        Done v (advance (length (encode i)) (cfa_memory s))"
      using one(2) [of _ "uleb_bytes (unat v)"] ULEB_cursor [of raw "advance 1 (cfa_memory s)" v] by (simp add: Offset)
    then show ?thesis using one(1) [of "of_nat (0x80 + r)" "uleb_bytes (unat v)"] assms(2) opcode_kind(1,2) [OF b n]
        opcode_kind(3) [OF b n, where 'a = 32]
      by (simp add: cfa_instruction_def begin_insn_def Offset)
  next
    case (Restore r)
    then have n: "r < 64" using assms(1) by simp
    have b: "unat (of_nat (0xc0 + r) :: u8) = 64 * 3 + r" using n by (subst unat_opcode) simp_all
    show ?thesis using one(1) [of "of_nat (0xc0 + r)" "[]"] assms(2) opcode_kind(1,2) [OF b n]
        opcode_kind(3) [OF b n, where 'a = 32]
      by (simp add: cfa_instruction_def begin_insn_def Restore)
  next
    case (Insn n ops)
    then obtain h :: "64 cfa_handler" where n: "n < 64" and h: "cfa_callbacks ! n = Some h"
      and ok: "list_all2 operand_ok (insn_encodings n) ops" using assms(1) by auto
    let ?r = "concat (map2 encode_operand (insn_encodings n) ops)"
    have b: "unat (of_nat n :: u8) = 64 * 0 + n" using n by (subst unat_opcode) simp_all
    let ?s = "s\<lparr>loc_regs := (loc_regs s)\<lparr>pc_start := ucast (cur_pc s)\<rparr>, cfa_operands := [],
        cfa_memory := advance 1 (cfa_memory s)\<rparr>"
    have "read_cfa_operands (insn_encodings n) env ?s = Done () ((begin_insn i s)\<lparr>cfa_operands := map operand_value ops\<rparr>)"
      using read_cfa_operands_encoded [OF ok assms(2), of ?s] one(2) [of _ ?r] by (simp add: Insn begin_insn_def)
    then show ?thesis using one(1) [of "of_nat n" ?r] assms(2) opcode_kind(1,2) [OF b n] h
      by (simp add: cfa_instruction_def Let_def Insn insn_encodings_def)
  qed
qed

section \<open>The loop\<close>

lemma location_loop_encoded:
  assumes "cfa_reader env = MemoryBuffer_Read raw"
  shows "\<forall>i \<in> set is. cfi_ok i \<Longrightarrow> at_cursor raw (cfa_memory s) (concat (map encode is)) \<Longrightarrow>
     unat (cur_offset (cfa_memory s)) + length (concat (map encode is)) = unat end_offset \<Longrightarrow>
     location_loop pc end_offset env s = Some (run_cfi pc env is s)"
proof (induction "is" arbitrary: s)
  case Nil
  then have "end_offset \<le> cur_offset (cfa_memory s)" by (simp add: word_le_nat_alt)
  then show ?case by (simp add: location_loop.simps [of pc] end_row_def)
next
  case (Cons i "is")
  let ?l = "length (encode i)" and ?s = "begin_insn i s"
  have a: "at_cursor raw (cfa_memory s) (encode i)" "at_cursor raw (advance ?l (cfa_memory s)) (concat (map encode is))"
    using at_cursor_append [of raw "cfa_memory s" "encode i" "concat (map encode is)"] Cons.prems(2) by simp_all
  have "0 < length (encode i)" by (cases i) auto
  then have below: "cur_offset (cfa_memory s) < end_offset"
    using Cons.prems(3) by (simp add: word_less_nat_alt del: length_greater_0_conv)
  have l: "unat (cur_offset (cfa_memory s)) + ?l < 2 ^ 64"
    using Cons.prems(3) unat64_less [of end_offset] by simp
  have x: "cfa_instruction env s = execute i env ?s"
    using Cons.prems(1) assms a(1) by (intro cfa_instruction_encoded) simp_all
  have rest: "location_loop pc end_offset env t = Some (run_cfi pc env is t)" if "execute i env ?s = Done () t" for t
  proof -
    have m: "cfa_memory t = advance ?l (cfa_memory s)"
      using execute_keeps_cursor [OF that] Cons.prems(1) by (simp add: begin_insn_def)
    show ?thesis
      using Cons.prems(1,3) a(2) cur_offset_advance [OF l] by (intro Cons.IH) (simp_all add: m)
  qed
  show ?case
    using below rest by (subst location_loop.simps) (auto simp: x end_row_def not_le split: outcome.split)
qed

text \<open>
  Property C37. On the encoding of any list of call frame instructions \<open>GetLocationInfo\<close> returns,
  and its result is that of executing the instructions in turn while the row starts at or before
  the program counter: every opcode is recognised, every operand read as it was written, every
  handler called with its operands and the cursor behind them, and the row's range and the failures
  are the same.
\<close>

theorem GetLocationInfo_runs_encoded:
  assumes "\<forall>i \<in> set is. cfi_ok i" "cfa_reader env = MemoryBuffer_Read raw" "length raw < 2 ^ 64"
    and "drop (unat start_offset) raw = concat (map encode is) @ rest"
    and "unat end_offset = unat start_offset + length (concat (map encode is))"
  shows "GetLocationInfo pc start_offset end_offset env s = Some (run_cfi pc env is (cfa_start start_offset env s))"
proof -
  have "at_cursor raw (cfa_memory (cfa_start start_offset env s)) (concat (map encode is))"
    using assms(3,4) by (simp add: at_cursor_def cfa_start_def)
  then show ?thesis
    using location_loop_encoded [OF assms(2,1), of "cfa_start start_offset env s" end_offset pc] assms(5)
    by (simp add: GetLocationInfo_def Let_def cfa_start_def)
qed

text \<open>A frame description of a 64-bit ARM function, with the usual alignment factors.\<close>

definition sample_fde :: DwarfFde where
  "sample_fde = \<lparr>fde_cie_offset = 0, fde_cfa_instructions_offset = 0, fde_cfa_instructions_end = 0,
     fde_pc_start = 0x1000, fde_pc_end = 0x1100, fde_lsda_address = 0,
     fde_cie = \<lparr>cie_version = 1, cie_fde_address_encoding = 0, cie_lsda_encoding = 0, cie_segment_size = 0,
       cie_augmentation_string = [], cie_personality_handler = 0, cie_cfa_instructions_offset = 0,
       cie_cfa_instructions_end = 0, cie_code_alignment_factor = 4, cie_data_alignment_factor = - 8,
       cie_return_address_register = 30, cie_is_signal_frame = False\<rparr>\<rparr>"

definition sample_cfa_env :: "u8 list \<Rightarrow> CfaEnv" where
  "sample_cfa_env raw = \<lparr>cfa_reader = MemoryBuffer_Read raw, cfa_fde = sample_fde, cfa_arch = ARCH_ARM64,
     cie_loc_regs = None\<rparr>"

definition sample_cfa :: "64 DwarfCfa" where
  "sample_cfa = \<lparr>cfa_error = \<lparr>code = DWARF_ERROR_NONE, address = 0\<rparr>, cfa_memory = DwarfMemory_init,
     cur_pc = 0, cfa_operands = [], loc_reg_state = [],
     loc_regs = \<lparr>locs = Map.empty, locs_cie = None, pc_start = 0, pc_end = 0\<rparr>\<rparr>"

text \<open>\<open>def_cfa r31, 16; offset r29, 2; advance_loc 4\<close>.\<close>

lemma GetLocationInfo_runs_encoded_witness:
  "\<exists>t. GetLocationInfo 0x1004 0 6 (sample_cfa_env [0x0c, 31, 16, 0x9d, 2, 0x44]) sample_cfa = Some (Done () t) \<and>
     locs (loc_regs t) CFA_REG = Some (location DWARF_LOCATION_REGISTER 31 16) \<and>
     locs (loc_regs t) 29 = Some (location DWARF_LOCATION_OFFSET (- 16) 0) \<and>
     pc_start (loc_regs t) = 0x1000 \<and> pc_end (loc_regs t) = 0x1010"
proof -
  let ?is = "[Insn 0x0c [Val 31, Val 16], Offset 29 2, Advance 4]"
  let ?env = "sample_cfa_env [0x0c, 31, 16, 0x9d, 2, 0x44]"
  have t: "insn_encodings 0x0c = [DW_EH_PE_uleb128, DW_EH_PE_uleb128]"
    "(cfa_callbacks ! 0x0c :: 64 cfa_handler option) = Some cfa_def_cfa"
    by (simp_all add: insn_encodings_def kTable_def cfa_ops_00_def cfa_entry_def cfa_callbacks_def)
  have e: "concat (map encode ?is) = [0x0c, 31, 16, 0x9d, 2, 0x44]"
    by (simp add: t uleb_bytes.simps)
  have ok: "\<forall>i \<in> set ?is. cfi_ok i" by (simp add: t)
  show ?thesis
    using GetLocationInfo_runs_encoded [OF ok, of ?env "[0x0c, 31, 16, 0x9d, 2, 0x44]" 0 "[]" 6 "0x1004" sample_cfa]
    unfolding e
    by (simp add: sample_cfa_env_def sample_cfa_def sample_fde_def DwarfMemory_init_def cfa_start_def t
        begin_insn_def cfa_def_cfa_def cfa_steps scaled_def end_row_def location_def CFA_REG_def)
qed

section \<open>A program that does not end\<close>

text \<open>A block that reaches back to its own instruction: \<open>DW_CFA_def_cfa_expression\<close> of length \<open>-11\<close>.\<close>

definition backward_block :: "u8 list" where
  "backward_block = 0x0f # uleb_bytes (unat (- 11 :: u64))"

lemma backward_block_length: "length (uleb_bytes (unat (- 11 :: u64))) = 10"
  by (simp add: uleb_bytes.simps)

definition stays :: "u8 list \<Rightarrow> u64 \<Rightarrow> u64 \<Rightarrow> u64 \<Rightarrow> 64 DwarfCfa \<Rightarrow> bool" where
  "stays raw start_offset end_offset pc s \<longleftrightarrow> cur_pc s \<le> pc \<and> cur_offset (cfa_memory s) = start_offset \<and>
     start_offset < end_offset \<and> at_cursor raw (cfa_memory s) backward_block"

lemma backward_block_stays:
  assumes "stays raw start_offset end_offset pc s" "cfa_reader env = MemoryBuffer_Read raw"
  shows "\<exists>t. cfa_instruction env s = Done () t \<and> stays raw start_offset end_offset pc t"
proof -
  let ?u = "uleb_bytes (unat (- 11 :: u64))" and ?m = "advance 1 (cfa_memory s)"
  have c: "at_cursor raw (cfa_memory s) ([0x0f] @ ?u)"
    using assms(1) by (simp add: stays_def backward_block_def)
  have r: "ReadBytes (MemoryBuffer_Read raw) 1 (cfa_memory s) = Done [0x0f] ?m" "at_cursor raw ?m ?u"
    using at_cursor_append [OF c] ReadBytes_cursor [of raw "cfa_memory s" "[0x0f]" 1] by simp_all
  have u: "ReadULEB128 (MemoryBuffer_Read raw) ?m = Done (- 11) (advance 10 ?m)"
    using ULEB_cursor [OF r(2)] by (simp only: backward_block_length)
  have t: "insn_encodings 0x0f = [DW_EH_PE_block]" "(cfa_callbacks ! 0x0f :: 64 cfa_handler option) = Some cfa_def_cfa_expression"
    by (simp_all add: insn_encodings_def kTable_def cfa_ops_00_def cfa_entry_def cfa_callbacks_def)
  have b: "unat (0x0f :: u8) = 64 * 0 + 0x0f" by simp
  show ?thesis
    using assms(1) [unfolded stays_def at_cursor_def] r(1) u t opcode_kind(1,2) [OF b] assms(2)
    by (auto simp: cfa_instruction_def Let_def insn_encodings_def cfa_def_cfa_expression_def cfa_steps stays_def
        advance_def at_cursor_def)
qed

lemma location_loop_stays:
  assumes "location_loop pc end_offset env s = Some r"
  shows "cfa_reader env = MemoryBuffer_Read raw \<longrightarrow> \<not> stays raw start_offset end_offset pc s"
proof (rule location_loop.raw_induct [where P =
    "\<lambda>pc end_offset env s r. cfa_reader env = MemoryBuffer_Read raw \<longrightarrow> \<not> stays raw start_offset end_offset pc s",
    OF _ assms], intro impI notI)
  fix loop and pc end_offset :: u64 and env and s :: "64 DwarfCfa" and r
  assume IH: "\<And>pc end_offset env s r. loop pc end_offset env s = Some r \<Longrightarrow>
      cfa_reader env = MemoryBuffer_Read raw \<longrightarrow> \<not> stays raw start_offset end_offset pc s"
    and eq: "(if pc < ucast (cur_pc s) then Some (Done () (s\<lparr>loc_regs := (loc_regs s)\<lparr>pc_end := ucast (cur_pc s)\<rparr>\<rparr>))
      else if end_offset \<le> cur_offset (cfa_memory s)
        then Some (Done () (s\<lparr>loc_regs := (loc_regs s)\<lparr>pc_end := fde_pc_end (cfa_fde env)\<rparr>\<rparr>))
      else (case cfa_instruction env s of
          Undef \<Rightarrow> Some Undef | Failed s' \<Rightarrow> Some (Failed s') | Done _ s' \<Rightarrow> loop pc end_offset env s')) = Some r"
    and rd: "cfa_reader env = MemoryBuffer_Read raw" and st: "stays raw start_offset end_offset pc s"
  obtain t where "cfa_instruction env s = Done () t" "stays raw start_offset end_offset pc t"
    using backward_block_stays [OF st rd] by blast
  then show False using IH [of pc end_offset env t r] eq rd st by (auto simp: stays_def split: if_splits)
qed

text \<open>
  \<open>GetLocationInfo\<close> need not return: the length of a block is added to the cursor
  modulo 2^64, so an expression block of length -11 leads back to the instruction it belongs to, and
  the loop goes round for ever as long as that lies before the end of the program and the row starts
  at or before the program counter.
\<close>

theorem GetLocationInfo_need_not_return:
  assumes "cfa_reader env = MemoryBuffer_Read raw" "length raw < 2 ^ 64"
    and "drop (unat start_offset) raw = 0x0f # uleb_bytes (unat (- 11 :: u64)) @ rest"
    and "fde_pc_start (cfa_fde env) \<le> pc" "start_offset < end_offset"
  shows "GetLocationInfo pc start_offset end_offset env (s :: 64 DwarfCfa) = None"
proof -
  let ?s = "cfa_start start_offset env s"
  have "stays raw start_offset end_offset pc ?s"
    using assms by (simp add: stays_def at_cursor_def backward_block_def cfa_start_def)
  then have "location_loop pc end_offset env ?s = None"
    using location_loop_stays [of pc end_offset env ?s] assms(1) by (cases "location_loop pc end_offset env ?s") auto
  then show ?thesis by (simp add: GetLocationInfo_def Let_def cfa_start_def)
qed

lemma GetLocationInfo_need_not_return_witness:
  "GetLocationInfo 0x1000 0 11
     (sample_cfa_env [0x0f, 0xf5, 0xff, 0xff, 0xff, 0xff, 0xff, 0xff, 0xff, 0xff, 0x01]) sample_cfa = None"
proof -
  have u: "uleb_bytes (unat (- 11 :: u64)) = [0xf5, 0xff, 0xff, 0xff, 0xff, 0xff, 0xff, 0xff, 0xff, 0x01]"
    by (simp add: uleb_bytes.simps)
  show ?thesis
    by (rule GetLocationInfo_need_not_return [where rest = "[]", unfolded u])
      (simp_all add: sample_cfa_env_def sample_fde_def)
qed

end
