(* ===== verification/RowEvalProps.thy ===== *)
theory RowEvalProps
  imports DwarfRowEval DwarfCfaProps
begin

text \<open>
  Evaluating a row of the unwind table: every register of the caller is computed from the registers of
  the callee as they were before, so that the order of the \<open>unordered_map\<close> does not matter.
\<close>

section \<open>What an expression depends on\<close>

text \<open>The offsets of the reader other than the cursor.\<close>

definition offsets :: "DwarfMemory \<Rightarrow> DwarfMemory" where
  "offsets dm = dm\<lparr>cur_offset := 0\<rparr>"

lemma offsets_cur_offset [simp]: "offsets (dm\<lparr>cur_offset := a\<rparr>) = offsets dm"
  by (simp add: offsets_def)

lemma offsets_seek: "offsets dm = offsets dm' \<Longrightarrow> dm\<lparr>cur_offset := a\<rparr> = dm'\<lparr>cur_offset := a\<rparr>"
  by (cases dm; cases dm') (simp add: offsets_def)

lemma ReadBytes_offsets: "ReadBytes rd n dm = Done bs dm' \<Longrightarrow> offsets dm' = offsets dm"
  by (auto simp: ReadBytes_def split: option.splits)

lemma leb_loop_offsets: "leb_loop rd shift acc dm = Done r dm' \<Longrightarrow> offsets dm' = offsets dm"
proof (induction rd shift acc dm rule: leb_loop.induct)
  case (1 rd shift acc dm)
  show ?case
  proof (cases "ReadBytes rd 1 dm")
    case (Done bs dm1)
    then have "offsets dm1 = offsets dm" by (rule ReadBytes_offsets)
    then show ?thesis
      using 1(2) 1(1) [OF Done refl _ refl] Done by (auto simp: leb_loop.simps [of rd shift] Let_def split: if_splits)
  qed (use 1(2) in \<open>auto simp: leb_loop.simps [of rd shift]\<close>)
qed

lemma ReadEncodedValue_offsets:
  assumes "ReadEncodedValue rd asz e dm = Done v dm'"
  shows "offsets dm' = offsets dm"
proof -
  have u: "read_unsigned rd n dm1 = Done w dm2 \<Longrightarrow> offsets dm2 = offsets dm1" for n dm1 w dm2
    by (auto simp: read_unsigned_def dest: ReadBytes_offsets)
  have g: "ReadSigned rd n dm1 = Done w dm2 \<Longrightarrow> offsets dm2 = offsets dm1" for n dm1 w dm2
    by (auto simp: ReadSigned_def dest: ReadBytes_offsets)
  have l: "ReadULEB128 rd dm1 = Done w dm2 \<Longrightarrow> offsets dm2 = offsets dm1" for dm1 w dm2
    by (auto simp: ReadULEB128_def dest: leb_loop_offsets)
  have s: "ReadSLEB128 rd dm1 = Done w dm2 \<Longrightarrow> offsets dm2 = offsets dm1" for dm1 w dm2
    by (auto simp: ReadSLEB128_def split: if_splits dest: leb_loop_offsets)
  have f: "read_format rd asz e' dm1 = Done w dm2 \<Longrightarrow> offsets dm2 = offsets dm1" for e' dm1 w dm2
    by (auto simp: read_format_def split: if_splits dest: u g l s)
  have a: "AdjustEncodedValue e' w dm1 = Done w' dm2 \<Longrightarrow> dm2 = dm1" for e' w dm1 w' dm2
    by (auto simp: AdjustEncodedValue_def split: if_splits)
  show ?thesis using assms
    by (auto simp: ReadEncodedValue_def Let_def split: if_splits dest: u f a)
qed

lemma handler_offsets:
  "kOpHandleFuncList f env s = Done () t \<Longrightarrow> offsets (op_memory t) = offsets (op_memory s)"
  by (cases f) (auto simp: op_defs stack_ops Let_def split: option.splits list.splits if_splits)

lemma read_operands_offsets:
  "read_operands es env s = Done () t \<Longrightarrow> offsets (op_memory t) = offsets (op_memory s)"
proof (induction es arbitrary: s)
  case (Cons e es)
  then show ?case
    by (auto simp: fail_memory_def split: outcome.splits dest!: ReadEncodedValue_offsets Cons.IH)
qed simp

lemma Decode_offsets: "Decode env s = Done () t \<Longrightarrow> offsets (op_memory t) = offsets (op_memory s)"
  by (auto simp: Decode_def Let_def fail_code_def fail_memory_def split: outcome.splits if_splits
      dest!: ReadBytes_offsets read_operands_offsets handler_offsets)

lemma bounded_run_offsets:
  "bounded_run n e env s = Done () t \<Longrightarrow> offsets (op_memory t) = offsets (op_memory s)"
  by (induction n arbitrary: s) (auto simp: fail_code_def split: if_splits dest!: Decode_offsets)

lemma Eval_offsets:
  assumes "Eval start e env s = Done () t"
  shows "offsets (op_memory t) = offsets (op_memory s)"
proof -
  have "bounded_run 1000 e env (start_state start s) = Done () (t\<lparr>dex_pc_set := False\<rparr>)"
    using assms Eval_bounded_run [of start e env s] by simp
  from bounded_run_offsets [OF this] show ?thesis by (simp add: start_state_def)
qed

text \<open>The registers are only seen through \<open>Get\<close> and \<open>Total\<close>.\<close>

definition same_regs :: "'a::len RegsInfo \<Rightarrow> 'a RegsInfo \<Rightarrow> bool" where
  "same_regs ri ri' \<longleftrightarrow> Total ri = Total ri' \<and> (\<forall>r < Total ri. Get ri r = Get ri' r)"

lemma handler_same_regs:
  assumes "same_regs (regs_info env) ri"
  shows "kOpHandleFuncList f (env\<lparr>regs_info := ri\<rparr>) s = kOpHandleFuncList f env s"
proof -
  have g: "Total ri = Total (regs_info env)" "r < Total (regs_info env) \<Longrightarrow> Get ri r = Get (regs_info env) r" for r
    using assms by (simp_all add: same_regs_def)
  have b: "op_breg (env\<lparr>regs_info := ri\<rparr>) s = op_breg env s" using g by (simp add: op_breg_def push_register_def Let_def)
  have x: "op_bregx (env\<lparr>regs_info := ri\<rparr>) s = op_bregx env s"
    using g by (auto simp: op_bregx_def push_register_def OperandAt_def)
  show ?thesis 
    by (cases f) (simp_all only: kOpHandleFuncList.simps b x, simp_all add: op_defs binary_def cong: if_cong)
qed

lemma read_operands_same_regs: "read_operands es (env\<lparr>regs_info := ri\<rparr>) s = read_operands es env s"
  by (induction es arbitrary: s) (simp_all split: outcome.split)

lemma Decode_same_regs:
  "same_regs (regs_info env) ri \<Longrightarrow> Decode (env\<lparr>regs_info := ri\<rparr>) s = Decode env s"
  by (simp add: Decode_def Let_def read_operands_same_regs handler_same_regs [THEN ext]
      cong: if_cong outcome.case_cong)

lemma eval_loop_same_regs:
  "same_regs (regs_info env) ri \<Longrightarrow> eval_loop i e (env\<lparr>regs_info := ri\<rparr>) s = eval_loop i e env s"
proof (induction i e env s rule: eval_loop.induct)
  case (1 i e env s)
  then show ?case
    by (subst (1 2) eval_loop.simps) (simp add: Decode_same_regs split: outcome.split)
qed

lemma Eval_same_regs:
  "same_regs (regs_info env) ri \<Longrightarrow> Eval start e (env\<lparr>regs_info := ri\<rparr>) s = Eval start e env s"
  by (simp add: Eval_def Let_def Decode_same_regs eval_loop_same_regs
      Decode_same_regs [THEN ext] eval_loop_same_regs [THEN ext] cong: if_cong)

section \<open>Rows\<close>

definition agrees :: "'a::len EvalState \<Rightarrow> 'a EvalState \<Rightarrow> bool" where
  "agrees s1 s \<longleftrightarrow> same_regs (es_info s) (es_info s1) \<and> es_cfa s = es_cfa s1 \<and>
     offsets (ds_memory (es_section s)) = offsets (ds_memory (es_section s1))"

lemma DwarfOp_new_offsets:
  "offsets dm = offsets dm' \<Longrightarrow> Eval start e env (DwarfOp_new dm) = Eval start e env (DwarfOp_new dm')"
  using offsets_seek [of dm dm' start] by (simp add: Eval_def DwarfOp_new_def)

lemma EvalExpression_agrees:
  assumes "agrees s1 s" "EvalExpression rd mem loc s = Done vd t"
  shows "(\<exists>t1. EvalExpression rd mem loc s1 = Done vd t1) \<and>
     (\<exists>dm. t = s\<lparr>es_section := (es_section s)\<lparr>ds_memory := dm\<rparr>\<rparr> \<and> offsets dm = offsets (ds_memory (es_section s)))"
proof -
  let ?b = "value1 loc - value0 loc" and ?e = "value1 loc"
  let ?env = "\<lambda>ri. \<lparr>dwarf_memory = rd, regular_memory = mem, regs_info = ri\<rparr>"
  let ?op = "\<lambda>s. DwarfOp_new (ds_memory (es_section s)) :: 'a DwarfOp"
  have r: "same_regs (es_info s) (es_info s1)" and o: "offsets (ds_memory (es_section s)) = offsets (ds_memory (es_section s1))"
    using assms(1) by (simp_all add: agrees_def)
  have "Eval ?b ?e (?env (es_info s1)) (?op s1) = Eval ?b ?e (?env (es_info s1)) (?op s)"
    by (rule DwarfOp_new_offsets [OF o [symmetric]])
  also have "\<dots> = Eval ?b ?e (?env (es_info s)) (?op s)"
    using Eval_same_regs [of "?env (es_info s)" "es_info s1" ?b ?e "?op s"] r by simp
  finally have "Eval ?b ?e (?env (es_info s1)) (?op s1) = Eval ?b ?e (?env (es_info s)) (?op s)" .
  moreover obtain op where op: "Eval ?b ?e (?env (es_info s)) (?op s) = Done () op"
    using assms(2) by (auto simp: EvalExpression_def split: outcome.splits)
  ultimately show ?thesis
    using assms(2) Eval_offsets [OF op]
    by (auto simp: EvalExpression_def eval_fail_def Let_def DwarfOp_new_def split: if_splits)
qed

text \<open>
  The value a rule gives a register of the caller, computed from the state \<open>s1\<close> before any of them was
  overwritten; \<open>None\<close> when the rule leaves the register alone.
\<close>

definition row_value :: "reader \<Rightarrow> reader \<Rightarrow> 'a::len EvalState \<Rightarrow> DwarfLocation \<Rightarrow> 'a word option" where
  "row_value rd mem s1 loc =
     (let cfa = ucast (es_cfa s1) :: u64; n = address_size TYPE('a) in
      case loc_type loc of
        DWARF_LOCATION_OFFSET \<Rightarrow> Some (le_word (mem (cfa + value0 loc) n))
      | DWARF_LOCATION_VAL_OFFSET \<Rightarrow> Some (ucast (cfa + value0 loc))
      | DWARF_LOCATION_REGISTER \<Rightarrow>
          Some (ucast (ucast (reg_at (unat (ucast (value0 loc) :: u32)) (es_regs s1)) + value1 loc))
      | DWARF_LOCATION_EXPRESSION \<Rightarrow>
          (case EvalExpression rd mem loc s1 of Done (v, _) _ \<Rightarrow> Some (le_word (mem (ucast v) n)) | _ \<Rightarrow> None)
      | DWARF_LOCATION_VAL_EXPRESSION \<Rightarrow>
          (case EvalExpression rd mem loc s1 of Done (v, _) _ \<Rightarrow> Some v | _ \<Rightarrow> None)
      | _ \<Rightarrow> None)"

definition assign_reg :: "u32 \<Rightarrow> 'a::len word option \<Rightarrow> 'a word list \<Rightarrow> 'a word list" where
  "assign_reg r v vs = (case v of None \<Rightarrow> vs | Some w \<Rightarrow> vs[unat r := w])"

text \<open>What else one rule changes.\<close>

definition other_regs :: "'a::len Regs \<Rightarrow> ArchEnum \<times> u64 list \<times> u64" where
  "other_regs rs = (regs_arch rs, pseudo_regs rs, pac_mask rs)"

definition names_ra :: "DwarfCie \<Rightarrow> DwarfLocation \<Rightarrow> u32 \<Rightarrow> bool" where
  "names_ra cie loc r \<longleftrightarrow> loc_type loc = DWARF_LOCATION_UNDEFINED \<and> ucast r = cie_return_address_register cie"

lemma load_register_Done:
  assumes "load_register mem a i s = Done () (t :: 'a::len EvalState)"
  shows "t = update_regs (set_reg i (le_word (mem a (address_size TYPE('a))))) s"
  using assms by (auto simp: load_register_def Let_def eval_fail_memory_def split: if_splits)

lemma EvalRegister_assigns:
  assumes "EvalRegister rd mem cie loc r s = Done () t" "agrees s1 s" "es_info s1 = RegsInfo_new R"
    "total_regs R \<le> 64"
  shows "es_info t = (es_info s)\<lparr>ri_regs := es_regs t\<rparr> \<and>
     reg_values (es_regs t) = assign_reg r (row_value rd mem s1 loc) (reg_values (es_regs s)) \<and>
     other_regs (es_regs t) = other_regs (es_regs s) \<and> es_cfa t = es_cfa s \<and>
     offsets (ds_memory (es_section t)) = offsets (ds_memory (es_section s)) \<and>
     return_address_undefined t = (return_address_undefined s \<or> names_ra cie loc r)"
proof -
  have g: "Get (es_info s) i = Some (reg_at i (es_regs s1))" if "i < Total (es_info s)" for i
  proof -
    have "Get (es_info s) i = Get (es_info s1) i" "i < total_regs R"
      using that assms(2,3) by (simp_all add: agrees_def same_regs_def RegsInfo_new_def Total_def)
    then show ?thesis
      using assms(3,4) by (simp add: RegsInfo_new_def Get_def IsSaved_def MAX_REGISTERS_def)
  qed
  have c: "es_cfa s = es_cfa s1" using assms(2) by (simp add: agrees_def)
  show ?thesis
  proof (cases "loc_type loc")
    case DWARF_LOCATION_EXPRESSION
    then obtain v d u where u: "EvalExpression rd mem loc s = Done (v, d) u"
      and t: "load_register mem (ucast v) (unat r) u = Done () t"
      using assms(1) by (auto simp: EvalRegister_def)
    show ?thesis
      using EvalExpression_agrees [OF assms(2) u] load_register_Done [OF t] DWARF_LOCATION_EXPRESSION
      by (auto simp: row_value_def Let_def assign_reg_def update_regs_def set_reg_def other_regs_def names_ra_def)
  next
    case DWARF_LOCATION_VAL_EXPRESSION
    then obtain v d u where u: "EvalExpression rd mem loc s = Done (v, d) u"
      and t: "t = update_regs (\<lambda>rs. if d then set_dex_pc (ucast v) (set_reg (unat r) v rs) else set_reg (unat r) v rs) u"
      using assms(1) by (auto simp: EvalRegister_def)
    show ?thesis
      using EvalExpression_agrees [OF assms(2) u] t DWARF_LOCATION_VAL_EXPRESSION
      by (auto simp: row_value_def Let_def assign_reg_def update_regs_def set_reg_def set_dex_pc_def other_regs_def
          names_ra_def)
  next
    case DWARF_LOCATION_OFFSET
    then have "load_register mem (ucast (es_cfa s) + value0 loc) (unat r) s = Done () t"
      using assms(1) by (simp add: EvalRegister_def)
    from load_register_Done [OF this] show ?thesis using DWARF_LOCATION_OFFSET
      by (simp add: row_value_def Let_def assign_reg_def update_regs_def set_reg_def other_regs_def names_ra_def c)
  next
    case DWARF_LOCATION_REGISTER
    then show ?thesis using assms(1) g
      by (auto simp: EvalRegister_def Let_def eval_fail_def row_value_def assign_reg_def update_regs_def set_reg_def
          other_regs_def names_ra_def split: if_splits option.splits)
  qed (use assms(1) c in \<open>auto simp: EvalRegister_def row_value_def Let_def assign_reg_def update_regs_def
      set_reg_def other_regs_def names_ra_def eval_fail_def\<close>)
qed

text \<open>The value of register \<open>r\<close> in the caller.\<close>

definition caller_reg :: "reader \<Rightarrow> reader \<Rightarrow> (u32 \<rightharpoonup> DwarfLocation) \<Rightarrow> 'a::len EvalState \<Rightarrow> u32 \<Rightarrow> 'a word" where
  "caller_reg rd mem row s1 r =
     (let old = reg_at (unat r) (es_regs s1) in
      case row r of
        None \<Rightarrow> old
      | Some loc \<Rightarrow> (case row_value rd mem s1 loc of None \<Rightarrow> old | Some v \<Rightarrow> v))"

text \<open>The pseudo-registers after a row.\<close>

definition row_pseudo :: "(u32 \<rightharpoonup> DwarfLocation) \<Rightarrow> u64 list \<Rightarrow> u64 list" where
  "row_pseudo row ps =
     (case row ARM64_PREG_RA_SIGN_STATE of
        None \<Rightarrow> ps
      | Some loc \<Rightarrow> if loc_type loc = DWARF_LOCATION_PSEUDO_REGISTER then ps[0 := value0 loc] else ps)"

definition undefined_ra :: "DwarfCie \<Rightarrow> (u32 \<rightharpoonup> DwarfLocation) \<Rightarrow> nat \<Rightarrow> bool" where
  "undefined_ra cie row n \<longleftrightarrow> (\<exists>r loc. row r = Some loc \<and> unat r < n \<and> names_ra cie loc r)"

text \<open>When the rules of the registers in \<open>D\<close> have been applied.\<close>

definition row_inv ::
  "reader \<Rightarrow> reader \<Rightarrow> DwarfCie \<Rightarrow> (u32 \<rightharpoonup> DwarfLocation) \<Rightarrow> 'a::len EvalState \<Rightarrow> u32 set \<Rightarrow> 'a EvalState \<Rightarrow> bool" where
  "row_inv rd mem cie row s1 D s \<longleftrightarrow>
     agrees s1 s \<and> length (reg_values (es_regs s)) = length (reg_values (es_regs s1)) \<and>
     (\<forall>r. unat r < total_regs (es_regs s1) \<longrightarrow> reg_at (unat r) (es_regs s) =
        (if r \<in> D then caller_reg rd mem row s1 r else reg_at (unat r) (es_regs s1))) \<and>
     other_regs (es_regs s) = (regs_arch (es_regs s1), row_pseudo (row |` D) (pseudo_regs (es_regs s1)), pac_mask (es_regs s1)) \<and>
     return_address_undefined s = (return_address_undefined s1 \<or> undefined_ra cie (row |` D) (total_regs (es_regs s1)))"

lemma length_assign_reg [simp]: "length (assign_reg r v vs) = length vs"
  by (simp add: assign_reg_def split: option.split)

lemma Get_same_values:
  "reg_values (ri_regs a) = reg_values (ri_regs b) \<Longrightarrow> saved_reg_map a = saved_reg_map b \<Longrightarrow>
     saved_regs a = saved_regs b \<Longrightarrow> Get a r = Get b r"
  by (simp add: Get_def IsSaved_def total_regs_def reg_at_def)

lemma Save_same_regs:
  assumes "Save ri reg = Some ri'" "same_regs ri ri0" "Get ri0 reg = Some (reg_at reg (ri_regs ri))"
    and "reg_values R = (reg_values (ri_regs ri'))[reg := v]"
  shows "same_regs (ri'\<lparr>ri_regs := R\<rparr>) ri0 \<and> same_regs ri' ri0"
proof -
  have n: "Total (ri'\<lparr>ri_regs := R\<rparr>) = Total ri" "Total ri' = Total ri" "reg < Total ri"
    using assms(1,4) by (auto simp: Save_def Total_def total_regs_def split: if_splits)
  have g: "Get (ri'\<lparr>ri_regs := set_reg reg w (ri_regs ri')\<rparr>) r = Get ri0 r" if "r < Total ri" for r w
    using Get_Save [OF assms(1)] assms(2,3) that by (simp add: same_regs_def)
  have "Get (ri'\<lparr>ri_regs := R\<rparr>) r = Get ri0 r" if "r < Total ri" for r
  proof -
    have "Get (ri'\<lparr>ri_regs := R\<rparr>) r = Get (ri'\<lparr>ri_regs := set_reg reg v (ri_regs ri')\<rparr>) r"
      by (rule Get_same_values) (simp_all add: assms(4) set_reg_def)
    then show ?thesis using g [OF that] by (rule trans)
  qed
  moreover have "Get ri' r = Get ri0 r" if "r < Total ri" for r
  proof -
    have "Get ri' r = Get (ri'\<lparr>ri_regs := set_reg reg (reg_at reg (ri_regs ri')) (ri_regs ri')\<rparr>) r"
      by (rule Get_same_values) (simp_all add: set_reg_def reg_at_def)
    then show ?thesis using g [OF that] by (rule trans)
  qed
  ultimately show ?thesis using n assms(2) by (simp add: same_regs_def)
qed

lemma eval_entry_cases:
  assumes "eval_entry rd mem cie row r s = Done () t"
  obtains (skip) "t = s" "r = CFA_REG \<or> row r = None \<or>
      (\<exists>loc. row r = Some loc \<and> total_regs (es_regs s) \<le> unat r \<and> loc_type loc \<noteq> DWARF_LOCATION_PSEUDO_REGISTER)"
  | (pseudo) loc rs where "row r = Some loc" "loc_type loc = DWARF_LOCATION_PSEUDO_REGISTER"
      "total_regs (es_regs s) \<le> unat r" "SetPseudoRegister (ucast r) (value0 loc) (es_regs s) = (True, rs)"
      "t = update_regs (\<lambda>_. rs) s"
  | (rule) loc ri where "row r = Some loc" "unat r < total_regs (es_regs s)" "Save (es_info s) (unat r) = Some ri"
      "EvalRegister rd mem cie loc r (s\<lparr>es_info := ri\<rparr>) = Done () t"
proof (cases "r = CFA_REG \<or> row r = None")
  case True
  then show ?thesis using assms skip by (auto simp: eval_entry_def split: if_splits)
next
  case False
  then obtain loc where l: "row r = Some loc" by blast
  show ?thesis
  proof (cases "unat r < total_regs (es_regs s)")
    case True
    then show ?thesis using assms False l rule [OF l True] by (auto simp: eval_entry_def split: option.splits)
  next
    case big: False
    then show ?thesis
      using assms False l skip pseudo [OF l]
      by (auto simp: eval_entry_def eval_fail_def not_less split: if_splits prod.splits)
  qed
qed

lemma SetPseudoRegister_sign_state:
  assumes "SetPseudoRegister (ucast r) v rs = (True, rs')" "r < 0x10000"
  shows "r = ARM64_PREG_RA_SIGN_STATE \<and> rs' = rs\<lparr>pseudo_regs := (pseudo_regs rs)[0 := v]\<rparr>"
proof -
  have l: "unat r < 2 ^ 16" using assms(2) by (simp add: word_less_nat_alt)
  have "unat (ucast (ucast r :: u16) :: u32) = unat r"
    using l by (simp add: unsigned_ucast_eq unsigned_take_bit_eq take_bit_eq_mod unat_mod)
  then have "34 \<le> unat r" "unat r < 35" using assms(1)
    by (auto simp: SetPseudoRegister_def ARM64_PREG_FIRST_def ARM64_PREG_LAST_def ARM64_PREG_RA_SIGN_STATE_def
        word_le_nat_alt word_less_nat_alt split: if_splits)
  then have "unat r = 34" by simp
  then have "r = ARM64_PREG_RA_SIGN_STATE" by (simp add: ARM64_PREG_RA_SIGN_STATE_def word_unat_eq_iff)
  then show ?thesis using assms(1)
    by (auto simp: SetPseudoRegister_def ARM64_PREG_FIRST_def ARM64_PREG_RA_SIGN_STATE_def split: if_splits)
qed

lemma row_pseudo_insert:
  "r \<noteq> ARM64_PREG_RA_SIGN_STATE \<Longrightarrow> row_pseudo (row |` insert r D) = row_pseudo (row |` D)"
  "row r = None \<Longrightarrow> row_pseudo (row |` insert r D) = row_pseudo (row |` D)"
  "row r = Some loc \<Longrightarrow> loc_type loc \<noteq> DWARF_LOCATION_PSEUDO_REGISTER \<Longrightarrow> r \<notin> D \<Longrightarrow>
     row_pseudo (row |` insert r D) = row_pseudo (row |` D)"
  by (auto simp: fun_eq_iff row_pseudo_def restrict_map_def split: option.split)

lemma undefined_ra_insert:
  "undefined_ra cie (row |` insert r D) n \<longleftrightarrow>
     undefined_ra cie (row |` D) n \<or> (\<exists>loc. row r = Some loc \<and> unat r < n \<and> names_ra cie loc r)"
  by (auto simp: undefined_ra_def restrict_map_def)

lemma eval_entry_inv:
  assumes "eval_entry rd mem cie row r s = Done () t" "row_inv rd mem cie row s1 D s" "r \<notin> D"
    and R: "es_info s1 = RegsInfo_new R" "total_regs R \<le> 64" and keys: "\<forall>r \<in> dom row. r < 0x10000"
  shows "row_inv rd mem cie row s1 (insert r D) t"
proof -
  note inv = assms(2) [unfolded row_inv_def]
  have n: "total_regs (es_regs s) = total_regs R" "total_regs (es_regs s1) = total_regs R"
    using inv R(1) by (simp_all add: total_regs_def RegsInfo_new_def)
  have cfa: "\<not> unat CFA_REG < total_regs R" "CFA_REG \<noteq> ARM64_PREG_RA_SIGN_STATE"
    using R(2) by (simp_all add: CFA_REG_def ARM64_PREG_RA_SIGN_STATE_def)
  from assms(1) show ?thesis
  proof (cases rule: eval_entry_cases)
    case skip
    have p: "row_pseudo (row |` insert r D) = row_pseudo (row |` D)"
      using skip(2) cfa(2) assms(3) row_pseudo_insert by metis
    have out: "row r = None \<or> \<not> unat r < total_regs R" using skip(2) cfa(1) n(1) by auto
    then have "undefined_ra cie (row |` insert r D) (total_regs R) = undefined_ra cie (row |` D) (total_regs R)"
      by (auto simp: undefined_ra_insert)
    moreover have "caller_reg rd mem row s1 r = reg_at (unat r) (es_regs s1)" if "unat r < total_regs R"
      using out that by (simp add: caller_reg_def)
    ultimately show ?thesis using inv assms(3) p by (simp add: row_inv_def skip(1) n(2))
  next
    case (pseudo loc rs)
    have "r < 0x10000" using keys pseudo(1) by blast
    from SetPseudoRegister_sign_state [OF pseudo(4) this]
    have r: "r = ARM64_PREG_RA_SIGN_STATE" and rs: "rs = (es_regs s)\<lparr>pseudo_regs := (pseudo_regs (es_regs s))[0 := value0 loc]\<rparr>"
      by simp_all
    have g: "Get (es_info t) i = Get (es_info s) i" for i
      by (rule Get_same_values) (simp_all add: pseudo(5) update_regs_def rs)
    have "undefined_ra cie (row |` insert r D) (total_regs R) = undefined_ra cie (row |` D) (total_regs R)"
      using pseudo(1,2) by (auto simp: undefined_ra_insert names_ra_def)
    moreover have "row_pseudo (row |` insert r D) ps = (row_pseudo (row |` D) ps)[0 := value0 loc]" for ps
      using pseudo(1,2) assms(3) by (simp add: row_pseudo_def r)
    ultimately show ?thesis using inv g pseudo(3) n
      by (auto simp: row_inv_def pseudo(5) update_regs_def rs agrees_def same_regs_def Total_def total_regs_def
          reg_at_def other_regs_def)
  next
    case (rule loc ri)
    let ?s = "s\<lparr>es_info := ri\<rparr>"
    have i: "unat r < total_regs R" using rule(2) n(1) by simp
    have same: "ri_regs ri = es_regs s" using rule(3) by (auto simp: Save_def split: if_splits)
    have old: "Get (es_info s1) (unat r) = Some (reg_at (unat r) (es_regs s))"
      using inv assms(3) i R by (simp add: n(2)) (simp add: Get_def IsSaved_def RegsInfo_new_def MAX_REGISTERS_def)
    have sr: "same_regs (es_info s) (es_info s1)" using inv by (simp add: agrees_def)
    have "same_regs ri (es_info s1)"
      using Save_same_regs [OF rule(3) sr old, of "ri_regs ri" "reg_at (unat r) (ri_regs ri)"] by (simp add: reg_at_def)
    then have "agrees s1 ?s" using inv by (simp add: agrees_def)
    note e = EvalRegister_assigns [OF rule(4) this R]
    have kept: "reg_at (unat r) (es_regs s) = reg_at (unat r) (es_regs s1)" using inv assms(3) i by (simp add: n(2))
    have v: "reg_values (es_regs t) = (reg_values (es_regs s))[unat r := caller_reg rd mem row s1 r]"
      using e rule(1) kept same list_update_id [of "reg_values (es_regs s)" "unat r"]
      by (simp add: caller_reg_def assign_reg_def Let_def reg_at_def split: option.split)
    have "same_regs (es_info t) (es_info s1)"
      using Save_same_regs [OF rule(3) sr old, of "es_regs t" "caller_reg rd mem row s1 r"] v e same by simp
    moreover have "reg_at (unat k) (es_regs t) = (if k \<in> insert r D then caller_reg rd mem row s1 k
        else reg_at (unat k) (es_regs s1))" if "unat k < total_regs R" for k
    proof -
      have vals: "reg_at (unat k) (es_regs s) = (if k \<in> D then caller_reg rd mem row s1 k else reg_at (unat k) (es_regs s1))"
        using inv that by (simp add: n(2))
      have "unat r < length (reg_values (es_regs s))" using rule(2) by (simp add: total_regs_def)
      moreover have "k \<noteq> r \<Longrightarrow> unat r \<noteq> unat k" using word_unat_eq_iff [of r k] by auto
      ultimately show ?thesis using vals by (cases "k = r") (simp_all add: v reg_at_def)
    qed
    moreover have "row_pseudo (row |` insert r D) = row_pseudo (row |` D)"
    proof -
      have "loc_type loc \<noteq> DWARF_LOCATION_PSEUDO_REGISTER"
        using rule(4) by (auto simp: EvalRegister_def eval_fail_def)
      then show ?thesis using row_pseudo_insert(3) [of row r loc D] rule(1) assms(3) by simp
    qed
    ultimately show ?thesis using inv e v i same rule(1) n
      by (auto simp: row_inv_def agrees_def undefined_ra_insert)
  qed
qed

lemma eval_entries_inv:
  assumes "eval_entries rd mem cie row order s = Done () t" "row_inv rd mem cie row s1 D s"
    and "distinct order" "set order \<inter> D = {}" "es_info s1 = RegsInfo_new R" "total_regs R \<le> 64"
    and "\<forall>r \<in> dom row. r < 0x10000"
  shows "row_inv rd mem cie row s1 (set order \<union> D) t"
  using assms(1-4)
proof (induction order arbitrary: s D)
  case (Cons r order)
  then obtain u where u: "eval_entry rd mem cie row r s = Done () u" "eval_entries rd mem cie row order u = Done () t"
    by auto
  have "row_inv rd mem cie row s1 (insert r D) u"
    using eval_entry_inv [OF u(1) Cons.prems(2) _ assms(5-7)] Cons.prems(4) by simp
  from Cons.IH [OF u(2) this] show ?case using Cons.prems(3,4) by auto
qed simp

definition start_eval :: "'a::len EvalState \<Rightarrow> 'a EvalState" where
  "start_eval s = s\<lparr>es_info := RegsInfo_new (ResetPseudoRegisters (set_dex_pc 0 (es_regs s))),
     return_address_undefined := False\<rparr>"

lemma eval_cfa_keeps:
  assumes "eval_cfa rd mem loc s = Done () s1"
  shows "es_info s1 = es_info s \<and> return_address_undefined s1 = return_address_undefined s"
  using assms
  by (auto simp: eval_cfa_def EvalExpression_def eval_fail_def Let_def
      split: DwarfLocationEnum.splits outcome.splits if_splits)

lemma reset_regs [simp]:
  "total_regs (ResetPseudoRegisters r) = total_regs r" "total_regs (set_dex_pc v r) = total_regs r"
  "regs_arch (ResetPseudoRegisters r) = regs_arch r" "pac_mask (ResetPseudoRegisters r) = pac_mask r"
  "reg_values (ResetPseudoRegisters r) = reg_values r" "regs_arch (set_dex_pc v r) = regs_arch r"
  "pac_mask (set_dex_pc v r) = pac_mask r" "reg_values (set_dex_pc v r) = reg_values r"
  by (simp_all add: ResetPseudoRegisters_def SetPseudoRegister_def total_regs_def set_dex_pc_def)

lemma evaluated_row:
  assumes "DwarfSection_Eval xpac rd mem order cie row s = Done () t" "distinct order" "set order = dom row"
    and "\<forall>r \<in> dom row. r < 0x10000" "total_regs (es_regs s) \<le> 64"
  shows "\<exists>s1 es. eval_cfa rd mem (the (row CFA_REG)) (start_eval s) = Done () s1 \<and>
     t = finish_frame xpac cie es \<and> es_cfa es = es_cfa s1 \<and>
     length (reg_values (es_regs es)) = length (reg_values (es_regs s)) \<and>
     (\<forall>r. unat r < total_regs (es_regs s) \<longrightarrow> reg_at (unat r) (es_regs es) = caller_reg rd mem row s1 r) \<and>
     other_regs (es_regs es) = (regs_arch (es_regs s), row_pseudo row (pseudo_regs (es_regs s1)), pac_mask (es_regs s)) \<and>
     return_address_undefined es = undefined_ra cie row (total_regs (es_regs s))"
proof -
  let ?R = "ResetPseudoRegisters (set_dex_pc 0 (es_regs s))"
  obtain s1 es where c: "eval_cfa rd mem (the (row CFA_REG)) (start_eval s) = Done () s1"
    and e: "eval_entries rd mem cie row order s1 = Done () es" and t: "t = finish_frame xpac cie es"
    using assms(1) by (auto simp: DwarfSection_Eval_def start_eval_def Let_def eval_fail_def
        split: if_splits option.splits)
  have k: "es_info s1 = RegsInfo_new ?R" "return_address_undefined s1 = False"
    using eval_cfa_keeps [OF c] by (simp_all add: start_eval_def)
  have "row_inv rd mem cie row s1 {} s1"
    by (simp add: row_inv_def agrees_def same_regs_def other_regs_def row_pseudo_def undefined_ra_def)
  from eval_entries_inv [OF e this assms(2) _ k(1) _ assms(4)]
  have "row_inv rd mem cie row s1 (dom row) es" using assms(3,5) by simp
  moreover have "row |` dom row = row" by (auto simp: restrict_map_def fun_eq_iff dom_def)
  moreover have "caller_reg rd mem row s1 r = reg_at (unat r) (es_regs s1)" if "r \<notin> dom row" for r
    using that by (simp add: caller_reg_def domIff)
  ultimately have inv: "es_cfa es = es_cfa s1" "length (reg_values (es_regs es)) = length (reg_values (es_regs s))"
    "\<forall>r. unat r < total_regs (es_regs s) \<longrightarrow> reg_at (unat r) (es_regs es) = caller_reg rd mem row s1 r"
    "other_regs (es_regs es) = (regs_arch (es_regs s), row_pseudo row (pseudo_regs (es_regs s1)), pac_mask (es_regs s))"
    "return_address_undefined es = undefined_ra cie row (total_regs (es_regs s))"
    using k by (auto simp: row_inv_def agrees_def RegsInfo_new_def)
  then show ?thesis using c t by blast
qed

text \<open>
  Property C39. A successful evaluation of a row assigns the caller's registers simultaneously: each
  register gets the value its rule gives in the state before any register was overwritten, by offset,
  by register or by expression, and the others keep theirs; the stack pointer is the canonical frame
  address and the program counter the return address of that caller. So the result does not depend on
  the order in which the \<open>unordered_map\<close> is visited.
\<close>

theorem row_is_simultaneous:
  assumes "DwarfSection_Eval xpac rd mem order cie row s = Done () t" "distinct order" "set order = dom row"
    and "\<forall>r \<in> dom row. r < 0x10000" "total_regs (es_regs s) \<le> 64"
  shows "\<exists>s1 es. eval_cfa rd mem (the (row CFA_REG)) (start_eval s) = Done () s1 \<and>
     t = finish_frame xpac cie es \<and> es_cfa es = es_cfa s1 \<and>
     length (reg_values (es_regs es)) = length (reg_values (es_regs s)) \<and>
     (\<forall>r. unat r < total_regs (es_regs s) \<longrightarrow> reg_at (unat r) (es_regs es) = caller_reg rd mem row s1 r) \<and>
     other_regs (es_regs es) = (regs_arch (es_regs s), row_pseudo row (pseudo_regs (es_regs s1)), pac_mask (es_regs s)) \<and>
     return_address_undefined es = undefined_ra cie row (total_regs (es_regs s))"
  using assms by (rule evaluated_row)

text \<open>A 32-bit ARM frame: \<open>cfa = r13 + 8\<close>, \<open>r11\<close> at \<open>cfa - 8\<close>, \<open>r14\<close> at \<open>cfa - 4\<close>.\<close>

definition sample_row :: "u32 \<rightharpoonup> DwarfLocation" where
  "sample_row = [CFA_REG \<mapsto> location DWARF_LOCATION_REGISTER 13 8, 11 \<mapsto> location DWARF_LOCATION_OFFSET (- 8) 0,
     14 \<mapsto> location DWARF_LOCATION_OFFSET (- 4) 0]"

definition sample_cie :: DwarfCie where
  "sample_cie = (fde_cie sample_fde)\<lparr>cie_return_address_register := 14\<rparr>"

definition sample_eval :: "32 EvalState" where
  "sample_eval = \<lparr>es_section = DwarfSection_new DEBUG_FRAME, es_info = RegsInfo_new (set_reg 13 2 RegsArm_new),
     es_cfa = 0, return_address_undefined = False, es_finished = False\<rparr>"

lemma row_is_simultaneous_witness:
  "\<exists>t es. DwarfSection_Eval id (\<lambda>_ _. []) (MemoryBuffer_Read [0, 0, 1, 0, 0, 0, 2, 0, 0, 0]) [14, CFA_REG, 11]
       sample_cie sample_row sample_eval = Done () t \<and> t = finish_frame id sample_cie es \<and>
     es_cfa es = 10 \<and> reg_at 11 (es_regs es) = 1 \<and> reg_at 14 (es_regs es) = 2"
proof -
  let ?mem = "MemoryBuffer_Read [0, 0, 1, 0, 0, 0, 2, 0, 0, 0]"
  note sample = sample_row_def sample_eval_def sample_cie_def sample_fde_def location_def CFA_REG_def RegsInfo_new_def
    RegsArm_new_def RegsImpl_def reg_numbers set_reg_def reg_at_def total_regs_def ResetPseudoRegisters_def set_dex_pc_def
  have regs: "reg_values (es_regs sample_eval) = (replicate 16 0)[13 := 2]" by (simp add: sample)
  have "\<exists>t. DwarfSection_Eval id (\<lambda>_ _. []) ?mem [14, CFA_REG, 11] sample_cie sample_row sample_eval = Done () t"
    by (simp add: DwarfSection_Eval_def eval_cfa_def eval_entry_def EvalRegister_def load_register_def Save_def
        MAX_REGISTERS_def update_regs_def Let_def MemoryBuffer_Read_eq sample)
  then obtain t where t: "DwarfSection_Eval id (\<lambda>_ _. []) ?mem [14, CFA_REG, 11] sample_cie sample_row sample_eval = Done () t"
    by blast
  obtain s1 es where e: "eval_cfa (\<lambda>_ _. []) ?mem (the (sample_row CFA_REG)) (start_eval sample_eval) = Done () s1"
    "t = finish_frame id sample_cie es" "es_cfa es = es_cfa s1"
    "\<forall>r. unat r < total_regs (es_regs sample_eval) \<longrightarrow> reg_at (unat r) (es_regs es) = caller_reg (\<lambda>_ _. []) ?mem sample_row s1 r"
    using row_is_simultaneous [OF t] by (auto simp: sample)
  have s1: "s1 = (start_eval sample_eval)\<lparr>es_cfa := 10\<rparr>"
    using e(1) by (simp add: eval_cfa_def start_eval_def sample)
  have "reg_at 11 (es_regs es) = 1" "reg_at 14 (es_regs es) = 2"
    using e(4) [rule_format, of 11] e(4) [rule_format, of 14]
    by (simp_all add: s1 caller_reg_def row_value_def Let_def start_eval_def MemoryBuffer_Read_eq le_word_def sample)
  then show ?thesis using t e(2,3) s1 by (auto simp: )
qed

section \<open>The order of the row\<close>

lemma dex_pc_irrelevant:
  "set_pc xpac v (set_dex_pc d r) = set_dex_pc d (set_pc xpac v r)"
  "set_sp v (set_dex_pc d r) = set_dex_pc d (set_sp v r)"
  "regs_pc (set_dex_pc d r) = regs_pc r" "reg_at i (set_dex_pc d r) = reg_at i r"
  by (cases "regs_arch r"; simp add: set_pc_def set_sp_def regs_pc_def set_dex_pc_def set_reg_def reg_at_def
      RegsArm_set_pc_def RegsArm64_set_pc_def RegsX86_set_pc_def RegsX86_64_set_pc_def RegsMips_set_pc_def
      RegsMips64_set_pc_def RegsArm_set_sp_def RegsArm64_set_sp_def RegsX86_set_sp_def RegsX86_64_set_sp_def
      RegsMips_set_sp_def RegsMips64_set_sp_def RegsArm_pc_def RegsArm64_pc_def RegsX86_pc_def RegsX86_64_pc_def
      RegsMips_pc_def RegsMips64_pc_def IsRASigned_def GetPseudoRegister_def)+

lemma finish_frame_cong:
  assumes "reg_values (es_regs es) = reg_values (es_regs es')" "other_regs (es_regs es) = other_regs (es_regs es')"
    and "es_cfa es = es_cfa es'" "return_address_undefined es = return_address_undefined es'"
  shows "reg_values (es_regs (finish_frame xpac cie es)) = reg_values (es_regs (finish_frame xpac cie es')) \<and>
     es_finished (finish_frame xpac cie es) = es_finished (finish_frame xpac cie es')"
proof -
  have "es_regs es = set_dex_pc (dex_pc (es_regs es)) (es_regs es')"
    using assms(1,2) by (simp add: other_regs_def set_dex_pc_def)
  then obtain d where "es_regs es = set_dex_pc d (es_regs es')" by blast
  then show ?thesis using assms(3,4)
    by (simp add: finish_frame_def Let_def update_regs_def dex_pc_irrelevant)
qed

corollary row_order_irrelevant:
  assumes "DwarfSection_Eval xpac rd mem order cie row s = Done () t"
    and "DwarfSection_Eval xpac rd mem order' cie row s = Done () t'"
    and "distinct order" "set order = dom row" "distinct order'" "set order' = dom row"
    and "\<forall>r \<in> dom row. r < 0x10000" "total_regs (es_regs s) \<le> 64"
  shows "reg_values (es_regs t) = reg_values (es_regs t') \<and> es_finished t = es_finished t'"
proof -
  let ?P = "\<lambda>s1 es t. eval_cfa rd mem (the (row CFA_REG)) (start_eval s) = Done () s1 \<and>
     t = finish_frame xpac cie es \<and> es_cfa es = es_cfa s1 \<and>
     length (reg_values (es_regs es)) = length (reg_values (es_regs s)) \<and>
     (\<forall>r. unat r < total_regs (es_regs s) \<longrightarrow> reg_at (unat r) (es_regs es) = caller_reg rd mem row s1 r) \<and>
     other_regs (es_regs es) = (regs_arch (es_regs s), row_pseudo row (pseudo_regs (es_regs s1)), pac_mask (es_regs s)) \<and>
     return_address_undefined es = undefined_ra cie row (total_regs (es_regs s))"
  obtain s1 es where 1: "?P s1 es t" using evaluated_row [OF assms(1,3,4,7,8)] by blast
  obtain s2 es' where 2: "?P s2 es' t'" using evaluated_row [OF assms(2,5,6,7,8)] by blast
  have s: "s2 = s1" using 1 2 by simp
  have v: "reg_at (unat r) (es_regs es) = reg_at (unat r) (es_regs es')" if "unat r < total_regs (es_regs s)" for r :: u32
    using 1 2 that by (simp add: s)
  have "reg_values (es_regs es) = reg_values (es_regs es')"
  proof (rule nth_equalityI)
    fix i assume i: "i < length (reg_values (es_regs es))"
    then have "unat (of_nat i :: u32) = i" using 1 assms(8) by (simp add: unat_of_nat total_regs_def)
    moreover have "i < total_regs (es_regs s)" using i 1 by (simp add: total_regs_def)
    ultimately show "reg_values (es_regs es) ! i = reg_values (es_regs es') ! i"
      using v [of "of_nat i"] by (simp add: reg_at_def)
  qed (use 1 2 in simp)
  then show ?thesis using finish_frame_cong [of es es' xpac cie] 1 2 by (simp add: s)
qed

end
