(* ===== verification/SectionIndexProps.thy ===== *)
theory SectionIndexProps
  imports DwarfEhFrameHdr
begin

text \<open>
  The index of a section: the map that \<open>InsertFde\<close> builds is a list of disjoint ranges, and looking a
  program counter up in it is the linear search for the first FDE of the section that covers it.
\<close>

section \<open>Disjoint ranges\<close>

fun ranges :: "u64 \<Rightarrow> DwarfFdeMap \<Rightarrow> bool" where
  "ranges lo [] = True"
| "ranges lo ((e, s, off) # m) \<longleftrightarrow> lo \<le> s \<and> s < e \<and> ranges e m"

text \<open>The range a program counter is in.\<close>

fun range_at :: "DwarfFdeMap \<Rightarrow> u64 \<Rightarrow> u64 option" where
  "range_at [] pc = None"
| "range_at ((e, s, off) # m) pc =
     (if pc < e then (if s \<le> pc then Some off else None) else range_at m pc)"

lemma range_at_upper_bound:
  "range_at m pc = (case upper_bound pc m of [] \<Rightarrow> None | (e, s, off) # _ \<Rightarrow> if s \<le> pc then Some off else None)"
  by (induction m) (auto simp: upper_bound_def not_less)

lemma ranges_mono: "ranges lo m \<Longrightarrow> lo' \<le> lo \<Longrightarrow> ranges lo' m"
  by (cases m) auto

lemma ranges_ends: "ranges lo m \<Longrightarrow> x \<in> set m \<Longrightarrow> lo < fst x"
  by (induction lo m rule: ranges.induct) fastforce+

lemma ranges_om_wf: "ranges lo m \<Longrightarrow> om_wf m"
  by (induction lo m rule: ranges.induct) (auto simp: om_wf_def dest: ranges_ends)

lemma ranges_append:
  "ranges lo (pre @ post) \<longleftrightarrow> ranges lo pre \<and> ranges (if pre = [] then lo else fst (last pre)) post"
  by (induction lo pre rule: ranges.induct) auto

lemma range_at_append:
  "range_at (pre @ post) pc = (if \<exists>x \<in> set pre. pc < fst x then range_at pre pc else range_at post pc)"
  by (induction pre pc rule: range_at.induct) auto

section \<open>Inserting\<close>

text \<open>What the loop of \<open>InsertFde\<close> makes of the entries from the iterator on.\<close>

fun insert_range :: "u64 \<Rightarrow> u64 \<Rightarrow> u64 \<Rightarrow> DwarfFdeMap \<Rightarrow> DwarfFdeMap" where
  "insert_range off start e [] = (if start < e then [(e, start, off)] else [])"
| "insert_range off start e ((ie, is, io) # it) =
     (if start < e \<and> is < e
      then (if start < is then [(is, start, off)] else []) @ (ie, is, io) # insert_range off ie e it
      else (if start < e then [(e, start, off)] else []) @ (ie, is, io) # it)"

lemma insert_range_spec:
  assumes "ranges lo it" "lo \<le> start" "\<forall>x \<in> set it. start < fst x"
  shows "ranges lo (insert_range off start e it) \<and>
     range_at (insert_range off start e it) pc =
       (case range_at it pc of Some q \<Rightarrow> Some q | None \<Rightarrow> if start \<le> pc \<and> pc < e then Some off else None)"
  using assms
proof (induction off start e it arbitrary: lo rule: insert_range.induct)
  case (2 off start e ie "is" io it)
  have it: "ranges ie it" "\<forall>x \<in> set it. ie < fst x" using 2(2) ranges_ends by auto
  show ?case
  proof (cases "start < e \<and> is < e")
    case True
    note IH = 2(1) [OF True it(1) order.refl it(2)]
    show ?thesis using 2(2-4) True IH by (auto split: option.split)
  next
    case False
    then show ?thesis using 2(2-4) by (auto split: option.split)
  qed
qed auto

lemma om_assign_between:
  "\<forall>x \<in> set pre. fst x < k \<Longrightarrow> (\<forall>x \<in> set post. k < fst x) \<Longrightarrow>
     om_assign k v (pre @ post) = pre @ (k, v) # post"
proof (induction pre)
  case Nil
  then show ?case by (cases post) auto
qed auto

lemma InsertFde_loop_inserts:
  assumes "ranges 0 (pre @ it)" "\<forall>x \<in> set pre. fst x \<le> start" "\<forall>x \<in> set it. start < fst x"
  shows "(let (start', fdes) = InsertFde_loop off start e it (pre @ it)
          in if start' < e then om_assign e (start', off) fdes else fdes) = pre @ insert_range off start e it"
  using assms
proof (induction it arbitrary: pre start)
  case Nil
  have "\<forall>x \<in> set pre. fst x < e" if "start < e" using Nil(2) that by auto
  then show ?case using om_assign_between [of pre e "[]"] by simp
next
  case (Cons x it)
  obtain ie "is" io where x: "x = (ie, is, io)" by (cases x) auto
  have r: "is < ie" "ranges ie it" "\<forall>y \<in> set it. ie < fst y"
    using Cons(2) ranges_ends by (auto simp: x ranges_append split: if_splits)
  show ?case
  proof (cases "start < e \<and> is < e")
    case True
    let ?new = "if start < is then [(is, start, off)] else []"
    have "om_assign is (start, off) (pre @ x # it) = pre @ ?new @ x # it" if "start < is"
      proof -
      have "\<forall>y \<in> set (x # it). is < fst y" using r by (auto simp: x)
      moreover have "\<forall>y \<in> set pre. fst y < is" using Cons(3) that by auto
      ultimately show ?thesis using om_assign_between [of pre "is" "x # it"] that by simp
    qed
    then have m: "(if start < is then om_assign is (start, off) (pre @ x # it) else pre @ x # it) = (pre @ ?new @ [x]) @ it"
      by simp
    have "ranges 0 ((pre @ ?new @ [x]) @ it)"
      using Cons(2,3) by (auto simp: x ranges_append split: if_splits)
    then have IH: "(let (start', fdes) = InsertFde_loop off ie e it ((pre @ ?new @ [x]) @ it)
          in if start' < e then om_assign e (start', off) fdes else fdes) = (pre @ ?new @ [x]) @ insert_range off ie e it"
      using Cons(3,4) r by (intro Cons.IH) (auto simp: x split: if_splits)
    then show ?thesis using True m by (simp add: x split: if_splits)
  next
    case False
    have "om_assign e (start, off) (pre @ x # it) = pre @ (e, start, off) # x # it" if "start < e"
      proof -
      have "\<forall>y \<in> set (x # it). e < fst y" using r that False by (auto simp: x)
      moreover have "\<forall>y \<in> set pre. fst y < e" using Cons(3) that by auto
      ultimately show ?thesis using om_assign_between [of pre e "x # it"] by simp
    qed
    then show ?thesis using False by (auto simp: x)
  qed
qed

lemma InsertFde_split:
  assumes "ranges 0 m"
  obtains pre it where "m = pre @ it" "\<forall>x \<in> set pre. fst x \<le> fde_pc_start fde"
    "\<forall>x \<in> set it. fde_pc_start fde < fst x"
    "InsertFde off fde m = pre @ insert_range off (fde_pc_start fde) (fde_pc_end fde) it"
proof -
  let ?s = "fde_pc_start fde" and ?e = "fde_pc_end fde"
  obtain pre it where m: "m = pre @ it" "pre = takeWhile (\<lambda>(e, v). e \<le> ?s) m" "it = upper_bound ?s m"
    by (simp add: upper_bound_def)
  have pre: "\<forall>x \<in> set pre. fst x \<le> ?s" using m(2) by (auto dest: set_takeWhileD)
  have it: "\<forall>x \<in> set it. ?s < fst x"
    using upper_bound_filter [OF ranges_om_wf [OF assms], of ?s] m(3) by auto
  have i: "InsertFde off fde m = pre @ insert_range off ?s ?e it"
    using InsertFde_loop_inserts [of pre it ?s off ?e] assms pre it
    unfolding InsertFde_def m(3) [symmetric] by (simp add: m(1) Let_def)
  show ?thesis using that m(1) pre it i by blast
qed

lemma InsertFde_spec:
  assumes "ranges 0 m"
  shows "ranges 0 (InsertFde off fde m) \<and>
     range_at (InsertFde off fde m) pc =
       (case range_at m pc of
          Some q \<Rightarrow> Some q
        | None \<Rightarrow> if fde_pc_start fde \<le> pc \<and> pc < fde_pc_end fde then Some off else None)"
proof -
  let ?s = "fde_pc_start fde" and ?e = "fde_pc_end fde"
  obtain pre it where m: "m = pre @ it" and pre: "\<forall>x \<in> set pre. fst x \<le> ?s"
    and it: "\<forall>x \<in> set it. ?s < fst x" and i: "InsertFde off fde m = pre @ insert_range off ?s ?e it"
    using InsertFde_split [OF assms] by blast
  let ?lo = "if pre = [] then 0 else fst (last pre)"
  have r: "ranges 0 pre" "ranges ?lo it" using assms unfolding m ranges_append by simp_all
  have "?lo \<le> ?s" using pre by (cases "pre = []") auto
  note s = insert_range_spec [OF r(2) this it, of off ?e pc]
  have "ranges 0 (InsertFde off fde m)" using s r(1) by (simp add: i ranges_append)
  moreover have "range_at (InsertFde off fde m) pc = (case range_at m pc of Some q \<Rightarrow> Some q
      | None \<Rightarrow> if ?s \<le> pc \<and> pc < ?e then Some off else None)"
  proof (cases "\<exists>x \<in> set pre. pc < fst x")
    case True
    then have "\<not> ?s \<le> pc" using pre by force
    then show ?thesis using True unfolding i by (simp add: m range_at_append split: option.split)
  next
    case False
    then show ?thesis using s unfolding i by (simp add: m range_at_append)
  qed
  ultimately show ?thesis by blast
qed

section \<open>The lookup\<close>

definition covers :: "DwarfFde \<Rightarrow> u64 \<Rightarrow> bool" where
  "covers fde pc \<longleftrightarrow> fde_pc_start fde \<le> pc \<and> pc < fde_pc_end fde"

definition insert_all :: "(u64 \<times> DwarfFde) list \<Rightarrow> DwarfFdeMap \<Rightarrow> DwarfFdeMap" where
  "insert_all l m = fold (\<lambda>(off, fde). InsertFde off fde) l m"

definition first_cover :: "(u64 \<times> DwarfFde) list \<Rightarrow> u64 \<Rightarrow> (u64 \<times> DwarfFde) option" where
  "first_cover l pc = find (\<lambda>(off, fde). covers fde pc) l"

lemma insert_all_spec:
  "ranges 0 m \<Longrightarrow> ranges 0 (insert_all l m) \<and>
     range_at (insert_all l m) pc =
       (case range_at m pc of Some q \<Rightarrow> Some q | None \<Rightarrow> map_option fst (first_cover l pc))"
proof (induction l arbitrary: m)
  case (Cons x l)
  obtain off fde where x: "x = (off, fde)" by (cases x)
  from InsertFde_spec [OF Cons.prems, of off fde pc] Cons.IH [of "InsertFde off fde m"]
  show ?case by (auto simp: x insert_all_def first_cover_def covers_def split: option.split)
qed (simp add: insert_all_def first_cover_def split: option.split)

text \<open>Every range of the map is part of the FDE it names.\<close>

definition ranges_of :: "(u64 \<times> DwarfFde) set \<Rightarrow> DwarfFdeMap \<Rightarrow> bool" where
  "ranges_of F m \<longleftrightarrow> (\<forall>(e, s, off) \<in> set m. \<exists>fde. (off, fde) \<in> F \<and> fde_pc_start fde \<le> s \<and> e \<le> fde_pc_end fde)"

lemma insert_range_parts:
  "ranges lo it \<Longrightarrow> x \<in> set (insert_range off start e it) \<Longrightarrow> \<forall>y \<in> set it. start < fst y \<Longrightarrow>
     x \<in> set it \<or> (\<exists>e' s'. x = (e', s', off) \<and> start \<le> s' \<and> e' \<le> e)"
proof (induction off start e it arbitrary: lo rule: insert_range.induct)
  case (2 off start e ie "is" io it)
  have it: "ranges ie it" "\<forall>x \<in> set it. ie < fst x" "start < ie" using 2(2,4) ranges_ends by auto
  show ?case
  proof (cases "start < e \<and> is < e")
    case True
    from 2(1) [OF True it(1) _ it(2)] show ?thesis using 2(3) True it(3) by (auto split: if_splits)
  next
    case False
    then show ?thesis using 2(3) by (auto split: if_splits)
  qed
qed (auto split: if_splits)

lemma InsertFde_ranges_of:
  assumes "ranges_of F m" "ranges 0 m" "(off, fde) \<in> F"
  shows "ranges_of F (InsertFde off fde m)"
proof -
  obtain pre it where m: "m = pre @ it" and it: "\<forall>x \<in> set it. fde_pc_start fde < fst x"
    and i: "InsertFde off fde m = pre @ insert_range off (fde_pc_start fde) (fde_pc_end fde) it"
    using InsertFde_split [OF assms(2)] by blast
  have r: "ranges (if pre = [] then 0 else fst (last pre)) it" using assms(2) unfolding m ranges_append by simp
  let ?new = "{(e', s', off) |e' s'. fde_pc_start fde \<le> s' \<and> e' \<le> fde_pc_end fde}"
  have "set (insert_range off (fde_pc_start fde) (fde_pc_end fde) it) \<subseteq> set it \<union> ?new"
  proof
    fix x assume x: "x \<in> set (insert_range off (fde_pc_start fde) (fde_pc_end fde) it)"
    show "x \<in> set it \<union> ?new" using insert_range_parts [OF r x it] by blast
  qed
  then have "set (InsertFde off fde m) \<subseteq> set m \<union> ?new" using i by (auto simp: m)
  then show ?thesis using assms(1,3) by (fastforce simp: ranges_of_def)
qed

lemma insert_all_ranges_of:
  "ranges_of F m \<Longrightarrow> ranges 0 m \<Longrightarrow> set l \<subseteq> F \<Longrightarrow> ranges_of F (insert_all l m)"
proof (induction l arbitrary: m)
  case (Cons x l)
  then show ?case
    using InsertFde_ranges_of [of F m "fst x" "snd x"] InsertFde_spec [of m "fst x" "snd x"]
    by (cases x) (simp add: insert_all_def)
qed (simp add: insert_all_def)

section \<open>The scan of the section\<close>

text \<open>
  The entries that \<open>BuildFdeIndex\<close> reads, one after another: the FDEs with their offsets and the state
  behind them. The scan ends at the end of the section, at an entry that cannot be read, or behind an
  entry whose length ends before what was read of it.
\<close>

definition found :: "u64 \<Rightarrow> DwarfFde option \<Rightarrow> (u64 \<times> DwarfFde) list" where
  "found offset f = (case f of None \<Rightarrow> [] | Some fde \<Rightarrow> [(offset, fde)])"

inductive scan :: "SectionEnv \<Rightarrow> u64 \<Rightarrow> DwarfSection \<Rightarrow> (u64 \<times> DwarfFde) list \<Rightarrow> DwarfSection \<Rightarrow> bool"
  for env :: SectionEnv where
  scan_end: "\<not> offset < entries_end s \<Longrightarrow> scan env offset s [] s"
| scan_error: "offset < entries_end s \<Longrightarrow> GetNextCieOrFde env offset s = Some (Failed s') \<Longrightarrow> scan env offset s [] s'"
| scan_last: "offset < entries_end s \<Longrightarrow> GetNextCieOrFde env offset s = Some (Done (next, f) s') \<Longrightarrow>
     next < cur_offset (ds_memory s') \<Longrightarrow> scan env offset s (found offset f) s'"
| scan_entry: "offset < entries_end s \<Longrightarrow> GetNextCieOrFde env offset s = Some (Done (next, f) s') \<Longrightarrow>
     \<not> next < cur_offset (ds_memory s') \<Longrightarrow> scan env next s' l s'' \<Longrightarrow> scan env offset s (found offset f @ l) s''"

lemma insert_found:
  "insert_all (found offset f @ l) fdes =
     insert_all l (case f of None \<Rightarrow> fdes | Some fde \<Rightarrow> InsertFde offset fde fdes)"
  by (simp add: found_def insert_all_def split: option.split)

lemma insert_all_Nil [simp]: "insert_all [] fdes = fdes"
  by (simp add: insert_all_def)

lemma BuildFdeIndex_loop_scan:
  "scan env offset s l s' \<Longrightarrow> BuildFdeIndex_loop env offset fdes s = Some (Done (insert_all l fdes) s')"
proof (induction arbitrary: fdes rule: scan.induct)
  case (scan_last offset s "next" f s')
  then show ?case
    using insert_found [of offset f "[]" fdes] by (subst BuildFdeIndex_loop.simps) (simp add: Let_def)
next
  case (scan_entry offset s "next" f s' l s'')
  then show ?case by (subst BuildFdeIndex_loop.simps) (simp add: Let_def insert_found)
qed (subst BuildFdeIndex_loop.simps, simp)+

text \<open>The functions that read entries leave the index alone.\<close>

definition keeps_index :: "'x sec \<Rightarrow> bool" where
  "keeps_index m \<longleftrightarrow> (\<forall>s r. m s = Some r \<longrightarrow> (\<forall>x s'. r = Done x s' \<or> r = Failed s' \<longrightarrow> fde_index s' = fde_index s))"

named_theorems keeps

lemma keeps_bind [keeps]:
  assumes "keeps_index m" "\<And>x. keeps_index (f x)"
  shows "keeps_index (sec_bind m f)"
  unfolding keeps_index_def
proof (intro allI impI)
  fix s r x s' assume h: "sec_bind m f s = Some r" "r = Done x s' \<or> r = Failed s'"
  show "fde_index s' = fde_index s"
  proof (cases "m s")
    case None
    then show ?thesis using h by (simp add: sec_bind_def)
  next
    case (Some q)
    then show ?thesis
    proof (cases q)
      case (Done y t)
      then have "f y t = Some r" using h Some by (simp add: sec_bind_def)
      then have "fde_index s' = fde_index t" using h(2) assms(2) unfolding keeps_index_def by blast
      then show ?thesis using assms(1) Some Done unfolding keeps_index_def by fastforce
    next
      case (Failed t)
      then have "r = Failed t" using h Some by (simp add: sec_bind_def)
      then show ?thesis using assms(1) Some Failed h(2) unfolding keeps_index_def by auto
    next
      case Undef
      then show ?thesis using h Some by (auto simp: sec_bind_def)
    qed
  qed
qed

lemma keeps_at:
  assumes "\<And>s. \<exists>m t. f s = m t \<and> keeps_index m \<and> fde_index t = fde_index s"
  shows "keeps_index f"
  unfolding keeps_index_def
proof (intro allI impI)
  fix s r x s' assume h: "f s = Some r" "r = Done x s' \<or> r = Failed s'"
  from assms [of s] obtain m t where "f s = m t" "keeps_index m" "fde_index t = fde_index s" by blast
  then show "fde_index s' = fde_index s" using h unfolding keeps_index_def by metis
qed

lemma keeps_basic [keeps]:
  "keeps_index (sec_return x)" "keeps_index (sec_fail c)" "keeps_index sec_tell" "keeps_index (sec_seek a)"
  "keeps_index sec_fail_memory" "keeps_index (sec_pc_offset a)" "keeps_index (sec_read rd)"
  by (auto simp: keeps_index_def sec_return_def sec_fail_def sec_tell_def sec_seek_def set_memory_def
      sec_fail_memory_def sec_pc_offset_def sec_read_def split: outcome.splits)

lemma keeps_if [keeps]: "keeps_index m \<Longrightarrow> keeps_index n \<Longrightarrow> keeps_index (if b then m else n)"
  by simp

lemma keeps_reads [keeps]: "keeps_index (Read8_sec env)" "keeps_index (Read32_sec env)" "keeps_index (Read64_sec env)"
  unfolding Read8_sec_def Read32_sec_def Read64_sec_def by (intro keeps)+

lemma keeps_store [keeps]:
  "keeps_index (\<lambda>s. Some (Done x (s\<lparr>cie_entries := f (cie_entries s)\<rparr>)))"
  "keeps_index (\<lambda>s. Some (Done x (s\<lparr>fde_entries := g (fde_entries s)\<rparr>)))"
  "keeps_index (\<lambda>s. Some (Done x (set_memory (h s) s)))"
  by (simp_all add: keeps_index_def set_memory_def)

lemma read_augmentation_result:
  assumes "read_augmentation env acc s = Some r"
  shows "\<forall>x s'. r = Done x s' \<or> r = Failed s' \<longrightarrow> fde_index s' = fde_index s"
proof (rule read_augmentation.raw_induct [where P = "\<lambda>env acc s r.
    \<forall>x s'. r = Done x s' \<or> r = Failed s' \<longrightarrow> fde_index s' = fde_index s", OF _ assms], goal_cases)
  case (1 f env acc s r)
  have k: "keeps_index (Read8_sec env)" by (rule keeps_reads)
  have "fde_index t = fde_index s" if "Read8_sec env s = Some (Done x t) \<or> Read8_sec env s = Some (Failed t)" for x t
    using k that unfolding keeps_index_def by blast
  then show ?case using 1 by (fastforce split: option.splits outcome.splits if_splits)
qed

lemma read_augmentation_keeps_index [keeps]: "keeps_index (read_augmentation env acc)"
  using read_augmentation_result unfolding keeps_index_def by blast

lemma keeps_pc_offset [keeps]: "keeps_index (\<lambda>s. sec_pc_offset (ds_pc_offset s) s)"
  by (rule keeps_at) (use keeps_basic in blast)

lemma read_augmentation_data_keeps_index [keeps]: "keeps_index (read_augmentation_data env cs cie)"
proof (induction env cs cie rule: read_augmentation_data.induct)
  case (2 env c cs cie)
  then show ?case by (simp add: keeps_bind keeps_reads keeps_basic keeps_pc_offset)
qed (simp add: keeps_basic)

lemma FillInCie_keeps_index [keeps]: "keeps_index (FillInCie env cie)"
  unfolding FillInCie_def Let_def by (intro keeps)

lemma keeps_test [keeps]:
  "keeps_index m \<Longrightarrow> keeps_index n \<Longrightarrow> keeps_index (\<lambda>s. if P s then m s else n s)"
  "keeps_index (\<lambda>s. sec_return (g s) s)"
  by (auto simp: keeps_index_def sec_return_def)

lemma FillInCieHeader_keeps_index [keeps]: "keeps_index (FillInCieHeader env cie)"
  unfolding FillInCieHeader_def Let_def by (intro keeps)

lemma GetCieFromOffset_keeps_index [keeps]: "keeps_index (GetCieFromOffset env offset)"
proof (rule keeps_at)
  fix s
  let ?read = "sec_bind (sec_bind (FillInCieHeader env DwarfCie_init) (FillInCie env))
    (\<lambda>cie s. Some (Done cie (s\<lparr>cie_entries := (cie_entries s)(offset \<mapsto> cie)\<rparr>)))"
  have "keeps_index ?read" by (intro keeps)
  moreover have "keeps_index (sec_return cie)" for cie :: DwarfCie by (rule keeps)
  ultimately show "\<exists>m t. GetCieFromOffset env offset s = m t \<and> keeps_index m \<and> fde_index t = fde_index s"
    unfolding GetCieFromOffset_def set_memory_def
    by (cases "cie_entries s offset") (force, fastforce)
qed

lemma read_pc_start_keeps_index [keeps]: "keeps_index (read_pc_start env e)"
  by (auto simp: keeps_index_def read_pc_start_def Let_def set_memory_def sec_fail_memory_def sec_return_def
      split: outcome.splits)

lemma FillInFde_keeps_index [keeps]: "keeps_index (FillInFde env fde)"
  unfolding FillInFde_def Let_def by (intro keeps)

lemma keeps_cached [keeps]:
  assumes "keeps_index m"
  shows "keeps_index (\<lambda>s. case cie_entries s off of Some cie \<Rightarrow> sec_return x s | None \<Rightarrow> m s)"
  using assms by (auto simp: keeps_index_def sec_return_def split: option.splits)

lemma keeps_entry [keeps]:
  "(\<And>a b. keeps_index (f a b)) \<Longrightarrow> keeps_index (case p of (a, b) \<Rightarrow> f a b)"
  "(\<And>a. keeps_index (g a)) \<Longrightarrow> (\<And>b. keeps_index (h b)) \<Longrightarrow> keeps_index (case q of Inl a \<Rightarrow> g a | Inr b \<Rightarrow> h b)"
  by (cases p, simp) (cases q, simp_all)

lemma GetNextCieOrFde_keeps_index: "keeps_index (GetNextCieOrFde env offset)"
  unfolding GetNextCieOrFde_def by (intro keeps)

lemma scan_keeps_index: "scan env offset s l s' \<Longrightarrow> fde_index s' = fde_index s"
proof (induction rule: scan.induct)
  case (scan_error offset s s')
  then show ?case using GetNextCieOrFde_keeps_index unfolding keeps_index_def by blast
next
  case (scan_last offset s "next" f s')
  then show ?case using GetNextCieOrFde_keeps_index unfolding keeps_index_def by blast
next
  case (scan_entry offset s "next" f s' l s'')
  then have "fde_index s' = fde_index s" using GetNextCieOrFde_keeps_index unfolding keeps_index_def by blast
  then show ?case using scan_entry by simp
qed simp

section \<open>The lookup is a linear search\<close>

lemma upper_bound_map:
  "upper_bound pc (map (\<lambda>(e, v). (e, f v)) m) = map (\<lambda>(e, v). (e, f v)) (upper_bound pc m)"
  by (induction m) (auto simp: upper_bound_def)

text \<open>The index that the entries of a scan give.\<close>

definition index_of :: "(u64 \<times> DwarfFde) list \<Rightarrow> (u64 \<times> u64) list" where
  "index_of l = map (\<lambda>(e, start, off). (e, off)) (insert_all l [])"

lemma index_ready_scan:
  assumes "fde_index s = []" "scan env (entries_offset s) s l s'"
  shows "index_ready env s = Some (Done () (s'\<lparr>fde_index := index_of l\<rparr>))"
  using assms scan_keeps_index [OF assms(2)] BuildFdeIndex_loop_scan [OF assms(2), of "[]"]
  by (simp add: index_ready_def BuildFdeIndex_def sec_bind_def index_of_def)

lemma first_cover_Some: "first_cover l pc = Some (off, fde) \<Longrightarrow> (off, fde) \<in> set l \<and> covers fde pc"
  unfolding first_cover_def by (auto simp: find_Some_iff) (metis nth_mem)

lemma first_cover_None: "first_cover l pc = None \<Longrightarrow> (off, fde) \<in> set l \<Longrightarrow> \<not> covers fde pc"
  unfolding first_cover_def by (auto simp: find_None_iff)

text \<open>The entry at the upper bound is of the first FDE that covers the program counter, when there is one.\<close>

lemma index_lookup:
  "case upper_bound pc (index_of l) of
     [] \<Rightarrow> first_cover l pc = None
   | (e, off) # _ \<Rightarrow> \<exists>fde. (off, fde) \<in> set l \<and> pc < fde_pc_end fde \<and>
       (case first_cover l pc of None \<Rightarrow> pc < fde_pc_start fde | Some (off', fde') \<Rightarrow> off' = off)"
proof (cases "upper_bound pc (insert_all l [])")
  case Nil
  then show ?thesis
    using insert_all_spec [of "[]" l pc] range_at_upper_bound [of "insert_all l []" pc]
    by (simp add: index_of_def upper_bound_map [where f = snd, unfolded case_prod_unfold] case_prod_unfold)
next
  case (Cons x rest)
  obtain e start off where x: "x = (e, start, off)" by (cases x) auto
  have "x \<in> set (insert_all l [])" using Cons unfolding upper_bound_def by (metis list.set_intros(1) set_dropWhileD)
  then obtain fde where fde: "(off, fde) \<in> set l" "fde_pc_start fde \<le> start" "e \<le> fde_pc_end fde"
    using insert_all_ranges_of [of "set l" "[]" l] by (auto simp: ranges_of_def x)
  have "\<not> e \<le> pc" using Cons hd_dropWhile [of "\<lambda>(e, v). e \<le> pc" "insert_all l []"] by (auto simp: upper_bound_def x)
  then have pc: "pc < fde_pc_end fde" using fde(3) by simp
  have r: "(if start \<le> pc then Some off else None) = map_option fst (first_cover l pc)"
    using insert_all_spec [of "[]" l pc] range_at_upper_bound [of "insert_all l []" pc] Cons by (simp add: x)
  have "case first_cover l pc of None \<Rightarrow> pc < fde_pc_start fde | Some (off', fde') \<Rightarrow> off' = off"
  proof (cases "first_cover l pc")
    case None
    then have "\<not> covers fde pc" using fde(1) first_cover_None by blast
    then show ?thesis using None pc by (simp add: covers_def not_le)
  next
    case (Some y)
    then show ?thesis using r by (cases y) (auto split: if_splits)
  qed
  then have "\<exists>fde. (off, fde) \<in> set l \<and> pc < fde_pc_end fde \<and>
       (case first_cover l pc of None \<Rightarrow> pc < fde_pc_start fde | Some (off', fde') \<Rightarrow> off' = off)"
    using fde(1) pc by blast
  moreover have "upper_bound pc (index_of l) = (e, off) # map (\<lambda>(e, start, off). (e, off)) rest"
    using Cons upper_bound_map [where f = snd, of pc "insert_all l []"]
    by (simp add: index_of_def case_prod_unfold x)
  ultimately show ?thesis by simp
qed

text \<open>
  Property C40. The lookup of an FDE by program counter in a section without a table of its own is the
  linear search of its entries. Let the scan of the section find the FDEs \<open>l\<close>, in the order of their
  offsets, and let every one of them be readable again at its offset. Then \<open>GetFdeFromPc\<close> returns, for
  every program counter, the first FDE of the section whose range covers it, and a null pointer when
  none does: also where the ranges overlap, are nested, empty or reversed, for which the index is
  split into pieces.
\<close>

theorem lookup_is_linear_search:
  assumes "fde_index s = []"
    and "scan env (entries_offset s) s l s'"
    and "\<And>off fde. (off, fde) \<in> set l \<Longrightarrow>
      \<exists>t. GetFdeFromOffset env off (s'\<lparr>fde_index := index_of l\<rparr>) = Some (Done fde t)"
  shows "\<exists>t. DwarfSection_GetFdeFromPc env pc s =
    Some (case first_cover l pc of None \<Rightarrow> Failed t | Some (off, fde) \<Rightarrow> Done fde t)"
proof (cases "upper_bound pc (index_of l)")
  case Nil
  then show ?thesis using index_lookup [of l pc] index_ready_scan [OF assms(1,2)]
    by (auto simp: DwarfSection_GetFdeFromPc_def sec_bind_def)
next
  case (Cons x rest)
  obtain e off where x: "x = (e, off)" by (cases x)
  let ?s = "s'\<lparr>fde_index := index_of l\<rparr>"
  obtain fde where fde: "(off, fde) \<in> set l" "pc < fde_pc_end fde"
    and c: "case first_cover l pc of None \<Rightarrow> pc < fde_pc_start fde | Some (off', fde') \<Rightarrow> off' = off"
    using index_lookup [of l pc] Cons x by auto
  obtain t where t: "GetFdeFromOffset env off ?s = Some (Done fde t)" using assms(3) [OF fde(1)] by blast
  have "DwarfSection_GetFdeFromPc env pc s = Some (if fde_pc_start fde \<le> pc then Done fde t else Failed t)"
    using Cons x t index_ready_scan [OF assms(1,2)]
    by (auto simp: DwarfSection_GetFdeFromPc_def sec_bind_def sec_return_def)
  moreover have "fde_pc_start fde \<le> pc \<and> fde' = fde" if "first_cover l pc = Some (off', fde')" for off' fde'
  proof -
    have "off' = off" using c that by simp
    then have f': "(off, fde') \<in> set l" "covers fde' pc" using first_cover_Some [OF that] by auto
    then have "fde' = fde" using assms(3) [OF f'(1)] t by auto
    then show ?thesis using f'(2) by (simp add: covers_def)
  qed
  moreover have "\<not> fde_pc_start fde \<le> pc" if "first_cover l pc = None" using c that by simp
  ultimately show ?thesis by (cases "first_cover l pc") auto
qed

text \<open>A \<open>.debug_frame\<close> of a CIE and two overlapping FDEs, \<open>[0x100, 0x150)\<close> and \<open>[0x80, 0x280)\<close>.\<close>

definition sample_section :: "u8 list" where
  "sample_section =
     [9, 0, 0, 0, 0xff, 0xff, 0xff, 0xff, 1, 0, 1, 0x78, 30,
      12, 0, 0, 0, 0, 0, 0, 0, 0, 1, 0, 0, 0x50, 0, 0, 0,
      12, 0, 0, 0, 0, 0, 0, 0, 0x80, 0, 0, 0, 0, 2, 0, 0]"

definition section_env :: SectionEnv where
  "section_env = \<lparr>sec_reader = MemoryBuffer_Read sample_section, sec_class = DEBUG_FRAME, sec_asz = 8\<rparr>"

definition sample_state :: DwarfSection where
  "sample_state = (DwarfSection_new DEBUG_FRAME)\<lparr>entries_end := 45\<rparr>"

lemmas section_eval = sec_bind_def sec_read_def sec_return_def sec_tell_def sec_seek_def set_memory_def
  Read8_sec_def Read32_sec_def ReadBytes_def ReadFully_def MemoryBuffer_Read_def le_word_def
  ReadULEB128_def ReadSLEB128_def leb_loop.simps read_augmentation.simps
  ReadEncodedValue_def read_format_def read_unsigned_def ReadSigned_def sign_extend_def AdjustEncodedValue_def pe_defs
  GetNextCieOrFde_def GetFdeFromOffset_def GetCieFromOffset_def FillInCie_def FillInFdeHeader_def FillInFde_def
  read_pc_start_def GetCieOffsetFromFde32_def AdjustPcFromFde_def Let_def
  DwarfSection_new_def DwarfMemory_init_def DwarfCie_init_def DwarfFde_init_def

definition section_cie :: DwarfCie where
  "section_cie = DwarfCie_init\<lparr>cie_lsda_encoding := DW_EH_PE_omit, cie_cfa_instructions_end := 13,
     cie_fde_address_encoding := DW_EH_PE_sdata4, cie_version := 1, cie_augmentation_string := [0],
     cie_code_alignment_factor := 1, cie_data_alignment_factor := 120 OR NOT (mask 7),
     cie_return_address_register := 30, cie_cfa_instructions_offset := 13\<rparr>"

definition sample_range :: "u64 \<Rightarrow> u64 \<Rightarrow> u64 \<Rightarrow> DwarfFde" where
  "sample_range off start e = DwarfFde_init\<lparr>fde_cfa_instructions_end := off + 16,
     fde_cfa_instructions_offset := off + 16, fde_pc_start := start, fde_pc_end := e, fde_cie := section_cie\<rparr>"

text \<open>The state with the CIE read, and the cursor and the offset for pc-relative values.\<close>

definition sample_read :: "u64 \<Rightarrow> u64 \<Rightarrow> DwarfSection" where
  "sample_read cur pc = sample_state\<lparr>ds_memory := DwarfMemory_init\<lparr>cur_offset := cur, pc_offset := pc, data_offset := 0\<rparr>,
     cie_entries := [0 \<mapsto> section_cie]\<rparr>"

lemmas sample_defs = section_cie_def section_env_def sample_section_def sample_range_def sample_read_def sample_state_def

lemma sample_entries:
  "GetNextCieOrFde section_env 0 sample_state = Some (Done (13, None) (sample_read 13 INT64_MAX))"
  "GetNextCieOrFde section_env 13 (sample_read 13 INT64_MAX) =
     Some (Done (29, Some (sample_range 13 0x100 0x150)) (sample_read 29 0))"
  "GetNextCieOrFde section_env 29 (sample_read 29 0) =
     Some (Done (45, Some (sample_range 29 0x80 0x280)) (sample_read 45 0))"
  by (simp_all add: section_eval sample_defs)

lemma sample_reread:
  "\<exists>t. GetFdeFromOffset section_env 13 (sample_read 45 0\<lparr>fde_index := ix\<rparr>) = Some (Done (sample_range 13 0x100 0x150) t)"
  "\<exists>t. GetFdeFromOffset section_env 29 (sample_read 45 0\<lparr>fde_index := ix\<rparr>) = Some (Done (sample_range 29 0x80 0x280) t)"
  by (simp_all add: section_eval sample_defs)

lemma sample_cursor [simp]:
  "entries_end sample_state = 45" "entries_end (sample_read cur pc) = 45" "fde_index sample_state = []"
  "cur_offset (ds_memory (sample_read cur pc)) = cur" "entries_offset sample_state = 0"
  by (simp_all add: sample_state_def sample_read_def DwarfSection_new_def)

lemma sample_scan:
  "scan section_env 0 sample_state [(13, sample_range 13 0x100 0x150), (29, sample_range 29 0x80 0x280)] (sample_read 45 0)"
proof -
  have 3: "scan section_env 45 (sample_read 45 0) [] (sample_read 45 0)" by (rule scan_end) simp
  have 2: "scan section_env 29 (sample_read 29 0) [(29, sample_range 29 0x80 0x280)] (sample_read 45 0)"
    using scan_entry [OF _ sample_entries(3) _ 3] by (simp add: found_def)
  have 1: "scan section_env 13 (sample_read 13 INT64_MAX)
      [(13, sample_range 13 0x100 0x150), (29, sample_range 29 0x80 0x280)] (sample_read 45 0)"
    using scan_entry [OF _ sample_entries(2) _ 2] by (simp add: found_def)
  show ?thesis using scan_entry [OF _ sample_entries(1) _ 1] by (simp add: found_def)
qed

lemma lookup_is_linear_search_witness:
  "(\<exists>t. DwarfSection_GetFdeFromPc section_env 0x120 sample_state = Some (Done (sample_range 13 0x100 0x150) t)) \<and>
   (\<exists>t. DwarfSection_GetFdeFromPc section_env 0x90 sample_state = Some (Done (sample_range 29 0x80 0x280) t)) \<and>
   (\<exists>t. DwarfSection_GetFdeFromPc section_env 0x280 sample_state = Some (Failed t))"
proof -
  have r: "\<exists>t. GetFdeFromOffset section_env off (sample_read 45 0\<lparr>fde_index := ix\<rparr>) = Some (Done fde t)"
    if "(off, fde) \<in> set [(13, sample_range 13 0x100 0x150), (29, sample_range 29 0x80 0x280)]" for off fde ix
    using that sample_reread by auto
  have s: "scan section_env (entries_offset sample_state) sample_state
      [(13, sample_range 13 0x100 0x150), (29, sample_range 29 0x80 0x280)] (sample_read 45 0)"
    using sample_scan by simp
  note found = lookup_is_linear_search [OF _ s r, simplified]
  show ?thesis
    using found [of "0x120"] found [of "0x90"] found [of "0x280"]
    by (simp add: first_cover_def covers_def sample_range_def)
qed

end
