(* ===== verification/RegsContexts.thy ===== *)
theory RegsContexts
  imports Registers
begin

text \<open>
  Filling registers from kernel structures (\<open>User<Arch>.h\<close>, \<open>Ucontext<Arch>.h\<close>), listing them, and
  stepping over signal handlers: the rest of \<open>unwindstack/Regs<Arch>.cpp\<close>. Of a \<open>ucontext\<close> only the
  member \<open>uc_mcontext\<close> is used, so it stands for the whole.
\<close>

section \<open>Kernel structures\<close>

record arm_user_regs =
  au_regs :: "u32 list"

record arm64_user_regs =
  a64u_regs :: "u64 list"
  a64u_sp :: u64
  a64u_pc :: u64
  a64u_pstate :: u64

record mips_user_regs =
  mu_regs :: "u32 list"

record mips64_user_regs =
  m64u_regs :: "u64 list"

record x86_user_regs =
  xu_ebx :: u32
  xu_ecx :: u32
  xu_edx :: u32
  xu_esi :: u32
  xu_edi :: u32
  xu_ebp :: u32
  xu_eax :: u32
  xu_xds :: u32
  xu_xes :: u32
  xu_xfs :: u32
  xu_xgs :: u32
  xu_orig_eax :: u32
  xu_eip :: u32
  xu_xcs :: u32
  xu_eflags :: u32
  xu_esp :: u32
  xu_xss :: u32

record x86_64_user_regs =
  x64u_r15 :: u64
  x64u_r14 :: u64
  x64u_r13 :: u64
  x64u_r12 :: u64
  x64u_rbp :: u64
  x64u_rbx :: u64
  x64u_r11 :: u64
  x64u_r10 :: u64
  x64u_r9 :: u64
  x64u_r8 :: u64
  x64u_rax :: u64
  x64u_rcx :: u64
  x64u_rdx :: u64
  x64u_rsi :: u64
  x64u_rdi :: u64
  x64u_orig_rax :: u64
  x64u_rip :: u64
  x64u_cs :: u64
  x64u_eflags :: u64
  x64u_rsp :: u64
  x64u_ss :: u64
  x64u_fs_base :: u64
  x64u_gs_base :: u64
  x64u_ds :: u64
  x64u_es :: u64
  x64u_fs :: u64
  x64u_gs :: u64

record arm_mcontext_t =
  am_trap_no :: u32
  am_error_code :: u32
  am_oldmask :: u32
  am_regs :: "u32 list"
  am_cpsr :: u32
  am_fault_address :: u32

record arm64_mcontext_t =
  a64m_fault_address :: u64
  a64m_regs :: "u64 list"
  a64m_pstate :: u64

record mips_mcontext_t =
  mm_sc_regmask :: u32
  mm_sc_status :: u32
  mm_sc_pc :: u64
  mm_sc_regs :: "u64 list"

record mips64_mcontext_t =
  m64m_sc_regs :: "u64 list"
  m64m_sc_fpregs :: "u64 list"
  m64m_sc_mdhi :: u64
  m64m_sc_hi1 :: u64
  m64m_sc_hi2 :: u64
  m64m_sc_hi3 :: u64
  m64m_sc_mdlo :: u64
  m64m_sc_lo1 :: u64
  m64m_sc_lo2 :: u64
  m64m_sc_lo3 :: u64
  m64m_sc_pc :: u64

record x86_mcontext_t =
  xm_gs :: u32
  xm_fs :: u32
  xm_es :: u32
  xm_ds :: u32
  xm_edi :: u32
  xm_esi :: u32
  xm_ebp :: u32
  xm_esp :: u32
  xm_ebx :: u32
  xm_edx :: u32
  xm_ecx :: u32
  xm_eax :: u32
  xm_trapno :: u32
  xm_err :: u32
  xm_eip :: u32
  xm_cs :: u32
  xm_efl :: u32
  xm_uesp :: u32
  xm_ss :: u32

record x86_64_mcontext_t =
  x64m_r8 :: u64
  x64m_r9 :: u64
  x64m_r10 :: u64
  x64m_r11 :: u64
  x64m_r12 :: u64
  x64m_r13 :: u64
  x64m_r14 :: u64
  x64m_r15 :: u64
  x64m_rdi :: u64
  x64m_rsi :: u64
  x64m_rbp :: u64
  x64m_rbx :: u64
  x64m_rdx :: u64
  x64m_rax :: u64
  x64m_rcx :: u64
  x64m_rsp :: u64
  x64m_rip :: u64
  x64m_efl :: u64
  x64m_csgsfs :: u64
  x64m_err :: u64
  x64m_trapno :: u64
  x64m_oldmask :: u64
  x64m_cr2 :: u64

text \<open>A structure of equal words, as it lies in memory.\<close>

definition read_x86_mcontext :: "u8 list \<Rightarrow> x86_mcontext_t" where
  "read_x86_mcontext bs = \<lparr>
     xm_gs = le_words 4 bs ! 0, xm_fs = le_words 4 bs ! 1, xm_es = le_words 4 bs ! 2,
     xm_ds = le_words 4 bs ! 3, xm_edi = le_words 4 bs ! 4, xm_esi = le_words 4 bs ! 5,
     xm_ebp = le_words 4 bs ! 6, xm_esp = le_words 4 bs ! 7, xm_ebx = le_words 4 bs ! 8,
     xm_edx = le_words 4 bs ! 9, xm_ecx = le_words 4 bs ! 10, xm_eax = le_words 4 bs ! 11,
     xm_trapno = le_words 4 bs ! 12, xm_err = le_words 4 bs ! 13, xm_eip = le_words 4 bs ! 14,
     xm_cs = le_words 4 bs ! 15, xm_efl = le_words 4 bs ! 16, xm_uesp = le_words 4 bs ! 17,
     xm_ss = le_words 4 bs ! 18\<rparr>"

definition read_x86_64_mcontext :: "u8 list \<Rightarrow> x86_64_mcontext_t" where
  "read_x86_64_mcontext bs = \<lparr>
     x64m_r8 = le_words 8 bs ! 0, x64m_r9 = le_words 8 bs ! 1, x64m_r10 = le_words 8 bs ! 2,
     x64m_r11 = le_words 8 bs ! 3, x64m_r12 = le_words 8 bs ! 4, x64m_r13 = le_words 8 bs ! 5,
     x64m_r14 = le_words 8 bs ! 6, x64m_r15 = le_words 8 bs ! 7, x64m_rdi = le_words 8 bs ! 8,
     x64m_rsi = le_words 8 bs ! 9, x64m_rbp = le_words 8 bs ! 10, x64m_rbx = le_words 8 bs ! 11,
     x64m_rdx = le_words 8 bs ! 12, x64m_rax = le_words 8 bs ! 13, x64m_rcx = le_words 8 bs ! 14,
     x64m_rsp = le_words 8 bs ! 15, x64m_rip = le_words 8 bs ! 16, x64m_efl = le_words 8 bs ! 17,
     x64m_csgsfs = le_words 8 bs ! 18, x64m_err = le_words 8 bs ! 19,
     x64m_trapno = le_words 8 bs ! 20, x64m_oldmask = le_words 8 bs ! 21,
     x64m_cr2 = le_words 8 bs ! 22\<rparr>"

section \<open>Filling registers\<close>

text \<open>\<open>memcpy\<close> of the first words into the registers.\<close>

definition copy_words :: "'a::len word list \<Rightarrow> 'a Regs \<Rightarrow> 'a Regs" where
  "copy_words ws r = r\<lparr>reg_values := ws @ drop (length ws) (reg_values r)\<rparr>"

definition set_regs :: "(nat \<times> 'a::len word) list \<Rightarrow> 'a Regs \<Rightarrow> 'a Regs" where
  "set_regs vs r = fold (\<lambda>(i, v). set_reg i v) vs r"

definition RegsArm_Read :: "arm_user_regs \<Rightarrow> 32 Regs" where
  "RegsArm_Read user = copy_words (take ARM_REG_LAST (au_regs user)) RegsArm_new"

definition RegsArm64_Read :: "arm64_user_regs \<Rightarrow> 64 Regs" where
  "RegsArm64_Read user =
     set_regs [(ARM64_REG_SP, a64u_sp user), (ARM64_REG_PC, a64u_pc user), (ARM64_REG_PSTATE, a64u_pstate user)]
       (copy_words (take (ARM64_REG_R30 + 1) (a64u_regs user)) RegsArm64_new)"

definition MIPS32_EF_R0 :: nat where "MIPS32_EF_R0 = 6"
definition MIPS32_EF_CP0_EPC :: nat where "MIPS32_EF_CP0_EPC = 40"
definition MIPS64_EF_R0 :: nat where "MIPS64_EF_R0 = 0"
definition MIPS64_EF_CP0_EPC :: nat where "MIPS64_EF_CP0_EPC = 34"

definition RegsMips_Read :: "mips_user_regs \<Rightarrow> 32 Regs" where
  "RegsMips_Read user =
     set_reg MIPS_REG_PC (mu_regs user ! MIPS32_EF_CP0_EPC)
       (copy_words (take (MIPS_REG_R31 + 1) (drop MIPS32_EF_R0 (mu_regs user))) RegsMips_new)"

definition RegsMips64_Read :: "mips64_user_regs \<Rightarrow> 64 Regs" where
  "RegsMips64_Read user =
     set_reg MIPS64_REG_PC (m64u_regs user ! MIPS64_EF_CP0_EPC)
       (copy_words (take (MIPS64_REG_R31 + 1) (drop MIPS64_EF_R0 (m64u_regs user))) RegsMips64_new)"

definition RegsX86_Read :: "x86_user_regs \<Rightarrow> 32 Regs" where
  "RegsX86_Read user =
     set_regs
       [(X86_REG_EAX, xu_eax user), (X86_REG_EBX, xu_ebx user), (X86_REG_ECX, xu_ecx user),
        (X86_REG_EDX, xu_edx user), (X86_REG_EBP, xu_ebp user), (X86_REG_EDI, xu_edi user),
        (X86_REG_ESI, xu_esi user), (X86_REG_ESP, xu_esp user), (X86_REG_EIP, xu_eip user)] RegsX86_new"

definition RegsX86_64_Read :: "x86_64_user_regs \<Rightarrow> 64 Regs" where
  "RegsX86_64_Read user =
     set_regs
       [(X86_64_REG_RAX, x64u_rax user), (X86_64_REG_RBX, x64u_rbx user),
        (X86_64_REG_RCX, x64u_rcx user), (X86_64_REG_RDX, x64u_rdx user),
        (X86_64_REG_R8, x64u_r8 user), (X86_64_REG_R9, x64u_r9 user),
        (X86_64_REG_R10, x64u_r10 user), (X86_64_REG_R11, x64u_r11 user),
        (X86_64_REG_R12, x64u_r12 user), (X86_64_REG_R13, x64u_r13 user),
        (X86_64_REG_R14, x64u_r14 user), (X86_64_REG_R15, x64u_r15 user),
        (X86_64_REG_RDI, x64u_rdi user), (X86_64_REG_RSI, x64u_rsi user),
        (X86_64_REG_RBP, x64u_rbp user), (X86_64_REG_RSP, x64u_rsp user),
        (X86_64_REG_RIP, x64u_rip user)] RegsX86_64_new"

definition RegsArm_CreateFromUcontext :: "arm_mcontext_t \<Rightarrow> 32 Regs" where
  "RegsArm_CreateFromUcontext uc = copy_words (take ARM_REG_LAST (am_regs uc)) RegsArm_new"

definition RegsArm64_CreateFromUcontext :: "arm64_mcontext_t \<Rightarrow> 64 Regs" where
  "RegsArm64_CreateFromUcontext uc = copy_words (take ARM64_REG_LAST (a64m_regs uc)) RegsArm64_new"

definition RegsMips_CreateFromUcontext :: "mips_mcontext_t \<Rightarrow> 32 Regs" where
  "RegsMips_CreateFromUcontext uc =
     set_reg MIPS_REG_PC (ucast (mm_sc_pc uc))
       (set_regs (map (\<lambda>i. (MIPS_REG_R0 + i, ucast (mm_sc_regs uc ! i))) [0..<32]) RegsMips_new)"

definition RegsMips64_CreateFromUcontext :: "mips64_mcontext_t \<Rightarrow> 64 Regs" where
  "RegsMips64_CreateFromUcontext uc =
     set_reg MIPS64_REG_PC (m64m_sc_pc uc) (copy_words (take 32 (m64m_sc_regs uc)) RegsMips64_new)"

definition RegsX86_SetFromUcontext :: "x86_mcontext_t \<Rightarrow> 32 Regs \<Rightarrow> 32 Regs" where
  "RegsX86_SetFromUcontext uc =
     set_regs
       [(X86_REG_EDI, xm_edi uc), (X86_REG_ESI, xm_esi uc), (X86_REG_EBP, xm_ebp uc),
        (X86_REG_ESP, xm_esp uc), (X86_REG_EBX, xm_ebx uc), (X86_REG_EDX, xm_edx uc),
        (X86_REG_ECX, xm_ecx uc), (X86_REG_EAX, xm_eax uc), (X86_REG_EIP, xm_eip uc)]"

definition RegsX86_64_SetFromUcontext :: "x86_64_mcontext_t \<Rightarrow> 64 Regs \<Rightarrow> 64 Regs" where
  "RegsX86_64_SetFromUcontext uc =
     set_regs
       [(X86_64_REG_R8, x64m_r8 uc), (X86_64_REG_R9, x64m_r9 uc), (X86_64_REG_R10, x64m_r10 uc),
        (X86_64_REG_R11, x64m_r11 uc), (X86_64_REG_R12, x64m_r12 uc),
        (X86_64_REG_R13, x64m_r13 uc), (X86_64_REG_R14, x64m_r14 uc),
        (X86_64_REG_R15, x64m_r15 uc), (X86_64_REG_RDI, x64m_rdi uc),
        (X86_64_REG_RSI, x64m_rsi uc), (X86_64_REG_RBP, x64m_rbp uc),
        (X86_64_REG_RBX, x64m_rbx uc), (X86_64_REG_RDX, x64m_rdx uc),
        (X86_64_REG_RAX, x64m_rax uc), (X86_64_REG_RCX, x64m_rcx uc),
        (X86_64_REG_RSP, x64m_rsp uc), (X86_64_REG_RIP, x64m_rip uc)]"

definition RegsX86_CreateFromUcontext :: "x86_mcontext_t \<Rightarrow> 32 Regs" where
  "RegsX86_CreateFromUcontext uc = RegsX86_SetFromUcontext uc RegsX86_new"

definition RegsX86_64_CreateFromUcontext :: "x86_64_mcontext_t \<Rightarrow> 64 Regs" where
  "RegsX86_64_CreateFromUcontext uc = RegsX86_64_SetFromUcontext uc RegsX86_64_new"

section \<open>Listing the registers\<close>

definition list_regs :: "(string \<times> nat) list \<Rightarrow> 'a::len Regs \<Rightarrow> (string \<times> u64) list" where
  "list_regs names r = map (\<lambda>(n, i). (n, ucast (reg_at i r))) names"

definition RegsArm_IterateRegisters :: "'a::len Regs \<Rightarrow> (string \<times> u64) list" where
  "RegsArm_IterateRegisters =
     list_regs
       [(''r0'', 0), (''r1'', 1), (''r2'', 2), (''r3'', 3), (''r4'', 4), (''r5'', 5), (''r6'', 6),
        (''r7'', 7), (''r8'', 8), (''r9'', 9), (''r10'', 10), (''r11'', 11), (''ip'', 12),
        (''sp'', ARM_REG_SP), (''lr'', ARM_REG_LR), (''pc'', ARM_REG_PC)]"

definition RegsArm64_IterateRegisters :: "'a::len Regs \<Rightarrow> (string \<times> u64) list" where
  "RegsArm64_IterateRegisters =
     list_regs
       [(''x0'', 0), (''x1'', 1), (''x2'', 2), (''x3'', 3), (''x4'', 4), (''x5'', 5), (''x6'', 6),
        (''x7'', 7), (''x8'', 8), (''x9'', 9), (''x10'', 10), (''x11'', 11), (''x12'', 12),
        (''x13'', 13), (''x14'', 14), (''x15'', 15), (''x16'', 16), (''x17'', 17), (''x18'', 18),
        (''x19'', 19), (''x20'', 20), (''x21'', 21), (''x22'', 22), (''x23'', 23), (''x24'', 24),
        (''x25'', 25), (''x26'', 26), (''x27'', 27), (''x28'', 28), (''x29'', 29),
        (''lr'', ARM64_REG_LR), (''sp'', ARM64_REG_SP), (''pc'', ARM64_REG_PC),
        (''pst'', ARM64_REG_PSTATE)]"

definition RegsMips_IterateRegisters :: "'a::len Regs \<Rightarrow> (string \<times> u64) list" where
  "RegsMips_IterateRegisters =
     list_regs
       [(''r0'', 0), (''r1'', 1), (''r2'', 2), (''r3'', 3), (''r4'', 4), (''r5'', 5), (''r6'', 6),
        (''r7'', 7), (''r8'', 8), (''r9'', 9), (''r10'', 10), (''r11'', 11), (''r12'', 12),
        (''r13'', 13), (''r14'', 14), (''r15'', 15), (''r16'', 16), (''r17'', 17), (''r18'', 18),
        (''r19'', 19), (''r20'', 20), (''r21'', 21), (''r22'', 22), (''r23'', 23), (''r24'', 24),
        (''r25'', 25), (''r26'', 26), (''r27'', 27), (''r28'', 28), (''sp'', MIPS_REG_SP),
        (''r30'', 30), (''ra'', MIPS_REG_RA), (''pc'', MIPS_REG_PC)]"

definition RegsMips64_IterateRegisters :: "'a::len Regs \<Rightarrow> (string \<times> u64) list" where
  "RegsMips64_IterateRegisters =
     list_regs
       [(''r0'', 0), (''r1'', 1), (''r2'', 2), (''r3'', 3), (''r4'', 4), (''r5'', 5), (''r6'', 6),
        (''r7'', 7), (''r8'', 8), (''r9'', 9), (''r10'', 10), (''r11'', 11), (''r12'', 12),
        (''r13'', 13), (''r14'', 14), (''r15'', 15), (''r16'', 16), (''r17'', 17), (''r18'', 18),
        (''r19'', 19), (''r20'', 20), (''r21'', 21), (''r22'', 22), (''r23'', 23), (''r24'', 24),
        (''r25'', 25), (''r26'', 26), (''r27'', 27), (''r28'', 28), (''sp'', MIPS64_REG_SP),
        (''r30'', 30), (''ra'', MIPS64_REG_RA), (''pc'', MIPS64_REG_PC)]"

definition RegsX86_IterateRegisters :: "'a::len Regs \<Rightarrow> (string \<times> u64) list" where
  "RegsX86_IterateRegisters =
     list_regs
       [(''eax'', X86_REG_EAX), (''ebx'', X86_REG_EBX), (''ecx'', X86_REG_ECX),
        (''edx'', X86_REG_EDX), (''ebp'', X86_REG_EBP), (''edi'', X86_REG_EDI),
        (''esi'', X86_REG_ESI), (''esp'', X86_REG_ESP), (''eip'', X86_REG_EIP)]"

definition RegsX86_64_IterateRegisters :: "'a::len Regs \<Rightarrow> (string \<times> u64) list" where
  "RegsX86_64_IterateRegisters =
     list_regs
       [(''rax'', X86_64_REG_RAX), (''rbx'', X86_64_REG_RBX), (''rcx'', X86_64_REG_RCX),
        (''rdx'', X86_64_REG_RDX), (''r8'', X86_64_REG_R8), (''r9'', X86_64_REG_R9),
        (''r10'', X86_64_REG_R10), (''r11'', X86_64_REG_R11), (''r12'', X86_64_REG_R12),
        (''r13'', X86_64_REG_R13), (''r14'', X86_64_REG_R14), (''r15'', X86_64_REG_R15),
        (''rdi'', X86_64_REG_RDI), (''rsi'', X86_64_REG_RSI), (''rbp'', X86_64_REG_RBP),
        (''rsp'', X86_64_REG_RSP), (''rip'', X86_64_REG_RIP)]"

section \<open>Stepping over a signal handler\<close>

text \<open>
  When the code at \<open>elf_offset\<close> is the kernel's sigreturn, the registers come from the signal frame on
  the stack. \<open>elf_memory\<close> is \<open>elf->memory()\<close>.
\<close>

definition RegsArm_StepIfSignalHandler :: "u64 \<Rightarrow> reader \<Rightarrow> reader \<Rightarrow> 32 Regs \<Rightarrow> bool \<times> 32 Regs" where
  "RegsArm_StepIfSignalHandler elf_offset elf_memory process_memory r =
     (case Read32 elf_memory elf_offset of
        None \<Rightarrow> (False, r)
      | Some data \<Rightarrow>
          (let sp = ucast (reg_at ARM_REG_SP r) :: u64;
               offset =
                 (if data = (0xe3a07077 :: u32) \<or> data = 0xef900077 \<or> data = 0xdf002777 then
                    map_option (\<lambda>data. if data = (0x5ac3c35a :: u32) then sp + 0x14 + 0xc else sp + 0xc)
                      (Read32 process_memory sp)
                  else if data = 0xe3a070ad \<or> data = 0xef9000ad \<or> data = 0xdf0027ad then
                    map_option (\<lambda>data. if ucast (data :: u32) = sp + 8 then sp + 8 + 0x80 + 0x14 + 0xc
                                       else sp + 0x80 + 0x14 + 0xc)
                      (Read32 process_memory sp)
                  else Some 0)
           in case offset of
                None \<Rightarrow> (False, r)
              | Some offset \<Rightarrow>
                  if offset = 0 then (False, r)
                  else ReadFully_in process_memory offset (4 * ARM_REG_LAST) 4 0 r))"

definition RegsArm64_StepIfSignalHandler :: "u64 \<Rightarrow> reader \<Rightarrow> reader \<Rightarrow> 64 Regs \<Rightarrow> bool \<times> 64 Regs" where
  "RegsArm64_StepIfSignalHandler elf_offset elf_memory process_memory r =
     (case Read64 elf_memory elf_offset of
        None \<Rightarrow> (False, r)
      | Some data \<Rightarrow>
          if data \<noteq> (0xd4000001d2801168 :: u64) then (False, r)
          else ReadFully_in process_memory (reg_at ARM64_REG_SP r + 0x80 + 0xb0 + 0x08)
                 (8 * ARM64_REG_LAST) 8 0 r)"

definition RegsMips_StepIfSignalHandler :: "u64 \<Rightarrow> reader \<Rightarrow> reader \<Rightarrow> 32 Regs \<Rightarrow> bool \<times> 32 Regs" where
  "RegsMips_StepIfSignalHandler elf_offset elf_memory process_memory r =
     (case Read64 elf_memory elf_offset of
        None \<Rightarrow> (False, r)
      | Some data \<Rightarrow>
          (let offset = (if data = (0x0000000c24021061 :: u64) then Some (24 + 128 + 24 + 8)
                         else if data = 0x0000000c24021017 then Some (24 + 8) else None)
           in case offset of
                None \<Rightarrow> (False, r)
              | Some offset \<Rightarrow>
                  (case ReadFully process_memory (ucast (reg_at MIPS_REG_SP r) + offset) (8 * MIPS_REG_LAST) of
                     None \<Rightarrow> (False, r)
                   | Some bs \<Rightarrow>
                       (let vals = le_words 8 bs :: u64 list in
                        (True, set_regs (map (\<lambda>i. (MIPS_REG_R0 + i, ucast (vals ! (1 + i)))) [0..<32])
                                 (set_reg MIPS_REG_PC (ucast (vals ! 0)) r))))))"

text \<open>
  Both reads of this one only test that something was read; \<open>junk\<close> is what the variable \<open>data\<close> holds
  before the first.
\<close>

definition RegsMips64_StepIfSignalHandler :: "u8 list \<Rightarrow> u64 \<Rightarrow> reader \<Rightarrow> reader \<Rightarrow> 64 Regs \<Rightarrow> bool \<times> 64 Regs" where
  "RegsMips64_StepIfSignalHandler junk elf_offset elf_memory process_memory r =
     (let bs = elf_memory elf_offset 8 in
      if bs = [] \<or> le_word (bs @ drop (length bs) junk) \<noteq> (0x0000000c2402145b :: u64) then (False, r)
      else (let sp = reg_at MIPS64_REG_SP r;
                (ok, r1) = Read_in process_memory (sp + 24 + 128 + 40) (8 * (MIPS64_REG_LAST - 1)) 8 0 r
            in if \<not> ok then (False, r1)
               else Read_in process_memory (sp + 24 + 128 + 40 + 576) 8 8 (8 * MIPS64_REG_PC) r1))"

definition RegsX86_StepIfSignalHandler :: "u64 \<Rightarrow> reader \<Rightarrow> reader \<Rightarrow> 32 Regs \<Rightarrow> bool \<times> 32 Regs" where
  "RegsX86_StepIfSignalHandler elf_offset elf_memory process_memory r =
     (case Read64 elf_memory elf_offset of
        None \<Rightarrow> (False, r)
      | Some data \<Rightarrow>
          if data = (0x80cd00000077b858 :: u64) then
            (case ReadFully process_memory (ucast (reg_at X86_REG_SP r + 4)) (4 * 19) of
               None \<Rightarrow> (False, r)
             | Some bs \<Rightarrow>
                 (let context = read_x86_mcontext bs in
                  (True, set_regs [(X86_REG_EBP, xm_ebp context), (X86_REG_ESP, xm_esp context),
                                   (X86_REG_EBX, xm_ebx context), (X86_REG_EDX, xm_edx context),
                                   (X86_REG_ECX, xm_ecx context), (X86_REG_EAX, xm_eax context),
                                   (X86_REG_EIP, xm_eip context)] r)))
          else if data AND 0x00ffffffffffffff = 0x0080cd000000adb8 then
            (case Read32 process_memory (ucast (reg_at X86_REG_SP r + 8)) of
               None \<Rightarrow> (False, r)
             | Some ptr \<Rightarrow>
                 (case ReadFully process_memory (ucast (ptr + 0x14 :: u32)) (4 * 19) of
                    None \<Rightarrow> (False, r)
                  | Some bs \<Rightarrow> (True, RegsX86_SetFromUcontext (read_x86_mcontext bs) r)))
          else (False, r))"

definition RegsX86_64_StepIfSignalHandler :: "u64 \<Rightarrow> reader \<Rightarrow> reader \<Rightarrow> 64 Regs \<Rightarrow> bool \<times> 64 Regs" where
  "RegsX86_64_StepIfSignalHandler elf_offset elf_memory process_memory r =
     (if Read64 elf_memory elf_offset \<noteq> Some (0x0f0000000fc0c748 :: u64) then (False, r)
      else if ReadFully elf_memory (elf_offset + 8) 1 \<noteq> Some [0x05] then (False, r)
      else (case ReadFully process_memory (reg_at X86_64_REG_SP r + 0x28) (8 * 23) of
              None \<Rightarrow> (False, r)
            | Some bs \<Rightarrow> (True, RegsX86_64_SetFromUcontext (read_x86_64_mcontext bs) r)))"

end
