(* ===== verification/ArmExidx.thy ===== *)
theory ArmExidx
  imports Registers DwarfMem
begin

text \<open>
  The unwind instructions of the ARM exception tables: \<open>unwindstack/ArmExidx.cpp\<close> and
  \<open>ArmExidx.h\<close>. A function that returns false has \<open>Failed\<close>, with the reason in \<open>ax_status\<close>. The body of
  \<open>log\<close> is empty in this program (\<open>Log.cpp\<close>), so of logging only the members that the decoder keeps
  for it remain, and \<open>log_skip_execution_\<close>. A left shift that overflows wraps; by 32 bits or more it is
  \<open>Undef\<close>.
\<close>

section \<open>State\<close>

datatype ArmStatus = ARM_STATUS_NONE | ARM_STATUS_NO_UNWIND | ARM_STATUS_FINISH | ARM_STATUS_RESERVED
  | ARM_STATUS_SPARE | ARM_STATUS_TRUNCATED | ARM_STATUS_READ_FAILED | ARM_STATUS_MALFORMED
  | ARM_STATUS_INVALID_ALIGNMENT | ARM_STATUS_INVALID_PERSONALITY

definition ARM_OP_FINISH :: u8 where "ARM_OP_FINISH = 0xb0"

datatype ArmLogType = ARM_LOG_NONE | ARM_LOG_FULL | ARM_LOG_BY_REG

record ArmExidx =
  ax_regs :: "32 Regs"
  ax_cfa :: u32
  ax_data :: "u8 list"
  ax_status :: ArmStatus
  ax_status_address :: u64
  log_type :: ArmLogType
  log_skip_execution :: bool
  pc_is_set :: bool
  log_cfa_offset :: u32
  log_regs :: "u8 \<rightharpoonup> u32"

definition ArmExidx_new :: "32 Regs \<Rightarrow> ArmExidx" where
  "ArmExidx_new regs = \<lparr>ax_regs = regs, ax_cfa = 0, ax_data = [], ax_status = ARM_STATUS_NONE,
     ax_status_address = 0, log_type = ARM_LOG_NONE, log_skip_execution = False, pc_is_set = False,
     log_cfa_offset = 0, log_regs = Map.empty\<rparr>"

definition LOG_CFA_REG :: u8 where "LOG_CFA_REG = 64"

type_synonym 'x arm = "ArmExidx \<Rightarrow> ('x, ArmExidx) outcome"

definition arm_fail :: "ArmStatus \<Rightarrow> 'x arm" where
  "arm_fail st s = Failed (s\<lparr>ax_status := st\<rparr>)"

definition arm_read_failed :: "u32 \<Rightarrow> 'x arm" where
  "arm_read_failed a s = Failed (s\<lparr>ax_status := ARM_STATUS_READ_FAILED, ax_status_address := ucast a\<rparr>)"

section \<open>The entry of a function\<close>

text \<open>\<open>elf_memory_->Read32\<close> at a 32-bit address.\<close>

definition elf_read32 :: "reader \<Rightarrow> u32 \<Rightarrow> u32 arm" where
  "elf_read32 rd a s =
     (case Read32 rd (ucast a) of None \<Rightarrow> arm_read_failed a s | Some data \<Rightarrow> Done data s)"

definition byte_of :: "u32 \<Rightarrow> nat \<Rightarrow> u8" where
  "byte_of data i = ucast (drop_bit (8 * i) data AND 0xff)"

definition push_data :: "u8 list \<Rightarrow> ArmExidx \<Rightarrow> ArmExidx" where
  "push_data bs s = s\<lparr>ax_data := ax_data s @ bs\<rparr>"

text \<open>The loop over the table words, and the finish operation behind them.\<close>

fun table_words :: "reader \<Rightarrow> nat \<Rightarrow> u32 \<Rightarrow> unit arm" where
  "table_words rd 0 addr s = Done () s"
| "table_words rd (Suc n) addr s =
     bind_outcome (elf_read32 rd addr s) (\<lambda>data s.
       table_words rd n (addr + 4) (push_data [byte_of data 3, byte_of data 2, byte_of data 1, byte_of data 0] s))"

definition add_finish :: "ArmExidx \<Rightarrow> ArmExidx" where
  "add_finish s = (if last (ax_data s) \<noteq> ARM_OP_FINISH then push_data [ARM_OP_FINISH] s else s)"

text \<open>The table of a function: the first word \<open>data\<close> at \<open>addr\<close>, and the words that follow.\<close>

definition table_header :: "reader \<Rightarrow> u32 \<Rightarrow> u32 \<Rightarrow> (nat \<times> u32) arm" where
  "table_header rd addr data s =
     (if bit data 31 then
        (let index = drop_bit 24 data AND 0xf in
         if index = 0 then Done (0, addr) (push_data [byte_of data 2, byte_of data 1, byte_of data 0] s)
         else if index = 1 \<or> index = 2 then
           Done (unat (byte_of data 2), addr + 4) (push_data [byte_of data 1, byte_of data 0] s)
         else arm_fail ARM_STATUS_INVALID_PERSONALITY s)
      else
        bind_outcome (elf_read32 rd (addr + 4) s) (\<lambda>data s.
          Done (unat (byte_of data 3), addr + 4 + 4) (push_data [byte_of data 2, byte_of data 1, byte_of data 0] s)))"

definition unwind_table :: "reader \<Rightarrow> u32 \<Rightarrow> u32 \<Rightarrow> unit arm" where
  "unwind_table rd addr data s =
     bind_outcome (table_header rd addr data s) (\<lambda>(num_table_words, addr) s.
       if num_table_words > 5 then arm_fail ARM_STATUS_MALFORMED s
       else bind_outcome (table_words rd num_table_words addr s) (\<lambda>_ s. Done () (add_finish s)))"

definition ExtractEntryData :: "reader \<Rightarrow> u32 \<Rightarrow> unit arm" where
  "ExtractEntryData rd entry_offset s0 =
     (let s = s0\<lparr>ax_data := [], ax_status := ARM_STATUS_NONE\<rparr> in
      if entry_offset AND 1 \<noteq> 0 then arm_fail ARM_STATUS_INVALID_ALIGNMENT s
      else bind_outcome (elf_read32 rd (entry_offset + 4) s) (\<lambda>data s.
        if data = 1 then arm_fail ARM_STATUS_NO_UNWIND s
        else if bit data 31 then
          (if drop_bit 24 data AND 0xf \<noteq> 0 then arm_fail ARM_STATUS_INVALID_PERSONALITY s
           else Done () (add_finish (push_data [byte_of data 2, byte_of data 1, byte_of data 0] s)))
        else
          (let addr = entry_offset + 4 + signed_drop_bit 1 (push_bit 1 data) in
           bind_outcome (elf_read32 rd addr s) (unwind_table rd addr))))"

section \<open>Decoding\<close>

definition GetByte :: "u8 arm" where
  "GetByte s = (case ax_data s of [] \<Rightarrow> arm_fail ARM_STATUS_TRUNCATED s | b # bs \<Rightarrow> Done b (s\<lparr>ax_data := bs\<rparr>))"

definition add_cfa :: "u32 \<Rightarrow> unit arm" where
  "add_cfa n s = Done () (s\<lparr>ax_cfa := ax_cfa s + n\<rparr>)"

text \<open>
  What an instruction does for the log: \<open>full\<close> and \<open>by_reg\<close> are the two forms. Its effect on the
  registers is skipped only when there is a log.
\<close>

definition logged :: "(ArmExidx \<Rightarrow> ArmExidx) \<Rightarrow> (ArmExidx \<Rightarrow> ArmExidx) \<Rightarrow> unit arm \<Rightarrow> unit arm" where
  "logged full by_reg execute s =
     (if log_type s = ARM_LOG_NONE then execute s
      else (let s' = (if log_type s = ARM_LOG_FULL then full s else by_reg s) in
            if log_skip_execution s' then Done () s' else execute s'))"

definition AdjustRegisters :: "u32 \<Rightarrow> ArmExidx \<Rightarrow> ArmExidx" where
  "AdjustRegisters offset s =
     s\<lparr>log_regs := (\<lambda>r. if r \<ge> LOG_CFA_REG then log_regs s r else map_option (\<lambda>v. v + offset) (log_regs s r))\<rparr>"

definition log_move :: "u32 \<Rightarrow> ArmExidx \<Rightarrow> ArmExidx" where
  "log_move offset s = s\<lparr>log_cfa_offset := log_cfa_offset s + offset\<rparr>"

fun pop_offsets :: "nat list \<Rightarrow> u32 \<Rightarrow> (u8 \<rightharpoonup> u32) \<Rightarrow> (u8 \<rightharpoonup> u32)" where
  "pop_offsets [] cfa_offset m = m"
| "pop_offsets (r # rs) cfa_offset m = pop_offsets rs (cfa_offset - 4) (m(of_nat r \<mapsto> cfa_offset))"

definition log_pop :: "nat list \<Rightarrow> ArmExidx \<Rightarrow> ArmExidx" where
  "log_pop rs s =
     (let cfa_offset = 4 * of_nat (length rs) in
      log_move cfa_offset (s\<lparr>log_regs := pop_offsets rs cfa_offset (log_regs s)\<rparr>))"

text \<open>
  The loops over the registers of a mask: \<open>Read32\<close> straight into the register, where the bytes that
  were read stay also when they are too few.
\<close>

definition pop_reg :: "reader \<Rightarrow> nat \<Rightarrow> unit arm" where
  "pop_reg mem r s =
     (let bs = mem (ucast (ax_cfa s)) 4;
          old = le_bytes 4 (unat (reg_at r (ax_regs s)));
          s' = s\<lparr>ax_regs := set_reg r (le_word (bs @ drop (length bs) old)) (ax_regs s)\<rparr>
      in if length bs = 4 then add_cfa 4 s' else arm_read_failed (ax_cfa s) s')"

fun pop_regs :: "reader \<Rightarrow> nat list \<Rightarrow> unit arm" where
  "pop_regs mem [] s = Done () s"
| "pop_regs mem (r # rs) s = bind_outcome (pop_reg mem r s) (\<lambda>_. pop_regs mem rs)"

definition DecodePrefix_10_00 :: "reader \<Rightarrow> u8 \<Rightarrow> unit arm" where
  "DecodePrefix_10_00 mem byte s =
     bind_outcome (GetByte s) (\<lambda>byte2 s.
     let registers = push_bit 8 (ucast (byte AND 0xf)) OR ucast byte2 :: u16 in
     if registers = 0 then arm_fail ARM_STATUS_NO_UNWIND s
     else (let registers = push_bit 4 registers; rs = filter (bit registers) [4..<16] in
       logged (\<lambda>s. s) (log_pop rs)
         (\<lambda>s. bind_outcome (pop_regs mem rs s) (\<lambda>_ s.
            let s = (if bit registers ARM_REG_SP then s\<lparr>ax_cfa := reg_at ARM_REG_SP (ax_regs s)\<rparr> else s)
            in Done () (if bit registers ARM_REG_PC then s\<lparr>pc_is_set := True\<rparr> else s))) s))"

definition DecodePrefix_10_01 :: "u8 \<Rightarrow> unit arm" where
  "DecodePrefix_10_01 byte s =
     (let bits = byte AND 0xf in
      if bits = 13 \<or> bits = 15 then arm_fail ARM_STATUS_RESERVED s
      else logged (\<lambda>s. s) (\<lambda>s. s\<lparr>log_regs := (log_regs s)(LOG_CFA_REG \<mapsto> ucast bits)\<rparr>)
             (\<lambda>s. Done () (s\<lparr>ax_cfa := reg_at (unat bits) (ax_regs s)\<rparr>)) s)"

definition DecodePrefix_10_10 :: "reader \<Rightarrow> u8 \<Rightarrow> unit arm" where
  "DecodePrefix_10_10 mem byte s =
     (let rs = [4..<4 + unat (byte AND 0x7) + 1] @ (if byte AND 0x8 \<noteq> 0 then [ARM_REG_LR] else []) in
      logged (\<lambda>s. s) (log_pop rs) (pop_regs mem rs) s)"

definition DecodePrefix_10_11_0000 :: "unit arm" where
  "DecodePrefix_10_11_0000 s = arm_fail ARM_STATUS_FINISH s"

definition DecodePrefix_10_11_0001 :: "reader \<Rightarrow> unit arm" where
  "DecodePrefix_10_11_0001 mem s =
     bind_outcome (GetByte s) (\<lambda>byte s.
     if byte = 0 then arm_fail ARM_STATUS_SPARE s
     else if drop_bit 4 byte \<noteq> 0 then arm_fail ARM_STATUS_SPARE s
     else (let rs = filter (bit byte) [0..<4] in logged (\<lambda>s. s) (log_pop rs) (pop_regs mem rs) s))"

fun vsp_uleb :: "u32 \<Rightarrow> nat \<Rightarrow> u8 list \<Rightarrow> (u32, u8 list) outcome" where
  "vsp_uleb result shift [] = Failed []"
| "vsp_uleb result shift (byte # bs) =
     (if shift \<ge> 32 then Undef
      else (let result = result OR push_bit shift (ucast (byte AND 0x7f)) in
            if byte AND 0x80 \<noteq> 0 then vsp_uleb result (shift + 7) bs else Done result bs))"

definition DecodePrefix_10_11_0010 :: "unit arm" where
  "DecodePrefix_10_11_0010 s =
     (case vsp_uleb 0 0 (ax_data s) of
        Undef \<Rightarrow> Undef
      | Failed bs \<Rightarrow> arm_fail ARM_STATUS_TRUNCATED (s\<lparr>ax_data := bs\<rparr>)
      | Done result bs \<Rightarrow>
          (let offset = 0x204 + push_bit 2 result in
           logged (AdjustRegisters offset) (\<lambda>s. AdjustRegisters offset (log_move offset s)) (add_cfa offset)
             (s\<lparr>ax_data := bs\<rparr>)))"

definition DecodePrefix_10_11_0011 :: "unit arm" where
  "DecodePrefix_10_11_0011 s =
     bind_outcome (GetByte s) (\<lambda>byte. logged (\<lambda>s. s) (\<lambda>s. s) (add_cfa (ucast (byte AND 0xf) * 8 + 12)))"

definition DecodePrefix_10_11_01nn :: "unit arm" where
  "DecodePrefix_10_11_01nn s = arm_fail ARM_STATUS_SPARE s"

definition DecodePrefix_10_11_1nnn :: "u8 \<Rightarrow> unit arm" where
  "DecodePrefix_10_11_1nnn byte s = logged (\<lambda>s. s) (\<lambda>s. s) (add_cfa (ucast (byte AND 0x7) * 8 + 12)) s"

definition DecodePrefix_10 :: "reader \<Rightarrow> u8 \<Rightarrow> unit arm" where
  "DecodePrefix_10 mem byte s =
     (let kind = drop_bit 4 byte AND 0x3; low = byte AND 0xf in
      if kind = 0 then DecodePrefix_10_00 mem byte s
      else if kind = 1 then DecodePrefix_10_01 byte s
      else if kind = 2 then DecodePrefix_10_10 mem byte s
      else if low = 0 then DecodePrefix_10_11_0000 s
      else if low = 1 then DecodePrefix_10_11_0001 mem s
      else if low = 2 then DecodePrefix_10_11_0010 s
      else if low = 3 then DecodePrefix_10_11_0011 s
      else if byte AND 0x8 \<noteq> 0 then DecodePrefix_10_11_1nnn byte s
      else DecodePrefix_10_11_01nn s)"

definition popcount :: "u8 \<Rightarrow> nat" where
  "popcount byte = length (filter (bit byte) [0..<8])"

definition DecodePrefix_11_000 :: "u8 \<Rightarrow> unit arm" where
  "DecodePrefix_11_000 byte s =
     (let bits = byte AND 0x7 in
      if bits = 6 then
        bind_outcome (GetByte s) (\<lambda>byte. logged (\<lambda>s. s) (\<lambda>s. s) (add_cfa (ucast (byte AND 0xf) * 8 + 8)))
      else if bits = 7 then
        bind_outcome (GetByte s) (\<lambda>byte s.
          if byte = 0 then arm_fail ARM_STATUS_SPARE s
          else if drop_bit 4 byte = 0 then
            logged (\<lambda>s. s) (\<lambda>s. s) (add_cfa (of_nat (popcount byte) * 4)) s
          else arm_fail ARM_STATUS_SPARE s)
      else logged (\<lambda>s. s) (\<lambda>s. s) (add_cfa (ucast (byte AND 0x7) * 8 + 8)) s)"

definition DecodePrefix_11_001 :: "u8 \<Rightarrow> unit arm" where
  "DecodePrefix_11_001 byte s =
     (let bits = byte AND 0x7 in
      if bits = 0 then
        bind_outcome (GetByte s) (\<lambda>byte. logged (\<lambda>s. s) (\<lambda>s. s) (add_cfa (ucast (byte AND 0xf) * 8 + 8)))
      else if bits = 1 then
        bind_outcome (GetByte s) (\<lambda>byte. logged (\<lambda>s. s) (\<lambda>s. s) (add_cfa (ucast (byte AND 0xf) * 8 + 8)))
      else arm_fail ARM_STATUS_SPARE s)"

definition DecodePrefix_11_010 :: "u8 \<Rightarrow> unit arm" where
  "DecodePrefix_11_010 byte s = logged (\<lambda>s. s) (\<lambda>s. s) (add_cfa (ucast (byte AND 0x7) * 8 + 8)) s"

definition DecodePrefix_11 :: "u8 \<Rightarrow> unit arm" where
  "DecodePrefix_11 byte s =
     (let kind = drop_bit 3 byte AND 0x7 in
      if kind = 0 then DecodePrefix_11_000 byte s
      else if kind = 1 then DecodePrefix_11_001 byte s
      else if kind = 2 then DecodePrefix_11_010 byte s
      else arm_fail ARM_STATUS_SPARE s)"

definition ArmExidx_Decode :: "reader \<Rightarrow> unit arm" where
  "ArmExidx_Decode mem s0 =
     bind_outcome (GetByte (s0\<lparr>ax_status := ARM_STATUS_NONE\<rparr>)) (\<lambda>byte s.
     let offset = push_bit 2 (ucast (byte AND 0x3f)) + 4 in
     if drop_bit 6 byte = 0 then
       logged (AdjustRegisters offset) (\<lambda>s. AdjustRegisters offset (log_move offset s)) (add_cfa offset) s
     else if drop_bit 6 byte = 1 then
       logged (AdjustRegisters (- offset)) (\<lambda>s. AdjustRegisters (- offset) (log_move (- offset) s)) (add_cfa (- offset)) s
     else if drop_bit 6 byte = 2 then DecodePrefix_10 mem byte s
     else DecodePrefix_11 byte s)"

section \<open>Evaluating an entry\<close>

lemma bind_outcome_eqs:
  "bind_outcome m f = Failed t \<longleftrightarrow> m = Failed t \<or> (\<exists>x s. m = Done x s \<and> f x s = Failed t)"
  "bind_outcome m f = Undef \<longleftrightarrow> m = Undef \<or> (\<exists>x s. m = Done x s \<and> f x s = Undef)"
  by (cases m; auto)+

text \<open>An instruction does not look at the bytes behind it.\<close>

definition keeps_data :: "unit arm \<Rightarrow> bool" where
  "keeps_data m \<longleftrightarrow> (\<forall>s s'. m s = Done () s' \<longrightarrow> ax_data s' = ax_data s)"

named_theorems data

lemma keeps_data_logged [data]:
  assumes "keeps_data m" "\<And>s. ax_data (f s) = ax_data s" "\<And>s. ax_data (g s) = ax_data s"
  shows "keeps_data (logged f g m)"
  using assms by (auto simp: keeps_data_def logged_def Let_def split: if_splits)

lemma data_simps [data, simp]:
  "keeps_data (add_cfa n)" "ax_data (log_pop rs s) = ax_data s" "ax_data (AdjustRegisters n s) = ax_data s"
  "ax_data (log_move n s) = ax_data s" "keeps_data (arm_fail st)"
  by (simp_all add: keeps_data_def add_cfa_def log_pop_def Let_def AdjustRegisters_def log_move_def arm_fail_def)

lemma keeps_data_pop_regs [data, simp]: "keeps_data (pop_regs mem rs)"
proof (induction rs)
  case (Cons r rs)
  then show ?case by (fastforce simp: keeps_data_def pop_reg_def Let_def add_cfa_def arm_read_failed_def split: if_splits)
qed (simp add: keeps_data_def)

lemma keeps_dataD: "m s = Done () s' \<Longrightarrow> keeps_data m \<Longrightarrow> ax_data s' = ax_data s"
  by (simp add: keeps_data_def)

lemma GetByte_data: "GetByte s = Done b s' \<Longrightarrow> ax_data s = b # ax_data s'"
  by (auto simp: GetByte_def arm_fail_def split: list.splits)

lemma vsp_uleb_data: "vsp_uleb result shift bs = Done v bs' \<Longrightarrow> length bs' < length bs"
  by (induction result shift bs rule: vsp_uleb.induct) (auto simp: Let_def split: if_splits)

lemma keeps_data_if: "keeps_data m \<Longrightarrow> keeps_data n \<Longrightarrow> keeps_data (\<lambda>s. if b then m s else n s)"
  by (cases b) simp_all

definition consumes :: "unit arm \<Rightarrow> bool" where
  "consumes m \<longleftrightarrow> (\<forall>s s'. m s = Done () s' \<longrightarrow> length (ax_data s') \<le> length (ax_data s))"

lemma consumes_keeps: "keeps_data m \<Longrightarrow> consumes m"
  by (simp add: keeps_data_def consumes_def)

lemma consumes_GetByte:
  assumes "\<And>b. consumes (f b)"
  shows "consumes (\<lambda>s. bind_outcome (GetByte s) f)"
  unfolding consumes_def
proof (intro allI impI)
  fix s s' assume "bind_outcome (GetByte s) f = Done () s'"
  then obtain b t where b: "GetByte s = Done b t" "f b t = Done () s'" by auto
  then have "length (ax_data s') \<le> length (ax_data t)" using assms unfolding consumes_def by blast
  then show "length (ax_data s') \<le> length (ax_data s)" using GetByte_data [OF b(1)] by simp
qed

lemma consumes_if:
  "consumes m \<Longrightarrow> consumes n \<Longrightarrow> consumes (\<lambda>s. if b then m s else n s)"
  by (cases b) simp_all

lemma consumes_prefix_10:
  "consumes (DecodePrefix_10_00 mem b)" "consumes (DecodePrefix_10_01 b)" "consumes (DecodePrefix_10_10 mem b)"
  "consumes DecodePrefix_10_11_0000" "consumes (DecodePrefix_10_11_0001 mem)" "consumes DecodePrefix_10_11_0010"
  "consumes DecodePrefix_10_11_0011" "consumes DecodePrefix_10_11_01nn" "consumes (DecodePrefix_10_11_1nnn b)"
proof -
  have pop: "keeps_data (\<lambda>s. bind_outcome (pop_regs mem rs s) (\<lambda>_ s.
            let s = (if P then s\<lparr>ax_cfa := f s\<rparr> else s)
            in Done () (if Q then s\<lparr>pc_is_set := True\<rparr> else s)))" for rs P Q f
    unfolding keeps_data_def
  proof (intro allI impI)
    fix s s'
    assume "bind_outcome (pop_regs mem rs s) (\<lambda>_ s.
      let s = (if P then s\<lparr>ax_cfa := f s\<rparr> else s) in Done () (if Q then s\<lparr>pc_is_set := True\<rparr> else s)) = Done () s'"
    then obtain t where "pop_regs mem rs s = Done () t" "ax_data s' = ax_data t" by (force simp: Let_def)
    then show "ax_data s' = ax_data s" using keeps_dataD [OF _ keeps_data_pop_regs] by simp
  qed
  show "consumes (DecodePrefix_10_00 mem b)"
    unfolding DecodePrefix_10_00_def [abs_def] Let_def
    by (intro consumes_GetByte consumes_if consumes_keeps keeps_data_logged pop [unfolded Let_def]) simp_all
  show "consumes (DecodePrefix_10_01 b)"
    unfolding DecodePrefix_10_01_def [abs_def] Let_def
    by (intro consumes_keeps keeps_data_if data) (simp_all add: keeps_data_def)
  show "consumes (DecodePrefix_10_10 mem b)"
    unfolding DecodePrefix_10_10_def [abs_def] Let_def by (intro consumes_keeps data) simp_all
  show "consumes DecodePrefix_10_11_0000"
    unfolding DecodePrefix_10_11_0000_def [abs_def] by (intro consumes_keeps data)
  show "consumes (DecodePrefix_10_11_0001 mem)"
    unfolding DecodePrefix_10_11_0001_def [abs_def] Let_def
    by (intro consumes_GetByte consumes_keeps keeps_data_if data) simp_all
  show "consumes DecodePrefix_10_11_0010"
    unfolding consumes_def
  proof (intro allI impI)
    fix s s' assume d: "DecodePrefix_10_11_0010 s = Done () s'"
    then obtain result bs where v: "vsp_uleb 0 0 (ax_data s) = Done result bs"
      by (auto simp: DecodePrefix_10_11_0010_def arm_fail_def split: outcome.splits)
    have "keeps_data (logged (AdjustRegisters n) (\<lambda>s. AdjustRegisters n (log_move n s)) (add_cfa n))" for n
      by (intro data) simp_all
    then have "ax_data s' = bs" using d v by (auto simp: DecodePrefix_10_11_0010_def Let_def dest: keeps_dataD)
    then show "length (ax_data s') \<le> length (ax_data s)" using vsp_uleb_data [OF v] by simp
  qed
  show "consumes DecodePrefix_10_11_0011"
    unfolding DecodePrefix_10_11_0011_def [abs_def] by (intro consumes_GetByte consumes_keeps data) simp_all
  show "consumes DecodePrefix_10_11_01nn"
    unfolding DecodePrefix_10_11_01nn_def [abs_def] by (intro consumes_keeps data)
  show "consumes (DecodePrefix_10_11_1nnn b)"
    unfolding DecodePrefix_10_11_1nnn_def [abs_def] by (intro consumes_keeps data) simp_all
qed

lemma consumes_prefix_11:
  "consumes (DecodePrefix_11_000 b)" "consumes (DecodePrefix_11_001 b)" "consumes (DecodePrefix_11_010 b)"
proof -
  have c: "consumes (logged (\<lambda>s. s) (\<lambda>s. s) (add_cfa n))" for n by (intro consumes_keeps data) simp_all
  have e: "consumes (arm_fail st)" for st by (intro consumes_keeps data)
  show "consumes (DecodePrefix_11_000 b)"
    unfolding DecodePrefix_11_000_def [abs_def] Let_def by (intro consumes_if consumes_GetByte c e)
  show "consumes (DecodePrefix_11_001 b)"
    unfolding DecodePrefix_11_001_def [abs_def] Let_def by (intro consumes_if consumes_GetByte c e)
  show "consumes (DecodePrefix_11_010 b)"
    unfolding DecodePrefix_11_010_def [abs_def] by (rule c)
qed

lemma Decode_shrinks:
  assumes "ArmExidx_Decode mem s = Done () s'"
  shows "length (ax_data s') < length (ax_data s)"
proof -
  have m: "keeps_data (logged (AdjustRegisters n) (\<lambda>s. AdjustRegisters n (log_move n s)) (add_cfa n))" for n
    by (intro data) simp_all
  have 10: "consumes (DecodePrefix_10 mem b)" for b
    unfolding DecodePrefix_10_def [abs_def] Let_def by (intro consumes_if consumes_prefix_10)
  have 11: "consumes (DecodePrefix_11 b)" for b
    unfolding DecodePrefix_11_def [abs_def] Let_def
    by (intro consumes_if consumes_prefix_11 consumes_keeps data)
  obtain b t where b: "GetByte (s\<lparr>ax_status := ARM_STATUS_NONE\<rparr>) = Done b t"
    using assms by (auto simp: ArmExidx_Decode_def)
  have "length (ax_data s') \<le> length (ax_data t)"
    using assms m [THEN consumes_keeps] 10 11 unfolding ArmExidx_Decode_def b Let_def consumes_def
    by (auto split: if_splits)
  then show ?thesis using GetByte_data [OF b] by simp
qed

text \<open>The loop of \<open>Eval\<close>: it ends because every instruction takes a byte.\<close>

function ArmExidx_Eval_loop :: "reader \<Rightarrow> ArmExidx \<Rightarrow> ArmExidx option" where
  "ArmExidx_Eval_loop mem s =
     (case ArmExidx_Decode mem s of
        Undef \<Rightarrow> None
      | Failed s' \<Rightarrow> Some s'
      | Done _ s' \<Rightarrow> ArmExidx_Eval_loop mem s')"
  by pat_completeness auto
termination by (relation "measure (\<lambda>(mem, s). length (ax_data s))") (auto dest: Decode_shrinks)

declare ArmExidx_Eval_loop.simps [simp del]

definition ArmExidx_Eval :: "reader \<Rightarrow> unit arm" where
  "ArmExidx_Eval mem s =
     (case ArmExidx_Eval_loop mem (s\<lparr>pc_is_set := False\<rparr>) of
        None \<Rightarrow> Undef
      | Some s' \<Rightarrow> if ax_status s' = ARM_STATUS_FINISH then Done () s' else Failed s')"

end
