(* ===== verification/ArmExidxProps.thy ===== *)
theory ArmExidxProps
  imports ArmExidx
begin

text \<open>
  The decoder of ARM unwind instructions against the instructions of the exception handling ABI:
  what it does on an encoded program, what \<open>ExtractEntryData\<close> hands to it, and that logging does not
  change it.
\<close>

section \<open>Instructions\<close>

datatype vinsn =
    VspAdd u8 | VspSub u8
  | Pop u16 | PopRange u8 bool | PopLow u8
  | SetVsp u8
  | VspAddLong nat
  | PopD u8 | PopD8 u8
  | PopWR10 u8 | PopWR u8 | PopWCGR u8
  | PushedD16 u8 | PushedD u8 | PushedD8 u8

text \<open>The operands that have an encoding.\<close>

fun insn_ok :: "vinsn \<Rightarrow> bool" where
  "insn_ok (VspAdd n) \<longleftrightarrow> n < 64"
| "insn_ok (VspSub n) \<longleftrightarrow> n < 64"
| "insn_ok (Pop m) \<longleftrightarrow> m \<noteq> 0 \<and> m < 4096"
| "insn_ok (PopRange n lr) \<longleftrightarrow> n < 8"
| "insn_ok (PopLow m) \<longleftrightarrow> m \<noteq> 0 \<and> m < 16"
| "insn_ok (SetVsp r) \<longleftrightarrow> r < 16 \<and> r \<noteq> 13 \<and> r \<noteq> 15"
| "insn_ok (VspAddLong n) \<longleftrightarrow> n < 2 ^ 32"
| "insn_ok (PopD b) \<longleftrightarrow> True"
| "insn_ok (PopD8 n) \<longleftrightarrow> n < 8"
| "insn_ok (PopWR10 n) \<longleftrightarrow> n < 6"
| "insn_ok (PopWR b) \<longleftrightarrow> True"
| "insn_ok (PopWCGR m) \<longleftrightarrow> m \<noteq> 0 \<and> m < 16"
| "insn_ok (PushedD16 b) \<longleftrightarrow> True"
| "insn_ok (PushedD b) \<longleftrightarrow> True"
| "insn_ok (PushedD8 n) \<longleftrightarrow> n < 8"

fun encode :: "vinsn \<Rightarrow> u8 list" where
  "encode (VspAdd n) = [n]"
| "encode (VspSub n) = [0x40 + n]"
| "encode (Pop m) = [0x80 + ucast (drop_bit 8 m), ucast m]"
| "encode (SetVsp r) = [0x90 + r]"
| "encode (PopRange n lr) = [0xa0 + n + (if lr then 8 else 0)]"
| "encode (PopLow m) = [0xb1, m]"
| "encode (VspAddLong n) = 0xb2 # uleb_bytes n"
| "encode (PopD b) = [0xb3, b]"
| "encode (PopD8 n) = [0xb8 + n]"
| "encode (PopWR10 n) = [0xc0 + n]"
| "encode (PopWR b) = [0xc6, b]"
| "encode (PopWCGR m) = [0xc7, m]"
| "encode (PushedD16 b) = [0xc8, b]"
| "encode (PushedD b) = [0xc9, b]"
| "encode (PushedD8 n) = [0xd0 + n]"

section \<open>The reference interpreter\<close>

text \<open>
  The registers, the virtual stack pointer, and whether the program counter was set. \<open>W\<close> is the
  memory as words. \<open>Inl\<close> is the address that could not be read.
\<close>

type_synonym vstate = "u32 list \<times> u32 \<times> bool"

fun pops :: "(u32 \<Rightarrow> u32 option) \<Rightarrow> nat list \<Rightarrow> vstate \<Rightarrow> u32 + vstate" where
  "pops W [] st = Inr st"
| "pops W (r # rs) (regs, vsp, pc) =
     (case W vsp of None \<Rightarrow> Inl vsp | Some v \<Rightarrow> pops W rs (regs[r := v], vsp + 4, pc))"

definition move :: "u32 \<Rightarrow> vstate \<Rightarrow> u32 + vstate" where
  "move n st = (case st of (regs, vsp, pc) \<Rightarrow> Inr (regs, vsp + n, pc))"

fun exec :: "(u32 \<Rightarrow> u32 option) \<Rightarrow> vinsn \<Rightarrow> vstate \<Rightarrow> u32 + vstate" where
  "exec W (VspAdd n) st = move (4 * ucast n + 4) st"
| "exec W (VspSub n) st = move (- (4 * ucast n + 4)) st"
| "exec W (Pop m) st =
     (case pops W (filter (\<lambda>r. bit m (r - 4)) [4..<16]) st of
        Inl a \<Rightarrow> Inl a
      | Inr (regs, vsp, pc) \<Rightarrow> Inr (regs, if bit m 9 then regs ! 13 else vsp, bit m 11 \<or> pc))"
| "exec W (PopRange n lr) st = pops W ([4..<5 + unat n] @ (if lr then [14] else [])) st"
| "exec W (PopLow m) st = pops W (filter (bit m) [0..<4]) st"
| "exec W (SetVsp r) (regs, vsp, pc) = Inr (regs, regs ! unat r, pc)"
| "exec W (VspAddLong n) st = move (0x204 + 4 * of_nat n) st"
| "exec W (PopD b) st = move (8 * ucast (b AND 0xf) + 12) st"
| "exec W (PopD8 n) st = move (8 * ucast n + 12) st"
| "exec W (PopWR10 n) st = move (8 * ucast n + 8) st"
| "exec W (PopWR b) st = move (8 * ucast (b AND 0xf) + 8) st"
| "exec W (PopWCGR m) st = move (4 * of_nat (length (filter (bit m) [0..<4]))) st"
| "exec W (PushedD16 b) st = move (8 * ucast (b AND 0xf) + 8) st"
| "exec W (PushedD b) st = move (8 * ucast (b AND 0xf) + 8) st"
| "exec W (PushedD8 n) st = move (8 * ucast n + 8) st"

fun run :: "(u32 \<Rightarrow> u32 option) \<Rightarrow> vinsn list \<Rightarrow> vstate \<Rightarrow> u32 + vstate" where
  "run W [] st = Inr st"
| "run W (i # is) st = (case exec W i st of Inl a \<Rightarrow> Inl a | Inr st' \<Rightarrow> run W is st')"

section \<open>The decoder\<close>

definition view :: "ArmExidx \<Rightarrow> vstate" where
  "view s = (reg_values (ax_regs s), ax_cfa s, pc_is_set s)"

definition put :: "vstate \<Rightarrow> ArmExidx \<Rightarrow> ArmExidx" where
  "put st s = (case st of (regs, vsp, pc) \<Rightarrow>
     s\<lparr>ax_regs := (ax_regs s)\<lparr>reg_values := regs\<rparr>, ax_cfa := vsp, pc_is_set := pc\<rparr>)"

text \<open>A step as the reference says.\<close>

fun as_ref :: "(unit, ArmExidx) outcome \<Rightarrow> u32 + vstate \<Rightarrow> ArmExidx \<Rightarrow> bool" where
  "as_ref m (Inr st) s \<longleftrightarrow> m = Done () (put st s)"
| "as_ref m (Inl a) s \<longleftrightarrow> (\<exists>t. m = Failed t \<and> ax_status t = ARM_STATUS_READ_FAILED \<and> ax_status_address t = ucast a)"

lemma put_view [simp]: "put (view s) s = s"
  by (simp add: put_def view_def)

lemma view_put [simp]: "view (put st s) = st" "put st' (put st s) = put st' s" "ax_data (put st s) = ax_data s"
  "log_type (put st s) = log_type s" "(put st s)\<lparr>ax_data := d\<rparr> = put st (s\<lparr>ax_data := d\<rparr>)"
  "(put st s)\<lparr>ax_status := c\<rparr> = put st (s\<lparr>ax_status := c\<rparr>)"
  "ax_status (put st s) = ax_status s" "view (s\<lparr>ax_data := d\<rparr>) = view s" "view (s\<lparr>ax_status := c\<rparr>) = view s"
  by (simp_all add: put_def view_def split: prod.split)

lemma put_idem: "view s = view t \<Longrightarrow> put st s = put st' t \<Longrightarrow> st = st'"
  by (metis view_put(1))

text \<open>Statements about a byte, checked for all of them.\<close>

lemma all_bytes: "(\<forall>b::u8. P b) \<longleftrightarrow> list_all (\<lambda>n. P (of_nat n)) [0..<256]"
proof
  assume l: "list_all (\<lambda>n. P (of_nat n)) [0..<256]"
  show "\<forall>b::u8. P b"
  proof
    fix b :: u8
    have "unat b < 2 ^ LENGTH(8)" by (rule unsigned_less)
    then have "unat b \<in> set [0..<256]" by simp
    then have "P (of_nat (unat b))" using l by (simp only: list_all_iff)
    then show "P b" by simp
  qed
qed (simp add: list_all_iff)

lemma six_bits_all:
  "\<forall>n::u8. n < 64 \<longrightarrow> drop_bit 6 n = 0 \<and> n AND 0x3f = n \<and> drop_bit 6 (0x40 + n) = 1 \<and> (0x40 + n) AND 0x3f = n"
  unfolding all_bytes by code_simp

lemma four_bits_all:
  "\<forall>n::u8. n < 16 \<longrightarrow> drop_bit 6 (0x80 + n) = 2 \<and> drop_bit 4 (0x80 + n) AND 3 = 0 \<and> (0x80 + n) AND 0xf = n \<and>
     drop_bit 6 (0x90 + n) = 2 \<and> drop_bit 4 (0x90 + n) AND 3 = 1 \<and> (0x90 + n) AND 0xf = n \<and> drop_bit 4 n = 0"
  unfolding all_bytes by code_simp

lemma three_bits_all:
  "\<forall>n::u8. n < 8 \<longrightarrow> drop_bit 6 (0xa0 + n) = 2 \<and> drop_bit 4 (0xa0 + n) AND 3 = 2 \<and> (0xa0 + n) AND 7 = n \<and>
     (0xa0 + n) AND 8 = 0 \<and> drop_bit 6 (0xa8 + n) = 2 \<and> drop_bit 4 (0xa8 + n) AND 3 = 2 \<and> (0xa8 + n) AND 7 = n \<and>
     (0xa8 + n) AND 8 \<noteq> 0 \<and> drop_bit 6 (0xb8 + n) = 2 \<and> drop_bit 4 (0xb8 + n) AND 3 = 3 \<and>
     (0xb8 + n) AND 0xf = 8 + n \<and> 8 + n \<notin> {0, 1, 2, 3} \<and> (0xb8 + n) AND 7 = n \<and> (0xb8 + n) AND 8 \<noteq> 0 \<and>
     drop_bit 6 (0xc0 + n) = 3 \<and> drop_bit 3 (0xc0 + n) AND 7 = 0 \<and> (0xc0 + n) AND 7 = n \<and>
     drop_bit 6 (0xd0 + n) = 3 \<and> drop_bit 3 (0xd0 + n) AND 7 = 2 \<and> (0xd0 + n) AND 7 = n"
  unfolding all_bytes by code_simp

lemma popcount_low_all: "\<forall>n::u8. n < 16 \<longrightarrow> popcount n = length (filter (bit n) [0..<4])"
  unfolding all_bytes by code_simp

lemmas popcount_low = popcount_low_all [rule_format]
lemmas six_bits = six_bits_all [rule_format]
lemmas four_bits = four_bits_all [rule_format]
lemmas three_bits = three_bits_all [rule_format]

section \<open>One instruction\<close>

definition words :: "reader \<Rightarrow> u32 \<Rightarrow> u32 option" where
  "words mem a = Read32 mem (ucast a)"

lemma length_reg_bytes [simp]: "length (le_bytes n v) = n"
  by (simp add: length_le_bytes)

lemma pop_regs_ref: "as_ref (pop_regs mem rs s) (pops (words mem) rs (view s)) s"
proof (induction rs arbitrary: s)
  case Nil
  then show ?case by simp
next
  case (Cons r rs)
  show ?case
  proof (cases "words mem (ax_cfa s)")
    case None
    then have "length (mem (ucast (ax_cfa s)) 4) \<noteq> 4" by (auto simp: words_def Read32_def ReadFully_def Let_def split: if_splits)
    then show ?thesis using None by (simp add: pop_reg_def Let_def arm_read_failed_def view_def)
  next
    case (Some v)
    then have l: "length (mem (ucast (ax_cfa s)) 4) = 4" "le_word (mem (ucast (ax_cfa s)) 4) = v"
      by (auto simp: words_def Read32_def ReadFully_def Let_def split: if_splits)
    let ?t = "put ((reg_values (ax_regs s))[r := v], ax_cfa s + 4, pc_is_set s) s"
    have "pop_reg mem r s = Done () ?t"
      using l by (simp add: pop_reg_def Let_def add_cfa_def put_def set_reg_def)
    moreover have "as_ref (pop_regs mem rs ?t) (pops (words mem) (r # rs) (view s)) ?t"
      using Cons.IH [of ?t] Some by (simp only: view_put) (simp add: view_def)
    ultimately show ?thesis by (cases "pops (words mem) (r # rs) (view s)") simp_all
  qed
qed

lemma logged_none: "log_type s = ARM_LOG_NONE \<Longrightarrow> logged f g m s = m s"
  by (simp add: logged_def)

lemma as_ref_move: "as_ref (add_cfa n s) (move n (view s)) s"
  by (simp add: add_cfa_def move_def view_def put_def)

lemma low_bits32: "ucast (b AND 0x7f) = (of_nat (unat b mod 128) :: u32)" for b :: u8
proof -
  have "b AND 0x7f = take_bit 7 b" by (simp add: take_bit_eq_mask mask_eq_exp_minus_1)
  then have "unat (b AND 0x7f) = unat b mod 128" by (simp add: unsigned_take_bit_eq take_bit_eq_mod unat_mod)
  then show ?thesis by (metis of_nat_unat)
qed

lemma or_above:
  fixes result v :: u32
  assumes "unat result < 2 ^ shift"
  shows "result OR push_bit shift v = result + push_bit shift v"
proof -
  have "unat (take_bit shift result) = unat result"
    using assms by (simp add: unsigned_take_bit_eq take_bit_nat_eq_self)
  then have "take_bit shift result = result" by (simp add: word_unat_eq_iff)
  then have below: "bit result n \<Longrightarrow> n < shift" for n by (metis bit_take_bit_iff)
  have "\<not> bit result n \<or> \<not> bit (push_bit shift v) n" for n
    using below [of n] by (cases "n < shift") (auto simp: bit_push_bit_iff)
  then show ?thesis by (intro disjunctive_add [symmetric])
qed

lemma unat_above:
  fixes result :: u32
  assumes "unat result < 2 ^ shift" "m < 128"
  shows "unat (result + push_bit shift (of_nat m)) < 2 ^ (shift + 7)"
proof -
  have "unat (of_nat (m * 2 ^ shift) :: u32) \<le> m * 2 ^ shift" by (simp only: unat_of_nat mod_less_eq_dividend)
  moreover have "unat (result + of_nat (m * 2 ^ shift)) \<le> unat result + unat (of_nat (m * 2 ^ shift) :: u32)"
    by (simp only: unat_word_ariths mod_less_eq_dividend)
  moreover have "push_bit shift (of_nat m) = (of_nat (m * 2 ^ shift) :: u32)" by (simp add: push_bit_eq_mult)
  ultimately have "unat (result + push_bit shift (of_nat m)) < 2 ^ shift + m * 2 ^ shift"
    using assms(1) by simp
  also have "\<dots> = (m + 1) * 2 ^ shift" by (simp add: algebra_simps)
  also have "\<dots> \<le> 128 * 2 ^ shift" using assms(2) by (intro mult_right_mono) simp_all
  finally show ?thesis by (simp add: power_add)
qed

lemma vsp_uleb_reads:
  assumes "leb_wf bs" "unat result < 2 ^ shift" "shift + 7 * (length bs - 1) < 32"
  shows "vsp_uleb result shift (bs @ rest) = Done (result + push_bit shift (of_nat (leb_value bs))) rest"
  using assms
proof (induction bs arbitrary: shift result rule: leb_wf.induct)
  case (2 b)
  then show ?case using top_bit [of b] by (simp add: Let_def low_bits32 or_above)
next
  case (3 b c bs)
  let ?r = "result + push_bit shift (of_nat (unat b mod 128))"
  have "vsp_uleb result shift ((b # c # bs) @ rest) = vsp_uleb ?r (shift + 7) ((c # bs) @ rest)"
    using 3(2,3,4) top_bit [of b] by (simp add: Let_def low_bits32 or_above)
  also have "\<dots> = Done (?r + push_bit (shift + 7) (of_nat (leb_value (c # bs)))) rest"
    using 3 unat_above [OF 3(3), of "unat b mod 128"] by (intro "3.IH") simp_all
  finally show ?case by (simp add: push_bit_eq_mult power_add algebra_simps)
qed simp

lemma pop_mask:
  fixes m :: u16
  assumes "m < 4096"
  shows "push_bit 8 (ucast ((0x80 + ucast (drop_bit 8 m) :: u8) AND 0xf)) OR ucast (ucast m :: u8) = m"
    and "(ucast (drop_bit 8 m) :: u8) < 16"
proof -
  have "unat m < 4096" using assms by (simp add: word_less_nat_alt)
  moreover have "unat (drop_bit 8 m) = unat m div 256" by (simp only: unat_drop_bit_eq) (simp add: drop_bit_eq_div)
  ultimately have u: "unat (ucast (drop_bit 8 m) :: u8) = unat m div 256"
    by (simp only: unsigned_ucast_eq take_bit_eq_mod) simp
  then show l: "(ucast (drop_bit 8 m) :: u8) < 16" using \<open>unat m < 4096\<close> by (simp add: word_less_nat_alt)
  have "(0x80 + ucast (drop_bit 8 m) :: u8) AND 0xf = ucast (drop_bit 8 m)" using four_bits [OF l] by simp
  moreover have "push_bit 8 (ucast (ucast (drop_bit 8 m) :: u8)) OR ucast (ucast m :: u8) = m"
    by (rule bit_word_eqI) (auto simp: bit_simps)
  ultimately show "push_bit 8 (ucast ((0x80 + ucast (drop_bit 8 m) :: u8) AND 0xf)) OR ucast (ucast m :: u8) = m" by simp
qed

lemma Decode_first:
  "ax_data s = b # bs \<Longrightarrow> GetByte (s\<lparr>ax_status := ARM_STATUS_NONE\<rparr>) = Done b (s\<lparr>ax_data := bs, ax_status := ARM_STATUS_NONE\<rparr>)"
  by (simp add: GetByte_def)

lemma Decode_insn:
  assumes "insn_ok i" "ax_data s = encode i @ rest" "log_type s = ARM_LOG_NONE"
  shows "as_ref (ArmExidx_Decode mem s) (exec (words mem) i (view s)) (s\<lparr>ax_status := ARM_STATUS_NONE, ax_data := rest\<rparr>)"
proof -
  let ?s = "s\<lparr>ax_status := ARM_STATUS_NONE, ax_data := rest\<rparr>"
  have v: "view ?s = view s" by (simp add: view_def)
  note go = ArmExidx_Decode_def GetByte_def Let_def logged_none assms(2,3)
  note mv = as_ref_move [of _ ?s, unfolded v]
  note pop = pop_regs_ref [of mem _ ?s, unfolded v]
  show ?thesis
  proof (cases i)
    case (VspAdd n)
    then show ?thesis using assms(1) six_bits [of n] mv by (simp add: go push_bit_eq_mult mult.commute)
  next
    case (VspSub n)
    then show ?thesis using assms(1) six_bits [of n] mv [of "- (4 * ucast n + 4)"] by (simp add: go push_bit_eq_mult mult.commute)
  next
    case (Pop m)
    then have m: "m < 4096" "m \<noteq> 0" using assms(1) by simp_all
    let ?rs = "filter (\<lambda>r. bit m (r - 4)) [4..<16]"
    have rs: "filter (bit (push_bit 4 m)) [4..<16] = ?rs" by (rule filter_cong) (auto simp: bit_push_bit_iff)
    have b: "bit (push_bit 4 m) 13 = bit m 9" "bit (push_bit 4 m) 15 = bit m 11" by (simp_all add: bit_push_bit_iff)
    have "ArmExidx_Decode mem s = bind_outcome (pop_regs mem ?rs ?s) (\<lambda>_ s.
        let s = (if bit (push_bit 4 m) ARM_REG_SP then s\<lparr>ax_cfa := reg_at ARM_REG_SP (ax_regs s)\<rparr> else s)
        in Done () (if bit (push_bit 4 m) ARM_REG_PC then s\<lparr>pc_is_set := True\<rparr> else s))"
      using m pop_mask [OF m(1)] four_bits [OF pop_mask(2) [OF m(1)]] Pop
      by (simp add: go DecodePrefix_10_def DecodePrefix_10_00_def rs del: upt_rec_numeral)
    then have "ArmExidx_Decode mem s = bind_outcome (pop_regs mem ?rs ?s) (\<lambda>_ s.
        let s = (if bit m 9 then s\<lparr>ax_cfa := reg_at 13 (ax_regs s)\<rparr> else s)
        in Done () (if bit m 11 then s\<lparr>pc_is_set := True\<rparr> else s))"
      by (simp only: ARM_REG_SP_def ARM_REG_PC_def b)
    moreover have "exec (words mem) i (view s) = (case pops (words mem) ?rs (view s) of
        Inl a \<Rightarrow> Inl a
      | Inr (regs, vsp, pc) \<Rightarrow> Inr (regs, if bit m 9 then regs ! 13 else vsp, bit m 11 \<or> pc))"
      by (simp add: Pop del: upt_rec_numeral)
    moreover have "as_ref (pop_regs mem ?rs ?s) (pops (words mem) ?rs (view s)) ?s" by (rule pop)
    ultimately show ?thesis
    proof (cases "pops (words mem) ?rs (view s)")
      case (Inr st)
      obtain regs vsp pc where st: "st = (regs, vsp, pc)" by (cases st)
      assume d: "ArmExidx_Decode mem s = bind_outcome (pop_regs mem ?rs ?s) (\<lambda>_ s.
        let s = (if bit m 9 then s\<lparr>ax_cfa := reg_at 13 (ax_regs s)\<rparr> else s)
        in Done () (if bit m 11 then s\<lparr>pc_is_set := True\<rparr> else s))"
      and e: "exec (words mem) i (view s) = (case pops (words mem) ?rs (view s) of
        Inl a \<Rightarrow> Inl a
      | Inr (regs, vsp, pc) \<Rightarrow> Inr (regs, if bit m 9 then regs ! 13 else vsp, bit m 11 \<or> pc))"
      and p: "as_ref (pop_regs mem ?rs ?s) (pops (words mem) ?rs (view s)) ?s"
      have "pop_regs mem ?rs ?s = Done () (put (regs, vsp, pc) ?s)" using p Inr st by simp
      then show ?thesis unfolding d e Inr st by (simp add: put_def reg_at_def ARM_REG_SP_def Let_def del: upt_rec_numeral)
    qed (auto simp del: upt_rec_numeral)
  next
    case (PopRange n lr)
    then show ?thesis using assms(1) three_bits [of n] pop
      by (auto simp: go DecodePrefix_10_def DecodePrefix_10_10_def ARM_REG_LR_def)
  next
    case (PopLow m)
    then show ?thesis using assms(1) four_bits [of m] pop
      by (simp add: go DecodePrefix_10_def DecodePrefix_10_11_0001_def)
  next
    case (SetVsp r)
    then show ?thesis using assms(1) four_bits [of r]
      by (simp add: go DecodePrefix_10_def DecodePrefix_10_01_def view_def put_def reg_at_def)
  next
    case (VspAddLong n)
    then have "n < 128 ^ 5" using assms(1) by simp
    then have f: "leb_wf (uleb_bytes n)" "leb_value (uleb_bytes n) = n" "length (uleb_bytes n) \<le> 5"
      using uleb_bytes_facts [of n 5] by simp_all
    have "vsp_uleb 0 0 (uleb_bytes n @ rest) = Done (of_nat n) rest"
      using vsp_uleb_reads [OF f(1), of 0 0 rest] f(2,3) by simp
    then show ?thesis using VspAddLong mv
      by (simp add: go DecodePrefix_10_def DecodePrefix_10_11_0010_def push_bit_eq_mult mult.commute)
  next
    case (PopD b)
    then show ?thesis using mv by (simp add: go DecodePrefix_10_def DecodePrefix_10_11_0011_def mult.commute)
  next
    case (PopD8 n)
    then show ?thesis using assms(1) three_bits [of n] mv
      by (simp add: go DecodePrefix_10_def DecodePrefix_10_11_1nnn_def mult.commute)
  next
    case (PopWR10 n)
    then have "n < 6" "n < 8" "n \<noteq> 6" "n \<noteq> 7" using assms(1) order.strict_trans [of n 6 8] by auto
    then show ?thesis using PopWR10 three_bits [of n] mv
      by (simp add: go DecodePrefix_11_def DecodePrefix_11_000_def mult.commute)
  next
    case (PopWR b)
    then show ?thesis using mv by (simp add: go DecodePrefix_11_def DecodePrefix_11_000_def mult.commute)
  next
    case (PopWCGR m)
    then show ?thesis using assms(1) four_bits [of m] popcount_low [of m] mv
      by (simp add: go DecodePrefix_11_def DecodePrefix_11_000_def mult.commute del: upt_rec_numeral)
  next
    case (PushedD16 b)
    then show ?thesis using mv by (simp add: go DecodePrefix_11_def DecodePrefix_11_001_def mult.commute)
  next
    case (PushedD b)
    then show ?thesis using mv by (simp add: go DecodePrefix_11_def DecodePrefix_11_001_def mult.commute)
  next
    case (PushedD8 n)
    then show ?thesis using assms(1) three_bits [of n] mv
      by (simp add: go DecodePrefix_11_def DecodePrefix_11_010_def mult.commute)
  qed
qed

section \<open>Programs\<close>

lemma Decode_finish:
  assumes "ax_data s = ARM_OP_FINISH # rest"
  shows "ArmExidx_Decode mem s = Failed (s\<lparr>ax_data := rest, ax_status := ARM_STATUS_FINISH\<rparr>)"
  using assms by (simp add: ArmExidx_Decode_def GetByte_def ARM_OP_FINISH_def DecodePrefix_10_def
      DecodePrefix_10_11_0000_def arm_fail_def Let_def)

fun loop_ref :: "ArmExidx option \<Rightarrow> u32 + vstate \<Rightarrow> ArmExidx \<Rightarrow> bool" where
  "loop_ref m (Inr st) s \<longleftrightarrow> m = Some (put st s)"
| "loop_ref m (Inl a) s \<longleftrightarrow> (\<exists>t. m = Some t \<and> ax_status t = ARM_STATUS_READ_FAILED \<and> ax_status_address t = ucast a)"

lemma Eval_loop_runs:
  assumes "\<forall>i \<in> set is. insn_ok i" "ax_data s = concat (map encode is) @ ARM_OP_FINISH # rest" "log_type s = ARM_LOG_NONE"
  shows "loop_ref (ArmExidx_Eval_loop mem s) (run (words mem) is (view s))
    (s\<lparr>ax_data := rest, ax_status := ARM_STATUS_FINISH\<rparr>)"
  using assms
proof (induction "is" arbitrary: s)
  case Nil
  then show ?case using Decode_finish [of s rest mem] put_view [of "s\<lparr>ax_data := rest, ax_status := ARM_STATUS_FINISH\<rparr>"]
    by (simp add: ArmExidx_Eval_loop.simps)
next
  case (Cons i "is")
  let ?rest = "concat (map encode is) @ ARM_OP_FINISH # rest"
  have d: "as_ref (ArmExidx_Decode mem s) (exec (words mem) i (view s)) (s\<lparr>ax_status := ARM_STATUS_NONE, ax_data := ?rest\<rparr>)"
    using Cons.prems by (intro Decode_insn) simp_all
  show ?case
  proof (cases "exec (words mem) i (view s)")
    case (Inl a)
    then show ?thesis using d by (auto simp: ArmExidx_Eval_loop.simps [of mem s])
  next
    case (Inr st)
    let ?t = "put st (s\<lparr>ax_status := ARM_STATUS_NONE, ax_data := ?rest\<rparr>)"
    have "loop_ref (ArmExidx_Eval_loop mem ?t) (run (words mem) is (view ?t)) (?t\<lparr>ax_data := rest, ax_status := ARM_STATUS_FINISH\<rparr>)"
      using Cons.prems by (intro Cons.IH) simp_all
    then have "loop_ref (ArmExidx_Eval_loop mem ?t) (run (words mem) is st) (put st (s\<lparr>ax_data := rest, ax_status := ARM_STATUS_FINISH\<rparr>))"
      by simp
    moreover have "ArmExidx_Eval_loop mem s = ArmExidx_Eval_loop mem ?t"
      using d Inr by (simp add: ArmExidx_Eval_loop.simps [of mem s])
    ultimately show ?thesis using Inr by (cases "run (words mem) is st") simp_all
  qed
qed

text \<open>
  Property C14. The decoder of ARM unwind instructions implements the instructions of the exception
  handling ABI. On the encoding of any program followed by the finish operation, \<open>Eval\<close> succeeds with
  exactly the registers, the stack pointer and the flag for the program counter that the reference
  interpreter computes, and with the bytes behind the program still unread; when a word that the
  program pops cannot be read, \<open>Eval\<close> fails and reports the address of the first such word.
\<close>

theorem Eval_runs_unwind_program:
  assumes "\<forall>i \<in> set is. insn_ok i"
    and "ax_data s = concat (map encode is) @ ARM_OP_FINISH # rest"
    and "log_type s = ARM_LOG_NONE"
  shows "case run (words mem) is (reg_values (ax_regs s), ax_cfa s, False) of
      Inr st \<Rightarrow> ArmExidx_Eval mem s = Done () (put st (s\<lparr>ax_data := rest, ax_status := ARM_STATUS_FINISH\<rparr>))
    | Inl a \<Rightarrow> \<exists>t. ArmExidx_Eval mem s = Failed t \<and> ax_status t = ARM_STATUS_READ_FAILED \<and> ax_status_address t = ucast a"
proof -
  let ?s = "s\<lparr>pc_is_set := False\<rparr>"
  let ?r = "run (words mem) is (reg_values (ax_regs s), ax_cfa s, False)"
  have "loop_ref (ArmExidx_Eval_loop mem ?s) ?r (?s\<lparr>ax_data := rest, ax_status := ARM_STATUS_FINISH\<rparr>)"
    using Eval_loop_runs [of "is" ?s rest mem] assms by (simp add: view_def)
  moreover have "put st (?s\<lparr>ax_data := rest, ax_status := ARM_STATUS_FINISH\<rparr>) =
      put st (s\<lparr>ax_data := rest, ax_status := ARM_STATUS_FINISH\<rparr>)" for st
    by (simp add: put_def split: prod.split)
  ultimately show ?thesis by (cases ?r) (auto simp: ArmExidx_Eval_def)
qed

text \<open>A frame that pushed \<open>r4\<close>, \<open>r7\<close> and the return address below eight bytes of locals.\<close>

definition sample_stack :: "u8 list" where
  "sample_stack = [0, 0, 0, 0, 0, 0, 0, 0,  0x11, 0, 0, 0,  0x22, 0, 0, 0,  0x40, 0x80, 0, 0]"

definition sample_arm :: "u8 list \<Rightarrow> ArmExidx" where
  "sample_arm bytes = (ArmExidx_new RegsArm_new)\<lparr>ax_data := bytes\<rparr>"

lemma Eval_runs_unwind_program_witness:
  "\<exists>t. ArmExidx_Eval (MemoryBuffer_Read sample_stack) (sample_arm [0x01, 0x84, 0x09, 0xb0]) = Done () t \<and>
     ax_cfa t = 20 \<and> reg_at 4 (ax_regs t) = 0x11 \<and> reg_at 7 (ax_regs t) = 0x22 \<and> reg_at 14 (ax_regs t) = 0x8040 \<and>
     \<not> pc_is_set t"
proof -
  let ?is = "[VspAdd 1, Pop 0x409]" and ?m = "MemoryBuffer_Read sample_stack"
  let ?s = "sample_arm [0x01, 0x84, 0x09, 0xb0]"
  have "case run (words ?m) ?is (reg_values (ax_regs ?s), ax_cfa ?s, False) of
      Inr st \<Rightarrow> ArmExidx_Eval ?m ?s = Done () (put st (?s\<lparr>ax_data := [], ax_status := ARM_STATUS_FINISH\<rparr>))
    | Inl a \<Rightarrow> \<exists>t. ArmExidx_Eval ?m ?s = Failed t \<and> ax_status t = ARM_STATUS_READ_FAILED \<and> ax_status_address t = ucast a"
    by (rule Eval_runs_unwind_program) (simp_all add: sample_arm_def ArmExidx_new_def ARM_OP_FINISH_def)
  then show ?thesis
    by (simp add: sample_arm_def ArmExidx_new_def RegsArm_new_def RegsImpl_def ARM_REG_LAST_def words_def Read32_def
        ReadFully_def MemoryBuffer_Read_def sample_stack_def move_def le_word_def put_def reg_at_def)
qed

section \<open>The bytes of an entry\<close>

definition grows :: "nat \<Rightarrow> ArmExidx \<Rightarrow> ArmExidx \<Rightarrow> bool" where
  "grows n s t \<longleftrightarrow> length (ax_data t) = length (ax_data s) + n \<and> ax_status t = ax_status s \<and> ax_regs t = ax_regs s"

lemma grows_push_data: "grows (length bs) s (push_data bs s)"
  by (simp add: grows_def push_data_def)

lemma elf_read32_Done: "elf_read32 rd a s = Done data t \<Longrightarrow> t = s"
  by (auto simp: elf_read32_def arm_read_failed_def split: option.splits)

lemma table_words_grows: "table_words rd n addr s = Done () t \<Longrightarrow> grows (4 * n) s t"
proof (induction n arbitrary: addr s)
  case (Suc n)
  then obtain data where "table_words rd n (addr + 4)
      (push_data [byte_of data 3, byte_of data 2, byte_of data 1, byte_of data 0] s) = Done () t"
    by (auto dest: elf_read32_Done)
  from Suc.IH [OF this] show ?case by (simp add: grows_def push_data_def)
qed (simp add: grows_def)

lemma table_header_grows:
  assumes "table_header rd addr data s = Done (n, a) t"
  shows "grows 3 s t \<or> grows 2 s t"
  using assms by (auto simp: table_header_def Let_def arm_fail_def grows_def push_data_def dest!: elf_read32_Done split: if_splits)

lemma add_finish_grows:
  assumes "ax_data s \<noteq> []"
  shows "(grows 0 s (add_finish s) \<or> grows 1 s (add_finish s)) \<and> last (ax_data (add_finish s)) = ARM_OP_FINISH"
  using assms by (simp add: add_finish_def grows_def push_data_def)

lemma unwind_table_grows:
  assumes "unwind_table rd addr data s = Done () t" "ax_data s = []"
  shows "\<exists>n. 2 \<le> n \<and> n \<le> 24 \<and> grows n s t \<and> last (ax_data t) = ARM_OP_FINISH"
proof -
  obtain n a u v where u: "table_header rd addr data s = Done (n, a) u" "n \<le> 5" "table_words rd n a u = Done () v"
    "t = add_finish v"
    using assms(1) by (auto simp: unwind_table_def arm_fail_def split: if_splits)
  have v: "grows (3 + 4 * n) s v \<or> grows (2 + 4 * n) s v"
    using table_header_grows [OF u(1)] table_words_grows [OF u(3)] by (auto simp: grows_def)
  then have "ax_data v \<noteq> []" by (auto simp: grows_def)
  from add_finish_grows [OF this] v u(2) show ?thesis unfolding u(4) by (auto simp: grows_def)
qed

text \<open>
  Property C10. \<open>ExtractEntryData\<close> hands on a bounded and terminated program. Whatever the exception
  tables of the file hold, when it succeeds there are at least two and at most 24 bytes, the last of
  which is the finish operation, and the status is clear; so what a crafted file can make \<open>Eval\<close> do is
  bounded by 24 instructions.
\<close>

theorem ExtractEntryData_bounds:
  assumes "ExtractEntryData rd entry_offset s = Done () t"
  shows "2 \<le> length (ax_data t) \<and> length (ax_data t) \<le> 24 \<and> last (ax_data t) = ARM_OP_FINISH \<and>
    ax_status t = ARM_STATUS_NONE \<and> ax_regs t = ax_regs s"
proof -
  let ?s = "s\<lparr>ax_data := [], ax_status := ARM_STATUS_NONE\<rparr>"
  have "\<exists>n. 2 \<le> n \<and> n \<le> 24 \<and> grows n ?s t \<and> last (ax_data t) = ARM_OP_FINISH"
  proof -
    obtain data where d: "elf_read32 rd (entry_offset + 4) ?s = Done data ?s"
      using assms by (auto simp: ExtractEntryData_def Let_def arm_fail_def dest: elf_read32_Done split: if_splits)
    show ?thesis
    proof (cases "bit data 31")
      case True
      let ?t = "push_data [byte_of data 2, byte_of data 1, byte_of data 0] ?s"
      have "t = add_finish ?t" using assms d True by (auto simp: ExtractEntryData_def Let_def arm_fail_def split: if_splits)
      moreover have "ax_data ?t \<noteq> []" "grows 3 ?s ?t" by (simp_all add: push_data_def grows_def)
      ultimately show ?thesis using add_finish_grows [of ?t] by (auto simp: grows_def)
    next
      case False
      then obtain addr data' u where "elf_read32 rd addr ?s = Done data' u" "unwind_table rd addr data' u = Done () t"
        using assms d by (auto simp: ExtractEntryData_def Let_def arm_fail_def split: if_splits)
      then show ?thesis using unwind_table_grows [of rd addr data' ?s t] elf_read32_Done by fastforce
    qed
  qed
  then show ?thesis by (auto simp: grows_def)
qed

text \<open>An entry in the generic model with two more words.\<close>

definition sample_exidx :: "u8 list" where
  "sample_exidx = [0, 0, 0, 0, 4, 0, 0, 0, 0, 0x10, 0, 0, 3, 2, 1, 2, 7, 6, 5, 4, 11, 10, 9, 8]"

lemma ExtractEntryData_bounds_witness:
  "\<exists>t. ExtractEntryData (MemoryBuffer_Read sample_exidx) 0 (sample_arm []) = Done () t \<and>
     ax_data t = [1, 2, 3, 4, 5, 6, 7, 8, 9, 10, 11, 0xb0] \<and> length (ax_data t) \<le> 24"
proof -
  let ?m = "ExtractEntryData (MemoryBuffer_Read sample_exidx) 0 (sample_arm [])"
  have two: "table_words rd 2 addr s = bind_outcome (elf_read32 rd addr s) (\<lambda>data s.
      table_words rd 1 (addr + 4) (push_data [byte_of data 3, byte_of data 2, byte_of data 1, byte_of data 0] s))"
    for rd addr s by (simp add: numeral_2_eq_2)
  have e: "\<exists>t. ?m = Done () t \<and> ax_data t = [1, 2, 3, 4, 5, 6, 7, 8, 9, 10, 11, 0xb0]"
    by (simp add: ExtractEntryData_def unwind_table_def table_header_def elf_read32_def Read32_def ReadFully_def
        MemoryBuffer_Read_def sample_exidx_def le_word_def byte_of_def push_data_def add_finish_def ARM_OP_FINISH_def
        Let_def sample_arm_def ArmExidx_new_def two)
  then obtain t where t: "?m = Done () t" "ax_data t = [1, 2, 3, 4, 5, 6, 7, 8, 9, 10, 11, 0xb0]" by blast
  then show ?thesis using ExtractEntryData_bounds [OF t(1)] by blast
qed

section \<open>The log by register\<close>

text \<open>
  The offsets kept for the log are wrong after a second pop: they are relative to the frame address,
  which the second pop moves, but only the instructions that add a constant adjust the entries that
  are already there. After \<open>pop {r4}\<close> and \<open>pop {r5}\<close> the log places \<open>r4\<close> four bytes below the frame
  address, where \<open>r5\<close> is; it lies eight bytes below.
\<close>

lemma log_regs_stale:
  "\<exists>t u. ArmExidx_Decode mem ((sample_arm [0x80, 1, 0x80, 2])\<lparr>log_type := ARM_LOG_BY_REG, log_skip_execution := True\<rparr>) = Done () t \<and>
     ArmExidx_Decode mem t = Done () u \<and> log_cfa_offset u = 8 \<and> log_regs u 4 = Some 4 \<and> log_regs u 5 = Some 4"
  by (simp add: ArmExidx_Decode_def GetByte_def DecodePrefix_10_def DecodePrefix_10_00_def logged_def log_pop_def
      log_move_def sample_arm_def ArmExidx_new_def Let_def bit_iff_odd)

end
