(* ===== verification/Symbols.thy ===== *)
theory Symbols
  imports MemoryProps OrderedMap
begin

text \<open>
  Symbol tables of ELF files: \<open>unwindstack/Symbols.cpp\<close> and \<open>Symbols.h\<close>. \<open>SymType\<close> is chosen by the
  class of the file; the layouts are those of \<open>elf.h\<close>. A pointer into the cache is the key of its entry.
\<close>

section \<open>Symbols of a file\<close>

datatype ElfClass = ELF32 | ELF64

record Sym =
  st_name :: u32
  st_value :: u64
  st_size :: u64
  st_info :: u8
  st_shndx :: u16

definition sym_bytes :: "ElfClass \<Rightarrow> nat" where
  "sym_bytes cls = (case cls of ELF32 \<Rightarrow> 16 | ELF64 \<Rightarrow> 24)"

text \<open>An integer of \<open>n\<close> bytes at an offset of a structure.\<close>

definition field :: "nat \<Rightarrow> nat \<Rightarrow> u8 list \<Rightarrow> 'a::len word" where
  "field off n bs = le_word (take n (drop off bs))"

definition parse_sym :: "ElfClass \<Rightarrow> u8 list \<Rightarrow> Sym" where
  "parse_sym cls bs =
     (case cls of
        ELF32 \<Rightarrow> \<lparr>st_name = field 0 4 bs, st_value = field 4 4 bs, st_size = field 8 4 bs,
          st_info = field 12 1 bs, st_shndx = field 14 2 bs\<rparr>
      | ELF64 \<Rightarrow> \<lparr>st_name = field 0 4 bs, st_value = field 8 8 bs, st_size = field 16 8 bs,
          st_info = field 4 1 bs, st_shndx = field 6 2 bs\<rparr>)"

text \<open>\<open>st_value + st_size\<close> in the width of the class.\<close>

definition sym_end :: "ElfClass \<Rightarrow> Sym \<Rightarrow> u64" where
  "sym_end cls sy =
     (case cls of
        ELF32 \<Rightarrow> ucast (ucast (st_value sy) + ucast (st_size sy) :: u32)
      | ELF64 \<Rightarrow> st_value sy + st_size sy)"

definition SHN_UNDEF :: u16 where "SHN_UNDEF = 0"
definition STT_OBJECT :: u8 where "STT_OBJECT = 1"
definition STT_FUNC :: u8 where "STT_FUNC = 2"
definition STB_GLOBAL :: u8 where "STB_GLOBAL = 1"

definition IsFunc :: "Sym \<Rightarrow> bool" where
  "IsFunc sy \<longleftrightarrow> st_shndx sy \<noteq> SHN_UNDEF \<and> st_info sy AND 0xf = STT_FUNC"

section \<open>State\<close>

record Info =
  info_size :: u32
  info_index :: u32
  info_name :: "u8 list option"

record Symbols =
  sy_offset :: u64
  sy_count :: u64
  sy_entry_size :: u64
  sy_str_offset :: u64
  sy_str_end :: u64
  symbols :: "(u64 \<times> Info) list"
  remap :: "u32 list option"
  global_variables :: "u8 list \<rightharpoonup> u64 option"

definition Symbols_new :: "u64 \<Rightarrow> u64 \<Rightarrow> u64 \<Rightarrow> u64 \<Rightarrow> u64 \<Rightarrow> Symbols" where
  "Symbols_new offset sz entry_size str_offset str_size =
     \<lparr>sy_offset = offset, sy_count = (if entry_size \<noteq> 0 then sz div entry_size else 0), sy_entry_size = entry_size,
      sy_str_offset = str_offset, sy_str_end = str_offset + str_size, symbols = [], remap = None,
      global_variables = Map.empty\<rparr>"

definition ClearCache :: "Symbols \<Rightarrow> Symbols" where
  "ClearCache s = s\<lparr>symbols := [], remap := None\<rparr>"

section \<open>Binary search\<close>

definition symbol_at :: "ElfClass \<Rightarrow> reader \<Rightarrow> Symbols \<Rightarrow> u32 \<Rightarrow> Sym option" where
  "symbol_at cls rd s symbol_index =
     map_option (parse_sym cls) (ReadFully rd (sy_offset s + ucast symbol_index * sy_entry_size s) (sym_bytes cls))"

text \<open>The index of a symbol from its place in the order that is searched.\<close>

definition symbol_index :: "bool \<Rightarrow> Symbols \<Rightarrow> u32 \<Rightarrow> u32" where
  "symbol_index remapped s i = (if remapped then the (remap s) ! unat i else i)"

definition emplace_info :: "u64 \<Rightarrow> Info \<Rightarrow> (u64 \<times> Info) list \<Rightarrow> (u64 \<times> Info) list" where
  "emplace_info k v m = (if map_of m k = None then om_assign k v m else m)"

lemma search_midpoint:
  fixes first final :: u32
  assumes "first < final"
  shows "unat (first + (final - first) div 2) = unat first + (unat final - unat first) div 2"
    and "first + (final - first) div 2 < final"
    and "unat (first + (final - first) div 2 + 1) = unat first + (unat final - unat first) div 2 + 1"
proof -
  have l: "unat first < unat final" using assms by (simp add: word_less_nat_alt)
  have d: "unat (final - first) = unat final - unat first" using assms by (simp add: unat_sub)
  have m: "unat ((final - first) div 2) = (unat final - unat first) div 2" by (simp add: unat_div d)
  have "unat final < 2 ^ LENGTH(32)" by (rule unsigned_less)
  then have b: "unat first + (unat final - unat first) div 2 + 1 < 2 ^ 32" using l by simp
  then show u: "unat (first + (final - first) div 2) = unat first + (unat final - unat first) div 2"
    by (simp only: unat_word_ariths(1) m) simp
  then show "first + (final - first) div 2 < final" using l by (simp add: word_less_nat_alt)
  show "unat (first + (final - first) div 2 + 1) = unat first + (unat final - unat first) div 2 + 1"
    using unat_Suc_word [of "first + (final - first) div 2"] b u by simp
qed

text \<open>The loop, with the entry it returns a pointer to and \<open>*func_offset\<close>.\<close>

function search_loop :: "ElfClass \<Rightarrow> reader \<Rightarrow> bool \<Rightarrow> u64 \<Rightarrow> u32 \<Rightarrow> u32 \<Rightarrow> Symbols \<Rightarrow> (u64 \<times> u64) option \<times> Symbols" where
  "search_loop cls rd remapped addr first final s =
     (if first < final then
        (let current = first + (final - first) div 2 in
         case symbol_at cls rd s (symbol_index remapped s current) of
           None \<Rightarrow> (None, s)
         | Some sy \<Rightarrow>
             (let k = sym_end cls sy;
                  info = \<lparr>info_size = ucast (st_size sy), info_index = current, info_name = None\<rparr>;
                  s' = s\<lparr>symbols := emplace_info k info (symbols s)\<rparr>
              in if addr < st_value sy then search_loop cls rd remapped addr first current s'
                 else if addr < k then (Some (k, addr - st_value sy), s')
                 else search_loop cls rd remapped addr (current + 1) final s'))
      else (None, s))"
  by pat_completeness auto

termination
proof (relation "measure (\<lambda>(cls, rd, remapped, addr, first, final, s). unat final - unat first)", goal_cases)
  case (2 cls rd remapped addr first final s)
  then show ?case using search_midpoint [of first final] by (simp add: word_less_nat_alt)
next
  case (3 cls rd remapped addr first final s)
  then show ?case using search_midpoint [of first final] by (simp add: word_less_nat_alt) linarith
qed simp

declare search_loop.simps [simp del]

definition BinarySearch :: "ElfClass \<Rightarrow> reader \<Rightarrow> bool \<Rightarrow> u64 \<Rightarrow> Symbols \<Rightarrow> (u64 \<times> u64) option \<times> Symbols" where
  "BinarySearch cls rd remapped addr s =
     (let before = takeWhile (\<lambda>(e, v). e \<le> addr) (symbols s);
          it = upper_bound addr (symbols s);
          search = (let count = (if remapped then of_nat (length (the (remap s))) else ucast (sy_count s));
                        final = (case it of [] \<Rightarrow> count | (_, info) # _ \<Rightarrow> info_index info);
                        first = (if before = [] then 0 else info_index (snd (last before)) + 1)
                    in search_loop cls rd remapped addr first final s)
      in case it of
           [] \<Rightarrow> search
         | (e, info) # _ \<Rightarrow>
             (let sym_value = e - ucast (info_size info) in
              if sym_value \<le> addr then (Some (e, addr - sym_value), s) else search))"

section \<open>The remap table\<close>

text \<open>The symbols of one batch: the copies at every multiple of \<open>entry_size\<close> that fit.\<close>

function batch :: "ElfClass \<Rightarrow> nat \<Rightarrow> nat \<Rightarrow> u8 list \<Rightarrow> Sym list" where
  "batch cls entry_size offset bs =
     (if entry_size \<noteq> 0 \<and> offset + sym_bytes cls \<le> length bs
      then parse_sym cls (drop offset bs) # batch cls entry_size (offset + entry_size) bs else [])"
  by pat_completeness auto
termination by (relation "measure (\<lambda>(cls, es, offset, bs). length bs + 1 - offset)") (auto simp: sym_bytes_def split: ElfClass.splits)

declare batch.simps [simp del]

lemma batch_nonempty: "entry_size \<noteq> 0 \<Longrightarrow> sym_bytes cls \<le> length bs \<Longrightarrow> batch cls entry_size 0 bs \<noteq> []"
  by (subst batch.simps) simp

text \<open>All symbols up to the first batch that cannot be read, in the order of their indices.\<close>

function read_batches :: "ElfClass \<Rightarrow> reader \<Rightarrow> Symbols \<Rightarrow> nat \<Rightarrow> Sym list" where
  "read_batches cls rd s symbol_idx =
     (let entry_size = unat (sy_entry_size s); count = unat (sy_count s) in
      if symbol_idx < count \<and> entry_size \<noteq> 0 then
        (let bs = rd (sy_offset s + of_nat symbol_idx * sy_entry_size s) (min 1024 ((count - symbol_idx) * entry_size)) in
         if length bs < sym_bytes cls then []
         else (let syms = batch cls entry_size 0 bs in syms @ read_batches cls rd s (symbol_idx + length syms)))
      else [])"
  by pat_completeness auto
termination
proof (relation "measure (\<lambda>(cls, rd, s, i). unat (sy_count s) - i)", goal_cases)
  case (2 cls rd s i es count bs syms)
  then have "syms \<noteq> []" using batch_nonempty [of es cls bs] by simp
  then show ?case using 2 by (simp add: diff_less_mono2)
qed simp

declare read_batches.simps [simp del]

text \<open>\<open>std::unique\<close>: the first of every run of indices with the same address.\<close>

fun unique_by :: "(u32 \<Rightarrow> u64) \<Rightarrow> u32 list \<Rightarrow> u32 list" where
  "unique_by f (a # b # xs) = (if f a = f b then unique_by f (a # xs) else a # unique_by f (b # xs))"
| "unique_by f xs = xs"

text \<open>The order by address and then by index is the stable sort by address of the indices in order.\<close>

definition remap_table :: "Sym list \<Rightarrow> u32 list" where
  "remap_table syms =
     (let addr_of = (\<lambda>i. st_value (syms ! unat i)) in
      unique_by addr_of (sort_key addr_of (sort (map of_nat (filter (\<lambda>i. IsFunc (syms ! i)) [0..<length syms])))))"

definition BuildRemapTable :: "ElfClass \<Rightarrow> reader \<Rightarrow> Symbols \<Rightarrow> Symbols" where
  "BuildRemapTable cls rd s = s\<lparr>remap := Some (remap_table (read_batches cls rd s 0))\<rparr>"

section \<open>Names\<close>

definition update_name :: "u64 \<Rightarrow> u8 list \<Rightarrow> Symbols \<Rightarrow> Symbols" where
  "update_name k name s =
     s\<lparr>symbols := map (\<lambda>(e, info). (e, if e = k then info\<lparr>info_name := Some name\<rparr> else info)) (symbols s)\<rparr>"

text \<open>Finding the entry, with a second search after the remap table was built.\<close>

definition find_symbol :: "ElfClass \<Rightarrow> reader \<Rightarrow> u64 \<Rightarrow> Symbols \<Rightarrow> (u64 \<times> u64) option \<times> Symbols" where
  "find_symbol cls rd addr s =
     (if remap s = None then
        (case BinarySearch cls rd False addr s of
           (Some r, s) \<Rightarrow> (Some r, s)
         | (None, s) \<Rightarrow> BinarySearch cls rd True addr ((BuildRemapTable cls rd s)\<lparr>symbols := []\<rparr>))
      else BinarySearch cls rd True addr s)"

text \<open>The name of a symbol that was not read before.\<close>

definition read_name :: "ElfClass \<Rightarrow> reader \<Rightarrow> Symbols \<Rightarrow> Info \<Rightarrow> u8 list option" where
  "read_name cls rd s info =
     (case symbol_at cls rd s (symbol_index (remap s \<noteq> None) s (info_index info)) of
        None \<Rightarrow> None
      | Some sy \<Rightarrow>
          (case add_overflow (sy_str_offset s) (ucast (st_name sy)) of
             None \<Rightarrow> None
           | Some str \<Rightarrow>
               if str \<ge> sy_str_end s then None
               else if \<not> IsFunc sy then None
               else ReadString rd str (unat (sy_str_end s - str))))"

definition GetName :: "ElfClass \<Rightarrow> reader \<Rightarrow> u64 \<Rightarrow> Symbols \<Rightarrow> (u8 list \<times> u64) option \<times> Symbols" where
  "GetName cls rd addr s =
     (case find_symbol cls rd addr s of
        (None, s) \<Rightarrow> (None, s)
      | (Some (k, func_offset), s) \<Rightarrow>
          (case map_of (symbols s) k of
             None \<Rightarrow> (None, s)
           | Some info \<Rightarrow>
               (case info_name info of
                  Some name \<Rightarrow> (Some (name, func_offset), s)
                | None \<Rightarrow>
                    (case read_name cls rd s info of
                       None \<Rightarrow> (None, s)
                     | Some name \<Rightarrow> (Some (name, func_offset), update_name k name s)))))"

section \<open>Global variables\<close>

definition global_match :: "reader \<Rightarrow> Symbols \<Rightarrow> u8 list \<Rightarrow> Sym \<Rightarrow> bool" where
  "global_match rd s name entry \<longleftrightarrow>
     st_shndx entry \<noteq> SHN_UNDEF \<and> st_info entry AND 0xf = STT_OBJECT \<and> drop_bit 4 (st_info entry) = STB_GLOBAL \<and>
     (let str_offset = sy_str_offset s + ucast (st_name entry) in
      str_offset < sy_str_end s \<and> ReadString rd str_offset (unat (sy_str_end s - str_offset)) = Some name)"

text \<open>
  The scan: the counter has 32 bits and the number of symbols 64, so it need not end. Only a complete
  scan is remembered as not found.
\<close>

partial_function (option) global_scan :: "ElfClass \<Rightarrow> reader \<Rightarrow> u8 list \<Rightarrow> u32 \<Rightarrow> Symbols \<Rightarrow> (u64 option \<times> Symbols) option" where
  "global_scan cls rd name i s =
     (if ucast i < sy_count s then
        (case symbol_at cls rd s i of
           None \<Rightarrow> Some (None, s)
         | Some entry \<Rightarrow>
             if global_match rd s name entry then
               Some (Some (st_value entry), s\<lparr>global_variables := (global_variables s)(name \<mapsto> Some (st_value entry))\<rparr>)
             else global_scan cls rd name (i + 1) s)
      else Some (None, s\<lparr>global_variables := (global_variables s)(name \<mapsto> None)\<rparr>))"

definition GetGlobal :: "ElfClass \<Rightarrow> reader \<Rightarrow> u8 list \<Rightarrow> Symbols \<Rightarrow> (u64 option \<times> Symbols) option" where
  "GetGlobal cls rd name s =
     (case global_variables s name of
        Some v \<Rightarrow> Some (v, s)
      | None \<Rightarrow> global_scan cls rd name 0 s)"

end
