(* ===== verification/SymbolsProps.thy ===== *)
theory SymbolsProps
  imports Symbols
begin

text \<open>
  The lookup of function names: what it answers is right whatever was looked up before, and in a
  sorted table it finds every function.
\<close>

section \<open>The invariant of the cache\<close>

text \<open>The number of places that are searched, and the symbol at one of them.\<close>

definition slots :: "bool \<Rightarrow> Symbols \<Rightarrow> nat" where
  "slots remapped s = (if remapped then length (the (remap s)) else unat (sy_count s))"

definition slot :: "ElfClass \<Rightarrow> reader \<Rightarrow> bool \<Rightarrow> Symbols \<Rightarrow> u32 \<Rightarrow> Sym option" where
  "slot cls rd remapped s i = symbol_at cls rd s (symbol_index remapped s i)"

text \<open>Every entry of the cache is of a symbol of the table, under its end.\<close>

definition entry_ok :: "ElfClass \<Rightarrow> reader \<Rightarrow> bool \<Rightarrow> Symbols \<Rightarrow> u64 \<Rightarrow> Info \<Rightarrow> bool" where
  "entry_ok cls rd remapped s k info \<longleftrightarrow>
     unat (info_index info) < slots remapped s \<and>
     (\<exists>sy. slot cls rd remapped s (info_index info) = Some sy \<and> k = sym_end cls sy \<and> info_size info = ucast (st_size sy)) \<and>
     (\<forall>nm. info_name info = Some nm \<longrightarrow> read_name cls rd s info = Some nm)"

definition cache_ok :: "ElfClass \<Rightarrow> reader \<Rightarrow> Symbols \<Rightarrow> bool" where
  "cache_ok cls rd s \<longleftrightarrow> om_wf (symbols s) \<and>
     (\<forall>(k, info) \<in> set (symbols s). entry_ok cls rd (remap s \<noteq> None) s k info) \<and>
     (\<forall>is. remap s = Some is \<longrightarrow> (\<forall>i \<in> set is. unat i < unat (sy_count s)))"

text \<open>
  What is asked of the file: a symbol does not reach beyond the address space and is smaller than
  four gigabytes, and symbols that end together start together.
\<close>

definition table_ok :: "ElfClass \<Rightarrow> reader \<Rightarrow> Symbols \<Rightarrow> bool" where
  "table_ok cls rd s \<longleftrightarrow>
     (\<forall>i sy. unat i < unat (sy_count s) \<longrightarrow> symbol_at cls rd s i = Some sy \<longrightarrow>
        unat (st_size sy) < 2 ^ 32 \<and> unat (sym_end cls sy) = unat (st_value sy) + unat (st_size sy)) \<and>
     (\<forall>i j sy sy'. unat i < unat (sy_count s) \<longrightarrow> unat j < unat (sy_count s) \<longrightarrow>
        symbol_at cls rd s i = Some sy \<longrightarrow> symbol_at cls rd s j = Some sy' \<longrightarrow>
        sym_end cls sy = sym_end cls sy' \<longrightarrow> st_value sy = st_value sy')"

text \<open>Only the cache and the remap table ever change.\<close>

lemma with_symbols [simp]:
  "symbol_at cls rd (s\<lparr>symbols := m\<rparr>) i = symbol_at cls rd s i" "symbol_index r (s\<lparr>symbols := m\<rparr>) i = symbol_index r s i"
  "slots r (s\<lparr>symbols := m\<rparr>) = slots r s"
  by (simp_all add: symbol_at_def symbol_index_def slots_def)

lemma with_symbols_too [simp]:
  "slot cls rd r (s\<lparr>symbols := m\<rparr>) i = slot cls rd r s i"
  "read_name cls rd (s\<lparr>symbols := m\<rparr>) info = read_name cls rd s info"
  by (simp_all add: slot_def read_name_def cong: option.case_cong if_cong)

lemma with_symbols_ok [simp]:
  "entry_ok cls rd r (s\<lparr>symbols := m\<rparr>) k info = entry_ok cls rd r s k info"
  "table_ok cls rd (s\<lparr>symbols := m\<rparr>) = table_ok cls rd s"
  by (simp_all add: entry_ok_def table_ok_def)

lemma set_om_assign_pairs: "set (om_assign k v m) \<subseteq> insert (k, v) (set m)"
  by (induction k v m rule: om_assign.induct) auto

lemma emplace_ok:
  assumes "cache_ok cls rd s" "entry_ok cls rd (remap s \<noteq> None) s k info"
  shows "cache_ok cls rd (s\<lparr>symbols := emplace_info k info (symbols s)\<rparr>)"
    and "\<exists>v. map_of (emplace_info k info (symbols s)) k = Some v"
proof -
  have w: "om_wf (symbols s)" using assms(1) by (simp add: cache_ok_def)
  show "cache_ok cls rd (s\<lparr>symbols := emplace_info k info (symbols s)\<rparr>)"
    using assms w om_wf_assign [OF w] set_om_assign_pairs [of k info "symbols s"]
    by (fastforce simp: cache_ok_def emplace_info_def)
  show "\<exists>v. map_of (emplace_info k info (symbols s)) k = Some v"
    using map_of_om_assign [OF w] by (cases "map_of (symbols s) k") (auto simp: emplace_info_def)
qed

lemma slot_in_table:
  assumes "cache_ok cls rd s" "unat i < slots (remap s \<noteq> None) s"
  shows "unat (symbol_index (remap s \<noteq> None) s i) < unat (sy_count s)"
  using assms by (auto simp: cache_ok_def slots_def symbol_index_def)

section \<open>The search\<close>

text \<open>The entry under key \<open>k\<close> is of a symbol that covers the address.\<close>

definition hit :: "ElfClass \<Rightarrow> reader \<Rightarrow> Symbols \<Rightarrow> u64 \<Rightarrow> u64 \<Rightarrow> u64 \<Rightarrow> bool" where
  "hit cls rd s addr k off \<longleftrightarrow>
     (\<exists>info sy. map_of (symbols s) k = Some info \<and> slot cls rd (remap s \<noteq> None) s (info_index info) = Some sy \<and>
        unat (info_index info) < slots (remap s \<noteq> None) s \<and>
        k = sym_end cls sy \<and> st_value sy \<le> addr \<and> addr < k \<and> off = addr - st_value sy)"

lemma cached_entry:
  assumes "cache_ok cls rd s" "map_of (symbols s) k = Some info"
  shows "entry_ok cls rd (remap s \<noteq> None) s k info"
  using assms map_of_SomeD [OF assms(2)] by (auto simp: cache_ok_def)

lemma same_end_hit:
  assumes "cache_ok cls rd s" "table_ok cls rd s" "map_of (symbols s) k = Some info"
    and "slot cls rd (remap s \<noteq> None) s i = Some sy" "unat i < slots (remap s \<noteq> None) s"
    and "k = sym_end cls sy" "st_value sy \<le> addr" "addr < k"
  shows "hit cls rd s addr k (addr - st_value sy)"
proof -
  have e: "entry_ok cls rd (remap s \<noteq> None) s k info" by (rule cached_entry [OF assms(1,3)])
  then obtain sy' where sy': "slot cls rd (remap s \<noteq> None) s (info_index info) = Some sy'" "k = sym_end cls sy'"
    and i: "unat (info_index info) < slots (remap s \<noteq> None) s" by (auto simp: entry_ok_def)
  have "unat (symbol_index (remap s \<noteq> None) s i) < unat (sy_count s)"
    "unat (symbol_index (remap s \<noteq> None) s (info_index info)) < unat (sy_count s)"
    using slot_in_table [OF assms(1)] assms(5) i by blast+
  then have "st_value sy' = st_value sy"
    using assms(2,4,6) sy' unfolding table_ok_def slot_def by metis
  then show ?thesis using assms sy' i unfolding hit_def by auto
qed

lemma search_loop_sound:
  assumes "cache_ok cls rd s" "table_ok cls rd s" "remapped = (remap s \<noteq> None)" "unat final \<le> slots remapped s"
  shows "\<exists>m r. search_loop cls rd remapped addr first final s = (r, s\<lparr>symbols := m\<rparr>) \<and> cache_ok cls rd (s\<lparr>symbols := m\<rparr>) \<and>
     (\<forall>k off. r = Some (k, off) \<longrightarrow> hit cls rd (s\<lparr>symbols := m\<rparr>) addr k off)"
  using assms
proof (induction cls rd remapped addr first final s rule: search_loop.induct)
  case (1 cls rd remapped addr first final s)
  have stop: "\<exists>m. s = s\<lparr>symbols := m\<rparr> \<and> cache_ok cls rd (s\<lparr>symbols := m\<rparr>)" using 1(3) by (intro exI [where x = "symbols s"]) simp
  show ?case
  proof (cases "first < final")
    case False
    then show ?thesis using 1(3) by (simp add: search_loop.simps [of cls rd remapped addr first final s]) (metis stop)
  next
    case True
    let ?c = "first + (final - first) div 2"
    note mid = search_midpoint [OF True]
    show ?thesis
    proof (cases "symbol_at cls rd s (symbol_index remapped s ?c)")
      case None
      then show ?thesis using True 1(3)
        by (simp add: search_loop.simps [of cls rd remapped addr first final s] Let_def) (metis stop)
    next
      case (Some sy)
      let ?k = "sym_end cls sy" and ?info = "\<lparr>info_size = ucast (st_size sy), info_index = ?c, info_name = None\<rparr>"
      let ?s = "s\<lparr>symbols := emplace_info ?k ?info (symbols s)\<rparr>"
      have c: "unat ?c < slots remapped s" using mid(2) 1(6) by (simp add: word_less_nat_alt)
      have "entry_ok cls rd (remap s \<noteq> None) s ?k ?info" using c Some 1(5) by (simp add: entry_ok_def slot_def)
      note new = emplace_ok [OF 1(3) this]
      note IH = 1(1,2) [OF True refl Some refl refl refl]
      show ?thesis
      proof (cases "addr < st_value sy")
        case less: True
        have "unat ?c \<le> slots remapped ?s" using c by simp
        have e: "search_loop cls rd remapped addr first final s = search_loop cls rd remapped addr first ?c ?s"
          using True Some less by (simp add: search_loop.simps [of cls rd remapped addr first final s] Let_def)
        show ?thesis using IH(1) [OF less new(1) _ _ \<open>unat ?c \<le> slots remapped ?s\<close>] 1(4,5) unfolding e by simp
      next
        case ge: False
        show ?thesis
        proof (cases "addr < ?k")
          case lt: True
          obtain info where "map_of (symbols ?s) ?k = Some info" using new(2) by auto
          then have "hit cls rd ?s addr ?k (addr - st_value sy)"
            using same_end_hit [OF new(1), of ?k info ?c sy addr] 1(4,5) Some c ge lt by (simp add: slot_def)
          then show ?thesis using True Some ge lt new(1)
            by (auto simp: search_loop.simps [of cls rd remapped addr first final s] Let_def)
        next
          case nlt: False
          have "unat final \<le> slots remapped ?s" using 1(6) by simp
          have e: "search_loop cls rd remapped addr first final s = search_loop cls rd remapped addr (?c + 1) final ?s"
            using True Some ge nlt by (simp add: search_loop.simps [of cls rd remapped addr first final s] Let_def)
          show ?thesis using IH(2) [OF ge nlt new(1) _ _ \<open>unat final \<le> slots remapped ?s\<close>] 1(4,5) unfolding e by simp
        qed
      qed
    qed
  qed
qed

text \<open>The start of a cached symbol, which is computed from its key and its size.\<close>

lemma symbol_start:
  assumes "unat (st_size sy) < 2 ^ 32" "unat (sym_end cls sy) = unat (st_value sy) + unat (st_size sy)"
  shows "sym_end cls sy - ucast (ucast (st_size sy) :: u32) = st_value sy"
proof -
  have "unat (take_bit 32 (st_size sy)) = unat (st_size sy)"
    by (simp only: unsigned_take_bit_eq take_bit_nat_eq_self [OF assms(1)])
  then have "take_bit 32 (st_size sy) = st_size sy" by (simp only: word_unat_eq_iff)
  moreover have "ucast (ucast (st_size sy) :: u32) = take_bit 32 (st_size sy)"
    by (rule bit_word_eqI) (auto simp: bit_simps)
  ultimately show ?thesis using assms(2) by (simp add: word_unat_eq_iff unat_sub word_le_nat_alt)
qed

lemma BinarySearch_sound:
  assumes "cache_ok cls rd s" "table_ok cls rd s" "remapped = (remap s \<noteq> None)"
  shows "\<exists>m r. BinarySearch cls rd remapped addr s = (r, s\<lparr>symbols := m\<rparr>) \<and> cache_ok cls rd (s\<lparr>symbols := m\<rparr>) \<and>
     (\<forall>k off. r = Some (k, off) \<longrightarrow> hit cls rd (s\<lparr>symbols := m\<rparr>) addr k off)"
proof -
  have w: "om_wf (symbols s)" using assms(1) by (simp add: cache_ok_def)
  have count: "unat (if remapped then of_nat (length (the (remap s))) else ucast (sy_count s) :: u32) \<le> slots remapped s"
    by (simp add: slots_def unsigned_of_nat unsigned_ucast_eq take_bit_nat_less_eq_self)
  note loop = search_loop_sound [OF assms]
  show ?thesis
  proof (cases "upper_bound addr (symbols s)")
    case Nil
    then show ?thesis using loop [OF count] by (simp add: BinarySearch_def Let_def)
  next
    case (Cons x rest)
    obtain e info where x: "x = (e, info)" by (cases x)
    have "(e, info) \<in> set (upper_bound addr (symbols s))" using Cons x by simp
    then have m: "(e, info) \<in> set (symbols s)" "addr < e" using upper_bound_filter [OF w, of addr] by auto
    then have e: "entry_ok cls rd remapped s e info" using assms(1,3) by (auto simp: cache_ok_def)
    then have "unat (info_index info) \<le> slots remapped s" by (simp add: entry_ok_def)
    note search = loop [OF this]
    show ?thesis
    proof (cases "e - ucast (info_size info) \<le> addr")
      case True
      obtain sy where sy: "slot cls rd remapped s (info_index info) = Some sy" "e = sym_end cls sy"
        "info_size info = ucast (st_size sy)" "unat (info_index info) < slots remapped s" using e by (auto simp: entry_ok_def)
      have i: "unat (symbol_index remapped s (info_index info)) < unat (sy_count s)"
        using slot_in_table [OF assms(1)] sy(4) assms(3) by simp
      have t: "unat (st_size sy) < 2 ^ 32" "unat (sym_end cls sy) = unat (st_value sy) + unat (st_size sy)"
        using assms(2) i sy(1) unfolding table_ok_def slot_def by blast+
      have v: "e - ucast (info_size info) = st_value sy" using symbol_start [OF t] sy by simp
      have "map_of (symbols s) e = Some info" using m(1) w by (simp add: om_wf_def strict_sorted_iff)
      then have "hit cls rd s addr e (addr - st_value sy)"
        unfolding hit_def using sy m(2) True v assms(3) by auto
      then show ?thesis using Cons True x v assms(1)
        by (intro exI [where x = "symbols s"]) (simp add: BinarySearch_def Let_def)
    next
      case False
      then show ?thesis using Cons x search by (simp add: BinarySearch_def Let_def)
    qed
  qed
qed

section \<open>The remap table\<close>

lemma batch_length: "entry_size \<noteq> 0 \<Longrightarrow> offset mod entry_size = 0 \<Longrightarrow> length bs \<le> n * entry_size \<Longrightarrow>
    length (batch cls entry_size offset bs) + offset div entry_size \<le> max n (offset div entry_size)"
proof (induction cls entry_size offset bs rule: batch.induct)
  case (1 cls entry_size offset bs)
  show ?case
  proof (cases "offset + sym_bytes cls \<le> length bs")
    case True
    have "0 < sym_bytes cls" by (simp add: sym_bytes_def split: ElfClass.splits)
    then have "offset < n * entry_size" using True 1(4) by linarith
    then have "offset div entry_size < n" by (simp add: less_mult_imp_div_less)
    moreover have "length (batch cls entry_size (offset + entry_size) bs) + (offset + entry_size) div entry_size
        \<le> max n ((offset + entry_size) div entry_size)"
      using 1 True by (intro 1(1)) auto
    moreover have "(offset + entry_size) div entry_size = offset div entry_size + 1"
      using 1(2) by (metis div_add_self2)
    ultimately show ?thesis using True 1(2) by (subst batch.simps) simp
  next
    case False
    then show ?thesis by (subst batch.simps) simp
  qed
qed

lemma read_batches_length: "symbol_idx \<le> unat (sy_count s) \<Longrightarrow> (\<And>a n. length (rd a n) \<le> n) \<Longrightarrow>
    symbol_idx + length (read_batches cls rd s symbol_idx) \<le> unat (sy_count s)"
proof (induction cls rd s symbol_idx rule: read_batches.induct)
  case (1 cls rd s i)
  let ?es = "unat (sy_entry_size s)" and ?n = "unat (sy_count s)"
  let ?bs = "rd (sy_offset s + of_nat i * sy_entry_size s) (min 1024 ((?n - i) * ?es))"
  show ?case
  proof (cases "i < ?n \<and> ?es \<noteq> 0 \<and> \<not> length ?bs < sym_bytes cls")
    case True
    let ?syms = "batch cls ?es 0 ?bs"
    have "length ?bs \<le> (?n - i) * ?es" using 1(3) [of _ "min 1024 ((?n - i) * ?es)"] by (meson le_trans min.cobounded2)
    then have l: "length ?syms \<le> ?n - i" using batch_length [of ?es 0 ?bs "?n - i" cls] True by simp
    have "i + length ?syms + length (read_batches cls rd s (i + length ?syms)) \<le> ?n"
      using True l 1(3) by (intro 1(1) [OF refl refl _ refl _ refl]) auto
    then show ?thesis using True by (subst read_batches.simps) (simp add: Let_def)
  next
    case False
    then show ?thesis using 1(2) by (subst read_batches.simps) (auto simp: Let_def)
  qed
qed

lemma set_unique_by: "set (unique_by f xs) \<subseteq> set xs"
  by (induction f xs rule: unique_by.induct) auto

lemma remap_table_bound:
  assumes "i \<in> set (remap_table syms)"
  shows "unat i < length syms"
proof -
  have "i \<in> of_nat ` {n. n < length syms}"
    using assms set_unique_by unfolding remap_table_def Let_def by fastforce
  then obtain n where n: "n < length syms" "i = of_nat n" by auto
  have "unat (of_nat n :: u32) \<le> n" by (simp add: unsigned_of_nat take_bit_nat_less_eq_self)
  then show ?thesis using n by simp
qed

section \<open>Names\<close>

text \<open>What never changes.\<close>

definition same_file :: "Symbols \<Rightarrow> Symbols \<Rightarrow> bool" where
  "same_file s s' \<longleftrightarrow> sy_offset s' = sy_offset s \<and> sy_count s' = sy_count s \<and> sy_entry_size s' = sy_entry_size s \<and>
     sy_str_offset s' = sy_str_offset s \<and> sy_str_end s' = sy_str_end s \<and> global_variables s' = global_variables s"

text \<open>A function symbol of the table with its name.\<close>

definition named_function :: "ElfClass \<Rightarrow> reader \<Rightarrow> Symbols \<Rightarrow> Sym \<Rightarrow> u8 list \<Rightarrow> bool" where
  "named_function cls rd s sy name \<longleftrightarrow>
     (\<exists>i. unat i < unat (sy_count s) \<and> symbol_at cls rd s i = Some sy) \<and> IsFunc sy \<and>
     (\<exists>str. add_overflow (sy_str_offset s) (ucast (st_name sy)) = Some str \<and> str < sy_str_end s \<and>
        ReadString rd str (unat (sy_str_end s - str)) = Some name)"

lemma symbol_at_same: "same_file s s' \<Longrightarrow> symbol_at cls rd s' = symbol_at cls rd s"
  by (rule ext) (simp add: symbol_at_def same_file_def)

lemma table_ok_same: "same_file s s' \<Longrightarrow> table_ok cls rd s' = table_ok cls rd s"
  using symbol_at_same [of s s' cls rd] by (simp only: table_ok_def same_file_def)

lemma named_function_same: "same_file s s' \<Longrightarrow> named_function cls rd s' sy nm = named_function cls rd s sy nm"
  using symbol_at_same [of s s' cls rd] by (simp only: named_function_def same_file_def)

lemma BuildRemapTable_ok:
  assumes "table_ok cls rd s" "\<And>a n. length (rd a n) \<le> n"
  shows "cache_ok cls rd ((BuildRemapTable cls rd s)\<lparr>symbols := []\<rparr>)"
    and "table_ok cls rd ((BuildRemapTable cls rd s)\<lparr>symbols := []\<rparr>)"
proof -
  have "length (read_batches cls rd s 0) \<le> unat (sy_count s)" using read_batches_length [of 0 s rd cls] assms(2) by simp
  then have "unat i < unat (sy_count s)" if "i \<in> set (remap_table (read_batches cls rd s 0))" for i
    using remap_table_bound [OF that] by simp
  then show "cache_ok cls rd ((BuildRemapTable cls rd s)\<lparr>symbols := []\<rparr>)"
    by (simp add: cache_ok_def BuildRemapTable_def om_wf_def)
  show "table_ok cls rd ((BuildRemapTable cls rd s)\<lparr>symbols := []\<rparr>)"
    using assms(1) table_ok_same [of s "(BuildRemapTable cls rd s)\<lparr>symbols := []\<rparr>" cls rd]
    by (simp add: same_file_def BuildRemapTable_def)
qed

lemma find_symbol_sound:
  assumes "cache_ok cls rd s" "table_ok cls rd s" "\<And>a n. length (rd a n) \<le> n"
  shows "\<exists>r s'. find_symbol cls rd addr s = (r, s') \<and> cache_ok cls rd s' \<and> same_file s s' \<and>
     (\<forall>k off. r = Some (k, off) \<longrightarrow> hit cls rd s' addr k off)"
proof (cases "remap s = None")
  case False
  then show ?thesis using BinarySearch_sound [OF assms(1,2), of True addr]
    by (auto simp: find_symbol_def same_file_def)
next
  case True
  obtain m r where r: "BinarySearch cls rd False addr s = (r, s\<lparr>symbols := m\<rparr>)" "cache_ok cls rd (s\<lparr>symbols := m\<rparr>)"
    "\<forall>k off. r = Some (k, off) \<longrightarrow> hit cls rd (s\<lparr>symbols := m\<rparr>) addr k off"
    using BinarySearch_sound [OF assms(1,2), of False addr] True by auto
  show ?thesis
  proof (cases r)
    case (Some x)
    then show ?thesis using r True by (simp add: find_symbol_def same_file_def)
  next
    case None
    let ?s = "(BuildRemapTable cls rd (s\<lparr>symbols := m\<rparr>))\<lparr>symbols := []\<rparr>"
    have t: "table_ok cls rd (s\<lparr>symbols := m\<rparr>)" using assms(2) by simp
    have "True = (remap ?s \<noteq> None)" by (simp add: BuildRemapTable_def)
    from BinarySearch_sound [OF BuildRemapTable_ok [OF t assms(3)] this, of addr]
    show ?thesis using r(1) True None
      by (auto simp: find_symbol_def same_file_def BuildRemapTable_def)
  qed
qed

lemma update_name_symbols:
  "symbol_at cls rd (update_name k nm s) = symbol_at cls rd s" "remap (update_name k nm s) = remap s"
  "symbol_index r (update_name k nm s) = symbol_index r s" "slots r (update_name k nm s) = slots r s"
  "sy_count (update_name k nm s) = sy_count s" "read_name cls rd (update_name k nm s) = read_name cls rd s"
  by (simp_all add: update_name_def fun_eq_iff)

lemma update_name_ok:
  assumes "cache_ok cls rd s" "map_of (symbols s) k = Some info" "read_name cls rd s info = Some nm"
  shows "cache_ok cls rd (update_name k nm s)"
proof -
  have w: "om_wf (symbols s)" using assms(1) by (simp add: cache_ok_def)
  have "map fst (symbols (update_name k nm s)) = map fst (symbols s)" by (simp add: update_name_def case_prod_unfold)
  then have w': "om_wf (symbols (update_name k nm s))" using w by (simp add: om_wf_def)
  have "entry_ok cls rd (remap s \<noteq> None) (update_name k nm s) e i"
    if "(e, i) \<in> set (symbols (update_name k nm s))" for e i
  proof -
    obtain i0 where i0: "(e, i0) \<in> set (symbols s)" "i = (if e = k then i0\<lparr>info_name := Some nm\<rparr> else i0)"
      using \<open>(e, i) \<in> set (symbols (update_name k nm s))\<close> by (auto simp: update_name_def)
    have "i0 = info" if "e = k" using i0(1) that assms(2) w by (metis map_of_is_SomeI om_wf_def option.inject strict_sorted_iff)
    moreover have "entry_ok cls rd (remap s \<noteq> None) s e i0" using assms(1) i0(1) by (auto simp: cache_ok_def)
    ultimately show ?thesis using i0(2) assms(3)
      by (auto simp: entry_ok_def slot_def update_name_symbols read_name_def)
  qed
  then show ?thesis using w' assms(1) by (auto simp: cache_ok_def update_name_symbols)
qed

lemma read_name_function:
  assumes "read_name cls rd s info = Some nm" "cache_ok cls rd s"
    "slot cls rd (remap s \<noteq> None) s (info_index info) = Some sy" "unat (info_index info) < slots (remap s \<noteq> None) s"
  shows "named_function cls rd s sy nm"
  using assms(1,3) slot_in_table [OF assms(2,4)]
  by (auto simp: read_name_def named_function_def slot_def not_le split: option.splits if_splits)


section \<open>Sorted tables\<close>

text \<open>A table of non-empty symbols in the order of their addresses, without overlaps.\<close>

definition sorted_table :: "ElfClass \<Rightarrow> reader \<Rightarrow> Symbols \<Rightarrow> (u32 \<Rightarrow> Sym) \<Rightarrow> bool" where
  "sorted_table cls rd s tab \<longleftrightarrow> unat (sy_count s) < 2 ^ 32 \<and>
     (\<forall>i. unat i < unat (sy_count s) \<longrightarrow> symbol_at cls rd s i = Some (tab i) \<and> unat (st_size (tab i)) < 2 ^ 32 \<and>
        st_size (tab i) \<noteq> 0 \<and> unat (sym_end cls (tab i)) = unat (st_value (tab i)) + unat (st_size (tab i))) \<and>
     (\<forall>i j. i < j \<longrightarrow> unat j < unat (sy_count s) \<longrightarrow> sym_end cls (tab i) \<le> st_value (tab j))"

lemma sorted_entry:
  assumes "sorted_table cls rd s tab" "unat i < unat (sy_count s)"
  shows "symbol_at cls rd s i = Some (tab i)" "st_value (tab i) < sym_end cls (tab i)"
  using assms by (auto simp: sorted_table_def word_less_nat_alt unat_gt_0)

lemma sorted_order:
  assumes "sorted_table cls rd s tab" "unat i < unat (sy_count s)" "unat j < unat (sy_count s)"
    and "st_value (tab i) < sym_end cls (tab j)"
  shows "i \<le> j"
proof (rule ccontr)
  assume "\<not> i \<le> j"
  then have "j < i" by simp
  then have "sym_end cls (tab j) \<le> st_value (tab i)" using assms(1,2) by (simp add: sorted_table_def)
  then show False using assms(4) by simp
qed

lemma sorted_table_ok:
  assumes "sorted_table cls rd s tab"
  shows "table_ok cls rd s"
proof -
  have "tab i = tab j" if "unat i < unat (sy_count s)" "unat j < unat (sy_count s)"
    "sym_end cls (tab i) = sym_end cls (tab j)" for i j
  proof -
    have "i \<le> j" "j \<le> i" using sorted_order [OF assms] sorted_entry(2) [OF assms] that by metis+
    then show ?thesis by simp
  qed
  then show ?thesis using assms sorted_entry(1) [OF assms] unfolding table_ok_def sorted_table_def by (metis option.inject)
qed

lemma sorted_table_symbols [simp]: "sorted_table cls rd (s\<lparr>symbols := m\<rparr>) tab = sorted_table cls rd s tab"
  by (simp add: sorted_table_def)

lemma search_loop_finds:
  assumes "sorted_table cls rd s tab" "unat t < unat (sy_count s)" "st_value (tab t) \<le> addr" "addr < sym_end cls (tab t)"
    and "first \<le> t" "t < final" "unat final \<le> unat (sy_count s)" "remapped = False"
  shows "fst (search_loop cls rd remapped addr first final s) \<noteq> None"
  using assms
proof (induction cls rd remapped addr first final s rule: search_loop.induct)
  case (1 cls rd remapped addr first final s)
  let ?c = "first + (final - first) div 2"
  have lt: "first < final" using 1(7,8) by simp
  note mid = search_midpoint [OF lt]
  have c: "unat ?c < unat (sy_count s)" using mid(2) 1(9) by (simp add: word_less_nat_alt)
  note sy = sorted_entry [OF 1(3) c]
  have at: "symbol_at cls rd s (symbol_index remapped s ?c) = Some (tab ?c)" using sy(1) 1(10) by (simp add: symbol_index_def)
  note IH = 1(1,2) [OF lt refl at refl refl refl]
  show ?case
  proof (cases "addr < st_value (tab ?c)")
    case True
    have "st_value (tab t) < sym_end cls (tab ?c)" using True 1(5) sy(2) by simp
    then have "t \<le> ?c" using sorted_order [OF 1(3,4) c] by simp
    moreover have "t \<noteq> ?c" using True 1(5) by auto
    ultimately have "t < ?c" by simp
    have "search_loop cls rd remapped addr first final s = search_loop cls rd remapped addr first ?c
        (s\<lparr>symbols := emplace_info (sym_end cls (tab ?c)) \<lparr>info_size = ucast (st_size (tab ?c)), info_index = ?c, info_name = None\<rparr> (symbols s)\<rparr>)"
      using True at lt by (simp add: search_loop.simps [of cls rd remapped addr first final s] Let_def)
    then show ?thesis using IH(1) [OF True] 1(3-7,10) \<open>t < ?c\<close> c by simp
  next
    case ge: False
    show ?thesis
    proof (cases "addr < sym_end cls (tab ?c)")
      case True
      then show ?thesis using at lt ge by (simp add: search_loop.simps [of cls rd remapped addr first final s] Let_def)
    next
      case False
      have "st_value (tab ?c) < sym_end cls (tab t)" using ge 1(6) by simp
      then have "?c \<le> t" using sorted_order [OF 1(3) c 1(4)] by simp
      moreover have "t \<noteq> ?c" using False 1(6) by auto
      ultimately have "unat ?c < unat t" by (simp add: word_less_nat_alt word_le_nat_alt order_le_less word_unat_eq_iff)
      then have "?c + 1 \<le> t" using mid(1,3) by (simp add: word_le_nat_alt)
      have "search_loop cls rd remapped addr first final s = search_loop cls rd remapped addr (?c + 1) final
          (s\<lparr>symbols := emplace_info (sym_end cls (tab ?c)) \<lparr>info_size = ucast (st_size (tab ?c)), info_index = ?c, info_name = None\<rparr> (symbols s)\<rparr>)"
        using ge False at lt by (simp add: search_loop.simps [of cls rd remapped addr first final s] Let_def)
      then show ?thesis using IH(2) [OF ge False] 1(3-6,8-10) \<open>?c + 1 \<le> t\<close> by simp
    qed
  qed
qed

lemma BinarySearch_finds:
  assumes "sorted_table cls rd s tab" "cache_ok cls rd s" "remap s = None"
    and "unat t < unat (sy_count s)" "st_value (tab t) \<le> addr" "addr < sym_end cls (tab t)"
  shows "fst (BinarySearch cls rd False addr s) \<noteq> None"
proof -
  have w: "om_wf (symbols s)" using assms(2) by (simp add: cache_ok_def)
  have entry: "unat (info_index info) < unat (sy_count s)" "k = sym_end cls (tab (info_index info))"
      "k - ucast (info_size info) = st_value (tab (info_index info))"
    if "(k, info) \<in> set (symbols s)" for k info
  proof -
    have "entry_ok cls rd False s k info" using assms(2,3) that by (auto simp: cache_ok_def)
    then show i: "unat (info_index info) < unat (sy_count s)" by (simp add: entry_ok_def slots_def)
    then have sy: "k = sym_end cls (tab (info_index info))" "info_size info = ucast (st_size (tab (info_index info)))"
      using \<open>entry_ok cls rd False s k info\<close> sorted_entry(1) [OF assms(1) i]
      by (simp_all add: entry_ok_def slot_def symbol_index_def)
    then show "k = sym_end cls (tab (info_index info))" by simp
    have "table_ok cls rd s" by (rule sorted_table_ok [OF assms(1)])
    show "k - ucast (info_size info) = st_value (tab (info_index info))"
      using sy symbol_start [of "tab (info_index info)" cls] assms(1) i by (simp add: sorted_table_def)
  qed
  let ?before = "takeWhile (\<lambda>(e, v). e \<le> addr) (symbols s)"
  have first: "(if ?before = [] then 0 else info_index (snd (last ?before)) + 1) \<le> t"
  proof (cases "?before = []")
    case False
    obtain e info where l: "last ?before = (e, info)" by (cases "last ?before")
    then have "(e, info) \<in> set ?before" using False last_in_set by metis
    then have m: "(e, info) \<in> set (symbols s)" "e \<le> addr" by (auto dest: set_takeWhileD)
    have "sym_end cls (tab (info_index info)) \<le> addr" using m(2) entry(2) [OF m(1)] by simp
    moreover have "st_value (tab (info_index info)) < sym_end cls (tab (info_index info))"
      by (rule sorted_entry(2) [OF assms(1) entry(1) [OF m(1)]])
    ultimately have "st_value (tab (info_index info)) < sym_end cls (tab t)" using assms(6) by simp
    then have "info_index info \<le> t" using sorted_order [OF assms(1) entry(1) [OF m(1)] assms(4)] by simp
    moreover have "info_index info \<noteq> t" using \<open>sym_end cls (tab (info_index info)) \<le> addr\<close> assms(6) by auto
    ultimately have "unat (info_index info) < unat t" by (simp add: word_less_nat_alt word_le_nat_alt order_le_less word_unat_eq_iff)
    moreover have "unat t < 2 ^ LENGTH(32)" by (rule unsigned_less)
    ultimately have "unat (info_index info + 1) \<le> unat t" using unat_Suc_word [of "info_index info"] by simp
    then show ?thesis using False l by (simp add: word_le_nat_alt)
  qed simp
  let ?first = "if ?before = [] then 0 else info_index (snd (last ?before)) + 1"
  have loop: "fst (search_loop cls rd False addr ?first final s) \<noteq> None"
    if "t < final" "unat final \<le> unat (sy_count s)" for final
    by (rule search_loop_finds [OF assms(1,4-6) first that refl])
  show ?thesis
  proof (cases "upper_bound addr (symbols s)")
    case Nil
    have "unat (ucast (sy_count s) :: u32) = unat (sy_count s)"
      using assms(1) by (simp add: sorted_table_def unsigned_ucast_eq take_bit_nat_eq_self)
    then have "t < ucast (sy_count s)" using assms(4) by (simp add: word_less_nat_alt)
    then show ?thesis using Nil loop [of "ucast (sy_count s)"] \<open>unat (ucast (sy_count s) :: u32) = unat (sy_count s)\<close>
      by (simp add: BinarySearch_def Let_def split del: if_split)
  next
    case (Cons x rest)
    obtain e info where x: "x = (e, info)" by (cases x)
    have "(e, info) \<in> set (upper_bound addr (symbols s))" using Cons x by simp
    then have m: "(e, info) \<in> set (symbols s)" "addr < e" using upper_bound_filter [OF w, of addr] by auto
    show ?thesis
    proof (cases "e - ucast (info_size info) \<le> addr")
      case True
      then show ?thesis using Cons x by (simp add: BinarySearch_def Let_def)
    next
      case False
      then have v: "addr < st_value (tab (info_index info))" using entry(3) [OF m(1)] by simp
      have "st_value (tab t) < sym_end cls (tab (info_index info))"
        using v assms(5) sorted_entry(2) [OF assms(1) entry(1) [OF m(1)]] by simp
      then have "t \<le> info_index info" using sorted_order [OF assms(1,4) entry(1) [OF m(1)]] by simp
      moreover have "t \<noteq> info_index info" using v assms(5) by auto
      ultimately have "t < info_index info" by simp
      then show ?thesis using Cons x False loop [of "info_index info"] entry(1) [OF m(1)]
        by (simp add: BinarySearch_def Let_def split del: if_split)
    qed
  qed
qed

lemma named_function_string:
  assumes "named_function cls rd s sy name" "slot cls rd (remap s \<noteq> None) s (info_index info) = Some sy"
  shows "read_name cls rd s info = Some name"
  using assms by (auto simp: named_function_def read_name_def slot_def not_le)

text \<open>
  Property C6. In a sorted table no function is missed. When the symbols are in the order of their
  addresses, without overlaps and none of them empty, \<open>GetName\<close> finds the function that covers an
  address, with its name and the right offset, whatever was looked up before: the cached symbols that
  narrow the range of the search never exclude the right one. The lookup needs no remap table.
\<close>

theorem sorted_lookup_complete:
  assumes "sorted_table cls rd s tab" "cache_ok cls rd s" "remap s = None"
    and "unat t < unat (sy_count s)" "st_value (tab t) \<le> addr" "addr < sym_end cls (tab t)"
    and "named_function cls rd s (tab t) name"
  shows "\<exists>s'. GetName cls rd addr s = (Some (name, addr - st_value (tab t)), s') \<and>
    cache_ok cls rd s' \<and> remap s' = None \<and> sorted_table cls rd s' tab"
proof -
  obtain m r where r: "BinarySearch cls rd False addr s = (r, s\<lparr>symbols := m\<rparr>)" "cache_ok cls rd (s\<lparr>symbols := m\<rparr>)"
    "\<forall>k off. r = Some (k, off) \<longrightarrow> hit cls rd (s\<lparr>symbols := m\<rparr>) addr k off"
    using BinarySearch_sound [OF assms(2) sorted_table_ok [OF assms(1)], of False addr] assms(3) by auto
  have "r \<noteq> None" using BinarySearch_finds [OF assms(1-6)] r(1) by simp
  then obtain k off where k: "r = Some (k, off)" by auto
  let ?s = "s\<lparr>symbols := m\<rparr>"
  obtain info sy where h: "map_of m k = Some info" "slot cls rd False s (info_index info) = Some sy"
    "unat (info_index info) < unat (sy_count s)" "k = sym_end cls sy" "st_value sy \<le> addr" "addr < k" "off = addr - st_value sy"
    using r(3) k assms(3) unfolding hit_def by (auto simp: slots_def)
  have sy: "sy = tab (info_index info)" using h(2) sorted_entry(1) [OF assms(1) h(3)] by (simp add: slot_def symbol_index_def)
  have "st_value (tab t) < sym_end cls sy" "st_value sy < sym_end cls (tab t)" using h(4-6) assms(5,6) by simp_all
  then have "t \<le> info_index info" "info_index info \<le> t"
    using sorted_order [OF assms(1)] h(3) assms(4) sy by blast+
  then have i: "info_index info = t" by simp
  have n: "read_name cls rd ?s info = Some name"
    using named_function_string [of cls rd s "tab t" name info] assms(3,7) h(2) i sy by simp
  have f: "find_symbol cls rd addr s = (Some (k, off), ?s)" using r(1) k assms(3) by (simp add: find_symbol_def)
  have st: "sorted_table cls rd (update_name k name ?s) tab" using assms(1) by (simp add: update_name_def)
  show ?thesis
  proof (cases "info_name info")
    case None
    then show ?thesis using f h(1,7) n i sy st assms(3) update_name_ok [OF r(2) _ n, of k]
      by (simp add: GetName_def update_name_symbols)
  next
    case (Some nm)
    then have "nm = name" using cached_entry [OF r(2), of k info] h(1) n by (simp add: entry_ok_def)
    then show ?thesis using f h(1,7) Some r(2) i sy assms(1,3) by (simp add: GetName_def)
  qed
qed

text \<open>Two functions \<open>f\<close> and \<open>g\<close>, with their names behind the table.\<close>

definition sample_file :: "u8 list" where
  "sample_file =
     [1, 0, 0, 0, 0x12, 0, 1, 0, 0, 0x10, 0, 0, 0, 0, 0, 0, 0x10, 0, 0, 0, 0, 0, 0, 0,
      3, 0, 0, 0, 0x12, 0, 1, 0, 0x10, 0x10, 0, 0, 0, 0, 0, 0, 0x20, 0, 0, 0, 0, 0, 0, 0,
      0, 0x66, 0, 0x67, 0]"

definition sample_symbols :: Symbols where
  "sample_symbols = Symbols_new 0 48 24 48 5"

definition sample_tab :: "u32 \<Rightarrow> Sym" where
  "sample_tab i = (if i = 0
     then \<lparr>st_name = 1, st_value = 0x1000, st_size = 0x10, st_info = 0x12, st_shndx = 1\<rparr>
     else \<lparr>st_name = 3, st_value = 0x1010, st_size = 0x20, st_info = 0x12, st_shndx = 1\<rparr>)"

abbreviation "sample_memory \<equiv> MemoryBuffer_Read sample_file"

lemma below_two: "unat i < 2 \<longleftrightarrow> i = 0 \<or> i = 1" for i :: u32
  by (auto simp: word_unat_eq_iff)

lemma sample_symbol_at: "symbol_at ELF64 sample_memory sample_symbols i = Some (sample_tab i)" if "i = 0 \<or> i = 1"
  using that by (auto simp: symbol_at_def sample_symbols_def Symbols_new_def ReadFully_def MemoryBuffer_Read_def sample_file_def
      sym_bytes_def parse_sym_def field_def le_word_def sample_tab_def)

lemma sample_sorted: "sorted_table ELF64 sample_memory sample_symbols sample_tab"
proof -
  have "sy_count sample_symbols = 2" by (simp add: sample_symbols_def Symbols_new_def)
  moreover have "i = 0 \<and> j = 1" if "i < j" "unat j < 2" for i j :: u32
    using that below_two [of j] by (auto simp: word_less_nat_alt word_unat_eq_iff)
  ultimately show ?thesis
    using sample_symbol_at by (auto simp: sorted_table_def below_two sym_end_def sample_tab_def)
qed

lemma sample_named: "named_function ELF64 sample_memory sample_symbols (sample_tab 1) [0x67]"
proof -
  have "ReadString sample_memory 51 2 = Some [0x67]"
    by (simp add: ReadString_def ReadString_loop.simps MemoryBuffer_Read_def sample_file_def strnlen_def)
  then show ?thesis using sample_symbol_at [of 1]
    by (auto simp: named_function_def sample_symbols_def Symbols_new_def sample_tab_def IsFunc_def SHN_UNDEF_def STT_FUNC_def
        add_overflow_def intro!: exI [where x = 1])
qed

lemma sample_cache: "cache_ok ELF64 sample_memory sample_symbols"
  by (simp add: cache_ok_def sample_symbols_def Symbols_new_def om_wf_def)

lemma sorted_lookup_complete_witness:
  "\<exists>s'. GetName ELF64 sample_memory 0x1015 sample_symbols = (Some ([0x67], 5), s')"
  using sorted_lookup_complete [OF sample_sorted sample_cache _ _ _ _ sample_named, of "0x1015"]
  by (auto simp: sample_symbols_def Symbols_new_def sample_tab_def sym_end_def)


section \<open>Empty symbols\<close>

text \<open>
  The condition on symbols that end together is needed: an empty function symbol that starts where
  another function ends has the same key in the cache. After a lookup that read it, the other
  function is reported under its name.
\<close>

definition empty_file :: "u8 list" where
  "empty_file =
     [1, 0, 0, 0, 0x12, 0, 1, 0, 0, 0x10, 0, 0, 0, 0, 0, 0, 0x10, 0, 0, 0, 0, 0, 0, 0,
      3, 0, 0, 0, 0x12, 0, 1, 0, 0x10, 0x10, 0, 0, 0, 0, 0, 0, 0, 0, 0, 0, 0, 0, 0, 0,
      0, 0x66, 0, 0x67, 0]"

lemma empty_symbol_shadows:
  "\<exists>s'. GetName ELF64 (MemoryBuffer_Read empty_file) 0x1005 sample_symbols = (Some ([0x67], 5), s')"
  by (simp add: GetName_def find_symbol_def BinarySearch_def search_loop.simps upper_bound_def symbol_at_def symbol_index_def
      sample_symbols_def Symbols_new_def ReadFully_def MemoryBuffer_Read_def empty_file_def sym_bytes_def parse_sym_def field_def
      le_word_def sym_end_def emplace_info_def read_name_def add_overflow_def IsFunc_def SHN_UNDEF_def STT_FUNC_def
      ReadString_def ReadString_loop.simps strnlen_def Let_def)

end
