(* ===== verification/ElfInterface.thy ===== *)
theory ElfInterface
  imports BacktraceCapture Symbols DwarfEhFrameHdr DwarfRowEval
begin

text \<open>
  Reading an ELF file: \<open>unwindstack/ElfInterface.cpp\<close> and \<open>ElfInterface.h\<close>. The layouts are those of
  \<open>elf.h\<close>; \<open>cls\<close> stands for \<open>ElfTypes32\<close> or \<open>ElfTypes64\<close>. Fields that have 32 bits in one class and 64 in
  the other are kept with 64, as the code widens them, and where it computes in the narrow type the
  model does too. The members of the derived class \<open>ElfInterfaceArm\<close> are part of the state. A
  \<open>std::string\<close> is its bytes.
\<close>

section \<open>Headers\<close>

record Ehdr =
  e_phoff :: u64
  e_shoff :: u64
  e_phentsize :: u16
  e_phnum :: u16
  e_shentsize :: u16
  e_shnum :: u16
  e_shstrndx :: u16

record Phdr =
  p_type :: u32
  p_flags :: u32
  p_offset :: u64
  p_vaddr :: u64
  p_filesz :: u64
  p_memsz :: u64

record Shdr =
  sh_name :: u32
  sh_type :: u32
  sh_addr :: u64
  sh_offset :: u64
  sh_size :: u64
  sh_link :: u32
  sh_entsize :: u64

definition parse_ehdr :: "ElfClass \<Rightarrow> u8 list \<Rightarrow> Ehdr" where
  "parse_ehdr cls bs =
     (case cls of
        ELF32 \<Rightarrow> \<lparr>e_phoff = field 28 4 bs, e_shoff = field 32 4 bs, e_phentsize = field 42 2 bs,
          e_phnum = field 44 2 bs, e_shentsize = field 46 2 bs, e_shnum = field 48 2 bs, e_shstrndx = field 50 2 bs\<rparr>
      | ELF64 \<Rightarrow> \<lparr>e_phoff = field 32 8 bs, e_shoff = field 40 8 bs, e_phentsize = field 54 2 bs,
          e_phnum = field 56 2 bs, e_shentsize = field 58 2 bs, e_shnum = field 60 2 bs, e_shstrndx = field 62 2 bs\<rparr>)"

definition parse_phdr :: "ElfClass \<Rightarrow> u8 list \<Rightarrow> Phdr" where
  "parse_phdr cls bs =
     (case cls of
        ELF32 \<Rightarrow> \<lparr>p_type = field 0 4 bs, p_flags = field 24 4 bs, p_offset = field 4 4 bs, p_vaddr = field 8 4 bs,
          p_filesz = field 16 4 bs, p_memsz = field 20 4 bs\<rparr>
      | ELF64 \<Rightarrow> \<lparr>p_type = field 0 4 bs, p_flags = field 4 4 bs, p_offset = field 8 8 bs, p_vaddr = field 16 8 bs,
          p_filesz = field 32 8 bs, p_memsz = field 40 8 bs\<rparr>)"

definition parse_shdr :: "ElfClass \<Rightarrow> u8 list \<Rightarrow> Shdr" where
  "parse_shdr cls bs =
     (case cls of
        ELF32 \<Rightarrow> \<lparr>sh_name = field 0 4 bs, sh_type = field 4 4 bs, sh_addr = field 12 4 bs, sh_offset = field 16 4 bs,
          sh_size = field 20 4 bs, sh_link = field 24 4 bs, sh_entsize = field 36 4 bs\<rparr>
      | ELF64 \<Rightarrow> \<lparr>sh_name = field 0 4 bs, sh_type = field 4 4 bs, sh_addr = field 16 8 bs, sh_offset = field 24 8 bs,
          sh_size = field 32 8 bs, sh_link = field 40 4 bs, sh_entsize = field 56 8 bs\<rparr>)"

definition read_ehdr :: "ElfClass \<Rightarrow> reader \<Rightarrow> Ehdr option" where
  "read_ehdr cls rd = map_option (parse_ehdr cls) (ReadFully rd 0 (case cls of ELF32 \<Rightarrow> 52 | ELF64 \<Rightarrow> 64))"

definition read_phdr :: "ElfClass \<Rightarrow> reader \<Rightarrow> u64 \<Rightarrow> Phdr option" where
  "read_phdr cls rd offset = map_option (parse_phdr cls) (ReadFully rd offset (case cls of ELF32 \<Rightarrow> 32 | ELF64 \<Rightarrow> 56))"

definition read_shdr :: "ElfClass \<Rightarrow> reader \<Rightarrow> u64 \<Rightarrow> Shdr option" where
  "read_shdr cls rd offset = map_option (parse_shdr cls) (ReadFully rd offset (case cls of ELF32 \<Rightarrow> 40 | ELF64 \<Rightarrow> 64))"

definition PT_LOAD :: u32 where "PT_LOAD = 1"
definition PT_DYNAMIC :: u32 where "PT_DYNAMIC = 2"
definition PT_GNU_EH_FRAME :: u32 where "PT_GNU_EH_FRAME = 0x6474e550"
definition PT_ARM_EXIDX :: u32 where "PT_ARM_EXIDX = 0x70000001"
definition PF_X :: u32 where "PF_X = 1"
definition SHT_PROGBITS :: u32 where "SHT_PROGBITS = 1"
definition SHT_SYMTAB :: u32 where "SHT_SYMTAB = 2"
definition SHT_STRTAB :: u32 where "SHT_STRTAB = 3"
definition SHT_NOTE :: u32 where "SHT_NOTE = 7"
definition SHT_NOBITS :: u32 where "SHT_NOBITS = 8"
definition SHT_DYNSYM :: u32 where "SHT_DYNSYM = 11"
definition NT_GNU_BUILD_ID :: u32 where "NT_GNU_BUILD_ID = 3"
definition DT_NULL :: u64 where "DT_NULL = 0"
definition DT_STRTAB :: u64 where "DT_STRTAB = 5"
definition DT_STRSZ :: u64 where "DT_STRSZ = 10"
definition DT_SONAME :: u64 where "DT_SONAME = 14"

lemmas pt_defs = PT_LOAD_def PT_DYNAMIC_def PT_GNU_EH_FRAME_def PT_ARM_EXIDX_def PF_X_def
lemmas sht_defs = SHT_PROGBITS_def SHT_SYMTAB_def SHT_STRTAB_def SHT_NOTE_def SHT_NOBITS_def SHT_DYNSYM_def

text \<open>The bytes of a string literal.\<close>

definition ascii :: "string \<Rightarrow> u8 list" where
  "ascii s = map (\<lambda>c. of_nat (of_char c)) s"

text \<open>
  The product of two \<open>uint16_t\<close> is computed in \<open>int\<close>. \<open>None\<close> is the overflow, which C++ leaves undefined.
\<close>

definition int_product :: "u16 \<Rightarrow> u16 \<Rightarrow> u64 option" where
  "int_product a b = (if unat a * unat b < 2 ^ 31 then Some (ucast a * ucast b) else None)"

text \<open>A sum with \<open>e_shoff\<close>, in the type of that field.\<close>

definition shoff_plus :: "ElfClass \<Rightarrow> Ehdr \<Rightarrow> u64 \<Rightarrow> u64" where
  "shoff_plus cls eh n =
     (case cls of ELF32 \<Rightarrow> ucast (ucast (e_shoff eh) + ucast n :: u32) | ELF64 \<Rightarrow> e_shoff eh + n)"

section \<open>State\<close>

record LoadInfo =
  li_offset :: u64
  table_offset :: u64
  table_size :: u64

datatype soname_state = SONAME_UNKNOWN | SONAME_VALID | SONAME_INVALID

record ErrorData =
  er_code :: ErrorCode
  er_address :: u64

text \<open>
  The eh_frame section is an object of one of two classes. \<open>start_offset\<close> to \<open>arm_load_bias\<close> are the
  members of \<open>ElfInterfaceArm\<close>.
\<close>

record ElfInterface =
  ei_class :: ElfClass
  ei_is_arm :: bool
  pt_loads :: "(u64 \<times> LoadInfo) list"
  dynamic_offset :: u64
  dynamic_vaddr_start :: u64
  dynamic_vaddr_end :: u64
  ei_data_offset :: u64
  data_vaddr_start :: u64
  data_vaddr_end :: u64
  eh_frame_hdr_offset :: u64
  eh_frame_hdr_section_bias :: u64
  eh_frame_hdr_size :: u64
  eh_frame_offset :: u64
  eh_frame_section_bias :: u64
  eh_frame_size :: u64
  debug_frame_offset :: u64
  debug_frame_section_bias :: u64
  debug_frame_size :: u64
  gnu_debugdata_offset :: u64
  gnu_debugdata_size :: u64
  gnu_build_id_offset :: u64
  gnu_build_id_size :: u64
  text_addr :: u64
  text_size :: u64
  soname_type :: soname_state
  soname :: "u8 list"
  ei_error :: ErrorData
  eh_frame :: "(section_class \<times> DwarfSection) option"
  debug_frame :: "DwarfSection option"
  symbol_tables :: "Symbols list"
  strtabs :: "(u64 \<times> u64) list"
  start_offset :: u64
  total_entries :: u64
  addrs :: "nat \<rightharpoonup> u32"
  arm_load_bias :: u64

definition ElfInterface_new :: "ElfClass \<Rightarrow> bool \<Rightarrow> ElfInterface" where
  "ElfInterface_new cls arm = \<lparr>ei_class = cls, ei_is_arm = arm, pt_loads = [], dynamic_offset = 0,
     dynamic_vaddr_start = 0, dynamic_vaddr_end = 0, ei_data_offset = 0, data_vaddr_start = 0, data_vaddr_end = 0,
     eh_frame_hdr_offset = 0, eh_frame_hdr_section_bias = 0, eh_frame_hdr_size = 0, eh_frame_offset = 0,
     eh_frame_section_bias = 0, eh_frame_size = 0, debug_frame_offset = 0, debug_frame_section_bias = 0,
     debug_frame_size = 0, gnu_debugdata_offset = 0, gnu_debugdata_size = 0, gnu_build_id_offset = 0,
     gnu_build_id_size = 0, text_addr = 0, text_size = 0, soname_type = SONAME_UNKNOWN, soname = [],
     ei_error = \<lparr>er_code = ERROR_NONE, er_address = 0\<rparr>, eh_frame = None, debug_frame = None, symbol_tables = [],
     strtabs = [], start_offset = 0, total_entries = 0, addrs = Map.empty, arm_load_bias = 0\<rparr>"

definition set_error_code :: "ErrorCode \<Rightarrow> ElfInterface \<Rightarrow> ElfInterface" where
  "set_error_code c s = s\<lparr>ei_error := (ei_error s)\<lparr>er_code := c\<rparr>\<rparr>"

definition set_error :: "ErrorCode \<Rightarrow> u64 \<Rightarrow> ElfInterface \<Rightarrow> ElfInterface" where
  "set_error c a s = s\<lparr>ei_error := \<lparr>er_code = c, er_address = a\<rparr>\<rparr>"

section \<open>Program headers\<close>

text \<open>The virtual function: empty in the base class, overridden in \<open>ElfInterfaceArm\<close>.\<close>

definition HandleUnknownType :: "u32 \<Rightarrow> u64 \<Rightarrow> u64 \<Rightarrow> ElfInterface \<Rightarrow> ElfInterface" where
  "HandleUnknownType ty ph_offset ph_filesz s =
     (if \<not> ei_is_arm s \<or> ty \<noteq> PT_ARM_EXIDX then s
      else s\<lparr>start_offset := ph_offset, total_entries := ph_filesz div 8\<rparr>)"

text \<open>One header. The flag is \<open>first_exec_load_header\<close>, the number is \<open>*load_bias\<close>.\<close>

definition program_header :: "Phdr \<Rightarrow> bool \<times> u64 \<times> ElfInterface \<Rightarrow> bool \<times> u64 \<times> ElfInterface" where
  "program_header ph = (\<lambda>(first, load_bias, s).
     if p_type ph = PT_LOAD then
       (if p_flags ph AND PF_X = 0 then (first, load_bias, s)
        else (False, if first then p_vaddr ph - p_offset ph else load_bias,
              s\<lparr>pt_loads := AList.update (p_offset ph)
                   \<lparr>li_offset = p_offset ph, table_offset = p_vaddr ph, table_size = p_memsz ph\<rparr> (pt_loads s)\<rparr>))
     else if p_type ph = PT_GNU_EH_FRAME then
       (first, load_bias, s\<lparr>eh_frame_hdr_offset := p_offset ph,
          eh_frame_hdr_section_bias := p_vaddr ph - p_offset ph, eh_frame_hdr_size := p_memsz ph\<rparr>)
     else if p_type ph = PT_DYNAMIC then
       (first, load_bias,
        case add_overflow (p_vaddr ph) (p_memsz ph) of
          Some e \<Rightarrow> s\<lparr>dynamic_offset := p_offset ph, dynamic_vaddr_start := p_vaddr ph, dynamic_vaddr_end := e\<rparr>
        | None \<Rightarrow> s\<lparr>dynamic_offset := 0, dynamic_vaddr_start := 0, dynamic_vaddr_end := 0\<rparr>)
     else (first, load_bias, HandleUnknownType (p_type ph) (p_offset ph) (p_filesz ph) s))"

text \<open>The loop, with the number of headers that are left.\<close>

fun program_headers :: "reader \<Rightarrow> u16 \<Rightarrow> nat \<Rightarrow> u64 \<Rightarrow> bool \<times> u64 \<times> ElfInterface \<Rightarrow> bool \<times> u64 \<times> ElfInterface" where
  "program_headers rd entsize 0 offset st = st"
| "program_headers rd entsize (Suc n) offset st =
     (case read_phdr (ei_class (snd (snd st))) rd offset of
        None \<Rightarrow> st
      | Some ph \<Rightarrow> program_headers rd entsize n (offset + ucast entsize) (program_header ph st))"

definition ReadProgramHeaders :: "reader \<Rightarrow> Ehdr \<Rightarrow> u64 \<Rightarrow> ElfInterface \<Rightarrow> u64 \<times> ElfInterface" where
  "ReadProgramHeaders rd eh load_bias s =
     snd (program_headers rd (e_phentsize eh) (unat (e_phnum eh)) (e_phoff eh) (True, load_bias, s))"

text \<open>\<open>return false\<close> on an unreadable header is the bias 0.\<close>

fun load_bias_scan :: "ElfClass \<Rightarrow> reader \<Rightarrow> u16 \<Rightarrow> nat \<Rightarrow> u64 \<Rightarrow> u64" where
  "load_bias_scan cls rd entsize 0 offset = 0"
| "load_bias_scan cls rd entsize (Suc n) offset =
     (case read_phdr cls rd offset of
        None \<Rightarrow> 0
      | Some ph \<Rightarrow>
          if p_type ph = PT_LOAD \<and> p_flags ph AND PF_X \<noteq> 0 then p_vaddr ph - p_offset ph
          else load_bias_scan cls rd entsize n (offset + ucast entsize))"

definition ElfInterface_GetLoadBias :: "ElfClass \<Rightarrow> reader \<Rightarrow> u64" where
  "ElfInterface_GetLoadBias cls rd =
     (case read_ehdr cls rd of
        None \<Rightarrow> 0
      | Some eh \<Rightarrow> load_bias_scan cls rd (e_phentsize eh) (unat (e_phnum eh)) (e_phoff eh))"

section \<open>Section headers\<close>

definition section_name :: "reader \<Rightarrow> u64 \<Rightarrow> u64 \<Rightarrow> Shdr \<Rightarrow> u8 list option" where
  "section_name rd sec_offset sec_size sh =
     (if ucast (sh_name sh) < sec_size then
        ReadString rd (sec_offset + ucast (sh_name sh)) (unat (sec_size - ucast (sh_name sh)))
      else None)"

text \<open>A symbol table, with the section of its names.\<close>

definition symtab_section :: "reader \<Rightarrow> Ehdr \<Rightarrow> Shdr \<Rightarrow> ElfInterface \<Rightarrow> ElfInterface" where
  "symtab_section rd eh sh s =
     (if sh_link sh \<ge> ucast (e_shnum eh) then s
      else
        (case read_shdr (ei_class s) rd (shoff_plus (ei_class s) eh (ucast (sh_link sh * ucast (e_shentsize eh)))) of
           None \<Rightarrow> s
         | Some str \<Rightarrow>
             if sh_type str \<noteq> SHT_STRTAB then s
             else s\<lparr>symbol_tables := symbol_tables s @
               [Symbols_new (sh_offset sh) (sh_size sh) (sh_entsize sh) (sh_offset str) (sh_size str)]\<rparr>))"

definition progbits_section :: "u8 list \<Rightarrow> Shdr \<Rightarrow> ElfInterface \<Rightarrow> ElfInterface" where
  "progbits_section name sh s =
     (if name = ascii ''.debug_frame'' then
        s\<lparr>debug_frame_offset := sh_offset sh, debug_frame_section_bias := sh_addr sh - sh_offset sh,
          debug_frame_size := sh_size sh\<rparr>
      else if name = ascii ''.gnu_debugdata'' then
        s\<lparr>gnu_debugdata_offset := sh_offset sh, gnu_debugdata_size := sh_size sh\<rparr>
      else if name = ascii ''.eh_frame'' then
        s\<lparr>eh_frame_offset := sh_offset sh, eh_frame_section_bias := sh_addr sh - sh_offset sh,
          eh_frame_size := sh_size sh\<rparr>
      else if eh_frame_hdr_offset s = 0 \<and> name = ascii ''.eh_frame_hdr'' then
        s\<lparr>eh_frame_hdr_offset := sh_offset sh, eh_frame_hdr_section_bias := sh_addr sh - sh_offset sh,
          eh_frame_hdr_size := sh_size sh\<rparr>
      else if name = ascii ''.data'' then
        (case add_overflow (sh_addr sh) (sh_size sh) of
           Some e \<Rightarrow> s\<lparr>ei_data_offset := sh_offset sh, data_vaddr_start := sh_addr sh, data_vaddr_end := e\<rparr>
         | None \<Rightarrow> s\<lparr>ei_data_offset := 0, data_vaddr_start := 0, data_vaddr_end := 0\<rparr>)
      else if name = ascii ''.text'' then s\<lparr>text_addr := sh_addr sh, text_size := sh_size sh\<rparr>
      else s)"

definition section_header :: "reader \<Rightarrow> Ehdr \<Rightarrow> u64 \<Rightarrow> u64 \<Rightarrow> Shdr \<Rightarrow> ElfInterface \<Rightarrow> ElfInterface" where
  "section_header rd eh sec_offset sec_size sh s =
     (if sh_type sh = SHT_SYMTAB \<or> sh_type sh = SHT_DYNSYM then symtab_section rd eh sh s
      else if (sh_type sh = SHT_PROGBITS \<or> sh_type sh = SHT_NOBITS) \<and> sec_size \<noteq> 0 then
        (case section_name rd sec_offset sec_size sh of None \<Rightarrow> s | Some name \<Rightarrow> progbits_section name sh s)
      else if sh_type sh = SHT_STRTAB then s\<lparr>strtabs := strtabs s @ [(sh_addr sh, sh_offset sh)]\<rparr>
      else if sh_type sh = SHT_NOTE then
        (if section_name rd sec_offset sec_size sh = Some (ascii ''.note.gnu.build-id'') then
           s\<lparr>gnu_build_id_offset := sh_offset sh, gnu_build_id_size := sh_size sh\<rparr>
         else s)
      else s)"

fun section_headers :: "reader \<Rightarrow> Ehdr \<Rightarrow> u64 \<Rightarrow> u64 \<Rightarrow> nat \<Rightarrow> u64 \<Rightarrow> ElfInterface \<Rightarrow> ElfInterface" where
  "section_headers rd eh sec_offset sec_size 0 offset s = s"
| "section_headers rd eh sec_offset sec_size (Suc n) offset s =
     (case read_shdr (ei_class s) rd offset of
        None \<Rightarrow> s
      | Some sh \<Rightarrow>
          section_headers rd eh sec_offset sec_size n (offset + ucast (e_shentsize eh))
            (section_header rd eh sec_offset sec_size sh s))"

text \<open>\<open>None\<close> is the undefined overflow of \<open>e_shstrndx * e_shentsize\<close>.\<close>

definition name_section :: "ElfClass \<Rightarrow> reader \<Rightarrow> Ehdr \<Rightarrow> (u64 \<times> u64) option" where
  "name_section cls rd eh =
     (if e_shstrndx eh < e_shnum eh then
        map_option (\<lambda>n. case read_shdr cls rd (e_shoff eh + n) of None \<Rightarrow> (0, 0) | Some sh \<Rightarrow> (sh_offset sh, sh_size sh))
          (int_product (e_shstrndx eh) (e_shentsize eh))
      else Some (0, 0))"

definition ReadSectionHeaders :: "reader \<Rightarrow> Ehdr \<Rightarrow> ElfInterface \<Rightarrow> ElfInterface option" where
  "ReadSectionHeaders rd eh s =
     map_option (\<lambda>(sec_offset, sec_size).
         section_headers rd eh sec_offset sec_size (unat (e_shnum eh) - 1) (e_shoff eh + ucast (e_shentsize eh)) s)
       (name_section (ei_class s) rd eh)"

definition ReadAllHeaders :: "reader \<Rightarrow> u64 \<Rightarrow> ElfInterface \<Rightarrow> (u64, ElfInterface) outcome" where
  "ReadAllHeaders rd load_bias s =
     (case read_ehdr (ei_class s) rd of
        None \<Rightarrow> Failed (set_error ERROR_MEMORY_INVALID 0 s)
      | Some eh \<Rightarrow>
          (let (load_bias, s) = ReadProgramHeaders rd eh load_bias s in
           case ReadSectionHeaders rd eh s of None \<Rightarrow> Undef | Some s \<Rightarrow> Done load_bias s))"

text \<open>\<open>Init\<close>, with the override of \<open>ElfInterfaceArm\<close>.\<close>

definition ElfInterface_Init :: "reader \<Rightarrow> u64 \<Rightarrow> ElfInterface \<Rightarrow> (u64, ElfInterface) outcome" where
  "ElfInterface_Init rd load_bias s =
     bind_outcome (ReadAllHeaders rd load_bias s)
       (\<lambda>load_bias s. Done load_bias (if ei_is_arm s then s\<lparr>arm_load_bias := load_bias\<rparr> else s))"

section \<open>Unwind sections\<close>

definition section_env :: "ElfClass \<Rightarrow> reader \<Rightarrow> section_class \<Rightarrow> SectionEnv" where
  "section_env cls rd sc = \<lparr>sec_reader = rd, sec_class = sc, sec_asz = (case cls of ELF32 \<Rightarrow> 4 | ELF64 \<Rightarrow> 8)\<rparr>"

text \<open>The object with the binary search table; \<open>None\<close> in the result is the pointer reset to null.\<close>

definition init_eh_frame_hdr :: "reader \<Rightarrow> ElfInterface \<Rightarrow> (section_class \<times> DwarfSection) option option option" where
  "init_eh_frame_hdr rd s =
     (case Hdr_Init (section_env (ei_class s) rd EH_FRAME_WITH_HDR) (eh_frame_hdr_offset s) (eh_frame_hdr_section_bias s)
             (EhFrameInit (eh_frame_offset s) (eh_frame_size s) (eh_frame_section_bias s) (DwarfSection_new EH_FRAME_WITH_HDR)) of
        None \<Rightarrow> None
      | Some Undef \<Rightarrow> Some None
      | Some (Failed _) \<Rightarrow> Some (Some None)
      | Some (Done _ ds) \<Rightarrow> Some (Some (Some (EH_FRAME_WITH_HDR, ds))))"

definition init_plain_sections :: "ElfInterface \<Rightarrow> ElfInterface" where
  "init_plain_sections s0 =
     (let s = (if eh_frame s0 = None \<and> eh_frame_offset s0 \<noteq> 0 then
                 s0\<lparr>eh_frame := Some (EH_FRAME, DwarfSection_Init (eh_frame_offset s0) (eh_frame_size s0)
                   (eh_frame_section_bias s0) (DwarfSection_new EH_FRAME))\<rparr>
               else s0);
          s = (if eh_frame s = None then
                 s\<lparr>eh_frame_hdr_offset := 0, eh_frame_hdr_section_bias := 0, eh_frame_hdr_size := - 1,
                   eh_frame_offset := 0, eh_frame_section_bias := 0, eh_frame_size := - 1\<rparr>
               else s)
      in if debug_frame_offset s \<noteq> 0 then
           s\<lparr>debug_frame := Some (DwarfSection_Init (debug_frame_offset s) (debug_frame_size s)
               (debug_frame_section_bias s) (DwarfSection_new DEBUG_FRAME))\<rparr>
         else s)"

text \<open>\<open>None\<close>: does not return.\<close>

definition InitHeaders :: "reader \<Rightarrow> ElfInterface \<Rightarrow> (unit, ElfInterface) outcome option" where
  "InitHeaders rd s =
     (if eh_frame_hdr_offset s \<noteq> 0 then
        (case init_eh_frame_hdr rd s of
           None \<Rightarrow> None
         | Some None \<Rightarrow> Some Undef
         | Some (Some eh) \<Rightarrow> Some (Done () (init_plain_sections (s\<lparr>eh_frame := eh\<rparr>))))
      else Some (Done () (init_plain_sections s)))"

section \<open>Build id\<close>

text \<open>\<open>(n + 3) & ~3\<close> on 32 bits.\<close>

definition align4 :: "u32 \<Rightarrow> u64" where
  "align4 n = ucast ((n + 3) AND NOT 3)"

text \<open>The description of the note, from where it starts.\<close>

definition build_id_of_note :: "reader \<Rightarrow> u64 \<Rightarrow> u64 \<Rightarrow> u64 \<Rightarrow> u32 \<Rightarrow> u8 list" where
  "build_id_of_note rd base sz offset descsz =
     (if sz - offset < ucast descsz \<or> descsz = 0 then []
      else case ReadFully rd (base + offset) (unat descsz) of Some build_id \<Rightarrow> build_id | None \<Rightarrow> [])"

text \<open>
  The notes of a section, one after the other. Aligning can move the offset behind the end, and the
  64-bit offset can wrap around when the section ends close to \<open>2 ^ 64\<close>, so the loop need not end.
\<close>

partial_function (option) build_id_notes :: "reader \<Rightarrow> u64 \<Rightarrow> u64 \<Rightarrow> u64 \<Rightarrow> u8 list option" where
  "build_id_notes rd base sz offset =
     (if \<not> offset < sz then Some []
      else if sz - offset < 12 then Some []
      else
        (case ReadFully rd (base + offset) 12 of
           None \<Rightarrow> Some []
         | Some hdr \<Rightarrow>
             (let namesz = field 0 4 hdr :: u32; descsz = field 4 4 hdr :: u32; ntype = field 8 4 hdr :: u32;
                  offset = offset + 12
              in if sz - offset < ucast namesz then Some []
                 else if namesz > 0 then
                   (case ReadFully rd (base + offset) (unat namesz) of
                      None \<Rightarrow> Some []
                    | Some name \<Rightarrow>
                        (let name = (if last name = 0 then butlast name else name);
                             offset = offset + align4 namesz
                         in if name = ascii ''GNU'' \<and> ntype = NT_GNU_BUILD_ID then
                              Some (build_id_of_note rd base sz offset descsz)
                            else build_id_notes rd base sz (offset + align4 descsz)))
                 else build_id_notes rd base sz (offset + align4 descsz))))"

definition ReadBuildID :: "reader \<Rightarrow> ElfInterface \<Rightarrow> u8 list option" where
  "ReadBuildID rd s =
     (case add_overflow (gnu_build_id_offset s) (gnu_build_id_size s) of
        None \<Rightarrow> Some []
      | Some _ \<Rightarrow> build_id_notes rd (gnu_build_id_offset s) (gnu_build_id_size s) 0)"

fun build_id_section :: "ElfClass \<Rightarrow> reader \<Rightarrow> Ehdr \<Rightarrow> u64 \<Rightarrow> u64 \<Rightarrow> nat \<Rightarrow> u64 \<Rightarrow> (u64 \<times> u64) option" where
  "build_id_section cls rd eh sec_offset sec_size 0 offset = None"
| "build_id_section cls rd eh sec_offset sec_size (Suc n) offset =
     (case read_shdr cls rd offset of
        None \<Rightarrow> None
      | Some sh \<Rightarrow>
          if sh_type sh = SHT_NOTE \<and> section_name rd sec_offset sec_size sh = Some (ascii ''.note.gnu.build-id'') then
            Some (sh_offset sh, sh_size sh)
          else build_id_section cls rd eh sec_offset sec_size n (offset + ucast (e_shentsize eh)))"

text \<open>The outer \<open>None\<close> is the undefined overflow, the inner one \<open>return false\<close>.\<close>

definition GetBuildIDInfo :: "ElfClass \<Rightarrow> reader \<Rightarrow> (u64 \<times> u64) option option" where
  "GetBuildIDInfo cls rd =
     (case read_ehdr cls rd of
        None \<Rightarrow> Some None
      | Some eh \<Rightarrow>
          if e_shstrndx eh \<ge> e_shnum eh then Some None
          else
            (case int_product (e_shstrndx eh) (e_shentsize eh) of
               None \<Rightarrow> None
             | Some n \<Rightarrow>
                 (case read_shdr cls rd (e_shoff eh + n) of
                    None \<Rightarrow> Some None
                  | Some sh \<Rightarrow>
                      Some (build_id_section cls rd eh (sh_offset sh) (sh_size sh) (unat (e_shnum eh) - 1)
                        (e_shoff eh + ucast (e_shentsize eh))))))"

text \<open>The outer \<open>None\<close> is undefined behaviour, the inner one a loop that does not end.\<close>

definition ReadBuildIDFromMemory :: "ElfClass \<Rightarrow> reader \<Rightarrow> u8 list option option" where
  "ReadBuildIDFromMemory cls rd =
     (case GetBuildIDInfo cls rd of
        None \<Rightarrow> None
      | Some None \<Rightarrow> Some (Some [])
      | Some (Some (note_offset, note_size)) \<Rightarrow>
          (case add_overflow note_offset note_size of
             None \<Rightarrow> Some (Some [])
           | Some _ \<Rightarrow> Some (build_id_notes rd note_offset note_size 0)))"

text \<open>\<open>None\<close> is the undefined overflow of \<open>e_shentsize * e_shnum\<close>; \<open>*size\<close> keeps its value when nothing is read.\<close>

definition GetMaxSize :: "ElfClass \<Rightarrow> reader \<Rightarrow> u64 \<Rightarrow> u64 option" where
  "GetMaxSize cls rd sz =
     (case read_ehdr cls rd of
        None \<Rightarrow> Some sz
      | Some eh \<Rightarrow>
          if e_shnum eh = 0 then Some sz
          else map_option (shoff_plus cls eh) (int_product (e_shentsize eh) (e_shnum eh)))"

section \<open>Soname\<close>

text \<open>
  The scan of the dynamic section: the offset that could not be read, or the address and size of the
  string table and the offset of the name in it. The counter can wrap around, so it need not end.
\<close>

partial_function (option) dynamic_scan ::
  "ElfClass \<Rightarrow> reader \<Rightarrow> u64 \<Rightarrow> u64 \<Rightarrow> u64 \<times> u64 \<times> u64 \<Rightarrow> (u64 + u64 \<times> u64 \<times> u64) option" where
  "dynamic_scan cls rd offset max_offset st =
     (if \<not> offset < max_offset then Some (Inr st)
      else
        (let dyn_size = (case cls of ELF32 \<Rightarrow> 8 | ELF64 \<Rightarrow> 16) in
         case ReadFully rd offset dyn_size of
           None \<Rightarrow> Some (Inl offset)
         | Some dyn \<Rightarrow>
             (let d_tag = field 0 (dyn_size div 2) dyn :: u64; d_un = field (dyn_size div 2) (dyn_size div 2) dyn :: u64;
                  (strtab_addr, strtab_size, soname_offset) = st
              in if d_tag = DT_NULL then Some (Inr st)
                 else dynamic_scan cls rd (offset + of_nat dyn_size) max_offset
                   (if d_tag = DT_STRTAB then (d_un, strtab_size, soname_offset)
                    else if d_tag = DT_STRSZ then (strtab_addr, d_un, soname_offset)
                    else if d_tag = DT_SONAME then (strtab_addr, strtab_size, d_un)
                    else st))))"

text \<open>The name in the first string table at that address.\<close>

definition read_soname :: "reader \<Rightarrow> (u64 \<times> u64) list \<Rightarrow> u64 \<times> u64 \<times> u64 \<Rightarrow> u8 list option" where
  "read_soname rd tabs = (\<lambda>(strtab_addr, strtab_size, soname_offset).
     case map_of tabs strtab_addr of
       None \<Rightarrow> None
     | Some entry_offset \<Rightarrow>
         (let soname_offset = entry_offset + soname_offset; soname_max = entry_offset + strtab_size in
          if soname_offset \<ge> soname_max then None
          else ReadString rd soname_offset (unat (soname_max - soname_offset))))"

definition ElfInterface_GetSoname :: "reader \<Rightarrow> ElfInterface \<Rightarrow> (u8 list \<times> ElfInterface) option" where
  "ElfInterface_GetSoname rd s =
     (case soname_type s of
        SONAME_INVALID \<Rightarrow> Some ([], s)
      | SONAME_VALID \<Rightarrow> Some (soname s, s)
      | SONAME_UNKNOWN \<Rightarrow>
          (let s = s\<lparr>soname_type := SONAME_INVALID\<rparr> in
           case dynamic_scan (ei_class s) rd (dynamic_offset s)
                  (dynamic_offset s + dynamic_vaddr_end s - dynamic_vaddr_start s) (0, 0, 0) of
             None \<Rightarrow> None
           | Some (Inl offset) \<Rightarrow> Some ([], set_error ERROR_MEMORY_INVALID offset s)
           | Some (Inr st) \<Rightarrow>
               (case read_soname rd (strtabs s) st of
                  None \<Rightarrow> Some ([], s)
                | Some name \<Rightarrow> Some (name, s\<lparr>soname := name, soname_type := SONAME_VALID\<rparr>))))"

section \<open>Symbols\<close>

text \<open>The first table that knows the address; every table that is asked keeps what it cached.\<close>

fun first_name :: "ElfClass \<Rightarrow> reader \<Rightarrow> u64 \<Rightarrow> Symbols list \<Rightarrow> (u8 list \<times> u64) option \<times> Symbols list" where
  "first_name cls rd addr [] = (None, [])"
| "first_name cls rd addr (y # ys) =
     (case GetName cls rd addr y of
        (Some r, y) \<Rightarrow> (Some r, y # ys)
      | (None, y) \<Rightarrow> (let (r, ys) = first_name cls rd addr ys in (r, y # ys)))"

definition GetFunctionName_Impl :: "reader \<Rightarrow> u64 \<Rightarrow> ElfInterface \<Rightarrow> (u8 list \<times> u64) option \<times> ElfInterface" where
  "GetFunctionName_Impl rd addr s =
     (let (r, ys) = first_name (ei_class s) rd addr (symbol_tables s) in (r, s\<lparr>symbol_tables := ys\<rparr>))"

text \<open>The virtual function: thumb functions have the lowest bit of their address set.\<close>

definition ElfInterface_GetFunctionName :: "reader \<Rightarrow> u64 \<Rightarrow> ElfInterface \<Rightarrow> (u8 list \<times> u64) option \<times> ElfInterface" where
  "ElfInterface_GetFunctionName rd addr s =
     (if ei_is_arm s then
        (case GetFunctionName_Impl rd (addr OR 1) s of
           (Some (name, offset), s) \<Rightarrow> (Some (name, offset AND NOT 1), s)
         | (None, s) \<Rightarrow> (None, s))
      else GetFunctionName_Impl rd addr s)"

fun first_global :: "ElfClass \<Rightarrow> reader \<Rightarrow> u8 list \<Rightarrow> Symbols list \<Rightarrow> (u64 option \<times> Symbols list) option" where
  "first_global cls rd name [] = Some (None, [])"
| "first_global cls rd name (y # ys) =
     (case GetGlobal cls rd name y of
        None \<Rightarrow> None
      | Some (Some v, y) \<Rightarrow> Some (Some v, y # ys)
      | Some (None, y) \<Rightarrow> map_option (\<lambda>(r, ys). (r, y # ys)) (first_global cls rd name ys))"

definition GetGlobalVariable :: "reader \<Rightarrow> u8 list \<Rightarrow> ElfInterface \<Rightarrow> (u64 option \<times> ElfInterface) option" where
  "GetGlobalVariable rd name s =
     map_option (\<lambda>(r, ys). (r, s\<lparr>symbol_tables := ys\<rparr>)) (first_global (ei_class s) rd name (symbol_tables s))"

end
