(* ===== verification/ElfStep.thy ===== *)
theory ElfStep
  imports ElfInterface ArmExidx
begin

text \<open>
  Unwinding one frame with the data of an ELF file: \<open>Step\<close> and \<open>IsValidPc\<close> of
  \<open>unwindstack/ElfInterface.cpp\<close> and \<open>ElfInterfaceArm.cpp\<close>. \<open>xpac\<close> and \<open>iterate\<close> are as in
  \<open>DwarfRowEval\<close>. An interface may point to another one, that of the \<open>.gnu_debugdata\<close> section: a
  list holds the object and those behind it, each with its memory.
\<close>

section \<open>Parameters by reference\<close>

text \<open>The registers, and what \<open>finished\<close> and \<open>is_signal_frame\<close> point to.\<close>

record (overloaded) 'a StepIO =
  io_regs :: "'a Regs"
  io_finished :: bool
  io_signal_frame :: bool

type_synonym ('s, 'a) stepping = "'s \<times> 'a StepIO \<Rightarrow> (unit, 's \<times> 'a StepIO) outcome option"

text \<open>\<open>f\<close> is tried when \<open>m\<close> returned false.\<close>

definition or_else :: "('x, 's) outcome option \<Rightarrow> ('s \<Rightarrow> ('x, 's) outcome option) \<Rightarrow> ('x, 's) outcome option" where
  "or_else m f = (case m of Some (Failed s) \<Rightarrow> f s | _ \<Rightarrow> m)"

text \<open>\<open>reinterpret_cast\<close> to the register class of another word size; the identity when the sizes agree.\<close>

definition regs_cast :: "'a::len Regs \<Rightarrow> 'b::len Regs" where
  "regs_cast r = \<lparr>regs_arch = regs_arch r, reg_values = map ucast (reg_values r), pseudo_regs = pseudo_regs r,
     pac_mask = pac_mask r, dex_pc = dex_pc r\<rparr>"

section \<open>The sections\<close>

definition run_section :: "(u64 \<Rightarrow> u64) \<Rightarrow> ((u32 \<rightharpoonup> DwarfLocation) \<Rightarrow> u32 list) \<Rightarrow> SectionEnv \<Rightarrow> reader \<Rightarrow> u64
     \<Rightarrow> (DwarfSection, 'a::len) stepping" where
  "run_section xpac iterate env pm pc = (\<lambda>(ds, io).
     let out = (\<lambda>st. (ss_section st,
                  \<lparr>io_regs = ss_regs st, io_finished = ss_finished st, io_signal_frame = ss_signal_frame st\<rparr>)) in
     case Step xpac iterate env pm pc \<lparr>ss_section = ds, ss_regs = io_regs io, ss_finished = io_finished io,
            ss_signal_frame = io_signal_frame io\<rparr> of
       None \<Rightarrow> None
     | Some Undef \<Rightarrow> Some Undef
     | Some (Failed st) \<Rightarrow> Some (Failed (out st))
     | Some (Done _ st) \<Rightarrow> Some (Done () (out st)))"

text \<open>Running one section of an interface; \<open>put\<close> stores it back. Without a section nothing happens.\<close>

definition debug_frame_step :: "(u64 \<Rightarrow> u64) \<Rightarrow> ((u32 \<rightharpoonup> DwarfLocation) \<Rightarrow> u32 list) \<Rightarrow> reader \<Rightarrow> reader \<Rightarrow> u64
     \<Rightarrow> (ElfInterface, 'a::len) stepping" where
  "debug_frame_step xpac iterate rd pm pc = (\<lambda>(s, io).
     case debug_frame s of
       None \<Rightarrow> Some (Failed (s, io))
     | Some ds \<Rightarrow>
         (case run_section xpac iterate (section_env (ei_class s) rd DEBUG_FRAME) pm pc (ds, io) of
            None \<Rightarrow> None
          | Some Undef \<Rightarrow> Some Undef
          | Some (Failed (ds, io)) \<Rightarrow> Some (Failed (s\<lparr>debug_frame := Some ds\<rparr>, io))
          | Some (Done _ (ds, io)) \<Rightarrow> Some (Done () (s\<lparr>debug_frame := Some ds\<rparr>, io))))"

definition eh_frame_step :: "(u64 \<Rightarrow> u64) \<Rightarrow> ((u32 \<rightharpoonup> DwarfLocation) \<Rightarrow> u32 list) \<Rightarrow> reader \<Rightarrow> reader \<Rightarrow> u64
     \<Rightarrow> (ElfInterface, 'a::len) stepping" where
  "eh_frame_step xpac iterate rd pm pc = (\<lambda>(s, io).
     case eh_frame s of
       None \<Rightarrow> Some (Failed (s, io))
     | Some (sc, ds) \<Rightarrow>
         (case run_section xpac iterate (section_env (ei_class s) rd sc) pm pc (ds, io) of
            None \<Rightarrow> None
          | Some Undef \<Rightarrow> Some Undef
          | Some (Failed (ds, io)) \<Rightarrow> Some (Failed (s\<lparr>eh_frame := Some (sc, ds)\<rparr>, io))
          | Some (Done _ (ds, io)) \<Rightarrow> Some (Done () (s\<lparr>eh_frame := Some (sc, ds)\<rparr>, io))))"

text \<open>The error of a section as an error of the interface.\<close>

fun convert_error :: "DwarfErrorData \<Rightarrow> ElfInterface \<Rightarrow> ElfInterface" where
  "convert_error e s =
     (case code e of
        DWARF_ERROR_NONE \<Rightarrow> set_error_code ERROR_NONE s
      | DWARF_ERROR_MEMORY_INVALID \<Rightarrow> set_error ERROR_MEMORY_INVALID (address e) s
      | DWARF_ERROR_ILLEGAL_VALUE \<Rightarrow> set_error_code ERROR_UNWIND_INFO s
      | DWARF_ERROR_ILLEGAL_STATE \<Rightarrow> set_error_code ERROR_UNWIND_INFO s
      | DWARF_ERROR_STACK_INDEX_NOT_VALID \<Rightarrow> set_error_code ERROR_UNWIND_INFO s
      | DWARF_ERROR_TOO_MANY_ITERATIONS \<Rightarrow> set_error_code ERROR_UNWIND_INFO s
      | DWARF_ERROR_CFA_NOT_DEFINED \<Rightarrow> set_error_code ERROR_UNWIND_INFO s
      | DWARF_ERROR_NO_FDES \<Rightarrow> set_error_code ERROR_UNWIND_INFO s
      | DWARF_ERROR_NOT_IMPLEMENTED \<Rightarrow> set_error_code ERROR_UNSUPPORTED s
      | DWARF_ERROR_UNSUPPORTED_VERSION \<Rightarrow> set_error_code ERROR_UNSUPPORTED s)"

text \<open>
  The error after all failed: of the first section there is, else of the interface behind, if there
  is one.
\<close>

definition first_error :: "ErrorData option \<Rightarrow> ElfInterface \<Rightarrow> ElfInterface" where
  "first_error gnu s =
     (case debug_frame s of
        Some ds \<Rightarrow> convert_error (ds_error ds) s
      | None \<Rightarrow>
          (case eh_frame s of
             Some (_, ds) \<Rightarrow> convert_error (ds_error ds) s
           | None \<Rightarrow> (case gnu of Some e \<Rightarrow> s\<lparr>ei_error := e\<rparr> | None \<Rightarrow> s)))"

section \<open>ARM\<close>

definition GetPrel31Addr :: "reader \<Rightarrow> u32 \<Rightarrow> ElfInterface \<Rightarrow> u32 option \<times> ElfInterface" where
  "GetPrel31Addr rd offset s =
     (case Read32 rd (ucast offset) of
        None \<Rightarrow> (None, set_error ERROR_MEMORY_INVALID (ucast offset) s)
      | Some data \<Rightarrow> (Some (offset + signed_drop_bit 1 (push_bit 1 data)), s))"

text \<open>The offset of an entry.\<close>

definition entry_at :: "ElfInterface \<Rightarrow> nat \<Rightarrow> u64" where
  "entry_at s i = start_offset s + of_nat i * 8"

text \<open>
  \<open>addrs_[i]\<close> with its default 0, read from the file when it is 0. The iterator of \<open>ElfInterfaceArm.h\<close>
  does the same.
\<close>

definition entry_addr :: "reader \<Rightarrow> nat \<Rightarrow> ElfInterface \<Rightarrow> u32 option \<times> ElfInterface" where
  "entry_addr rd i s =
     (let addr = (case addrs s i of None \<Rightarrow> 0 | Some a \<Rightarrow> a); s = s\<lparr>addrs := (addrs s)(i \<mapsto> addr)\<rparr> in
      if addr = 0 then
        (case GetPrel31Addr rd (ucast (entry_at s i)) s of
           (None, s) \<Rightarrow> (None, s)
         | (Some a, s) \<Rightarrow> (Some a, s\<lparr>addrs := (addrs s)(i \<mapsto> a)\<rparr>))
      else (Some addr, s))"

text \<open>The indices are below \<open>2 ^ 61\<close>, a file size divided by 8, so their sum does not wrap around.\<close>

function find_entry :: "reader \<Rightarrow> u32 \<Rightarrow> nat \<Rightarrow> nat \<Rightarrow> ElfInterface \<Rightarrow> u64 option \<times> ElfInterface" where
  "find_entry rd pc first final s =
     (if first < final then
        (let current = (first + final) div 2 in
         case entry_addr rd current s of
           (None, s) \<Rightarrow> (None, s)
         | (Some addr, s) \<Rightarrow>
             if pc = addr then (Some (entry_at s current), s)
             else if pc < addr then find_entry rd pc first current s
             else find_entry rd pc (current + 1) final s)
      else if final \<noteq> 0 then (Some (entry_at s (final - 1)), s)
      else (None, set_error_code ERROR_UNWIND_INFO s))"
  by pat_completeness auto
termination by (relation "measure (\<lambda>(rd, pc, first, final, s). final - first)") auto

declare find_entry.simps [simp del]

definition FindEntry :: "reader \<Rightarrow> u32 \<Rightarrow> ElfInterface \<Rightarrow> u64 option \<times> ElfInterface" where
  "FindEntry rd pc s =
     (if start_offset s = 0 \<or> total_entries s = 0 then (None, set_error_code ERROR_UNWIND_INFO s)
      else find_entry rd pc 0 (unat (total_entries s)) s)"

definition exidx_error :: "ArmExidx \<Rightarrow> ElfInterface \<Rightarrow> ElfInterface" where
  "exidx_error arm s =
     (case ax_status arm of
        ARM_STATUS_NONE \<Rightarrow> set_error_code ERROR_NONE s
      | ARM_STATUS_NO_UNWIND \<Rightarrow> set_error_code ERROR_NONE s
      | ARM_STATUS_FINISH \<Rightarrow> set_error_code ERROR_NONE s
      | ARM_STATUS_READ_FAILED \<Rightarrow> set_error ERROR_MEMORY_INVALID (ax_status_address arm) s
      | _ \<Rightarrow> set_error_code ERROR_UNWIND_INFO s)"

text \<open>What is written to the registers when both calls succeeded.\<close>

definition exidx_registers :: "ArmExidx \<Rightarrow> 32 Regs" where
  "exidx_registers arm =
     (let r = ax_regs arm;
          r = (if pc_is_set arm then r else set_reg ARM_REG_PC (reg_at ARM_REG_LR r) r)
      in set_reg ARM_REG_SP (ax_cfa arm) r)"

definition StepExidx :: "reader \<Rightarrow> reader \<Rightarrow> u64 \<Rightarrow> (ElfInterface, 'a::len) stepping" where
  "StepExidx rd pm pc = (\<lambda>(s, io).
     if pc < arm_load_bias s then Some (Failed (set_error_code ERROR_UNWIND_INFO s, io))
     else
       (case FindEntry rd (ucast (pc - arm_load_bias s)) s of
          (None, s) \<Rightarrow> Some (Failed (s, io))
        | (Some entry_offset, s) \<Rightarrow>
            (let regs = regs_cast (io_regs io) :: 32 Regs;
                 arm = (ArmExidx_new regs)\<lparr>ax_cfa := ucast (RegsArm_sp regs)\<rparr>;
                 no_success = (\<lambda>arm. let io = io\<lparr>io_regs := regs_cast (ax_regs arm)\<rparr> in
                   if ax_status arm = ARM_STATUS_NO_UNWIND then Some (Done () (s, io\<lparr>io_finished := True\<rparr>))
                   else Some (Failed (exidx_error arm s, io)))
             in case ExtractEntryData rd (ucast entry_offset) arm of
                  Undef \<Rightarrow> Some Undef
                | Failed arm \<Rightarrow> no_success arm
                | Done _ arm \<Rightarrow>
                    (case ArmExidx_Eval pm arm of
                       Undef \<Rightarrow> Some Undef
                     | Failed arm \<Rightarrow> no_success arm
                     | Done _ arm \<Rightarrow>
                         (let regs = exidx_registers arm;
                              finished = (RegsArm_pc regs = 0 \<or> ax_status arm = ARM_STATUS_NO_UNWIND)
                          in Some (Done () (s, io\<lparr>io_regs := regs_cast regs, io_finished := finished\<rparr>)))))))"

section \<open>Step\<close>

text \<open>
  The virtual function on the first interface of the list. The empty list does not occur: a pointer
  is tested before it is followed.
\<close>

fun ElfInterface_Step :: "(u64 \<Rightarrow> u64) \<Rightarrow> ((u32 \<rightharpoonup> DwarfLocation) \<Rightarrow> u32 list) \<Rightarrow> reader \<Rightarrow> u64
     \<Rightarrow> (reader \<times> ElfInterface) list \<Rightarrow> 'a::len StepIO
     \<Rightarrow> (unit, (reader \<times> ElfInterface) list \<times> 'a StepIO) outcome option" where
  "ElfInterface_Step xpac iterate pm pc [] io = Some Undef"
| "ElfInterface_Step xpac iterate pm pc ((rd, s) # gnu) io =
     (case or_else (debug_frame_step xpac iterate rd pm pc (set_error ERROR_NONE 0 s, io))
                   (eh_frame_step xpac iterate rd pm pc) of
        None \<Rightarrow> None
      | Some Undef \<Rightarrow> Some Undef
      | Some (Done _ (s, io)) \<Rightarrow> Some (Done () ((rd, s) # gnu, io))
      | Some (Failed (s, io)) \<Rightarrow>
          (let exidx = (\<lambda>s gnu io.
                 if ei_is_arm s then
                   (case StepExidx rd pm pc (s, io) of
                      None \<Rightarrow> None
                    | Some Undef \<Rightarrow> Some Undef
                    | Some (Failed (s, io)) \<Rightarrow> Some (Failed ((rd, s) # gnu, io))
                    | Some (Done _ (s, io)) \<Rightarrow> Some (Done () ((rd, s) # gnu, io)))
                 else Some (Failed ((rd, s) # gnu, io)))
           in case gnu of
                [] \<Rightarrow> exidx (first_error None s) [] io
              | _ # _ \<Rightarrow>
                  (case ElfInterface_Step xpac iterate pm pc gnu io of
                     None \<Rightarrow> None
                   | Some Undef \<Rightarrow> Some Undef
                   | Some (Done _ (gnu, io)) \<Rightarrow> Some (Done () ((rd, s) # gnu, io))
                   | Some (Failed (gnu, io)) \<Rightarrow> exidx (first_error (Some (ei_error (snd (hd gnu)))) s) gnu io)))"

text \<open>The overload with a load bias, which \<open>ElfInterfaceArm\<close> does not override.\<close>

fun ElfInterface_Step_bias :: "(u64 \<Rightarrow> u64) \<Rightarrow> ((u32 \<rightharpoonup> DwarfLocation) \<Rightarrow> u32 list) \<Rightarrow> reader \<Rightarrow> u64 \<Rightarrow> u64
     \<Rightarrow> (reader \<times> ElfInterface) list \<Rightarrow> 'a::len StepIO
     \<Rightarrow> (unit, (reader \<times> ElfInterface) list \<times> 'a StepIO) outcome option" where
  "ElfInterface_Step_bias xpac iterate pm pc load_bias [] io = Some Undef"
| "ElfInterface_Step_bias xpac iterate pm pc load_bias ((rd, s0) # gnu) io =
     (let s = set_error ERROR_NONE 0 s0; sig = io_signal_frame io;
          out = (\<lambda>io. io\<lparr>io_signal_frame := sig\<rparr>) in
      if pc < load_bias then Some (Failed ((rd, set_error_code ERROR_UNWIND_INFO s) # gnu, io))
      else
        (case or_else (debug_frame_step xpac iterate rd pm (pc - load_bias) (s, io))
                      (eh_frame_step xpac iterate rd pm (pc - load_bias)) of
           None \<Rightarrow> None
         | Some Undef \<Rightarrow> Some Undef
         | Some (Done _ (s, io)) \<Rightarrow> Some (Done () ((rd, s) # gnu, out io))
         | Some (Failed (s, io)) \<Rightarrow>
             (case gnu of
                [] \<Rightarrow> Some (Failed ((rd, first_error None s) # gnu, out io))
              | _ # _ \<Rightarrow>
                  (case ElfInterface_Step_bias xpac iterate pm pc 0 gnu io of
                     None \<Rightarrow> None
                   | Some Undef \<Rightarrow> Some Undef
                   | Some (Done _ (gnu, io)) \<Rightarrow> Some (Done () ((rd, s) # gnu, out io))
                   | Some (Failed (gnu, io)) \<Rightarrow>
                       Some (Failed ((rd, first_error (Some (ei_error (snd (hd gnu)))) s) # gnu, out io))))))"

section \<open>Which program counters are valid\<close>

definition has_fde :: "SectionEnv \<Rightarrow> u64 \<Rightarrow> DwarfSection \<Rightarrow> (bool \<times> DwarfSection) option option" where
  "has_fde env pc ds =
     (case GetFdeFromPc env pc ds of
        None \<Rightarrow> None
      | Some Undef \<Rightarrow> Some None
      | Some (Failed ds) \<Rightarrow> Some (Some (False, ds))
      | Some (Done _ ds) \<Rightarrow> Some (Some (True, ds)))"

definition in_load :: "u64 \<Rightarrow> LoadInfo \<Rightarrow> bool" where
  "in_load pc e \<longleftrightarrow> table_offset e \<le> pc \<and> pc < table_offset e + table_size e"

text \<open>As in \<open>Step\<close>, \<open>Failed\<close> is false; the executable segments decide when there are any.\<close>

definition ElfInterface_IsValidPc :: "reader \<Rightarrow> u64 \<Rightarrow> ElfInterface \<Rightarrow> (unit, ElfInterface) outcome option" where
  "ElfInterface_IsValidPc rd pc s =
     (if pt_loads s \<noteq> [] then
        Some (if list_ex (\<lambda>(k, e). in_load pc e) (pt_loads s) then Done () s else Failed s)
      else
        or_else
          (case debug_frame s of
             None \<Rightarrow> Some (Failed s)
           | Some ds \<Rightarrow>
               (case has_fde (section_env (ei_class s) rd DEBUG_FRAME) pc ds of
                  None \<Rightarrow> None
                | Some None \<Rightarrow> Some Undef
                | Some (Some (found, ds)) \<Rightarrow>
                    Some (if found then Done () (s\<lparr>debug_frame := Some ds\<rparr>) else Failed (s\<lparr>debug_frame := Some ds\<rparr>))))
          (\<lambda>s. case eh_frame s of
             None \<Rightarrow> Some (Failed s)
           | Some (sc, ds) \<Rightarrow>
               (case has_fde (section_env (ei_class s) rd sc) pc ds of
                  None \<Rightarrow> None
                | Some None \<Rightarrow> Some Undef
                | Some (Some (found, ds)) \<Rightarrow>
                    Some (if found then Done () (s\<lparr>eh_frame := Some (sc, ds)\<rparr>) else Failed (s\<lparr>eh_frame := Some (sc, ds)\<rparr>)))))"

definition ElfInterface_GetTextRange :: "ElfInterface \<Rightarrow> (u64 \<times> u64) option" where
  "ElfInterface_GetTextRange s = (if text_size s \<noteq> 0 then Some (text_addr s, text_size s) else None)"

end
