(* ===== verification/ElfObject.thy ===== *)
theory ElfObject
  imports ElfStep RegsContexts
begin

text \<open>
  The object of one ELF file: \<open>unwindstack/Elf.cpp\<close> and \<open>Elf.h\<close>, without the cache of objects, which is
  in \<open>MapElf\<close>. \<open>CreateGnuDebugdataMemory\<close> returns a null pointer in this program, so the second
  interface never exists (\<open>ElfProps\<close>); the code that uses it is modelled all the same.
\<close>

section \<open>State\<close>

text \<open>\<open>machine_type_\<close>, \<open>class_type_\<close> and \<open>arch_\<close> have no initial value; nothing reads them before \<open>Init\<close>.\<close>

record Elf =
  elf_valid :: bool
  elf_load_bias :: u64
  elf_interface :: "ElfInterface option"
  elf_memory :: "reader option"
  machine_type :: u32
  class_type :: u8
  elf_arch :: ArchEnum
  gnu_debugdata_interface :: "(reader \<times> ElfInterface) option"

definition Elf_new :: "reader option \<Rightarrow> Elf" where
  "Elf_new memory = \<lparr>elf_valid = False, elf_load_bias = 0, elf_interface = None, elf_memory = memory,
     machine_type = 0, class_type = 0, elf_arch = ARCH_UNKNOWN, gnu_debugdata_interface = None\<rparr>"

definition ELFCLASS32 :: u8 where "ELFCLASS32 = 1"
definition ELFCLASS64 :: u8 where "ELFCLASS64 = 2"
definition EI_CLASS :: u64 where "EI_CLASS = 4"
definition EM_386 :: u16 where "EM_386 = 3"
definition EM_MIPS :: u16 where "EM_MIPS = 8"
definition EM_ARM :: u16 where "EM_ARM = 40"
definition EM_X86_64 :: u16 where "EM_X86_64 = 62"
definition EM_AARCH64 :: u16 where "EM_AARCH64 = 183"

lemmas em_defs = ELFCLASS32_def ELFCLASS64_def EI_CLASS_def EM_386_def EM_MIPS_def EM_ARM_def EM_X86_64_def
  EM_AARCH64_def

text \<open>The memory and the interface, and those of \<open>.gnu_debugdata\<close> behind them.\<close>

definition interfaces :: "Elf \<Rightarrow> (reader \<times> ElfInterface) list" where
  "interfaces e = (the (elf_memory e), the (elf_interface e)) #
     (case gnu_debugdata_interface e of None \<Rightarrow> [] | Some g \<Rightarrow> [g])"

definition set_interfaces :: "(reader \<times> ElfInterface) list \<Rightarrow> Elf \<Rightarrow> Elf" where
  "set_interfaces l e = e\<lparr>elf_interface := Some (snd (hd l)),
     gnu_debugdata_interface := (case tl l of [] \<Rightarrow> None | g # _ \<Rightarrow> Some g)\<rparr>"

section \<open>What a file is\<close>

definition IsValidElf :: "reader option \<Rightarrow> bool" where
  "IsValidElf memory =
     (case memory of None \<Rightarrow> False | Some rd \<Rightarrow> ReadFully rd 0 4 = Some (0x7f # ascii ''ELF''))"

text \<open>The results: undefined, false, or the size.\<close>

definition Elf_GetInfo :: "reader option \<Rightarrow> u64 option option" where
  "Elf_GetInfo memory =
     (if \<not> IsValidElf memory then Some None
      else
        (case ReadFully (the memory) EI_CLASS 1 of
           None \<Rightarrow> Some None
         | Some bs \<Rightarrow>
             if hd bs = ELFCLASS32 then map_option Some (GetMaxSize ELF32 (the memory) 0)
             else if hd bs = ELFCLASS64 then map_option Some (GetMaxSize ELF64 (the memory) 0)
             else Some None))"

text \<open>The static functions. \<open>Read\<close> succeeds when it reads anything.\<close>

definition Elf_GetLoadBias_static :: "reader option \<Rightarrow> u64" where
  "Elf_GetLoadBias_static memory =
     (if \<not> IsValidElf memory then 0
      else
        (case the memory EI_CLASS 1 of
           [] \<Rightarrow> 0
         | c # _ \<Rightarrow>
             if c = ELFCLASS32 then ElfInterface_GetLoadBias ELF32 (the memory)
             else if c = ELFCLASS64 then ElfInterface_GetLoadBias ELF64 (the memory)
             else 0))"

definition Elf_GetBuildID_static :: "reader option \<Rightarrow> u8 list option option" where
  "Elf_GetBuildID_static memory =
     (if \<not> IsValidElf memory then Some (Some [])
      else
        (case the memory EI_CLASS 1 of
           [] \<Rightarrow> Some (Some [])
         | c # _ \<Rightarrow>
             if c = ELFCLASS32 then ReadBuildIDFromMemory ELF32 (the memory)
             else if c = ELFCLASS64 then ReadBuildIDFromMemory ELF64 (the memory)
             else Some (Some [])))"

text \<open>\<open>%02hhx\<close> of every byte.\<close>

definition hex_byte :: "u8 \<Rightarrow> string" where
  "hex_byte b = [digit_char (unat b div 16), digit_char (unat b mod 16)]"

definition printable_build_id :: "u8 list \<Rightarrow> string" where
  "printable_build_id build_id = concat (map hex_byte build_id)"

section \<open>Creation\<close>

text \<open>The machine of a 32-bit and of a 64-bit file.\<close>

definition arch_of_machine :: "ElfClass \<Rightarrow> u16 \<Rightarrow> ArchEnum option" where
  "arch_of_machine cls m =
     (case cls of
        ELF32 \<Rightarrow> if m = EM_ARM then Some ARCH_ARM else if m = EM_386 then Some ARCH_X86
                 else if m = EM_MIPS then Some ARCH_MIPS else None
      | ELF64 \<Rightarrow> if m = EM_AARCH64 then Some ARCH_ARM64 else if m = EM_X86_64 then Some ARCH_X86_64
                 else if m = EM_MIPS then Some ARCH_MIPS64 else None)"

definition interface_of_machine :: "ElfClass \<Rightarrow> reader \<Rightarrow> Elf \<Rightarrow> ElfInterface option \<times> Elf" where
  "interface_of_machine cls rd e =
     (case ReadFully rd (16 + 2) 2 of
        None \<Rightarrow> (None, e)
      | Some bs \<Rightarrow>
          (let e_machine = le_word bs :: u16; e = e\<lparr>machine_type := ucast e_machine\<rparr> in
           case arch_of_machine cls e_machine of
             None \<Rightarrow> (None, e)
           | Some arch \<Rightarrow> (Some (ElfInterface_new cls (arch = ARCH_ARM)), e\<lparr>elf_arch := arch\<rparr>)))"

definition CreateInterfaceFromMemory :: "reader option \<Rightarrow> Elf \<Rightarrow> ElfInterface option \<times> Elf" where
  "CreateInterfaceFromMemory memory e =
     (if \<not> IsValidElf memory then (None, e)
      else
        (case ReadFully (the memory) EI_CLASS 1 of
           None \<Rightarrow> (None, e)
         | Some bs \<Rightarrow>
             (let e = e\<lparr>class_type := hd bs\<rparr> in
              if hd bs = ELFCLASS32 then interface_of_machine ELF32 (the memory) e
              else if hd bs = ELFCLASS64 then interface_of_machine ELF64 (the memory) e
              else (None, e))))"

definition CreateGnuDebugdataMemory :: "ElfInterface \<Rightarrow> reader option" where
  "CreateGnuDebugdataMemory s = None"

text \<open>\<open>load_bias\<close> is the variable without an initial value that \<open>Init\<close> is given.\<close>

definition InitGnuDebugdata :: "u64 \<Rightarrow> Elf \<Rightarrow> (unit, Elf) outcome option" where
  "InitGnuDebugdata load_bias e =
     (if \<not> elf_valid e \<or> gnu_debugdata_offset (the (elf_interface e)) = 0 then Some (Done () e)
      else
        (let memory = CreateGnuDebugdataMemory (the (elf_interface e)) in
         case CreateInterfaceFromMemory memory e of
           (None, e) \<Rightarrow> Some (Done () (e\<lparr>gnu_debugdata_interface := None\<rparr>))
         | (Some gnu, e) \<Rightarrow>
             (case ElfInterface_Init (the memory) load_bias gnu of
                Undef \<Rightarrow> Some Undef
              | Failed _ \<Rightarrow> Some (Done () (e\<lparr>gnu_debugdata_interface := None\<rparr>))
              | Done _ gnu \<Rightarrow>
                  (case InitHeaders (the memory) gnu of
                     None \<Rightarrow> None
                   | Some Undef \<Rightarrow> Some Undef
                   | Some (Failed _) \<Rightarrow> Some Undef
                   | Some (Done _ gnu) \<Rightarrow> Some (Done () (e\<lparr>gnu_debugdata_interface := Some (the memory, gnu)\<rparr>))))))"

text \<open>Initialisation; \<open>Failed\<close> is \<open>return false\<close>. \<open>InitHeaders\<close> returns nothing and has no failure.\<close>

definition Elf_Init :: "u64 \<Rightarrow> Elf \<Rightarrow> (unit, Elf) outcome option" where
  "Elf_Init junk e0 =
     (let e1 = e0\<lparr>elf_load_bias := 0\<rparr> in
      case elf_memory e1 of
        None \<Rightarrow> Some (Failed e1)
      | Some rd \<Rightarrow>
          (case CreateInterfaceFromMemory (Some rd) e1 of
             (None, e) \<Rightarrow> Some (Failed (e\<lparr>elf_interface := None\<rparr>))
           | (Some s, e) \<Rightarrow>
               (case ElfInterface_Init rd 0 s of
                  Undef \<Rightarrow> Some Undef
                | Failed _ \<Rightarrow> Some (Failed (e\<lparr>elf_valid := False, elf_interface := None\<rparr>))
                | Done load_bias s \<Rightarrow>
                    (case InitHeaders rd s of
                       None \<Rightarrow> None
                     | Some Undef \<Rightarrow> Some Undef
                     | Some (Failed _) \<Rightarrow> Some Undef
                     | Some (Done _ s) \<Rightarrow>
                         InitGnuDebugdata junk
                           (e\<lparr>elf_valid := True, elf_load_bias := load_bias, elf_interface := Some s\<rparr>)))))"

definition Elf_Invalidate :: "Elf \<Rightarrow> Elf" where
  "Elf_Invalidate e = e\<lparr>elf_interface := None, elf_valid := False\<rparr>"

section \<open>Queries\<close>

definition Elf_GetSoname :: "Elf \<Rightarrow> (u8 list \<times> Elf) option" where
  "Elf_GetSoname e =
     (if \<not> elf_valid e then Some ([], e)
      else map_option (\<lambda>(name, s). (name, e\<lparr>elf_interface := Some s\<rparr>))
             (ElfInterface_GetSoname (the (elf_memory e)) (the (elf_interface e))))"

text \<open>With the start and the \<open>elf_offset\<close> of the map.\<close>

definition GetRelPc :: "u64 \<Rightarrow> u64 \<Rightarrow> u64 \<Rightarrow> Elf \<Rightarrow> u64" where
  "GetRelPc pc map_start elf_offset e = pc - map_start + elf_load_bias e + elf_offset"

definition Elf_GetFunctionName :: "u64 \<Rightarrow> Elf \<Rightarrow> (u8 list \<times> u64) option \<times> Elf" where
  "Elf_GetFunctionName addr e =
     (if \<not> elf_valid e then (None, e)
      else
        (case ElfInterface_GetFunctionName (the (elf_memory e)) addr (the (elf_interface e)) of
           (Some r, s) \<Rightarrow> (Some r, e\<lparr>elf_interface := Some s\<rparr>)
         | (None, s) \<Rightarrow>
             (let e = e\<lparr>elf_interface := Some s\<rparr> in
              case gnu_debugdata_interface e of
                None \<Rightarrow> (None, e)
              | Some (rd, g) \<Rightarrow>
                  (let (r, g) = ElfInterface_GetFunctionName rd addr g
                   in (r, e\<lparr>gnu_debugdata_interface := Some (rd, g)\<rparr>)))))"

text \<open>The address of a variable in either table.\<close>

definition global_address :: "u8 list \<Rightarrow> Elf \<Rightarrow> (u64 option \<times> Elf) option" where
  "global_address name e =
     (case GetGlobalVariable (the (elf_memory e)) name (the (elf_interface e)) of
        None \<Rightarrow> None
      | Some (Some v, s) \<Rightarrow> Some (Some v, e\<lparr>elf_interface := Some s\<rparr>)
      | Some (None, s) \<Rightarrow>
          (let e = e\<lparr>elf_interface := Some s\<rparr> in
           case gnu_debugdata_interface e of
             None \<Rightarrow> Some (None, e)
           | Some (rd, g) \<Rightarrow>
               map_option (\<lambda>(r, g). (r, e\<lparr>gnu_debugdata_interface := Some (rd, g)\<rparr>)) (GetGlobalVariable rd name g)))"

text \<open>Its offset in the file, when it lies in \<open>.data\<close> or in the dynamic section.\<close>

definition variable_offset :: "u64 \<Rightarrow> ElfInterface \<Rightarrow> u64 option" where
  "variable_offset vaddr s =
     (if data_vaddr_start s \<le> vaddr \<and> vaddr < data_vaddr_end s then Some (vaddr - data_vaddr_start s + ei_data_offset s)
      else if dynamic_vaddr_start s \<le> vaddr \<and> vaddr < dynamic_vaddr_end s then
        Some (vaddr - dynamic_vaddr_start s + dynamic_offset s)
      else None)"

definition GetGlobalVariableOffset :: "u8 list \<Rightarrow> Elf \<Rightarrow> (u64 option \<times> Elf) option" where
  "GetGlobalVariableOffset name e =
     (if \<not> elf_valid e then Some (None, e)
      else
        (case global_address name e of
           None \<Rightarrow> None
         | Some (None, e) \<Rightarrow> Some (None, e)
         | Some (Some vaddr, e) \<Rightarrow>
             (let vaddr = (if elf_arch e = ARCH_ARM64 then vaddr AND mask 56 else vaddr)
              in Some (variable_offset vaddr (the (elf_interface e)), e))))"

definition Elf_GetBuildID :: "Elf \<Rightarrow> u8 list option" where
  "Elf_GetBuildID e = (if \<not> elf_valid e then Some [] else ReadBuildID (the (elf_memory e)) (the (elf_interface e)))"

definition GetPrintableBuildID :: "Elf \<Rightarrow> string option" where
  "GetPrintableBuildID e = map_option printable_build_id (Elf_GetBuildID e)"

definition Elf_GetLastError :: "Elf \<Rightarrow> ErrorData" where
  "Elf_GetLastError e =
     (if elf_valid e then ei_error (the (elf_interface e)) else \<lparr>er_code = ERROR_INVALID_ELF, er_address = 0\<rparr>)"

definition GetLastErrorCode :: "Elf \<Rightarrow> ErrorCode" where
  "GetLastErrorCode e = (if elf_valid e then er_code (ei_error (the (elf_interface e))) else ERROR_INVALID_ELF)"

definition GetLastErrorAddress :: "Elf \<Rightarrow> u64" where
  "GetLastErrorAddress e = (if elf_valid e then er_address (ei_error (the (elf_interface e))) else 0)"

text \<open>\<open>load_bias_ > 0\<close> compares signed numbers.\<close>

definition Elf_IsValidPc :: "u64 \<Rightarrow> Elf \<Rightarrow> (unit, Elf) outcome option" where
  "Elf_IsValidPc pc e =
     (if \<not> elf_valid e \<or> (0 <s elf_load_bias e \<and> pc < elf_load_bias e) then Some (Failed e)
      else
        (case ElfInterface_IsValidPc (the (elf_memory e)) pc (the (elf_interface e)) of
           None \<Rightarrow> None
         | Some Undef \<Rightarrow> Some Undef
         | Some (Done _ s) \<Rightarrow> Some (Done () (e\<lparr>elf_interface := Some s\<rparr>))
         | Some (Failed s) \<Rightarrow>
             (let e = e\<lparr>elf_interface := Some s\<rparr> in
              case gnu_debugdata_interface e of
                None \<Rightarrow> Some (Failed e)
              | Some (rd, g) \<Rightarrow>
                  (case ElfInterface_IsValidPc rd pc g of
                     None \<Rightarrow> None
                   | Some Undef \<Rightarrow> Some Undef
                   | Some (Done _ g) \<Rightarrow> Some (Done () (e\<lparr>gnu_debugdata_interface := Some (rd, g)\<rparr>))
                   | Some (Failed g) \<Rightarrow> Some (Failed (e\<lparr>gnu_debugdata_interface := Some (rd, g)\<rparr>))))))"

definition Elf_GetTextRange :: "Elf \<Rightarrow> (u64 \<times> u64) option" where
  "Elf_GetTextRange e =
     (if \<not> elf_valid e then None
      else
        (case ElfInterface_GetTextRange (the (elf_interface e)) of
           Some (addr, n) \<Rightarrow> Some (addr + elf_load_bias e, n)
         | None \<Rightarrow>
             (case gnu_debugdata_interface e of
                None \<Rightarrow> None
              | Some (rd, g) \<Rightarrow> map_option (\<lambda>(addr, n). (addr + elf_load_bias e, n)) (ElfInterface_GetTextRange g))))"

section \<open>Stepping\<close>

definition cast_step :: "('b::len Regs \<Rightarrow> bool \<times> 'b Regs) \<Rightarrow> 'a::len Regs \<Rightarrow> bool \<times> 'a Regs" where
  "cast_step f r = (let (b, r) = f (regs_cast r) in (b, regs_cast r))"

text \<open>The virtual function of the registers; \<open>junk\<close> is as in \<open>RegsContexts\<close>.\<close>

definition regs_StepIfSignalHandler :: "u8 list \<Rightarrow> u64 \<Rightarrow> reader \<Rightarrow> reader \<Rightarrow> 'a::len Regs \<Rightarrow> bool \<times> 'a Regs" where
  "regs_StepIfSignalHandler junk elf_offset memory pm r =
     (case regs_arch r of
        ARCH_ARM \<Rightarrow> cast_step (RegsArm_StepIfSignalHandler elf_offset memory pm) r
      | ARCH_ARM64 \<Rightarrow> cast_step (RegsArm64_StepIfSignalHandler elf_offset memory pm) r
      | ARCH_X86 \<Rightarrow> cast_step (RegsX86_StepIfSignalHandler elf_offset memory pm) r
      | ARCH_X86_64 \<Rightarrow> cast_step (RegsX86_64_StepIfSignalHandler elf_offset memory pm) r
      | ARCH_MIPS \<Rightarrow> cast_step (RegsMips_StepIfSignalHandler elf_offset memory pm) r
      | ARCH_MIPS64 \<Rightarrow> cast_step (RegsMips64_StepIfSignalHandler junk elf_offset memory pm) r
      | ARCH_UNKNOWN \<Rightarrow> (False, r))"

definition Elf_StepIfSignalHandler :: "u8 list \<Rightarrow> u64 \<Rightarrow> reader \<Rightarrow> Elf \<Rightarrow> 'a::len Regs \<Rightarrow> bool \<times> 'a Regs" where
  "Elf_StepIfSignalHandler junk rel_pc pm e r =
     (if \<not> elf_valid e \<or> rel_pc < elf_load_bias e then (False, r)
      else regs_StepIfSignalHandler junk (rel_pc - elf_load_bias e) (the (elf_memory e)) pm r)"

definition Elf_Step :: "(u64 \<Rightarrow> u64) \<Rightarrow> ((u32 \<rightharpoonup> DwarfLocation) \<Rightarrow> u32 list) \<Rightarrow> u64 \<Rightarrow> reader
     \<Rightarrow> (Elf, 'a::len) stepping" where
  "Elf_Step xpac iterate rel_pc pm = (\<lambda>(e, io).
     if \<not> elf_valid e then Some (Failed (e, io))
     else
       (case ElfInterface_Step xpac iterate pm rel_pc (interfaces e) io of
          None \<Rightarrow> None
        | Some Undef \<Rightarrow> Some Undef
        | Some (Failed (l, io)) \<Rightarrow> Some (Failed (set_interfaces l e, io))
        | Some (Done _ (l, io)) \<Rightarrow> Some (Done () (set_interfaces l e, io))))"

end
