(* ===== verification/ElfProps.thy ===== *)
theory ElfProps
  imports ElfObject
begin

text \<open>
  Properties of the objects of ELF files. An object that \<open>Init\<close> made valid has a memory and an interface
  whose class and machine agree with its architecture, and every member function keeps it so: the
  pointers that the code follows without a test are never null.
\<close>

section \<open>What the interface keeps\<close>

text \<open>The class of the file and the class of the C++ object; the section object without a table is never \<open>.debug_frame\<close>.\<close>

definition ei_kind :: "ElfInterface \<Rightarrow> ElfClass \<times> bool" where
  "ei_kind s = (ei_class s, ei_is_arm s)"

definition eh_frame_ok :: "ElfInterface \<Rightarrow> bool" where
  "eh_frame_ok s \<longleftrightarrow> (\<forall>sc ds. eh_frame s = Some (sc, ds) \<longrightarrow> sc \<noteq> DEBUG_FRAME)"

definition kept :: "ElfInterface \<Rightarrow> ElfInterface \<Rightarrow> bool" where
  "kept s s' \<longleftrightarrow> ei_kind s' = ei_kind s \<and> (eh_frame_ok s \<longrightarrow> eh_frame_ok s')"

named_theorems kept

lemma kept_refl [kept, simp, intro]: "kept s s"
  by (simp add: kept_def)

lemma kept_trans [trans]: "kept s t \<Longrightarrow> kept t u \<Longrightarrow> kept s u"
  by (simp add: kept_def)

lemma kept_update:
  "ei_class s' = ei_class s \<Longrightarrow> ei_is_arm s' = ei_is_arm s \<Longrightarrow> eh_frame s' = eh_frame s \<Longrightarrow> kept s s'"
  by (simp add: kept_def ei_kind_def eh_frame_ok_def)

lemma kept_if: "(b \<Longrightarrow> kept s t) \<Longrightarrow> (\<not> b \<Longrightarrow> kept s u) \<Longrightarrow> kept s (if b then t else u)"
  by simp

lemma kept_case_option: "kept s t \<Longrightarrow> (\<And>x. kept s (f x)) \<Longrightarrow> kept s (case v of None \<Rightarrow> t | Some x \<Rightarrow> f x)"
  by (cases v) simp_all

lemma kept_set_error [kept]: "kept s (set_error c a s)" "kept s (set_error_code c s)"
  by (auto intro!: kept_update simp: set_error_def set_error_code_def)

lemma kept_HandleUnknownType: "kept s (HandleUnknownType ty off sz s)"
  by (auto intro!: kept_update simp: HandleUnknownType_def)

lemma kept_program_header: "kept s (snd (snd (program_header ph (first, bias, s))))"
  by (auto intro!: kept_update kept_HandleUnknownType simp: program_header_def split: option.splits)

lemma kept_program_headers: "kept (snd (snd st)) (snd (snd (program_headers rd entsize n offset st)))"
proof (induction n arbitrary: offset st)
  case (Suc n)
  show ?case
  proof (cases "read_phdr (ei_class (snd (snd st))) rd offset")
    case (Some ph)
    have "kept (snd (snd st)) (snd (snd (program_header ph st)))"
      using kept_program_header [of "snd (snd st)" ph "fst st" "fst (snd st)"] by simp
    then show ?thesis using Suc.IH [of "program_header ph st" "offset + ucast entsize"] Some by (auto intro: kept_trans)
  qed simp
qed simp

lemma kept_ReadProgramHeaders: "kept s (snd (ReadProgramHeaders rd eh bias s))"
  using kept_program_headers [of "(True, bias, s)" rd "e_phentsize eh" "unat (e_phnum eh)" "e_phoff eh"]
  by (simp add: ReadProgramHeaders_def)

lemma kept_symtab_section: "kept s (symtab_section rd eh sh s)"
  by (auto intro!: kept_update simp: symtab_section_def split: option.splits)

lemma kept_progbits_section: "kept s (progbits_section name sh s)"
  unfolding progbits_section_def by (intro kept_if kept_case_option kept_refl) (simp_all add: kept_update)

lemma kept_section_header: "kept s (section_header rd eh so sz sh s)"
proof -
  have "kept s (s\<lparr>strtabs := x\<rparr>)" "kept s (s\<lparr>gnu_build_id_offset := a, gnu_build_id_size := b\<rparr>)" for x a b
    by (simp_all add: kept_update)
  then show ?thesis
    by (simp add: section_header_def kept_symtab_section kept_progbits_section split: option.splits)
qed

lemma kept_section_headers: "kept s (section_headers rd eh so sz n offset s)"
proof (induction n arbitrary: offset s)
  case (Suc n)
  show ?case
    using kept_trans [OF kept_section_header Suc.IH] by (simp split: option.splits)
qed simp

lemma kept_ElfInterface_Init:
  assumes "ElfInterface_Init rd bias s = Done b s'"
  shows "kept s s'"
proof -
  obtain eh where eh: "read_ehdr (ei_class s) rd = Some eh"
    using assms by (cases "read_ehdr (ei_class s) rd") (simp_all add: ElfInterface_Init_def ReadAllHeaders_def)
  obtain c t where t: "ReadProgramHeaders rd eh bias s = (c, t)" by (cases "ReadProgramHeaders rd eh bias s")
  obtain x y where n: "name_section (ei_class t) rd eh = Some (x, y)"
    using assms eh t by (cases "name_section (ei_class t) rd eh")
      (auto simp: ElfInterface_Init_def ReadAllHeaders_def ReadSectionHeaders_def)
  let ?u = "section_headers rd eh x y (unat (e_shnum eh) - 1) (e_shoff eh + ucast (e_shentsize eh)) t"
  have s': "s' = (if ei_is_arm ?u then ?u\<lparr>arm_load_bias := c\<rparr> else ?u)" 
    using assms eh t n by (auto simp: ElfInterface_Init_def ReadAllHeaders_def ReadSectionHeaders_def)
  have "kept s t" using kept_ReadProgramHeaders [of s rd eh bias] t by simp
  also have "kept t ?u" by (rule kept_section_headers)
  also have "kept ?u s'" unfolding s' by (simp add: kept_update)
  finally show ?thesis .
qed

lemma kept_init_plain_sections: "kept s (init_plain_sections s)"
  by (simp add: init_plain_sections_def Let_def kept_def ei_kind_def eh_frame_ok_def)

lemma kept_InitHeaders:
  assumes "InitHeaders rd s = Some (Done x s')"
  shows "kept s s'"
proof (cases "eh_frame_hdr_offset s = 0")
  case True
  then show ?thesis using assms kept_init_plain_sections [of s] by (simp add: InitHeaders_def)
next
  case False
  then obtain eh where eh: "init_eh_frame_hdr rd s = Some (Some eh)" and s': "s' = init_plain_sections (s\<lparr>eh_frame := eh\<rparr>)"
    using assms by (auto simp: InitHeaders_def split: option.splits)
  have "eh = None \<or> fst (the eh) = EH_FRAME_WITH_HDR"
    using eh by (auto simp: init_eh_frame_hdr_def split: option.splits outcome.splits)
  then have "kept s (s\<lparr>eh_frame := eh\<rparr>)" by (cases eh) (auto simp: kept_def ei_kind_def eh_frame_ok_def)
  also note kept_init_plain_sections [of "s\<lparr>eh_frame := eh\<rparr>"]
  finally show ?thesis unfolding s' .
qed


lemma kept_GetSoname: "ElfInterface_GetSoname rd s = Some (name, s') \<Longrightarrow> kept s s'"
  by (auto simp: ElfInterface_GetSoname_def Let_def set_error_def split: soname_state.splits option.splits sum.splits
      intro!: kept_update)

lemma kept_GetFunctionName: "ElfInterface_GetFunctionName rd addr s = (r, s') \<Longrightarrow> kept s s'"
  by (auto simp: ElfInterface_GetFunctionName_def GetFunctionName_Impl_def split: if_splits prod.splits option.splits
      intro!: kept_update)

lemma kept_GetGlobalVariable: "GetGlobalVariable rd name s = Some (r, s') \<Longrightarrow> kept s s'"
  by (auto simp: GetGlobalVariable_def intro!: kept_update)

text \<open>What a result leaves behind, success or not.\<close>

definition left :: "('x, 's) outcome option \<Rightarrow> 's option" where
  "left r = (case r of Some (Done _ s) \<Rightarrow> Some s | Some (Failed s) \<Rightarrow> Some s | _ \<Rightarrow> None)"

lemma left_simps [simp]:
  "left None = None" "left (Some Undef) = None" "left (Some (Failed s)) = Some s" "left (Some (Done x s)) = Some s"
  by (simp_all add: left_def)

lemma left_or_else:
  assumes "\<And>t. left m = Some t \<Longrightarrow> R s t" and "\<And>t u. left m = Some t \<Longrightarrow> left (f t) = Some u \<Longrightarrow> R t u"
    and "\<And>t u v. R t u \<Longrightarrow> R u v \<Longrightarrow> R t v" and "left (or_else m f) = Some u"
  shows "R s u"
  using assms unfolding or_else_def by (fastforce simp: left_def split: option.splits outcome.splits)

lemma kept_debug_frame: "kept s (s\<lparr>debug_frame := d\<rparr>)"
  by (simp add: kept_update)

lemma kept_eh_frame: "eh_frame s = Some (sc, ds) \<Longrightarrow> kept s (s\<lparr>eh_frame := Some (sc, ds')\<rparr>)"
  by (simp add: kept_def ei_kind_def eh_frame_ok_def)

lemma kept_debug_frame_step: "left (debug_frame_step xpac iterate rd pm pc (s, io)) = Some (s', io') \<Longrightarrow> kept s s'"
  by (auto simp: debug_frame_step_def kept_debug_frame split: option.splits outcome.splits)

lemma kept_eh_frame_step: "left (eh_frame_step xpac iterate rd pm pc (s, io)) = Some (s', io') \<Longrightarrow> kept s s'"
  by (auto simp: eh_frame_step_def kept_eh_frame split: option.splits outcome.splits)

lemma kept_GetPrel31Addr: "GetPrel31Addr rd off s = (r, s') \<Longrightarrow> kept s s'"
  by (auto simp: GetPrel31Addr_def kept split: option.splits)

lemma kept_entry_addr: "entry_addr rd i s = (r, s') \<Longrightarrow> kept s s'"
proof -
  assume a: "entry_addr rd i s = (r, s')"
  have up: "kept s (s\<lparr>addrs := x\<rparr>)" for s :: ElfInterface and x by (simp add: kept_update)
  let ?t = "s\<lparr>addrs := (addrs s)(i \<mapsto> (case addrs s i of None \<Rightarrow> 0 | Some a \<Rightarrow> a))\<rparr>"
  obtain q u where q: "GetPrel31Addr rd (ucast (entry_at ?t i)) ?t = (q, u)" by fastforce
  have "kept s u" using kept_trans [OF up kept_GetPrel31Addr [OF q]] .
  then show "kept s s'"
    using a q up by (cases q) (auto simp: entry_addr_def Let_def split: if_splits intro: kept_trans)
qed

lemma kept_find_entry: "find_entry rd pc first final s = (r, s') \<Longrightarrow> kept s s'"
proof (induction rd pc first final s arbitrary: r s' rule: find_entry.induct)
  case (1 rd pc first final s)
  note step = "1.prems" [unfolded find_entry.simps [of rd pc first final s]]
  show ?case
  proof (cases "first < final")
    case False
    then show ?thesis using step by (auto simp: kept split: if_splits)
  next
    case True
    obtain a t where a: "entry_addr rd ((first + final) div 2) s = (a, t)" by fastforce
    note k = kept_entry_addr [OF a]
    show ?thesis
    proof (cases a)
      case None
      then show ?thesis using step True a k by (simp add: Let_def)
    next
      case (Some addr)
      show ?thesis
        using step True a Some k "1.IH" [OF True refl a [symmetric] Some] by (auto simp: Let_def split: if_splits intro: kept_trans)
    qed
  qed
qed

lemma kept_FindEntry: "FindEntry rd pc s = (r, s') \<Longrightarrow> kept s s'"
  by (auto simp: FindEntry_def kept kept_find_entry split: if_splits)

lemma kept_exidx_error: "kept s (exidx_error arm s)"
  by (simp add: exidx_error_def kept split: ArmStatus.splits)

lemma kept_StepExidx:
  assumes "left (StepExidx rd pm pc (s, io)) = Some (s', io')"
  shows "kept s s'"
proof (cases "pc < arm_load_bias s")
  case True
  then show ?thesis using assms by (auto simp: StepExidx_def kept)
next
  case False
  obtain r t where r: "FindEntry rd (ucast (pc - arm_load_bias s)) s = (r, t)" by fastforce
  have k: "kept s t" "kept s (exidx_error arm t)" for arm
    using kept_FindEntry [OF r] kept_exidx_error kept_trans by blast+
  show ?thesis
    using assms False r k
    by (auto simp: StepExidx_def Let_def split: option.splits outcome.splits if_splits)
qed

lemma kept_convert_error: "kept s (convert_error e s)"
  by (simp add: kept split: DwarfErrorCode.splits)

lemma kept_first_error: "kept s (first_error gnu s)"
  using kept_convert_error [of s] by (auto simp: first_error_def kept_update split: option.splits prod.splits simp del: convert_error.simps)

text \<open>The step of an interface with none behind it.\<close>

lemma kept_ElfInterface_Step:
  assumes "left (ElfInterface_Step xpac iterate pm pc [(rd, s)] io) = Some (l, io')"
  shows "\<exists>s'. l = [(rd, s')] \<and> kept s s'"
proof -
  let ?s0 = "set_error ERROR_NONE 0 s"
  let ?m = "or_else (debug_frame_step xpac iterate rd pm pc (?s0, io)) (eh_frame_step xpac iterate rd pm pc)"
  have m: "kept ?s0 (fst t)" if "left ?m = Some t" for t
  proof -
    have "(\<lambda>a b. kept (fst a) (fst b)) (?s0, io) t"
      by (rule left_or_else [OF _ _ _ that])
        (auto intro: kept_debug_frame_step kept_eh_frame_step kept_trans)
    then show ?thesis by simp
  qed
  have s0: "kept s ?s0" by (simp add: kept)
  show ?thesis
  proof (cases ?m)
    case (Some o')
    show ?thesis
    proof (cases o')
      case (Done x t)
      then show ?thesis using assms Some m [of t] s0 by (cases t) (auto intro: kept_trans)
    next
      case (Failed t)
      obtain u io2 where t: "t = (u, io2)" by (cases t)
      have k: "kept s (first_error None u)"
        using m [of t] Some Failed t s0 kept_first_error kept_trans by (metis fst_conv left_simps(3))
      have exidx: "kept s v"
        if "StepExidx rd pm pc (first_error None u, io2) = Some (Done () (v, io'))
          \<or> StepExidx rd pm pc (first_error None u, io2) = Some (Failed (v, io'))" for v
        using that kept_StepExidx [of rd pm pc "first_error None u" io2 v io'] k by (auto intro: kept_trans)
      show ?thesis
        using assms Some Failed t k by (auto split: if_splits option.splits outcome.splits intro: kept_trans
            simp: exidx)
    qed (use assms Some in simp)
  qed (use assms in simp)
qed

lemma kept_IsValidPc:
  assumes "left (ElfInterface_IsValidPc rd pc s) = Some s'"
  shows "kept s s'"
proof (cases "pt_loads s = []")
  case False
  then show ?thesis using assms by (auto simp: ElfInterface_IsValidPc_def split: if_splits)
next
  case True
  show ?thesis
    by (rule left_or_else [OF _ _ _ assms [unfolded ElfInterface_IsValidPc_def True, simplified]])
      (auto simp: kept_debug_frame kept_eh_frame split: option.splits if_splits intro: kept_trans)
qed


section \<open>Objects\<close>

fun arch_class :: "ArchEnum \<Rightarrow> ElfClass" where
  "arch_class ARCH_ARM = ELF32" | "arch_class ARCH_X86 = ELF32" | "arch_class ARCH_MIPS = ELF32"
| "arch_class ARCH_ARM64 = ELF64" | "arch_class ARCH_X86_64 = ELF64" | "arch_class ARCH_MIPS64 = ELF64"
| "arch_class ARCH_UNKNOWN = ELF32"

definition elf_wt :: "Elf \<Rightarrow> bool" where
  "elf_wt e \<longleftrightarrow> gnu_debugdata_interface e = None \<and>
     (elf_valid e \<longrightarrow> elf_memory e \<noteq> None \<and> elf_arch e \<noteq> ARCH_UNKNOWN \<and>
       (\<exists>s. elf_interface e = Some s \<and> ei_kind s = (arch_class (elf_arch e), elf_arch e = ARCH_ARM) \<and> eh_frame_ok s))"

lemma elf_wt_Elf_new [simp]: "elf_wt (Elf_new memory)"
  by (simp add: elf_wt_def Elf_new_def)

lemma elf_wt_valid:
  assumes "elf_wt e" "elf_valid e"
  obtains rd s where "elf_memory e = Some rd" "elf_interface e = Some s"
    "ei_class s = arch_class (elf_arch e)" "ei_is_arm s \<longleftrightarrow> elf_arch e = ARCH_ARM" "eh_frame_ok s"
  using assms by (auto simp: elf_wt_def ei_kind_def)

lemma elf_wt_interface:
  assumes "elf_wt e" "elf_interface e = Some s" "kept s s'"
  shows "elf_wt (e\<lparr>elf_interface := Some s'\<rparr>)"
  using assms by (auto simp: elf_wt_def kept_def)

lemma ElfInterface_new_kind: "ei_kind (ElfInterface_new cls arm) = (cls, arm)" "eh_frame_ok (ElfInterface_new cls arm)"
  by (simp_all add: ei_kind_def eh_frame_ok_def ElfInterface_new_def)

lemma arch_of_machine_class: "arch_of_machine cls m = Some a \<Longrightarrow> arch_class a = cls \<and> a \<noteq> ARCH_UNKNOWN"
  by (cases cls) (auto simp: arch_of_machine_def split: if_splits)

lemma interface_of_machine_typed:
  assumes "interface_of_machine cls rd e = (r, e')"
  shows "elf_memory e' = elf_memory e" "elf_valid e' = elf_valid e"
    "gnu_debugdata_interface e' = gnu_debugdata_interface e" "elf_interface e' = elf_interface e"
    "r = Some s \<Longrightarrow> ei_kind s = (arch_class (elf_arch e'), elf_arch e' = ARCH_ARM) \<and> eh_frame_ok s \<and> elf_arch e' \<noteq> ARCH_UNKNOWN"
  using assms arch_of_machine_class
  by (auto simp: interface_of_machine_def Let_def ElfInterface_new_kind split: option.splits)

lemma CreateInterface_typed:
  assumes "CreateInterfaceFromMemory memory e = (r, e')"
  shows "elf_memory e' = elf_memory e" "elf_valid e' = elf_valid e"
    "gnu_debugdata_interface e' = gnu_debugdata_interface e" "elf_interface e' = elf_interface e"
    "r = Some s \<Longrightarrow> ei_kind s = (arch_class (elf_arch e'), elf_arch e' = ARCH_ARM) \<and> eh_frame_ok s \<and> elf_arch e' \<noteq> ARCH_UNKNOWN"
  using assms by (auto simp: CreateInterfaceFromMemory_def Let_def split: if_splits option.splits
      dest: interface_of_machine_typed)

lemma InitGnuDebugdata_none: "InitGnuDebugdata junk e = Some r \<Longrightarrow> gnu_debugdata_interface e = None \<Longrightarrow> r = Done () e"
proof -
  assume a: "InitGnuDebugdata junk e = Some r" "gnu_debugdata_interface e = None"
  have n: "CreateInterfaceFromMemory None e = (None, e)" by (simp add: CreateInterfaceFromMemory_def IsValidElf_def)
  have "e\<lparr>gnu_debugdata_interface := None\<rparr> = e" using a(2) by (cases e) simp
  then show "r = Done () e" using a(1) n by (simp add: InitGnuDebugdata_def CreateGnuDebugdataMemory_def Let_def split: if_splits)
qed

lemma Elf_Init_typed:
  assumes "left (Elf_Init junk (Elf_new memory)) = Some e"
  shows "elf_wt e"
proof (cases memory)
  case None
  then show ?thesis using assms by (auto simp: Elf_Init_def Elf_new_def elf_wt_def)
next
  case (Some rd)
  let ?n = "Elf_new memory"
  have n: "?n\<lparr>elf_load_bias := 0\<rparr> = ?n" "elf_memory ?n = Some rd" "\<not> elf_valid ?n" "gnu_debugdata_interface ?n = None"
    by (simp_all add: Elf_new_def Some)
  obtain r e1 where c: "CreateInterfaceFromMemory (Some rd) ?n = (r, e1)" by fastforce
  note t = CreateInterface_typed [OF c]
  show ?thesis
  proof (cases r)
    case None
    then show ?thesis using assms c n t by (auto simp: Elf_Init_def elf_wt_def)
  next
    case (Some s)
    note k = t(5) [OF Some]
    show ?thesis
    proof (cases "ElfInterface_Init rd 0 s")
      case (Failed f)
      then show ?thesis using assms c n t Some by (auto simp: Elf_Init_def elf_wt_def)
    next
      case (Done bias s1)
      note k1 = kept_ElfInterface_Init [OF Done]
      obtain s2 where s2: "InitHeaders rd s1 = Some (Done () s2)"
        using assms c n Some Done by (cases "InitHeaders rd s1"; cases "the (InitHeaders rd s1)") (auto simp: Elf_Init_def)
      note k2 = kept_InitHeaders [OF s2]
      let ?e = "e1\<lparr>elf_valid := True, elf_load_bias := bias, elf_interface := Some s2\<rparr>"
      have "left (InitGnuDebugdata junk ?e) = Some e"
        using assms c n Some Done s2 by (simp add: Elf_Init_def)
      then obtain r where r: "InitGnuDebugdata junk ?e = Some r" "left (Some r) = Some e"
        by (cases "InitGnuDebugdata junk ?e") auto
      have "gnu_debugdata_interface ?e = None" using t n by simp
      from InitGnuDebugdata_none [OF r(1) this] have "e = ?e" using r(2) by simp
      then show ?thesis using t n k kept_trans [OF k1 k2] by (auto simp: elf_wt_def kept_def)
    qed (use assms c n Some in \<open>auto simp: Elf_Init_def\<close>)
  qed
qed

text \<open>One call of a member function on an initialised object, with any arguments; the result is left out.\<close>

inductive elf_call :: "Elf \<Rightarrow> Elf \<Rightarrow> bool" where
  "elf_call e (Elf_Invalidate e)"
| "Elf_GetSoname e = Some (name, e') \<Longrightarrow> elf_call e e'"
| "Elf_GetFunctionName addr e = (r, e') \<Longrightarrow> elf_call e e'"
| "GetGlobalVariableOffset name e = Some (r', e') \<Longrightarrow> elf_call e e'"
| "left (Elf_IsValidPc pc e) = Some e' \<Longrightarrow> elf_call e e'"
| "left (Elf_Step xpac iterate pc pm (e, io :: 64 StepIO)) = Some (e', io') \<Longrightarrow> elf_call e e'"

lemma elf_wt_Elf_Invalidate: "elf_wt e \<Longrightarrow> elf_wt (Elf_Invalidate e)"
  by (simp add: elf_wt_def Elf_Invalidate_def)

lemma elf_wt_GetSoname:
  assumes "elf_wt e" "Elf_GetSoname e = Some (name, e')"
  shows "elf_wt e'"
proof (cases "elf_valid e")
  case True
  from elf_wt_valid [OF assms(1) this] obtain rd s where s: "elf_memory e = Some rd" "elf_interface e = Some s" by metis
  then obtain s' where "ElfInterface_GetSoname rd s = Some (name, s')" "e' = e\<lparr>elf_interface := Some s'\<rparr>"
    using assms(2) True by (auto simp: Elf_GetSoname_def)
  then show ?thesis using elf_wt_interface [OF assms(1) s(2)] kept_GetSoname by blast
qed (use assms in \<open>simp add: Elf_GetSoname_def\<close>)

lemma elf_wt_GetFunctionName:
  assumes "elf_wt e" "Elf_GetFunctionName addr e = (r, e')"
  shows "elf_wt e'"
proof (cases "elf_valid e")
  case True
  from elf_wt_valid [OF assms(1) this] obtain rd s where s: "elf_memory e = Some rd" "elf_interface e = Some s" by metis
  obtain q s' where q: "ElfInterface_GetFunctionName rd addr s = (q, s')" by fastforce
  have "elf_wt (e\<lparr>elf_interface := Some s'\<rparr>)" using elf_wt_interface [OF assms(1) s(2) kept_GetFunctionName [OF q]] .
  then show ?thesis
    using assms True s q by (cases q) (auto simp: Elf_GetFunctionName_def elf_wt_def)
qed (use assms in \<open>simp add: Elf_GetFunctionName_def\<close>)

lemma elf_wt_GetGlobalVariableOffset:
  assumes "elf_wt e" "GetGlobalVariableOffset name e = Some (r, e')"
  shows "elf_wt e'"
proof (cases "elf_valid e")
  case True
  from elf_wt_valid [OF assms(1) this] obtain rd s where s: "elf_memory e = Some rd" "elf_interface e = Some s" by metis
  have g: "gnu_debugdata_interface e = None" using assms(1) by (simp add: elf_wt_def)
  obtain q where a: "global_address name e = Some (q, e')"
    using assms(2) True by (cases "global_address name e") (auto simp: GetGlobalVariableOffset_def split: option.splits)
  obtain q' s' where q: "GetGlobalVariable rd name s = Some (q', s')" "e' = e\<lparr>elf_interface := Some s'\<rparr>"
    using a s g by (cases "GetGlobalVariable rd name s") (auto simp: global_address_def split: option.splits)
  then show ?thesis using elf_wt_interface [OF assms(1) s(2) kept_GetGlobalVariable [OF q(1)]] by simp
qed (use assms in \<open>simp add: GetGlobalVariableOffset_def\<close>)

lemma elf_wt_IsValidPc:
  assumes "elf_wt e" "left (Elf_IsValidPc pc e) = Some e'"
  shows "elf_wt e'"
proof (cases "\<not> elf_valid e \<or> (0 <s elf_load_bias e \<and> pc < elf_load_bias e)")
  case False
  then have True: "elf_valid e" by simp
  from elf_wt_valid [OF assms(1) this] obtain rd s where s: "elf_memory e = Some rd" "elf_interface e = Some s" by metis
  have g: "gnu_debugdata_interface e = None" using assms(1) by (simp add: elf_wt_def)
  obtain s' where q: "left (ElfInterface_IsValidPc rd pc s) = Some s'" "e' = e\<lparr>elf_interface := Some s'\<rparr>"
    using assms(2) False s g
    by (cases "ElfInterface_IsValidPc rd pc s"; cases "the (ElfInterface_IsValidPc rd pc s)") (auto simp: Elf_IsValidPc_def)
  then show ?thesis using elf_wt_interface [OF assms(1) s(2) kept_IsValidPc [OF q(1)]] by simp
qed (use assms in \<open>auto simp: Elf_IsValidPc_def\<close>)

lemma elf_wt_Step:
  assumes "elf_wt e" "left (Elf_Step xpac iterate pc pm (e, io)) = Some (e', io')"
  shows "elf_wt e'"
proof (cases "elf_valid e")
  case True
  from elf_wt_valid [OF assms(1) this] obtain rd s where s: "elf_memory e = Some rd" "elf_interface e = Some s" by metis
  have g: "gnu_debugdata_interface e = None" using assms(1) by (simp add: elf_wt_def)
  have i: "interfaces e = [(rd, s)]" using s g by (simp add: interfaces_def)
  let ?r = "ElfInterface_Step xpac iterate pm pc [(rd, s)] io"
  obtain l where l: "left ?r = Some (l, io')" "e' = set_interfaces l e"
    using assms(2) True i by (cases ?r; cases "the ?r") (auto simp: Elf_Step_def)
  from kept_ElfInterface_Step [OF l(1)] obtain s' where "l = [(rd, s')]" "kept s s'" by blast
  then show ?thesis using l(2) elf_wt_interface [OF assms(1) s(2)] g by (simp add: set_interfaces_def elf_wt_def)
qed (use assms in \<open>auto simp: Elf_Step_def\<close>)

lemma elf_wt_call: "elf_call e e' \<Longrightarrow> elf_wt e \<Longrightarrow> elf_wt e'"
  by (induction rule: elf_call.induct)
    (blast intro: elf_wt_Elf_Invalidate elf_wt_GetSoname elf_wt_GetFunctionName elf_wt_GetGlobalVariableOffset
      elf_wt_IsValidPc elf_wt_Step)+


text \<open>
  Property C21. A valid object has a memory and an interface behind its pointers, the interface is of the
  class of file and of the C++ class that the architecture has, its \<open>.eh_frame\<close> object is never one for
  \<open>.debug_frame\<close>, and there is no interface of \<open>.gnu_debugdata\<close>. \<open>Init\<close> establishes this and every member
  function keeps it, in any order of calls.
\<close>

theorem elf_objects_typed:
  assumes "Elf_Init junk (Elf_new memory) = Some r" "left (Some r) = Some e\<^sub>0" "elf_call\<^sup>*\<^sup>* e\<^sub>0 e" "elf_valid e"
  shows "\<exists>rd s. elf_memory e = Some rd \<and> elf_interface e = Some s \<and> gnu_debugdata_interface e = None \<and>
    elf_arch e \<noteq> ARCH_UNKNOWN \<and> ei_class s = arch_class (elf_arch e) \<and> (ei_is_arm s \<longleftrightarrow> elf_arch e = ARCH_ARM) \<and>
    (\<forall>ds. eh_frame s \<noteq> Some (DEBUG_FRAME, ds))"
proof -
  have "elf_wt e\<^sub>0" using Elf_Init_typed [of junk memory e\<^sub>0] assms(1,2) by simp
  with assms(3) have "elf_wt e" by (induction rule: rtranclp_induct) (auto intro: elf_wt_call)
  then show ?thesis using assms(4) by (auto simp: elf_wt_def ei_kind_def eh_frame_ok_def)
qed

section \<open>The load bias\<close>

lemma program_headers_later: "fst (snd (program_headers rd entsize n offset (False, b, s))) = b"
proof (induction n arbitrary: offset s)
  case (Suc n)
  have "\<exists>s'. program_header ph (False, b, s) = (False, b, s')" for ph by (auto simp: program_header_def)
  then show ?case using Suc.IH by (auto split: option.splits) (metis fst_conv snd_conv)
qed simp

lemma program_headers_bias:
  "fst (snd (program_headers rd entsize n offset (True, 0, s))) = load_bias_scan (ei_class s) rd entsize n offset"
proof (induction n arbitrary: offset s)
  case (Suc n)
  show ?case
  proof (cases "read_phdr (ei_class s) rd offset")
    case (Some ph)
    show ?thesis
    proof (cases "p_type ph = PT_LOAD \<and> p_flags ph AND PF_X \<noteq> 0")
      case True
      then show ?thesis using Some by (simp add: program_header_def program_headers_later)
    next
      case False
      then have "\<exists>s'. program_header ph (True, 0, s) = (True, 0, s')" unfolding program_header_def by simp
      then obtain s' where s': "program_header ph (True, 0, s) = (True, 0, s')" by blast
      then have "ei_class s' = ei_class s"
        using kept_program_header [of s ph True 0] by (simp add: kept_def ei_kind_def)
      then show ?thesis using Some False s' Suc.IH [of "offset + ucast entsize" s'] by auto
    qed
  qed simp
qed simp

lemma ElfInterface_Init_bias: "ElfInterface_Init rd 0 s = Done b s' \<Longrightarrow> b = ElfInterface_GetLoadBias (ei_class s) rd"
proof -
  assume a: "ElfInterface_Init rd 0 s = Done b s'"
  obtain eh where eh: "read_ehdr (ei_class s) rd = Some eh"
    using a by (cases "read_ehdr (ei_class s) rd") (simp_all add: ElfInterface_Init_def ReadAllHeaders_def)
  have "b = fst (ReadProgramHeaders rd eh 0 s)"
    using a eh by (cases "ReadProgramHeaders rd eh 0 s")
      (auto simp: ElfInterface_Init_def ReadAllHeaders_def split: option.splits)
  then show ?thesis using eh by (simp add: ReadProgramHeaders_def program_headers_bias ElfInterface_GetLoadBias_def)
qed

lemma CreateInterface_class:
  assumes "CreateInterfaceFromMemory (Some rd) e = (Some s, e')"
  shows "IsValidElf (Some rd)" "\<exists>c. rd EI_CLASS 1 = [c] \<and> (c = ELFCLASS32 \<and> ei_class s = ELF32 \<or> c = ELFCLASS64 \<and> ei_class s = ELF64)"
proof -
  show v: "IsValidElf (Some rd)" using assms by (simp add: CreateInterfaceFromMemory_def split: if_splits)
  obtain bs where bs: "ReadFully rd EI_CLASS 1 = Some bs"
    using assms v by (cases "ReadFully rd EI_CLASS 1") (simp_all add: CreateInterfaceFromMemory_def)
  then have l: "rd EI_CLASS 1 = bs" "length bs = 1" by (auto simp: ReadFully_def Let_def split: if_splits)
  have c: "ei_class s = cls" if "interface_of_machine cls rd e1 = (Some s, e')" for cls e1
    using that by (auto simp: interface_of_machine_def Let_def ElfInterface_new_def split: option.splits)
  obtain c where "bs = [c]" using l(2) by (cases bs) auto
  then show "\<exists>c. rd EI_CLASS 1 = [c] \<and> (c = ELFCLASS32 \<and> ei_class s = ELF32 \<or> c = ELFCLASS64 \<and> ei_class s = ELF64)"
    using assms v bs l c by (auto simp: CreateInterfaceFromMemory_def Let_def split: if_splits)
qed

text \<open>
  Property C19. The static \<open>GetLoadBias\<close>, which only scans the program headers, returns what a full \<open>Init\<close>
  of the same memory computes.
\<close>

theorem static_load_bias_agrees:
  assumes "Elf_Init junk (Elf_new (Some rd)) = Some (Done () e)"
  shows "Elf_GetLoadBias_static (Some rd) = elf_load_bias e"
proof -
  let ?n = "Elf_new (Some rd)"
  have n: "?n\<lparr>elf_load_bias := 0\<rparr> = ?n" "elf_memory ?n = Some rd" "gnu_debugdata_interface ?n = None" by (simp_all add: Elf_new_def)
  obtain r e1 where c: "CreateInterfaceFromMemory (Some rd) ?n = (r, e1)" by fastforce
  then obtain s where s: "r = Some s" using assms n by (cases r) (simp_all add: Elf_Init_def)
  obtain b s1 where i: "ElfInterface_Init rd 0 s = Done b s1"
    using assms n c s by (cases "ElfInterface_Init rd 0 s") (simp_all add: Elf_Init_def)
  obtain s2 where s2: "InitHeaders rd s1 = Some (Done () s2)"
    using assms n c s i by (cases "InitHeaders rd s1"; cases "the (InitHeaders rd s1)") (auto simp: Elf_Init_def)
  let ?e = "e1\<lparr>elf_valid := True, elf_load_bias := b, elf_interface := Some s2\<rparr>"
  have "InitGnuDebugdata junk ?e = Some (Done () e)" using assms n c s i s2 by (simp add: Elf_Init_def)
  from InitGnuDebugdata_none [OF this] have "e = ?e" using CreateInterface_typed(3) [OF c] n by simp
  then have "elf_load_bias e = ElfInterface_GetLoadBias (ei_class s) rd" using ElfInterface_Init_bias [OF i] by simp
  then show ?thesis
    using CreateInterface_class [OF c [unfolded s]]
    by (auto simp: Elf_GetLoadBias_static_def ELFCLASS32_def ELFCLASS64_def)
qed


section \<open>The exception index\<close>

text \<open>
  The index has the addresses \<open>a\<close>, which can be read from the file, and what is cached of them is right. A
  cached 0 counts as not cached.
\<close>

definition index_addresses :: "reader \<Rightarrow> (nat \<Rightarrow> u32) \<Rightarrow> ElfInterface \<Rightarrow> bool" where
  "index_addresses rd a s \<longleftrightarrow>
     (\<forall>i < unat (total_entries s). fst (GetPrel31Addr rd (ucast (entry_at s i)) s) = Some (a i) \<and>
        (\<forall>c. addrs s i = Some c \<longrightarrow> c = 0 \<or> c = a i))"

definition index_sorted :: "(nat \<Rightarrow> u32) \<Rightarrow> nat \<Rightarrow> bool" where
  "index_sorted a n \<longleftrightarrow> (\<forall>i j. i < j \<longrightarrow> j < n \<longrightarrow> a i < a j)"

lemma GetPrel31Addr_Some: "fst (GetPrel31Addr rd off s) = Some v \<Longrightarrow> GetPrel31Addr rd off t = (Some v, t)"
  by (auto simp: GetPrel31Addr_def split: option.splits)

lemma entry_addr_index:
  assumes "index_addresses rd a s" "i < unat (total_entries s)" "entry_addr rd i s = (r, s')"
  shows "r = Some (a i) \<and> index_addresses rd a s' \<and> start_offset s' = start_offset s \<and> total_entries s' = total_entries s"
proof -
  let ?c = "case addrs s i of None \<Rightarrow> 0 | Some v \<Rightarrow> v"
  let ?t = "s\<lparr>addrs := (addrs s)(i \<mapsto> ?c)\<rparr>"
  have g: "GetPrel31Addr rd (ucast (entry_at s i)) t = (Some (a i), t)" for t
    using assms(1,2) by (auto intro: GetPrel31Addr_Some simp: index_addresses_def)
  have e: "entry_at (s\<lparr>addrs := x\<rparr>) j = entry_at s j" for x j by (simp add: entry_at_def)
  have c: "?c = 0 \<or> ?c = a i" using assms(1,2) by (auto simp: index_addresses_def split: option.splits)
  have f: "fst (GetPrel31Addr rd off (s\<lparr>addrs := x\<rparr>)) = fst (GetPrel31Addr rd off s)" for x off
    by (simp add: GetPrel31Addr_def split: option.splits)
  have ok: "index_addresses rd a (s\<lparr>addrs := (addrs s)(i \<mapsto> v)\<rparr>)" if "v = 0 \<or> v = a i" for v
    using assms(1) that by (auto simp: index_addresses_def e f)
  show ?thesis
  proof (cases "?c = 0")
    case True
    then have "s' = s\<lparr>addrs := (addrs s)(i \<mapsto> a i)\<rparr> \<and> r = Some (a i)"
      using assms(3) g by (auto simp: entry_addr_def Let_def e)
    then show ?thesis using ok by simp
  next
    case False
    then have "s' = ?t \<and> r = Some ?c" using assms(3) by (auto simp: entry_addr_def Let_def)
    then show ?thesis using ok [OF c] c False by simp
  qed
qed

lemma find_entry_index:
  assumes "index_addresses rd a s" "index_sorted a (unat (total_entries s))" "first \<le> final" "final \<le> unat (total_entries s)"
    and "\<forall>k < first. a k \<le> pc" "\<forall>k. final \<le> k \<longrightarrow> k < unat (total_entries s) \<longrightarrow> pc < a k"
    and "0 < unat (total_entries s)"
  shows "fst (find_entry rd pc first final s) =
    (if pc < a 0 then None else Some (entry_at s (Max {k. k < unat (total_entries s) \<and> a k \<le> pc})))"
  using assms
proof (induction rd pc first final s rule: find_entry.induct)
  case (1 rd pc first final s)
  let ?n = "unat (total_entries s)"
  let ?m = "(first + final) div 2"
  note unfold = find_entry.simps [of rd pc first final s]
  have Max: "Max {k. k < ?n \<and> a k \<le> pc} = m" if "m < ?n" "a m \<le> pc" "\<forall>k. m < k \<longrightarrow> k < ?n \<longrightarrow> pc < a k" for m
    by (rule Max_eqI) (use that in \<open>auto simp: not_less [symmetric]\<close>)
  have mono: "a i \<le> a j" if "i \<le> j" "j < ?n" for i j
    using "1.prems"(2) that unfolding index_sorted_def by (cases "i = j") (auto intro: less_imp_le)
  show ?case
  proof (cases "first < final")
    case False
    then have f: "first = final" using "1.prems"(3) by simp
    show ?thesis
    proof (cases "final = 0")
      case True
      then show ?thesis using False f "1.prems"(6,7) by (subst find_entry.simps) simp
    next
      case nz: False
      then have p: "a (final - 1) \<le> pc" "final - 1 < ?n" using "1.prems"(4,5) f by auto
      then have z: "\<not> pc < a 0" using mono [of 0 "final - 1"] by simp
      have "\<forall>k. final - 1 < k \<longrightarrow> k < ?n \<longrightarrow> pc < a k" using "1.prems"(6) by auto
      from Max [OF p(2,1) this] show ?thesis
        using False f nz z by (subst find_entry.simps) simp
    qed
  next
    case True
    then have m: "first \<le> ?m" "?m < final" "?m < ?n" using "1.prems"(4) by auto
    obtain r t where r: "entry_addr rd ?m s = (r, t)" by fastforce
    note e = entry_addr_index [OF "1.prems"(1) m(3) r]
    have at: "entry_at t = entry_at s" using e by (simp add: fun_eq_iff entry_at_def)
    consider "pc = a ?m" | "pc < a ?m" | "a ?m < pc" by fastforce
    then show ?thesis
    proof cases
      case 1
      have "Max {k. k < ?n \<and> a k \<le> pc} = ?m"
        using Max [of ?m] m(3) 1 "1.prems"(2) by (simp add: index_sorted_def)
      moreover have "\<not> pc < a 0" using mono [of 0 ?m] m(3) 1 by simp
      ultimately show ?thesis using True r e 1 at by (subst find_entry.simps) (simp add: Let_def)
    next
      case 2
      have ne: "pc \<noteq> a ?m" using 2 by simp
      have "\<forall>k. ?m \<le> k \<longrightarrow> k < ?n \<longrightarrow> pc < a k" using mono 2 by (meson le_less_trans not_le order_less_le_trans)
      then show ?thesis
        using "1.IH"(1) [OF True refl r [symmetric]] True r e 2 ne at "1.prems" m by (simp add: unfold Let_def)
    next
      case 3
      have ne: "pc \<noteq> a ?m" "\<not> pc < a ?m" using 3 by auto
      have "\<forall>k < ?m + 1. a k \<le> pc" using mono [of _ ?m] m(3) 3 by (metis Suc_eq_plus1 less_Suc_eq_le less_imp_le order_trans)
      then show ?thesis
        using "1.IH"(2) [OF True refl r [symmetric]] True r e 3 ne at "1.prems" m by (simp add: unfold Let_def)
    qed
  qed
qed

text \<open>
  Property C25. In an exception index whose addresses ascend, the cached binary search finds the last
  entry that starts at or before the program counter, whatever of the index is cached already, and no
  entry for a program counter below the first.
\<close>

theorem FindEntry_last_before:
  assumes "start_offset s \<noteq> 0" "0 < unat (total_entries s)"
    and "index_addresses rd a s" "index_sorted a (unat (total_entries s))"
  shows "fst (FindEntry rd pc s) =
    (if pc < a 0 then None else Some (entry_at s (Max {k. k < unat (total_entries s) \<and> a k \<le> pc})))"
proof -
  have "total_entries s \<noteq> 0" using assms(2) by auto
  then show ?thesis
    using find_entry_index [OF assms(3,4), of 0 "unat (total_entries s)" pc] assms(1,2) by (simp add: FindEntry_def)
qed

section \<open>A sample file\<close>

text \<open>A header for x86-64 and one executable segment at \<open>0x1000\<close>.\<close>

definition sample_elf :: "u8 list" where
  "sample_elf = [0x7f, 0x45, 0x4c, 0x46, 2, 1, 1, 0] @ replicate 8 0 @ [3, 0, 62, 0, 1, 0, 0, 0] @ replicate 8 0 @
     [64, 0, 0, 0, 0, 0, 0, 0] @ replicate 8 0 @ [0, 0, 0, 0, 64, 0, 56, 0, 1, 0, 64, 0, 0, 0, 0, 0] @
     [1, 0, 0, 0, 5, 0, 0, 0] @ replicate 8 0 @ [0, 0x10, 0, 0, 0, 0, 0, 0] @ replicate 8 0 @
     [0, 2, 0, 0, 0, 0, 0, 0, 0, 2, 0, 0, 0, 0, 0, 0] @ replicate 8 0"

definition sample_object :: "(unit, Elf) outcome option" where
  "sample_object = Elf_Init 0 (Elf_new (Some (MemoryBuffer_Read sample_elf)))"

lemma sample_object_valid:
  "case sample_object of Some (Done _ e) \<Rightarrow> elf_valid e \<and> elf_load_bias e = 0x1000 \<and> elf_arch e = ARCH_X86_64 | _ \<Rightarrow> False"
  by code_simp

lemma sample_object_Done:
  obtains e where "Elf_Init 0 (Elf_new (Some (MemoryBuffer_Read sample_elf))) = Some (Done () e)"
    "elf_valid e" "elf_load_bias e = 0x1000" "elf_arch e = ARCH_X86_64"
  using sample_object_valid by (cases sample_object; cases "the sample_object") (auto simp: sample_object_def)

lemma elf_objects_typed_witness:
  "\<exists>e s. left (Elf_Init 0 (Elf_new (Some (MemoryBuffer_Read sample_elf)))) = Some e \<and> elf_interface e = Some s \<and> ei_class s = ELF64"
proof -
  obtain e where e: "Elf_Init 0 (Elf_new (Some (MemoryBuffer_Read sample_elf))) = Some (Done () e)" "elf_valid e"
    "elf_arch e = ARCH_X86_64" by (rule sample_object_Done)
  have "left (Some (Done () e)) = Some e" by simp
  from elf_objects_typed [OF e(1) this rtranclp.rtrancl_refl e(2)] show ?thesis using e by auto
qed

lemma static_load_bias_agrees_witness: "Elf_GetLoadBias_static (Some (MemoryBuffer_Read sample_elf)) = 0x1000"
proof -
  obtain e where e: "Elf_Init 0 (Elf_new (Some (MemoryBuffer_Read sample_elf))) = Some (Done () e)" "elf_load_bias e = 0x1000"
    by (rule sample_object_Done)
  from static_load_bias_agrees [OF e(1)] show ?thesis using e(2) by simp
qed

text \<open>An index at offset 8 with the addresses 8 and 24.\<close>

definition sample_index :: ElfInterface where
  "sample_index = (ElfInterface_new ELF32 True)\<lparr>start_offset := 8, total_entries := 2\<rparr>"

definition sample_index_memory :: "u8 list" where
  "sample_index_memory = replicate 16 0 @ [8, 0, 0, 0, 0, 0, 0, 0]"

lemma FindEntry_last_before_witness: "fst (FindEntry (MemoryBuffer_Read sample_index_memory) 20 sample_index) = Some 8"
proof -
  let ?a = "\<lambda>i :: nat. if i = 0 then 8 else 24 :: u32"
  have n: "unat (total_entries sample_index) = 2" by (simp add: sample_index_def)
  have "fst (GetPrel31Addr (MemoryBuffer_Read sample_index_memory) (ucast (entry_at sample_index 0)) sample_index) = Some 8"
    "fst (GetPrel31Addr (MemoryBuffer_Read sample_index_memory) (ucast (entry_at sample_index 1)) sample_index) = Some 24"
    by code_simp+
  then have i: "index_addresses (MemoryBuffer_Read sample_index_memory) ?a sample_index"
    using n by (auto simp: index_addresses_def less_2_cases_iff sample_index_def ElfInterface_new_def)
  have s: "index_sorted ?a (unat (total_entries sample_index))" using n by (auto simp: index_sorted_def)
  have "start_offset sample_index \<noteq> 0" "0 < unat (total_entries sample_index)" by (simp_all add: sample_index_def)
  note r = FindEntry_last_before [OF this i s, of 20]
  have "{k. k < 2 \<and> ?a k \<le> 20} = {0}" by (auto split: if_splits)
  then show ?thesis using r n by (simp add: entry_at_def sample_index_def)
qed

end
