(* ===== verification/MapsParse.thy ===== *)
theory MapsParse
  imports ConfigInit
begin

text \<open>
  Parsing of \<open>/proc/<pid>/maps\<close>: \<open>unwindstack/procinfo/process_map.h\<close>. A pointer into the text is the
  C string from there on, without its terminating zero; writing a zero over the end of a line cuts the
  line off. \<open>strtoull\<close> of the C library is written out.
\<close>

section \<open>strtoull\<close>

definition c_isxdigit :: "char \<Rightarrow> bool" where
  "c_isxdigit c \<longleftrightarrow> c_isdigit c \<or> (65 \<le> (of_char c :: nat) \<and> of_char c \<le> (70::nat)) \<or>
     (97 \<le> (of_char c :: nat) \<and> of_char c \<le> (102::nat))"

definition xdigit_value :: "char \<Rightarrow> nat" where
  "xdigit_value c = (if c_isdigit c then of_char c - 48 else if (of_char c :: nat) \<le> 70 then of_char c - 55 else of_char c - 87)"

fun digits_value :: "nat \<Rightarrow> nat \<Rightarrow> string \<Rightarrow> nat" where
  "digits_value base acc [] = acc"
| "digits_value base acc (c # cs) = digits_value base (base * acc + xdigit_value c) cs"

text \<open>A prefix \<open>0x\<close> in base 16 counts only before a digit.\<close>

fun skip_0x :: "string \<Rightarrow> string" where
  "skip_0x (z # x # d # cs) =
     (if z = CHR ''0'' \<and> (x = CHR ''x'' \<or> x = CHR ''X'') \<and> c_isxdigit d then d # cs else z # x # d # cs)"
| "skip_0x s = s"

text \<open>
  The value, clamped to \<open>ULLONG_MAX\<close> and negated in \<open>unsigned long long\<close> after a minus sign, and what
  \<open>end\<close> points to: the argument itself when there are no digits.
\<close>

definition strtoull :: "nat \<Rightarrow> string \<Rightarrow> u64 \<times> string" where
  "strtoull base s =
     (let (neg, rest) = take_sign (dropWhile c_isspace s);
          rest = (if base = 16 then skip_0x rest else rest);
          digit = (if base = 16 then c_isxdigit else c_isdigit);
          ds = takeWhile digit rest;
          n = digits_value base 0 ds
      in if ds = [] then (0, s)
         else (if n \<ge> 2 ^ 64 then - 1 else if neg then - of_nat n else of_nat n, dropWhile digit rest))"

section \<open>One line\<close>

record MapEntry =
  me_start :: u64
  me_end :: u64
  me_flags :: u16
  me_pgoff :: u64
  me_inode :: u64
  me_name :: string
  me_shared :: bool

definition PROT_READ :: u16 where "PROT_READ = 1"
definition PROT_WRITE :: u16 where "PROT_WRITE = 2"
definition PROT_EXEC :: u16 where "PROT_EXEC = 4"

definition PassSpace :: "string \<Rightarrow> string option" where
  "PassSpace p = (case p of c # _ \<Rightarrow> if c = CHR '' '' then Some (dropWhile (\<lambda>c. c = CHR '' '') p) else None | [] \<Rightarrow> None)"

definition PassXdigit :: "string \<Rightarrow> string option" where
  "PassXdigit p = (case p of c # _ \<Rightarrow> if c_isxdigit c then Some (dropWhile c_isxdigit p) else None | [] \<Rightarrow> None)"

text \<open>\<open>*p\<close> must be \<open>c\<close>, then the flag is set, or a dash.\<close>

definition pass_flag :: "char \<Rightarrow> u16 \<Rightarrow> u16 \<times> string \<Rightarrow> (u16 \<times> string) option" where
  "pass_flag c flag = (\<lambda>(flags, p).
     case p of
       [] \<Rightarrow> None
     | d # p \<Rightarrow> if d = c then Some (flags OR flag, p) else if d = CHR ''-'' then Some (flags, p) else None)"

definition pass_char :: "char \<Rightarrow> string \<Rightarrow> string option" where
  "pass_char c p = (case p of [] \<Rightarrow> None | d # p \<Rightarrow> if d = c then Some p else None)"

text \<open>A conversion that fails when nothing was converted.\<close>

definition pass_number :: "nat \<Rightarrow> string \<Rightarrow> (u64 \<times> string) option" where
  "pass_number base p = (let (v, e) = strtoull base p in if e = p then None else Some (v, e))"

definition pass_shared :: "string \<Rightarrow> (bool \<times> string) option" where
  "pass_shared p =
     (case p of
        [] \<Rightarrow> None
      | c # p \<Rightarrow> if c = CHR ''p'' \<or> c = CHR ''s'' then Some (c = CHR ''s'', p) else None)"

text \<open>The rest of the line behind the inode is the name, without the spaces before it.\<close>

definition pass_name :: "string \<Rightarrow> string option" where
  "pass_name p = (if p = [] then Some [] else PassSpace p)"

definition parse_addresses :: "string \<Rightarrow> (u64 \<times> u64 \<times> string) option" where
  "parse_addresses p =
     Option.bind (pass_number 16 p) (\<lambda>(start_addr, p).
     Option.bind (pass_char (CHR ''-'') p) (\<lambda>p.
     Option.bind (pass_number 16 p) (\<lambda>(end_addr, p).
     Option.bind (PassSpace p) (\<lambda>p. Some (start_addr, end_addr, p)))))"

definition parse_flags :: "string \<Rightarrow> (u16 \<times> bool \<times> string) option" where
  "parse_flags p =
     Option.bind (pass_flag (CHR ''r'') PROT_READ (0, p)) (\<lambda>st.
     Option.bind (pass_flag (CHR ''w'') PROT_WRITE st) (\<lambda>st.
     Option.bind (pass_flag (CHR ''x'') PROT_EXEC st) (\<lambda>(flags, p).
     Option.bind (pass_shared p) (\<lambda>(shared, p).
     Option.bind (PassSpace p) (\<lambda>p. Some (flags, shared, p))))))"

definition parse_device :: "string \<Rightarrow> string option" where
  "parse_device p =
     Option.bind (PassXdigit p) (\<lambda>p.
     Option.bind (pass_char (CHR '':'') p) (\<lambda>p.
     Option.bind (PassXdigit p) PassSpace))"

definition ParseMapsFileLine :: "string \<Rightarrow> MapEntry option" where
  "ParseMapsFileLine p =
     Option.bind (parse_addresses p) (\<lambda>(start_addr, end_addr, p).
     Option.bind (parse_flags p) (\<lambda>(flags, shared, p).
     Option.bind (pass_number 16 p) (\<lambda>(pgoff, p).
     Option.bind (PassSpace p) (\<lambda>p.
     Option.bind (parse_device p) (\<lambda>p.
     Option.bind (pass_number 10 p) (\<lambda>(inode, p).
     Option.bind (pass_name p) (\<lambda>name.
       Some \<lparr>me_start = start_addr, me_end = end_addr, me_flags = flags, me_pgoff = pgoff, me_inode = inode,
             me_name = name, me_shared = shared\<rparr>)))))))"

section \<open>The file\<close>

text \<open>The line at the start of the text, and where the next one starts: a null pointer without a newline.\<close>

definition cut_line :: "string \<Rightarrow> string \<times> string option" where
  "cut_line p =
     (let line = takeWhile (\<lambda>c. c \<noteq> CHR ''\<newline>'') p in
      (line, if length line = length p then None else Some (drop (length line + 1) p)))"

text \<open>The entries the callback is called with, and the result.\<close>

function read_lines :: "string \<Rightarrow> MapEntry list \<times> bool" where
  "read_lines p =
     (if p = [] then ([], True)
      else
        (case cut_line p of (line, next_line) \<Rightarrow>
           case ParseMapsFileLine line of
             None \<Rightarrow> ([], False)
           | Some e \<Rightarrow>
               (case next_line of
                  None \<Rightarrow> ([e], True)
                | Some q \<Rightarrow> (let (es, ok) = read_lines q in (e # es, ok)))))"
  by pat_completeness auto
termination
  by (relation "measure length") (auto simp: cut_line_def Let_def split: if_splits)

declare read_lines.simps [simp del]

text \<open>The text up to its first zero.\<close>

definition ReadMapFileContent :: "string \<Rightarrow> MapEntry list \<times> bool" where
  "ReadMapFileContent content = read_lines (takeWhile (\<lambda>c. c \<noteq> CHR 0x00) content)"

text \<open>\<open>None\<close> is a file that cannot be read.\<close>

definition ReadMapFile :: "string option \<Rightarrow> MapEntry list \<times> bool" where
  "ReadMapFile file = (case file of None \<Rightarrow> ([], False) | Some content \<Rightarrow> ReadMapFileContent content)"

end
