(* ===== verification/MapsModel.thy ===== *)
theory MapsModel
  imports MapsParse
begin

text \<open>
  The maps of a process: \<open>unwindstack/Maps.cpp\<close>, \<open>Maps.h\<close>, and the data of \<open>MapInfo.h\<close>. \<open>MapInfo\<close> objects
  are shared through pointers and keep their neighbours, so they live in a store; a pointer is the
  index of its object. An object stays in the store when its last reference is gone. The lazily
  created \<open>ElfFields\<close> are members with the values they are created with; \<open>mi_elf\<close> is the index of an
  object in the store of \<open>MapElf\<close>.
\<close>

section \<open>MapInfo\<close>

record MapInfo =
  mi_start :: u64
  mi_end :: u64
  mi_offset :: u64
  mi_flags :: u16
  mi_name :: string
  mi_elf :: "nat option"
  mi_elf_offset :: u64
  mi_elf_start_offset :: u64
  mi_load_bias :: u64
  mi_build_id :: "u8 list option"
  mi_memory_backed_elf :: bool
  mi_prev :: "nat option"
  mi_next :: "nat option"

type_synonym map_store = "MapInfo list"

definition MapInfo_new :: "nat option \<Rightarrow> u64 \<Rightarrow> u64 \<Rightarrow> u64 \<Rightarrow> u16 \<Rightarrow> string \<Rightarrow> MapInfo" where
  "MapInfo_new prev start end_addr offset flags name =
     \<lparr>mi_start = start, mi_end = end_addr, mi_offset = offset, mi_flags = flags, mi_name = name, mi_elf = None,
      mi_elf_offset = 0, mi_elf_start_offset = 0, mi_load_bias = u64_max, mi_build_id = None,
      mi_memory_backed_elf = False, mi_prev = prev, mi_next = None\<rparr>"

definition update_info :: "nat \<Rightarrow> (MapInfo \<Rightarrow> MapInfo) \<Rightarrow> map_store \<Rightarrow> map_store" where
  "update_info i f h = h[i := f (h ! i)]"

definition set_next_map :: "nat \<Rightarrow> nat option \<Rightarrow> map_store \<Rightarrow> map_store" where
  "set_next_map i v = update_info i (mi_next_update (\<lambda>_. v))"

definition set_prev_map :: "nat \<Rightarrow> nat option \<Rightarrow> map_store \<Rightarrow> map_store" where
  "set_prev_map i v = update_info i (mi_prev_update (\<lambda>_. v))"

text \<open>\<open>Create\<close>: the new object is the last of the store.\<close>

definition MapInfo_Create :: "nat option \<Rightarrow> u64 \<Rightarrow> u64 \<Rightarrow> u64 \<Rightarrow> u16 \<Rightarrow> string \<Rightarrow> map_store \<Rightarrow> nat \<times> map_store" where
  "MapInfo_Create prev start end_addr offset flags name h =
     (let i = length h; h = h @ [MapInfo_new prev start end_addr offset flags name]
      in (i, case prev of None \<Rightarrow> h | Some p \<Rightarrow> set_next_map p (Some i) h))"

definition IsBlank :: "MapInfo \<Rightarrow> bool" where
  "IsBlank m \<longleftrightarrow> mi_offset m = 0 \<and> mi_flags m = 0 \<and> mi_name m = []"

section \<open>Lookup\<close>

definition in_map :: "u64 \<Rightarrow> MapInfo \<Rightarrow> bool" where
  "in_map pc m \<longleftrightarrow> mi_start m \<le> pc \<and> pc < mi_end m"

function find_map :: "map_store \<Rightarrow> nat list \<Rightarrow> u64 \<Rightarrow> nat \<Rightarrow> nat \<Rightarrow> nat option" where
  "find_map h maps pc first final =
     (if first < final then
        (let index = (first + final) div 2; cur = h ! (maps ! index) in
         if in_map pc cur then Some (maps ! index)
         else if pc < mi_start cur then find_map h maps pc first index
         else find_map h maps pc (index + 1) final)
      else None)"
  by pat_completeness auto
termination by (relation "measure (\<lambda>(h, maps, pc, first, final). final - first)") auto

declare find_map.simps [simp del]

definition Maps_Find :: "map_store \<Rightarrow> nat list \<Rightarrow> u64 \<Rightarrow> nat option" where
  "Maps_Find h maps pc = (if maps = [] then None else find_map h maps pc 0 (length maps))"

definition Maps_Get :: "nat list \<Rightarrow> nat \<Rightarrow> nat option" where
  "Maps_Get maps index = (if index \<ge> length maps then None else Some (maps ! index))"

section \<open>Adding and parsing\<close>

definition MAPS_FLAGS_DEVICE_MAP :: u16 where "MAPS_FLAGS_DEVICE_MAP = 0x8000"
definition MAPS_FLAGS_JIT_SYMFILE_MAP :: u16 where "MAPS_FLAGS_JIT_SYMFILE_MAP = 0x4000"

definition device_flags :: "MapEntry \<Rightarrow> u16" where
  "device_flags e =
     (if take 5 (me_name e) = ''/dev/'' \<and> take 7 (drop 5 (me_name e)) \<noteq> ''ashmem/''
      then me_flags e OR MAPS_FLAGS_DEVICE_MAP else me_flags e)"

text \<open>The callback, with \<open>prev_map\<close>, the vector and the store.\<close>

fun add_entries :: "nat option \<Rightarrow> MapEntry list \<Rightarrow> nat list \<times> map_store \<Rightarrow> nat list \<times> map_store" where
  "add_entries prev [] st = st"
| "add_entries prev (e # es) (maps, h) =
     (let (i, h) = MapInfo_Create prev (me_start e) (me_end e) (me_pgoff e) (device_flags e) (me_name e) h
      in add_entries (Some i) es (maps @ [i], h))"

text \<open>\<open>Maps::Parse\<close> of a file, and \<open>BufferMaps::Parse\<close> of a buffer, which is never unreadable.\<close>

definition Maps_Parse :: "string option \<Rightarrow> nat list \<times> map_store \<Rightarrow> bool \<times> nat list \<times> map_store" where
  "Maps_Parse file st = (let (es, ok) = ReadMapFile file in (ok, add_entries None es st))"

definition BufferMaps_Parse :: "string \<Rightarrow> nat list \<times> map_store \<Rightarrow> bool \<times> nat list \<times> map_store" where
  "BufferMaps_Parse buffer st = (let (es, ok) = ReadMapFileContent buffer in (ok, add_entries None es st))"

definition RemoteMaps_GetMapsFile :: "nat \<Rightarrow> string" where
  "RemoteMaps_GetMapsFile pid = ''/proc/'' @ dec_string pid @ ''/maps''"

text \<open>Flags are narrowed to 16 bits by the constructor.\<close>

definition Maps_Add :: "u64 \<Rightarrow> u64 \<Rightarrow> u64 \<Rightarrow> u64 \<Rightarrow> string \<Rightarrow> nat list \<times> map_store \<Rightarrow> nat list \<times> map_store" where
  "Maps_Add start end_addr offset flags name = (\<lambda>(maps, h).
     let prev = (if maps = [] then None else Some (last maps));
         (i, h) = MapInfo_Create prev start end_addr offset (ucast flags) name h
     in (maps @ [i], h))"

definition Maps_Add_bias :: "u64 \<Rightarrow> u64 \<Rightarrow> u64 \<Rightarrow> u64 \<Rightarrow> string \<Rightarrow> u64 \<Rightarrow> nat list \<times> map_store \<Rightarrow> nat list \<times> map_store" where
  "Maps_Add_bias start end_addr offset flags name load_bias = (\<lambda>(maps, h).
     let prev = (if maps = [] then None else Some (last maps));
         (i, h) = MapInfo_Create prev start end_addr offset (ucast flags) name h
     in (maps @ [i], update_info i (mi_load_bias_update (\<lambda>_. load_bias)) h))"

section \<open>Sorting\<close>

text \<open>
  \<open>std::sort\<close> leaves the order of equal keys open; the model takes the stable one. The linking of the
  neighbours follows.
\<close>

fun link_maps :: "nat option \<Rightarrow> nat list \<Rightarrow> map_store \<Rightarrow> map_store" where
  "link_maps prev [] h = h"
| "link_maps prev (i # is) h =
     (let h = set_prev_map i prev h;
          h = (case prev of None \<Rightarrow> h | Some p \<Rightarrow> set_next_map p (Some i) h)
      in link_maps (Some i) is h)"

definition Maps_Sort :: "nat list \<times> map_store \<Rightarrow> nat list \<times> map_store" where
  "Maps_Sort = (\<lambda>(maps, h).
     if maps = [] then (maps, h)
     else
       (let maps = sort_key (\<lambda>i. mi_start (h ! i)) maps
        in (maps, link_maps None maps (set_next_map (last maps) None h))))"

section \<open>Reparsing\<close>

text \<open>The vector with null pointers, the store, \<open>search_map_idx\<close>, and the entries deleted of either kind.\<close>

record Reparsing =
  rp_maps :: "nat option list"
  rp_store :: map_store
  search_map_idx :: nat
  deleted_old :: nat
  deleted_new :: nat

definition same_map :: "MapInfo \<Rightarrow> MapInfo \<Rightarrow> bool" where
  "same_map a b \<longleftrightarrow> mi_start a = mi_start b \<and> mi_end a = mi_end b \<and> mi_flags a = mi_flags b \<and> mi_name a = mi_name b"

text \<open>The old object takes the place of the new one between the neighbours of that.\<close>

definition take_place :: "nat \<Rightarrow> nat \<Rightarrow> map_store \<Rightarrow> map_store" where
  "take_place new info h =
     (let prev = mi_prev (h ! new); nxt = mi_next (h ! new);
          h = set_prev_map info prev h;
          h = set_next_map info nxt h;
          h = (case prev of None \<Rightarrow> h | Some p \<Rightarrow> set_next_map p (Some info) h)
      in case nxt of None \<Rightarrow> h | Some n \<Rightarrow> set_prev_map n (Some info) h)"

text \<open>The inner loop over the old maps, with the number that are left. No pointer it follows is null.\<close>

fun search_old :: "nat \<Rightarrow> nat \<Rightarrow> nat \<Rightarrow> Reparsing \<Rightarrow> Reparsing" where
  "search_old new_idx old_idx 0 s = s"
| "search_old new_idx old_idx (Suc n) s =
     (let h = rp_store s; new = the (rp_maps s ! new_idx); info = the (rp_maps s ! old_idx) in
      if same_map (h ! new) (h ! info) then
        s\<lparr>search_map_idx := old_idx + 1, rp_store := take_place new info h, rp_maps := (rp_maps s)[new_idx := None],
          deleted_new := deleted_new s + 1\<rparr>
      else if mi_start (h ! new) < mi_start (h ! info) then s\<lparr>search_map_idx := old_idx\<rparr>
      else search_old new_idx (old_idx + 1) n
             (s\<lparr>search_map_idx := old_idx + 1, rp_maps := (rp_maps s)[old_idx := None],
                deleted_old := deleted_old s + 1\<rparr>))"

fun match_new :: "nat \<Rightarrow> nat \<Rightarrow> nat \<Rightarrow> Reparsing \<Rightarrow> Reparsing" where
  "match_new last_map_idx new_idx 0 s = s"
| "match_new last_map_idx new_idx (Suc n) s =
     (let s = search_old new_idx (search_map_idx s) (last_map_idx - search_map_idx s) s in
      if search_map_idx s \<ge> last_map_idx then s else match_new last_map_idx (new_idx + 1) n s)"

text \<open>The loop that drops the old maps that were not searched.\<close>

definition drop_rest :: "nat \<Rightarrow> Reparsing \<Rightarrow> Reparsing" where
  "drop_rest last_map_idx s =
     s\<lparr>rp_maps := map (\<lambda>(i, m). if search_map_idx s \<le> i \<and> i < last_map_idx then None else m)
         (zip [0..<length (rp_maps s)] (rp_maps s)),
       deleted_old := deleted_old s + (last_map_idx - search_map_idx s)\<rparr>"

text \<open>
  The sort moves the null pointers to the end, and \<open>resize\<close> cuts them off. The result is whether it
  parsed, and \<open>*any_changed\<close>.
\<close>

definition Reparse :: "string option \<Rightarrow> nat list \<times> map_store \<Rightarrow> bool option \<times> nat list \<times> map_store" where
  "Reparse file = (\<lambda>(maps0, h0).
     let last_map_idx = length maps0; (ok, maps, h) = Maps_Parse file (maps0, h0) in
     if \<not> ok then (None, take last_map_idx maps, h)
     else
       (let s = match_new last_map_idx last_map_idx (length maps - last_map_idx)
                  \<lparr>rp_maps = map Some maps, rp_store = h, search_map_idx = 0, deleted_old = 0, deleted_new = 0\<rparr>;
            s = drop_rest last_map_idx s;
            present = sort_key (\<lambda>i. mi_start (rp_store s ! i)) (map the (filter (\<lambda>m. m \<noteq> None) (rp_maps s)));
            maps = take (length (rp_maps s) - deleted_old s - deleted_new s) present
        in (Some (deleted_old s \<noteq> 0 \<or> length maps \<noteq> last_map_idx), maps, rp_store s)))"

text \<open>\<open>LocalUpdatableMaps\<close>: \<open>file\<close> is \<open>/proc/self/maps\<close> at the time of the call. Each call runs under the lock.\<close>

definition LocalUpdatableMaps_Find :: "string option \<Rightarrow> u64 \<Rightarrow> nat list \<times> map_store \<Rightarrow> nat option \<times> nat list \<times> map_store" where
  "LocalUpdatableMaps_Find file pc = (\<lambda>(maps, h).
     case Maps_Find h maps pc of
       Some i \<Rightarrow> (Some i, maps, h)
     | None \<Rightarrow>
         (case Reparse file (maps, h) of
            (None, maps, h) \<Rightarrow> (None, maps, h)
          | (Some _, maps, h) \<Rightarrow> (Maps_Find h maps pc, maps, h)))"

definition LocalUpdatableMaps_Parse :: "string option \<Rightarrow> nat list \<times> map_store \<Rightarrow> bool \<times> nat list \<times> map_store" where
  "LocalUpdatableMaps_Parse = Maps_Parse"

end
