(* ===== verification/MapsProps.thy ===== *)
theory MapsProps
  imports MapsModel
begin

text \<open>
  Properties of the maps of a process: the lookup by address, and the parser against the format in which
  the kernel writes the file.
\<close>

section \<open>Lookup\<close>

text \<open>The vector is sorted and its ranges do not overlap, as the kernel lists them.\<close>

definition disjoint_sorted :: "map_store \<Rightarrow> nat list \<Rightarrow> bool" where
  "disjoint_sorted h maps \<longleftrightarrow> sorted_wrt (\<lambda>i j. mi_end (h ! i) \<le> mi_start (h ! j)) maps \<and>
     (\<forall>i \<in> set maps. mi_start (h ! i) \<le> mi_end (h ! i))"

lemma disjoint_sortedD:
  assumes "disjoint_sorted h maps" "j < k" "k < length maps"
  shows "mi_end (h ! (maps ! j)) \<le> mi_start (h ! (maps ! k))" "mi_start (h ! (maps ! j)) \<le> mi_end (h ! (maps ! j))"
  using assms by (auto simp: disjoint_sorted_def sorted_wrt_iff_nth_less)

lemma in_map_unique:
  assumes "disjoint_sorted h maps" "j < length maps" "k < length maps"
    "in_map pc (h ! (maps ! j))" "in_map pc (h ! (maps ! k))"
  shows "j = k"
proof (rule ccontr)
  assume "j \<noteq> k"
  then consider "j < k" | "k < j" by linarith
  then show False
    using disjoint_sortedD(1) [OF assms(1)] assms(2-5) by cases (fastforce simp: in_map_def)+
qed

lemma find_map_sound:
  "find_map h maps pc first final = Some i \<Longrightarrow> \<exists>k. first \<le> k \<and> k < final \<and> i = maps ! k \<and> in_map pc (h ! i)"
proof (induction h maps pc first final rule: find_map.induct)
  case (1 h maps pc first final)
  let ?m = "(first + final) div 2"
  let ?c = "h ! (maps ! ?m)"
  note r = "1.prems" [unfolded find_map.simps [of h maps pc first final]]
  have True: "first < final" using r by (simp split: if_splits)
  then have m: "first \<le> ?m" "?m < final" by auto
  consider "in_map pc ?c" | "\<not> in_map pc ?c" "pc < mi_start ?c" | "\<not> in_map pc ?c" "\<not> pc < mi_start ?c" by blast
  then show ?case
  proof cases
    case 1
    then show ?thesis using r True m by (auto simp: Let_def)
  next
    case 2
    then obtain k where "first \<le> k" "k < ?m" "i = maps ! k" "in_map pc (h ! i)"
      using "1.IH"(1) [OF True refl refl] r True by (auto simp: Let_def)
    then show ?thesis using m by (intro exI [of _ k]) simp
  next
    case 3
    then obtain k where "?m + 1 \<le> k" "k < final" "i = maps ! k" "in_map pc (h ! i)"
      using "1.IH"(2) [OF True refl refl] r True by (auto simp: Let_def)
    then show ?thesis using m by (intro exI [of _ k]) simp
  qed
qed

lemma find_map_complete:
  assumes "disjoint_sorted h maps" "final \<le> length maps" "find_map h maps pc first final = None" "first \<le> k" "k < final"
  shows "\<not> in_map pc (h ! (maps ! k))"
  using assms
proof (induction h maps pc first final rule: find_map.induct)
  case (1 h maps pc first final)
  let ?m = "(first + final) div 2"
  let ?c = "h ! (maps ! ?m)"
  note r = "1.prems"(3) [unfolded find_map.simps [of h maps pc first final]]
  have True: "first < final" using "1.prems"(4,5) by simp
  then have m: "first \<le> ?m" "?m < final" by auto
  have n: "\<not> in_map pc ?c" using r True by (simp add: Let_def split: if_splits)
  show ?case
  proof (cases "pc < mi_start ?c")
    case lt: True
    have f: "find_map h maps pc first ?m = None" using r True n lt by (simp add: Let_def)
    show ?thesis
    proof (cases "k < ?m")
      case True
      then show ?thesis using "1.IH"(1) [OF \<open>first < final\<close> refl refl n lt] "1.prems" f m by simp
    next
      case False
      then consider "k = ?m" | "?m < k" by linarith
      then show ?thesis
        using lt n disjoint_sortedD [OF "1.prems"(1), of ?m k] "1.prems"(2,5) by cases (auto simp: in_map_def)
    qed
  next
    case ge: False
    have f: "find_map h maps pc (?m + 1) final = None" using r True n ge by (simp add: Let_def)
    show ?thesis
    proof (cases "?m + 1 \<le> k")
      case True
      then show ?thesis using "1.IH"(2) [OF \<open>first < final\<close> refl refl n ge] "1.prems" f by simp
    next
      case False
      then consider "k = ?m" | "k < ?m" by linarith
      then show ?thesis
        using ge n disjoint_sortedD [OF "1.prems"(1), of k ?m] "1.prems"(2) m(2) by cases (auto simp: in_map_def)
    qed
  qed
qed

text \<open>
  Property C23. In a vector that is sorted and without overlaps, which is how the kernel lists the maps of
  a process, the binary search finds what a search of the whole vector finds: the map that contains the
  address, or none when no map does.
\<close>

theorem Maps_Find_is_linear:
  assumes "disjoint_sorted h maps"
  shows "Maps_Find h maps pc = List.find (\<lambda>i. in_map pc (h ! i)) maps"
proof (cases "Maps_Find h maps pc")
  case None
  then have "\<not> in_map pc (h ! (maps ! k))" if "k < length maps" for k
    using find_map_complete [OF assms order_refl _ _ that, of pc 0] that by (auto simp: Maps_Find_def split: if_splits)
  then have "List.find (\<lambda>i. in_map pc (h ! i)) maps = None" unfolding find_None_iff by (metis in_set_conv_nth)
  with None show ?thesis by simp
next
  case (Some i)
  then have "find_map h maps pc 0 (length maps) = Some i" by (simp add: Maps_Find_def split: if_splits)
  from find_map_sound [OF this] obtain k where k: "k < length maps" "i = maps ! k" "in_map pc (h ! i)" by blast
  have "\<not> in_map pc (h ! (maps ! j))" if "j < k" for j
    using in_map_unique [OF assms, of j k pc] that k by force
  with k have "List.find (\<lambda>i. in_map pc (h ! i)) maps = Some i" unfolding find_Some_iff by blast
  with Some show ?thesis by simp
qed

section \<open>Numbers\<close>

lemma of_char_digit [simp]: "d < 16 \<Longrightarrow> of_char (digit_char d) = (if d < 10 then 48 + d else 87 + d :: nat)"
  by (simp add: digit_char_def)

lemma digit_char_neq:
  assumes "d < 16" "of_char c < (48::nat) \<or> (of_char c :: nat) = 120 \<or> (of_char c :: nat) = 88"
  shows "digit_char d \<noteq> c"
proof
  assume "digit_char d = c"
  then have "of_char (digit_char d) = (of_char c :: nat)" by simp
  then show False using assms by (simp split: if_splits)
qed

lemma digit_char_less:
  assumes "d < 16"
  shows "c_isxdigit (digit_char d)" "xdigit_value (digit_char d) = d" "\<not> c_isspace (digit_char d)"
    "d < 10 \<Longrightarrow> c_isdigit (digit_char d)"
  using assms by (auto simp: c_isxdigit_def c_isdigit_def c_isspace_def xdigit_value_def)


lemma digits_value_append: "digits_value b acc (xs @ ys) = digits_value b (digits_value b acc xs) ys"
  by (induction b acc xs rule: digits_value.induct) simp_all

lemma hex_string_digits: "set (hex_string n) \<subseteq> digit_char ` {..<16}"
proof (induction n rule: hex_string.induct)
  case (1 n)
  then show ?case by (subst hex_string.simps) auto
qed

lemma dec_string_digits: "set (dec_string n) \<subseteq> digit_char ` {..<10}"
proof (induction n rule: dec_string.induct)
  case (1 n)
  then show ?case by (subst dec_string.simps) auto
qed

lemma dec_string_digits_16: "set (dec_string n) \<subseteq> digit_char ` {..<16}"
  using dec_string_digits [of n] by (rule subset_trans) (auto intro: image_mono)

lemma hex_string_value: "digits_value 16 0 (hex_string n) = n"
proof (induction n rule: hex_string.induct)
  case (1 n)
  then show ?case by (subst hex_string.simps) (simp add: digits_value_append digit_char_less)
qed

lemma dec_string_value: "digits_value 10 0 (dec_string n) = n"
proof (induction n rule: dec_string.induct)
  case (1 n)
  then show ?case by (subst dec_string.simps) (simp add: digits_value_append digit_char_less)
qed

lemma string_not_Nil [simp]: "hex_string n \<noteq> []" "dec_string n \<noteq> []"
  by (subst hex_string.simps, simp) (subst dec_string.simps, simp)

text \<open>\<open>%08x\<close> and the like.\<close>

definition padded :: "nat \<Rightarrow> nat \<Rightarrow> string" where
  "padded w n = replicate (w - length (hex_string n)) CHR ''0'' @ hex_string n"

lemma digit_char_0: "digit_char 0 = CHR ''0''"
  by code_simp

lemma padded_digits: "set (padded w n) \<subseteq> digit_char ` {..<16}"
  using hex_string_digits [of n] digit_char_0 by (auto simp: padded_def intro!: image_eqI [of _ _ 0])

lemma digits_value_zeros: "digits_value b 0 (replicate k CHR ''0'') = 0"
  by (induction k) (simp_all add: xdigit_value_def c_isdigit_def)

lemma padded_value: "digits_value 16 0 (padded w n) = n"
  by (simp add: padded_def digits_value_append digits_value_zeros hex_string_value)

lemma padded_not_Nil [simp]: "padded w n \<noteq> []"
  by (simp add: padded_def)

lemma skip_0x_digits:
  assumes "\<forall>c \<in> set ds. c \<noteq> CHR ''x'' \<and> c \<noteq> CHR ''X''" "ds \<noteq> []" "rest = [] \<or> hd rest \<noteq> CHR ''x'' \<and> hd rest \<noteq> CHR ''X''"
  shows "skip_0x (ds @ rest) = ds @ rest"
proof -
  have "skip_0x (z # y # cs) = z # y # cs" if "y \<noteq> CHR ''x''" "y \<noteq> CHR ''X''" for z y cs
    using that by (cases cs) simp_all
  moreover have "skip_0x [z] = [z]" for z by simp
  ultimately show ?thesis
    using assms by (cases ds; cases "tl ds"; cases rest) auto
qed

lemma strtoull_digits:
  assumes "base = 10 \<or> base = 16" "set ds \<subseteq> digit_char ` {..<base}" "ds \<noteq> []" "digits_value base 0 ds < 2 ^ 64"
    and "rest = [] \<or> hd rest = CHR '' '' \<or> hd rest = CHR ''-''"
  shows "strtoull base (ds @ rest) = (of_nat (digits_value base 0 ds), rest)"
proof -
  let ?digit = "if base = 16 then c_isxdigit else c_isdigit"
  have d: "?digit c \<and> \<not> c_isspace c \<and> c \<noteq> CHR ''-'' \<and> c \<noteq> CHR ''+'' \<and> c \<noteq> CHR ''x'' \<and> c \<noteq> CHR ''X''" if c: "c \<in> set ds" for c
  proof -
    obtain k where k: "k < base" "c = digit_char k" using assms(2) c by auto
    then have "k < 16" "base = 10 \<longrightarrow> k < 10" using assms(1) by auto
    then show ?thesis using assms(1) k(2) digit_char_less [of k] digit_char_neq [of k] by auto
  qed
  have r: "takeWhile ?digit rest = []" "dropWhile ?digit rest = rest"
    using assms(5) by (cases rest; auto simp: c_isxdigit_def c_isdigit_def)+
  obtain c cs where ds: "ds = c # cs" using assms(3) by (cases ds) auto
  have 1: "dropWhile c_isspace (ds @ rest) = ds @ rest" using d ds by simp
  have 2: "take_sign (ds @ rest) = (False, ds @ rest)" using d ds by simp
  have 3: "(if base = 16 then skip_0x (ds @ rest) else ds @ rest) = ds @ rest"
    using skip_0x_digits [of ds rest] d assms(3,5) by auto
  have "takeWhile ?digit (ds @ rest) = ds @ takeWhile ?digit rest" using d by (intro takeWhile_append2) blast
  moreover have "dropWhile ?digit (ds @ rest) = dropWhile ?digit rest" using d by (intro dropWhile_append2) blast
  ultimately have 4: "takeWhile ?digit (ds @ rest) = ds" "dropWhile ?digit (ds @ rest) = rest" using r by simp_all
  show ?thesis
    using assms(3,4) unfolding strtoull_def 1 2 Let_def prod.case 3 4 by simp
qed

lemma pass_number_digits:
  assumes "base = 10 \<or> base = 16" "set ds \<subseteq> digit_char ` {..<base}" "ds \<noteq> []" "digits_value base 0 ds < 2 ^ 64"
    and "rest = [] \<or> hd rest = CHR '' '' \<or> hd rest = CHR ''-''"
  shows "pass_number base (ds @ rest) = Some (of_nat (digits_value base 0 ds), rest)"
  using strtoull_digits [OF assms] assms(3) by (simp add: pass_number_def)

lemma pass_hex:
  "rest = [] \<or> hd rest = CHR '' '' \<or> hd rest = CHR ''-'' \<Longrightarrow> pass_number 16 (padded w (unat (v :: u64)) @ rest) = Some (v, rest)"
  using pass_number_digits [of 16 "padded w (unat v)" rest] padded_digits padded_value [of w "unat v"] unat64_less [of v]
  by simp

lemma pass_dec: "rest = [] \<or> hd rest = CHR '' '' \<Longrightarrow> pass_number 10 (dec_string (unat (v :: u64)) @ rest) = Some (v, rest)"
  using pass_number_digits [of 10 "dec_string (unat v)" rest] dec_string_digits [of "unat v"] dec_string_value [of "unat v"] unat64_less [of v]
  by auto

section \<open>A line\<close>

definition flag_text :: "MapEntry \<Rightarrow> string" where
  "flag_text e =
     [if me_flags e AND PROT_READ \<noteq> 0 then CHR ''r'' else CHR ''-'', if me_flags e AND PROT_WRITE \<noteq> 0 then CHR ''w'' else CHR ''-'',
      if me_flags e AND PROT_EXEC \<noteq> 0 then CHR ''x'' else CHR ''-'', if me_shared e then CHR ''s'' else CHR ''p'']"

text \<open>The line that the kernel writes for a mapping of the device \<open>major:minor\<close>, with \<open>gap + 1\<close> spaces before the name.\<close>

definition maps_line :: "nat \<times> nat \<times> nat \<Rightarrow> MapEntry \<Rightarrow> string" where
  "maps_line = (\<lambda>(major, minor, gap) e.
     padded 8 (unat (me_start e)) @ ''-'' @ padded 8 (unat (me_end e)) @ '' '' @ flag_text e @ '' '' @
     padded 8 (unat (me_pgoff e)) @ '' '' @ padded 2 major @ '':'' @ padded 2 minor @ '' '' @
     dec_string (unat (me_inode e)) @ replicate (Suc gap) CHR '' '' @ me_name e)"

text \<open>Only the three protections are shown, and a name neither starts with a space nor has line ends, which the kernel escapes.\<close>

definition entry_ok :: "MapEntry \<Rightarrow> bool" where
  "entry_ok e \<longleftrightarrow> unat (me_flags e) < 8 \<and> (me_name e = [] \<or> hd (me_name e) \<noteq> CHR '' '') \<and>
     CHR ''\<newline>'' \<notin> set (me_name e) \<and> CHR 0x00 \<notin> set (me_name e)"

lemma dropWhile_spaces: "dropWhile (\<lambda>c. c = CHR '' '') (replicate k CHR '' '' @ x) = dropWhile (\<lambda>c. c = CHR '' '') x"
  by (induction k) simp_all

lemma PassSpace_spaces: "x = [] \<or> hd x \<noteq> CHR '' '' \<Longrightarrow> PassSpace (replicate (Suc k) CHR '' '' @ x) = Some x"
  by (cases x) (simp_all add: PassSpace_def dropWhile_spaces dropWhile_spaces [of _ "[]", simplified])

lemma PassSpace_one: "x \<noteq> [] \<Longrightarrow> hd x \<noteq> CHR '' '' \<Longrightarrow> PassSpace (CHR '' '' # x) = Some x"
  using PassSpace_spaces [of x 0] by simp

lemma digits_hd: "set ds \<subseteq> digit_char ` {..<16} \<Longrightarrow> ds \<noteq> [] \<Longrightarrow> hd (ds @ x) \<noteq> CHR '' ''"
  using digit_char_neq [of _ "CHR '' ''"] by (cases ds) auto

lemma PassXdigit_padded: "x \<noteq> [] \<Longrightarrow> \<not> c_isxdigit (hd x) \<Longrightarrow> PassXdigit (padded w n @ x) = Some x"
proof -
  assume x: "x \<noteq> []" "\<not> c_isxdigit (hd x)"
  have d: "c_isxdigit c" if "c \<in> set (padded w n)" for c
    using subsetD [OF padded_digits that] by (auto intro: digit_char_less(1))
  obtain c cs where c: "padded w n = c # cs" using padded_not_Nil [of w n] by (cases "padded w n") auto
  have "dropWhile c_isxdigit (padded w n @ x) = dropWhile c_isxdigit x" using d by (intro dropWhile_append2) blast
  also have "\<dots> = x" using x by (cases x) simp_all
  finally have "dropWhile c_isxdigit (padded w n @ x) = x" .
  then show ?thesis using d c by (simp add: PassXdigit_def)
qed

lemma flags_of_text:
  assumes "unat f < 8"
  shows "(if f AND PROT_READ \<noteq> 0 then PROT_READ else 0) OR (if f AND PROT_WRITE \<noteq> 0 then PROT_WRITE else 0) OR
     (if f AND PROT_EXEC \<noteq> 0 then PROT_EXEC else 0) = f"
proof -
  have "f \<in> {0, 1, 2, 3, 4, 5, 6, 7}" using assms by (simp add: word_unat_eq_iff) arith
  then show ?thesis by (auto simp: PROT_READ_def PROT_WRITE_def PROT_EXEC_def)
qed


lemma pass_flag_text:
  "c \<noteq> CHR ''-'' \<Longrightarrow> pass_flag c fl (flags, (if b then c else CHR ''-'') # p) = Some (if b then flags OR fl else flags, p)"
  by (simp add: pass_flag_def)

lemma parse_flags_text:
  assumes "entry_ok e" "p \<noteq> []" "hd p \<noteq> CHR '' ''"
  shows "parse_flags (flag_text e @ CHR '' '' # p) = Some (me_flags e, me_shared e, p)"
proof -
  let ?r = "me_flags e AND PROT_READ \<noteq> 0" let ?w = "me_flags e AND PROT_WRITE \<noteq> 0" let ?x = "me_flags e AND PROT_EXEC \<noteq> 0"
  have shared: "pass_shared ((if me_shared e then CHR ''s'' else CHR ''p'') # q) = Some (me_shared e, q)" for q
    by (simp add: pass_shared_def)
  have f: "(if ?x then (if ?w then (if ?r then 0 OR PROT_READ else 0) OR PROT_WRITE else if ?r then 0 OR PROT_READ else 0) OR PROT_EXEC
      else if ?w then (if ?r then 0 OR PROT_READ else 0) OR PROT_WRITE else if ?r then 0 OR PROT_READ else 0) = me_flags e"
    using flags_of_text [of "me_flags e"] assms(1) unfolding entry_ok_def by (simp add: or.assoc split: if_splits)
  note flag = pass_flag_text [of "CHR ''r''", simplified] pass_flag_text [of "CHR ''w''", simplified]
    pass_flag_text [of "CHR ''x''", simplified]
  show ?thesis
    unfolding parse_flags_def flag_text_def append_Cons append_Nil
    by (simp only: flag Option.bind.bind_lunit shared prod.case char.inject PassSpace_one [OF assms(2,3)] f)
qed

lemma parse_device_text:
  "p \<noteq> [] \<Longrightarrow> hd p \<noteq> CHR '' '' \<Longrightarrow> parse_device (padded 2 major @ CHR '':'' # padded 2 minor @ CHR '' '' # p) = Some p"
  by (simp add: parse_device_def PassXdigit_padded PassSpace_one pass_char_def c_isxdigit_def c_isdigit_def)

lemma hd_padded: "hd (padded w n @ x) \<noteq> CHR '' ''" "hd (dec_string n @ x) \<noteq> CHR '' ''"
  using digits_hd [OF padded_digits] digits_hd [OF dec_string_digits_16] by auto

lemma parse_addresses_text:
  "p \<noteq> [] \<Longrightarrow> hd p \<noteq> CHR '' '' \<Longrightarrow>
   parse_addresses (padded 8 (unat a) @ CHR ''-'' # padded 8 (unat b) @ CHR '' '' # p) = Some (a, b, p)"
  by (simp add: parse_addresses_def pass_hex pass_char_def PassSpace_one)

lemma ParseMapsFileLine_text: "entry_ok e \<Longrightarrow> ParseMapsFileLine (maps_line dev e) = Some e"
proof -
  assume e: "entry_ok e"
  obtain major minor gap where dev: "dev = (major, minor, gap)" by (cases dev)
  let ?p7 = "replicate (Suc gap) CHR '' '' @ me_name e"
  let ?p6 = "dec_string (unat (me_inode e)) @ ?p7"
  let ?p5 = "padded 2 major @ CHR '':'' # padded 2 minor @ CHR '' '' # ?p6"
  let ?p4 = "padded 8 (unat (me_pgoff e)) @ CHR '' '' # ?p5"
  let ?p3 = "flag_text e @ CHR '' '' # ?p4"
  have line: "maps_line dev e = padded 8 (unat (me_start e)) @ CHR ''-'' # padded 8 (unat (me_end e)) @ CHR '' '' # ?p3"
    by (simp add: maps_line_def dev)
  have 1: "parse_addresses (maps_line dev e) = Some (me_start e, me_end e, ?p3)"
    unfolding line by (rule parse_addresses_text) (auto simp: flag_text_def)
  have 2: "parse_flags ?p3 = Some (me_flags e, me_shared e, ?p4)"
    by (rule parse_flags_text [OF e]) (use hd_padded in auto)
  have 3: "pass_number 16 ?p4 = Some (me_pgoff e, CHR '' '' # ?p5)" by (rule pass_hex) simp
  have 4: "PassSpace (CHR '' '' # ?p5) = Some ?p5" by (rule PassSpace_one) (use hd_padded in auto)
  have 5: "parse_device ?p5 = Some ?p6" by (rule parse_device_text) (use hd_padded in auto)
  have 6: "pass_number 10 ?p6 = Some (me_inode e, ?p7)" by (rule pass_dec) simp
  have 7: "pass_name ?p7 = Some (me_name e)"
    using PassSpace_spaces [of "me_name e" gap] e by (simp add: pass_name_def entry_ok_def)
  show ?thesis
    unfolding ParseMapsFileLine_def by (simp only: 1 2 3 4 5 6 7 Option.bind.bind_lunit prod.case) simp
qed

section \<open>The file\<close>

definition maps_file :: "((nat \<times> nat \<times> nat) \<times> MapEntry) list \<Rightarrow> string" where
  "maps_file l = concat (map (\<lambda>(dev, e). maps_line dev e @ ''\<newline>'') l)"

lemma maps_line_chars:
  assumes "entry_ok e" "c = CHR ''\<newline>'' \<or> c = CHR 0x00"
  shows "c \<notin> set (maps_line dev e)"
proof -
  have "c \<notin> set (padded w n)" for w n using padded_digits [of w n] digit_char_neq [of _ c] assms(2) by fastforce
  moreover have "c \<notin> set (dec_string n)" for n using dec_string_digits_16 [of n] digit_char_neq [of _ c] assms(2) by fastforce
  ultimately show ?thesis
    using assms by (cases dev) (auto simp: maps_line_def flag_text_def entry_ok_def)
qed

lemma maps_line_not_Nil [simp]: "maps_line dev e \<noteq> []"
  by (cases dev) (simp add: maps_line_def)

lemma read_lines_text: "\<forall>(dev, e) \<in> set l. entry_ok e \<Longrightarrow> read_lines (maps_file l) = (map snd l, True)"
proof (induction l)
  case Nil
  then show ?case by (simp add: maps_file_def read_lines.simps)
next
  case (Cons x l)
  obtain dev e where x: "x = (dev, e)" by (cases x)
  have ok: "entry_ok e" using Cons.prems x by simp
  have nl: "CHR ''\<newline>'' \<notin> set (maps_line dev e)" using maps_line_chars [OF ok] by blast
  have t: "takeWhile (\<lambda>c. c \<noteq> CHR ''\<newline>'') (maps_line dev e @ CHR ''\<newline>'' # maps_file l) = maps_line dev e"
  proof -
    have "takeWhile (\<lambda>c. c \<noteq> CHR ''\<newline>'') (maps_line dev e @ CHR ''\<newline>'' # maps_file l) =
      maps_line dev e @ takeWhile (\<lambda>c. c \<noteq> CHR ''\<newline>'') (CHR ''\<newline>'' # maps_file l)"
      using nl by (intro takeWhile_append2) auto
    then show ?thesis by simp
  qed
  have f: "maps_file (x # l) = maps_line dev e @ CHR ''\<newline>'' # maps_file l" by (simp add: maps_file_def x)
  have c: "cut_line (maps_file (x # l)) = (maps_line dev e, Some (maps_file l))"
    unfolding f cut_line_def t by simp
  have "read_lines (maps_file l) = (map snd l, True)" using Cons.IH Cons.prems by simp
  then show ?case
    using c x f by (subst read_lines.simps) (simp add: ParseMapsFileLine_text [OF ok])
qed

lemma ReadMapFileContent_text:
  assumes "\<forall>(dev, e) \<in> set l. entry_ok e"
  shows "ReadMapFileContent (maps_file l) = (map snd l, True)"
proof -
  have "\<forall>c \<in> set (maps_file l). c \<noteq> CHR 0x00" using assms maps_line_chars by (fastforce simp: maps_file_def)
  then have "takeWhile (\<lambda>c. c \<noteq> CHR 0x00) (maps_file l) = maps_file l" unfolding takeWhile_eq_all_conv .
  then show ?thesis by (simp only: ReadMapFileContent_def read_lines_text [OF assms])
qed

section \<open>The maps of a file\<close>

definition entry_map :: "MapEntry \<Rightarrow> MapInfo \<Rightarrow> bool" where
  "entry_map e m \<longleftrightarrow> mi_start m = me_start e \<and> mi_end m = me_end e \<and> mi_offset m = me_pgoff e \<and>
     mi_flags m = device_flags e \<and> mi_name m = me_name e \<and> mi_elf m = None"

lemma add_entries_append:
  "add_entries prev es (maps, h) = (maps @ fst (add_entries prev es ([], h)), snd (add_entries prev es ([], h)))"
proof (induction es arbitrary: prev maps h)
  case (Cons e es)
  let ?c = "MapInfo_Create prev (me_start e) (me_end e) (me_pgoff e) (device_flags e) (me_name e) h"
  show ?case
    using Cons.IH [of "Some (fst ?c)" "maps @ [fst ?c]" "snd ?c"] Cons.IH [of "Some (fst ?c)" "[fst ?c]" "snd ?c"]
    by (simp add: case_prod_beta)
qed simp

text \<open>
  The objects that the callback adds: they are new, one for every entry, and linked to their neighbours;
  of what was there only the \<open>next\<close> of the map before the first may change.
\<close>

lemma add_entries_new:
  assumes "add_entries prev es ([], h) = (maps, h')" "prev = None \<or> the prev < length h"
  shows "maps = [length h..<length h + length es] \<and> length h' = length h + length es \<and>
    (\<forall>k < length es. entry_map (es ! k) (h' ! (length h + k)) \<and>
       mi_prev (h' ! (length h + k)) = (if k = 0 then prev else Some (length h + k - 1)) \<and>
       mi_next (h' ! (length h + k)) = (if Suc k < length es then Some (length h + k + 1) else None)) \<and>
    (\<forall>i < length h. h' ! i = (if prev = Some i \<and> es \<noteq> [] then (h ! i)\<lparr>mi_next := Some (length h)\<rparr> else h ! i))"
  using assms
proof (induction es arbitrary: prev h maps h')
  case (Cons e es)
  let ?n = "length h"
  let ?new = "MapInfo_new prev (me_start e) (me_end e) (me_pgoff e) (device_flags e) (me_name e)"
  define h1 where "h1 = (case prev of None \<Rightarrow> h @ [?new] | Some p \<Rightarrow> set_next_map p (Some ?n) (h @ [?new]))"
  have l: "length h1 = Suc ?n" by (simp add: h1_def set_next_map_def update_info_def split: option.splits)
  have at: "h1 ! i = (if i = ?n then ?new else if prev = Some i then (h ! i)\<lparr>mi_next := Some ?n\<rparr> else h ! i)" if "i \<le> ?n" for i
    using Cons.prems(2) that by (auto simp: h1_def set_next_map_def update_info_def nth_append nth_list_update split: option.splits)
  have "add_entries prev (e # es) ([], h) = add_entries (Some ?n) es ([?n], h1)"
    by (simp add: MapInfo_Create_def Let_def h1_def)
  then obtain maps1 where a: "add_entries (Some ?n) es ([], h1) = (maps1, h')" and maps: "maps = ?n # maps1"
    using Cons.prems(1) add_entries_append [of "Some ?n" es "[?n]" h1] by (cases "add_entries (Some ?n) es ([], h1)") auto
  note IH = Cons.IH [OF a]
  have IH: "maps1 = [Suc ?n..<Suc ?n + length es]" "length h' = Suc ?n + length es"
    "\<And>k. k < length es \<Longrightarrow> entry_map (es ! k) (h' ! (Suc ?n + k)) \<and>
       mi_prev (h' ! (Suc ?n + k)) = (if k = 0 then Some ?n else Some (Suc ?n + k - 1)) \<and>
       mi_next (h' ! (Suc ?n + k)) = (if Suc k < length es then Some (Suc ?n + k + 1) else None)"
    "\<And>i. i < Suc ?n \<Longrightarrow> h' ! i = (if i = ?n \<and> es \<noteq> [] then (h1 ! i)\<lparr>mi_next := Some (Suc ?n)\<rparr> else h1 ! i)"
    using IH l by auto
  have new: "entry_map e (h' ! ?n) \<and> mi_prev (h' ! ?n) = prev \<and> mi_next (h' ! ?n) = (if es = [] then None else Some (Suc ?n))"
    using IH(4) [of ?n] at [of ?n] by (simp add: entry_map_def MapInfo_new_def)
  have "entry_map ((e # es) ! k) (h' ! (?n + k)) \<and>
       mi_prev (h' ! (?n + k)) = (if k = 0 then prev else Some (?n + k - 1)) \<and>
       mi_next (h' ! (?n + k)) = (if Suc k < length (e # es) then Some (?n + k + 1) else None)" if "k < length (e # es)" for k
  proof (cases k)
    case 0
    then show ?thesis using new by simp
  next
    case (Suc j)
    then show ?thesis using IH(3) [of j] that by auto
  qed
  moreover have "h' ! i = (if prev = Some i then (h ! i)\<lparr>mi_next := Some ?n\<rparr> else h ! i)" if "i < ?n" for i
    using IH(4) [of i] at [of i] that by simp
  moreover have "maps = [?n..<?n + length (e # es)]" using maps IH(1) by (simp add: upt_conv_Cons del: upt_Suc)
  ultimately show ?case using IH(2) by simp
qed simp

text \<open>
  Property C24. Parsing undoes the kernel's formatting: from a maps file with any devices and any number of
  spaces before the names, \<open>Parse\<close> succeeds and creates one map for every mapping, in the order of the
  file, with its range, offset, name and protections (and the mark for devices), each linked to the map
  before and the map after it.
\<close>

theorem maps_file_roundtrip:
  assumes "\<forall>(dev, e) \<in> set l. entry_ok e"
  shows "\<exists>h. Maps_Parse (Some (maps_file l)) ([], []) = (True, [0..<length l], h) \<and> length h = length l \<and>
    (\<forall>k < length l. entry_map (snd (l ! k)) (h ! k) \<and>
       mi_prev (h ! k) = (if k = 0 then None else Some (k - 1)) \<and>
       mi_next (h ! k) = (if Suc k < length l then Some (Suc k) else None))"
proof -
  obtain maps h where a: "add_entries None (map snd l) ([], []) = (maps, h)" by fastforce
  have "Maps_Parse (Some (maps_file l)) ([], []) = (True, maps, h)"
    using ReadMapFileContent_text [OF assms] a by (simp add: Maps_Parse_def ReadMapFile_def)
  with add_entries_new [OF a] show ?thesis by auto
qed

end
