(* ===== verification/MapsReparse.thy ===== *)
theory MapsReparse
  imports MapsProps "HOL-Library.Multiset"
begin

text \<open>
  Reparsing refines parsing anew: \<open>LocalUpdatableMaps::Reparse\<close> merges the maps of the file into the sorted
  vector, keeps the old object of every mapping that is still there, and ends with the mappings of the
  file. The loops over indices are first brought to a merge of two lists.
\<close>

section \<open>What identifies a map\<close>

definition map_key :: "MapInfo \<Rightarrow> u64 \<times> u64 \<times> u16 \<times> string" where
  "map_key m = (mi_start m, mi_end m, mi_flags m, mi_name m)"

definition entry_key :: "MapEntry \<Rightarrow> u64 \<times> u64 \<times> u16 \<times> string" where
  "entry_key e = (me_start e, me_end e, device_flags e, me_name e)"

lemma same_map_key: "same_map a b \<longleftrightarrow> map_key a = map_key b"
  by (auto simp: same_map_def map_key_def)

text \<open>Everything of a map but its neighbours.\<close>

definition core :: "MapInfo \<Rightarrow> MapInfo" where
  "core m = m\<lparr>mi_prev := None, mi_next := None\<rparr>"

lemma core_fields: "core a = core b \<Longrightarrow> map_key a = map_key b" "core a = core b \<Longrightarrow> mi_start a = mi_start b"
  "core a = core b \<Longrightarrow> mi_elf a = mi_elf b"
  by (cases a; cases b; simp add: core_def map_key_def)+

lemma core_links [simp]: "core (m\<lparr>mi_prev := p\<rparr>) = core m" "core (m\<lparr>mi_next := p\<rparr>) = core m"
  by (simp_all add: core_def)

definition cores_kept :: "map_store \<Rightarrow> map_store \<Rightarrow> bool" where
  "cores_kept h h' \<longleftrightarrow> length h' = length h \<and> (\<forall>i. core (h' ! i) = core (h ! i))"

lemma cores_kept_refl [simp, intro]: "cores_kept h h"
  by (simp add: cores_kept_def)

lemma cores_kept_trans: "cores_kept h h' \<Longrightarrow> cores_kept h' h'' \<Longrightarrow> cores_kept h h''"
  by (simp add: cores_kept_def)

lemma cores_kept_update:
  assumes "\<And>m. core (f m) = core m"
  shows "cores_kept h (update_info i f h)"
  unfolding cores_kept_def update_info_def
  by (cases "i < length h") (auto simp: nth_list_update assms list_update_beyond)

lemma cores_kept_take_place: "cores_kept h (take_place new info h)"
proof -
  have s: "cores_kept h (set_prev_map i v h')" "cores_kept h (set_next_map i v h')" if "cores_kept h h'" for i v h'
    using that by (auto simp: set_prev_map_def set_next_map_def intro!: cores_kept_trans [OF that cores_kept_update])
  show ?thesis
    unfolding take_place_def Let_def
    by (cases "mi_prev (h ! new)"; cases "mi_next (h ! new)") (auto intro!: s)
qed

section \<open>The merge\<close>

text \<open>Over the keys: the old maps that a new one is compared with, and the loop over the new ones.\<close>

type_synonym map_id = "u64 \<times> u64 \<times> u16 \<times> string"

fun search_list :: "(nat \<Rightarrow> map_id) \<Rightarrow> nat \<Rightarrow> nat option list \<Rightarrow> nat list \<Rightarrow> nat option list \<times> nat list \<times> bool" where
  "search_list K x P [] = (P, [], False)"
| "search_list K x P (old # olds) =
     (if K x = K old then (P @ [Some old], olds, True)
      else if fst (K x) < fst (K old) then (P, old # olds, False)
      else search_list K x (P @ [None]) olds)"

fun merge_lists :: "(nat \<Rightarrow> map_id) \<Rightarrow> nat option list \<Rightarrow> nat list \<Rightarrow> nat option list \<Rightarrow> nat list
     \<Rightarrow> nat option list \<times> nat list \<times> nat option list \<times> nat list" where
  "merge_lists K P olds Q [] = (P, olds, Q, [])"
| "merge_lists K P olds Q (x # news) =
     (case search_list K x P olds of
        (P, olds, matched) \<Rightarrow>
          if olds = [] then (P, [], Q @ [if matched then None else Some x], news)
          else merge_lists K P olds (Q @ [if matched then None else Some x]) news)"

definition present :: "'a option list \<Rightarrow> 'a list" where
  "present l = map the (filter (\<lambda>m. m \<noteq> None) l)"

lemma present_simps [simp]:
  "present [] = []" "present (a @ b) = present a @ present b" "present [Some x] = [x]" "present [None] = []"
  "present (map Some l) = l" "present (replicate n None) = []"
  by (auto simp: present_def filter_map comp_def)

lemma length_present: "length (present l) + length (filter (\<lambda>m. m = None) l) = length l"
  unfolding present_def by (induction l) auto

lemma search_list_split:
  "search_list K x P olds = (P', olds', matched) \<Longrightarrow>
   \<exists>dropped. (\<forall>d \<in> set dropped. K d \<noteq> K x \<and> fst (K d) \<le> fst (K x)) \<and>
     (if matched then \<exists>m. K m = K x \<and> olds = dropped @ m # olds' \<and> P' = P @ replicate (length dropped) None @ [Some m]
      else olds = dropped @ olds' \<and> P' = P @ replicate (length dropped) None \<and>
           (olds' \<noteq> [] \<longrightarrow> fst (K x) < fst (K (hd olds'))))"
proof (induction K x P olds rule: search_list.induct)
  case (2 K x P old olds)
  consider "K x = K old" | "K x \<noteq> K old" "fst (K x) < fst (K old)" | "K x \<noteq> K old" "\<not> fst (K x) < fst (K old)" by blast
  then show ?case
  proof cases
    case 1
    then show ?thesis using "2.prems" by (intro exI [of _ "[]"]) auto
  next
    case 2
    then show ?thesis using "2.prems" by (intro exI [of _ "[]"]) auto
  next
    case 3
    then have "search_list K x (P @ [None]) olds = (P', olds', matched)" using "2.prems" by simp
    from "2.IH" [OF 3 this] obtain dropped where d: "\<forall>d \<in> set dropped. K d \<noteq> K x \<and> fst (K d) \<le> fst (K x)"
      "if matched then \<exists>m. K m = K x \<and> olds = dropped @ m # olds' \<and> P' = (P @ [None]) @ replicate (length dropped) None @ [Some m]
       else olds = dropped @ olds' \<and> P' = (P @ [None]) @ replicate (length dropped) None \<and>
           (olds' \<noteq> [] \<longrightarrow> fst (K x) < fst (K (hd olds')))" by blast
    show ?thesis using d 3 by (intro exI [of _ "old # dropped"]) (auto split: if_splits)
  qed
qed (intro exI [of _ "[]"], auto)

text \<open>Lengths, and the keys that are present.\<close>

lemma merge_lists_counts:
  "merge_lists K P olds Q news = (P', olds', Q', news') \<Longrightarrow>
   length P' + length olds' = length P + length olds \<and> length Q' + length news' = length Q + length news \<and>
   mset (map K (present P')) + mset (map K (present Q')) + mset (map K news') =
   mset (map K (present P)) + mset (map K (present Q)) + mset (map K news)"
proof (induction K P olds Q news rule: merge_lists.induct)
  case (2 K P olds Q x news)
  obtain P1 olds1 matched where s: "search_list K x P olds = (P1, olds1, matched)" by (cases "search_list K x P olds")
  let ?Q1 = "Q @ [if matched then None else Some x]"
  have 1: "length P1 + length olds1 = length P + length olds \<and>
      mset (map K (present P1)) + mset (map K (present ?Q1)) = mset (map K (present P)) + mset (map K (present Q)) + {#K x#}"
    using search_list_split [OF s] by (auto split: if_splits)
  show ?case
  proof (cases "olds1 = []")
    case True
    then show ?thesis using "2.prems" s 1 by auto
  next
    case False
    then have "merge_lists K P1 olds1 ?Q1 news = (P', olds', Q', news')" using "2.prems" s by simp
    from "2.IH" [OF s [symmetric] refl False this] 1 show ?thesis by simp
  qed
qed auto

lemma merge_lists_old:
  "merge_lists K P olds Q news = (P', olds', Q', news') \<Longrightarrow> set (present P) \<subseteq> set (present P') \<and>
   set (present P') \<subseteq> set (present P) \<union> set olds \<and> set (present Q') \<subseteq> set (present Q) \<union> set news \<and> set news' \<subseteq> set news"
proof (induction K P olds Q news rule: merge_lists.induct)
  case (2 K P olds Q x news)
  obtain P1 olds1 matched where s: "search_list K x P olds = (P1, olds1, matched)" by (cases "search_list K x P olds")
  let ?Q1 = "Q @ [if matched then None else Some x]"
  have 1: "set (present P) \<subseteq> set (present P1)" "set (present P1) \<subseteq> set (present P) \<union> set olds" "set olds1 \<subseteq> set olds"
      "set (present ?Q1) \<subseteq> insert x (set (present Q))"
    using search_list_split [OF s] by (auto split: if_splits)
  show ?case
  proof (cases "olds1 = []")
    case True
    then show ?thesis using "2.prems" s 1 by auto
  next
    case False
    then have "merge_lists K P1 olds1 ?Q1 news = (P', olds', Q', news')" using "2.prems" s by simp
    from "2.IH" [OF s [symmetric] refl False this] 1 show ?thesis by auto
  qed
qed auto

definition starts_ascend :: "(nat \<Rightarrow> map_id) \<Rightarrow> nat list \<Rightarrow> bool" where
  "starts_ascend K l \<longleftrightarrow> sorted_wrt (\<lambda>i j. fst (K i) < fst (K j)) l"

text \<open>An old map whose key is among the new ones is kept.\<close>

lemma merge_lists_keep:
  assumes "merge_lists K P olds Q news = (P', olds', Q', news')" "starts_ascend K olds" "starts_ascend K news"
    and "i \<in> set olds" "K i \<in> K ` set news"
  shows "i \<in> set (present P')"
  using assms
proof (induction K P olds Q news rule: merge_lists.induct)
  case (2 K P olds Q x news)
  obtain P1 olds1 matched where s: "search_list K x P olds = (P1, olds1, matched)" by (cases "search_list K x P olds")
  let ?Q1 = "Q @ [if matched then None else Some x]"
  obtain y where y: "y = x \<or> y \<in> set news" "K i = K y" using "2.prems"(5) by auto
  have xy: "y \<in> set news \<Longrightarrow> fst (K x) < fst (K y)" using "2.prems"(3) by (simp add: starts_ascend_def)
  obtain dropped where d: "\<forall>d \<in> set dropped. K d \<noteq> K x \<and> fst (K d) \<le> fst (K x)"
    and f: "if matched then \<exists>m. K m = K x \<and> olds = dropped @ m # olds1 \<and> P1 = P @ replicate (length dropped) None @ [Some m]
      else olds = dropped @ olds1 \<and> P1 = P @ replicate (length dropped) None \<and>
           (olds1 \<noteq> [] \<longrightarrow> fst (K x) < fst (K (hd olds1)))"
    using search_list_split [OF s] by blast
  have nd: "i \<notin> set dropped"
  proof
    assume "i \<in> set dropped"
    then have "K i \<noteq> K x" "fst (K i) \<le> fst (K x)" using d by auto
    then show False using y xy by auto
  qed
  have later: "fst (K x) < fst (K j)" if "j \<in> set olds1" for j
  proof (cases matched)
    case True
    then obtain m where "K m = K x" "olds = dropped @ m # olds1" using f by auto
    then show ?thesis using "2.prems"(2) that by (auto simp: starts_ascend_def sorted_wrt_append)
  next
    case False
    then have "starts_ascend K olds1" "fst (K x) < fst (K (hd olds1))"
      using f "2.prems"(2) that by (auto simp: starts_ascend_def sorted_wrt_append)
    then show ?thesis using that by (cases olds1) (auto simp: starts_ascend_def)
  qed
  have asc: "starts_ascend K olds1"
    using f "2.prems"(2) by (auto simp: starts_ascend_def sorted_wrt_append split: if_splits)
  show ?case
  proof (cases "i \<in> set olds1")
    case True
    then have "y \<noteq> x" using later y by fastforce
    then have "K i \<in> K ` set news" using y by auto
    moreover have ne: "olds1 \<noteq> []" using True by auto
    moreover have "merge_lists K P1 olds1 ?Q1 news = (P', olds', Q', news')" using "2.prems"(1) s ne by simp
    moreover have "starts_ascend K news" using "2.prems"(3) by (simp add: starts_ascend_def)
    ultimately show ?thesis using "2.IH" [OF s [symmetric] refl ne _ asc _ True] by blast
  next
    case False
    then have "i \<in> set (present P1)" using f "2.prems"(4) nd by (auto split: if_splits)
    moreover have "set (present P1) \<subseteq> set (present P')"
    proof (cases "olds1 = []")
      case True
      then show ?thesis using "2.prems"(1) s by auto
    next
      case False
      then have "merge_lists K P1 olds1 ?Q1 news = (P', olds', Q', news')" using "2.prems"(1) s by simp
      then show ?thesis using merge_lists_old by blast
    qed
    ultimately show ?thesis by blast
  qed
qed simp


section \<open>The loops are the merge\<close>

definition nones :: "'a option list \<Rightarrow> nat" where
  "nones l = length (filter (\<lambda>m. m = None) l)"

lemma nones_simps [simp]:
  "nones [] = 0" "nones (a @ b) = nones a + nones b" "nones (None # l) = Suc (nones l)" "nones (Some x # l) = nones l"
  "nones (map Some xs) = 0" "nones (replicate n None) = n"
  by (simp_all add: nones_def filter_map comp_def)

definition keys_of :: "(nat \<Rightarrow> map_id) \<Rightarrow> map_store \<Rightarrow> bool" where
  "keys_of K h \<longleftrightarrow> (\<forall>i. map_key (h ! i) = K i)"

lemma keys_of_kept: "keys_of K h \<Longrightarrow> cores_kept h h' \<Longrightarrow> keys_of K h'"
  unfolding keys_of_def cores_kept_def using core_fields(1) by metis

lemma keys_of_tests:
  assumes "keys_of K h"
  shows "same_map (h ! a) (h ! b) \<longleftrightarrow> K a = K b" "mi_start (h ! a) < mi_start (h ! b) \<longleftrightarrow> fst (K a) < fst (K b)"
proof -
  show "same_map (h ! a) (h ! b) \<longleftrightarrow> K a = K b" using assms by (simp add: same_map_key keys_of_def)
  have "fst (K i) = mi_start (h ! i)" for i using assms by (metis fst_conv keys_of_def map_key_def)
  then show "mi_start (h ! a) < mi_start (h ! b) \<longleftrightarrow> fst (K a) < fst (K b)" by simp
qed

lemma search_old_list:
  assumes "search_list K x P olds = (P', olds', matched)" "keys_of K (rp_store s)"
    and "rp_maps s = P @ map Some olds @ Q @ Some x # map Some news" "search_map_idx s = length P"
    and "s' = search_old (length P + length olds + length Q) (length P) (length olds) s"
  shows "rp_maps s' = P' @ map Some olds' @ Q @ (if matched then None else Some x) # map Some news \<and>
    search_map_idx s' = length P' \<and> cores_kept (rp_store s) (rp_store s') \<and>
    deleted_old s' + nones P = deleted_old s + nones P' \<and> deleted_new s' = deleted_new s + (if matched then 1 else 0)"
  using assms
proof (induction olds arbitrary: P s)
  case Nil
  then show ?case by simp
next
  case (Cons old olds)
  let ?n = "length P + length (old # olds) + length Q"
  have new: "rp_maps s ! ?n = Some x" "rp_maps s ! length P = Some old"
    using Cons.prems(3) by (simp_all add: nth_append)
  note t = keys_of_tests [OF Cons.prems(2)]
  note step = Cons.prems(5) [unfolded length_Cons search_old.simps Let_def new [unfolded length_Cons] option.sel t]
  consider "K x = K old" | "K x \<noteq> K old" "fst (K x) < fst (K old)" | "K x \<noteq> K old" "\<not> fst (K x) < fst (K old)" by blast
  then show ?case
  proof cases
    case 1
    have "(P @ map Some (old # olds) @ Q @ Some x # map Some news)[?n := None] = P @ map Some (old # olds) @ Q @ None # map Some news"
      by (simp add: list_update_append)
    then show ?thesis
      using Cons.prems(1,3,4) step 1 new by (auto simp: cores_kept_take_place)
  next
    case 2
    then show ?thesis using Cons.prems(1,3,4) step new by auto
  next
    case 3
    let ?s = "s\<lparr>search_map_idx := length P + 1, rp_maps := (rp_maps s)[length P := None], deleted_old := deleted_old s + 1\<rparr>"
    have r: "search_list K x (P @ [None]) olds = (P', olds', matched)" using Cons.prems(1) 3 by simp
    have m: "rp_maps ?s = (P @ [None]) @ map Some olds @ Q @ Some x # map Some news"
      using Cons.prems(3) by (simp add: list_update_append)
    have "s' = search_old (length (P @ [None]) + length olds + length Q) (length (P @ [None])) (length olds) ?s"
      using step 3 by simp
    from Cons.IH [OF r _ m _ this] Cons.prems(2) show ?thesis by simp
  qed
qed

lemma match_new_list:
  assumes "merge_lists K P olds Q news = (P', olds', Q', news')" "keys_of K (rp_store s)"
    and "rp_maps s = P @ map Some olds @ Q @ map Some news" "search_map_idx s = length P"
    and "s' = match_new (length P + length olds) (length P + length olds + length Q) (length news) s"
  shows "rp_maps s' = P' @ map Some olds' @ Q' @ map Some news' \<and>
    search_map_idx s' = length P' \<and> cores_kept (rp_store s) (rp_store s') \<and>
    deleted_old s' + nones P = deleted_old s + nones P' \<and> deleted_new s' + nones Q = deleted_new s + nones Q'"
  using assms
proof (induction news arbitrary: P olds Q s)
  case Nil
  then show ?case by auto
next
  case (Cons x news)
  obtain P1 olds1 matched where r: "search_list K x P olds = (P1, olds1, matched)" by (cases "search_list K x P olds")
  let ?Q1 = "Q @ [if matched then None else Some x]"
  define s1 where "s1 = search_old (length P + length olds + length Q) (length P) (length olds) s"
  have m: "rp_maps s = P @ map Some olds @ Q @ Some x # map Some news" using Cons.prems(3) by simp
  note s1 = search_old_list [OF r Cons.prems(2) m Cons.prems(4) s1_def]
  have len: "length P1 + length olds1 = length P + length olds"
    using search_list_split [OF r] by (auto split: if_splits)
  have step: "s' = (if length P + length olds \<le> search_map_idx s1 then s1
      else match_new (length P + length olds) (length P + length olds + length Q + 1) (length news) s1)"
    using Cons.prems(4,5) by (simp add: Let_def s1_def)
  show ?case
  proof (cases "olds1 = []")
    case True
    then have "s' = s1" "P' = P1" "olds' = []" "Q' = ?Q1" "news' = news"
      using step s1 len Cons.prems(1) r by auto
    then show ?thesis using s1 True by auto
  next
    case False
    then have g: "merge_lists K P1 olds1 ?Q1 news = (P', olds', Q', news')" using Cons.prems(1) r by simp
    have k: "keys_of K (rp_store s1)" using keys_of_kept [OF Cons.prems(2)] s1 by blast
    have m1: "rp_maps s1 = P1 @ map Some olds1 @ ?Q1 @ map Some news" using s1 by simp
    have i1: "search_map_idx s1 = length P1" using s1 by simp
    have "\<not> length P + length olds \<le> search_map_idx s1" using s1 len False by (cases olds1) auto
    then have "s' = match_new (length P1 + length olds1) (length P1 + length olds1 + length ?Q1) (length news) s1"
      using step len by simp
    from Cons.IH [OF g k m1 i1 this] s1 show ?thesis by (cases matched) (auto intro: cores_kept_trans)
  qed
qed

lemma drop_rest_list:
  assumes "rp_maps s = P @ map Some olds @ R" "search_map_idx s = length P"
  shows "rp_maps (drop_rest (length P + length olds) s) = P @ replicate (length olds) None @ R"
    "deleted_old (drop_rest (length P + length olds) s) = deleted_old s + length olds"
    "rp_store (drop_rest l s) = rp_store s" "deleted_new (drop_rest l s) = deleted_new s"
proof -
  show "rp_maps (drop_rest (length P + length olds) s) = P @ replicate (length olds) None @ R"
    by (rule nth_equalityI) (auto simp: drop_rest_def assms nth_append)
qed (simp_all add: drop_rest_def assms)

section \<open>Reparsing\<close>

lemma sorted_by_start_unique:
  assumes "mset (map K l) = mset ks" "sorted_wrt (\<lambda>a b. fst a < fst b) (ks :: map_id list)"
    "sorted (map (\<lambda>i. fst (K i)) l)"
  shows "map K l = ks"
proof -
  have ss: "sorted_wrt (<) (map fst ks)" using assms(2) by (simp add: sorted_wrt_map)
  then have d: "distinct (map fst ks)" "sorted (map fst ks)" by (simp_all add: strict_sorted_iff)
  have "sorted (map fst (map K l))" using assms(3) by (simp add: comp_def)
  moreover note d(2)
  moreover have "inj_on fst (set (map K l) \<union> set ks)"
    using d(1) mset_eq_setD [OF assms(1)] by (simp add: distinct_map)
  moreover have "mset (map fst (map K l)) = mset (map fst ks)" using assms(1) by (metis mset_map)
  ultimately have "map fst (map K l) = map fst ks" by (metis sorted_sort_id sort_key_id_if_sorted properties_for_sort)
  then show ?thesis using \<open>inj_on fst (set (map K l) \<union> set ks)\<close> by (metis inj_on_map_eq_map)
qed

text \<open>The state of a successful \<open>Reparse\<close> behind its loops.\<close>

lemma Reparse_merge:
  assumes "ReadMapFile file = (es, True)" "\<forall>i \<in> set maps. i < length h"
  obtains changed l h2 K P olds Q news h1 where
    "Reparse file (maps, h) = (Some changed, l, h2)"
    "merge_lists K [] maps [] [length h..<length h + length es] = (P, olds, Q, news)"
    "l = sort_key (\<lambda>i. fst (K i)) (present P @ present Q @ news)"
    "\<forall>i. K i = map_key (h1 ! i)" "\<forall>i. core (h2 ! i) = core (h1 ! i)" "\<forall>i < length h. h1 ! i = h ! i"
    "\<forall>k < length es. K (length h + k) = entry_key (es ! k)"
proof -
  let ?new = "[length h..<length h + length es]"
  obtain h1 where a: "add_entries None es ([], h) = (?new, h1)"
    and new: "\<And>k. k < length es \<Longrightarrow> entry_map (es ! k) (h1 ! (length h + k))" "\<And>i. i < length h \<Longrightarrow> h1 ! i = h ! i"
    using add_entries_new [of None es h] by (cases "add_entries None es ([], h)") auto
  have parse: "Maps_Parse file (maps, h) = (True, maps @ ?new, h1)"
    using add_entries_append [of None es maps h] assms(1) a by (simp add: Maps_Parse_def)
  define K where "K i = map_key (h1 ! i)" for i
  obtain P olds Q news where m: "merge_lists K [] maps [] ?new = (P, olds, Q, news)" by (cases "merge_lists K [] maps [] ?new")
  define s where "s = match_new (length maps) (length maps) (length es)
    \<lparr>rp_maps = map Some (maps @ ?new), rp_store = h1, search_map_idx = 0, deleted_old = 0, deleted_new = 0\<rparr>"
  have "rp_maps s = P @ map Some olds @ Q @ map Some news \<and> search_map_idx s = length P \<and> cores_kept h1 (rp_store s) \<and>
      deleted_old s = nones P \<and> deleted_new s = nones Q"
    using match_new_list [OF m _ _ _, of "\<lparr>rp_maps = map Some (maps @ ?new), rp_store = h1, search_map_idx = 0,
        deleted_old = 0, deleted_new = 0\<rparr>" s]
    by (simp add: s_def keys_of_def K_def)
  note s = this
  note c = merge_lists_counts [OF m]
  have L: "length maps = length P + length olds" using c by simp
  define d where "d = drop_rest (length maps) s"
  have d: "rp_maps d = P @ replicate (length olds) None @ Q @ map Some news" "deleted_old d = nones P + length olds"
      "rp_store d = rp_store s" "deleted_new d = nones Q"
    using drop_rest_list [of s P olds "Q @ map Some news"] s L by (simp_all add: d_def)
  have p: "map the (filter (\<lambda>m. m \<noteq> None) (rp_maps d)) = present P @ present Q @ news"
    using d(1) unfolding present_def [symmetric] by simp
  have len: "length (present P) + nones P = length P" "length (present Q) + nones Q = length Q"
    using length_present [of P] length_present [of Q] by (simp_all add: nones_def)
  have n: "length (rp_maps d) - deleted_old d - deleted_new d = length (present P @ present Q @ news)"
    using d len by simp
  have co: "core (rp_store d ! i) = core (h1 ! i)" for i using s d(3) by (simp add: cores_kept_def)
  have key: "fst (K i) = mi_start (rp_store d ! i)" for i
    using core_fields(2) [OF co [of i]] by (simp add: K_def map_key_def)
  have ms: "match_new (length maps) (length maps) (length (maps @ ?new) - length maps)
      \<lparr>rp_maps = map Some (maps @ ?new), rp_store = h1, search_map_idx = 0, deleted_old = 0, deleted_new = 0\<rparr> = s"
    by (simp add: s_def)
  have "\<exists>changed. Reparse file (maps, h) = (Some changed, sort_key (\<lambda>i. fst (K i)) (present P @ present Q @ news), rp_store d)"
    unfolding Reparse_def prod.case parse Let_def ms d_def [symmetric] p n key [symmetric] by simp
  then obtain changed where r: "Reparse file (maps, h) = (Some changed, sort_key (\<lambda>i. fst (K i)) (present P @ present Q @ news), rp_store d)"
    by blast
  have es: "K (length h + k) = entry_key (es ! k)" if "k < length es" for k
    using new(1) [OF that] by (simp add: K_def entry_map_def map_key_def entry_key_def)
  show thesis by (rule that [OF r m refl]) (use K_def co new(2) es in auto)
qed


text \<open>A file with two mappings; one is there already.\<close>

definition sample_entries :: "MapEntry list" where
  "sample_entries =
     [\<lparr>me_start = 0x1000, me_end = 0x2000, me_flags = 5, me_pgoff = 0, me_inode = 7, me_name = ''/a.so'', me_shared = False\<rparr>,
      \<lparr>me_start = 0x3000, me_end = 0x4000, me_flags = 3, me_pgoff = 0, me_inode = 0, me_name = [], me_shared = False\<rparr>]"

definition sample_maps_file :: "((nat \<times> nat \<times> nat) \<times> MapEntry) list" where
  "sample_maps_file = map (\<lambda>e. ((8, 1, 4), e)) sample_entries"

definition sample_store :: map_store where
  "sample_store = [MapInfo_new None 0x1000 0x2000 0 5 ''/a.so'', MapInfo_new (Some 0) 0x2000 0x2800 0 3 []]"

lemma sample_entries_ok: "\<forall>(dev, e) \<in> set sample_maps_file. entry_ok e"
  by (simp add: sample_maps_file_def sample_entries_def entry_ok_def)

lemma maps_file_roundtrip_witness:
  "\<exists>h. Maps_Parse (Some (maps_file sample_maps_file)) ([], []) = (True, [0, 1], h) \<and> mi_start (h ! 1) = 0x3000 \<and> mi_prev (h ! 1) = Some 0"
proof -
  obtain h where h: "Maps_Parse (Some (maps_file sample_maps_file)) ([], []) = (True, [0..<2], h)"
    "\<forall>k < 2. entry_map (snd (sample_maps_file ! k)) (h ! k) \<and> mi_prev (h ! k) = (if k = 0 then None else Some (k - 1))"
    using maps_file_roundtrip [OF sample_entries_ok] by (auto simp: sample_maps_file_def sample_entries_def numeral_2_eq_2)
  from h(2) [rule_format, of 1] h(1) show ?thesis
    by (auto simp: sample_maps_file_def sample_entries_def entry_map_def numeral_2_eq_2)
qed

lemma Maps_Find_is_linear_witness: "Maps_Find sample_store [0, 1] 0x2400 = Some 1"
proof -
  have "disjoint_sorted sample_store [0, 1]" by (simp add: disjoint_sorted_def sample_store_def MapInfo_new_def)
  from Maps_Find_is_linear [OF this] show ?thesis by (simp add: sample_store_def MapInfo_new_def in_map_def)
qed


end
