(* ===== verification/MapElf.thy ===== *)
theory MapElf
  imports MapsModel ElfObject
begin

text \<open>
  The ELF file behind a map: \<open>unwindstack/MapInfo.cpp\<close>, and the cache of ELF objects in \<open>Elf.cpp\<close>. The
  contents of files by name, \<open>files\<close>, are a parameter. The mutexes exclude other threads from one
  object and have no effect in one thread.
\<close>

section \<open>Store\<close>

text \<open>The objects of both classes, and the static members of \<open>Elf\<close>.\<close>

record Store =
  map_objects :: map_store
  elf_objects :: "Elf list"
  cache_enabled :: bool
  elf_cache :: "string \<rightharpoonup> (u64 \<rightharpoonup> nat)"

text \<open>Actions on the store: \<open>None\<close> does not return. Nothing here fails but by its result.\<close>

type_synonym ('x, 's) action = "'s \<Rightarrow> ('x, 's) outcome option"
type_synonym 'x act = "('x, Store) action"

definition act_return :: "'x \<Rightarrow> ('x, 's) action" where
  "act_return x s = Some (Done x s)"

definition act_bind :: "('x, 's) action \<Rightarrow> ('x \<Rightarrow> ('y, 's) action) \<Rightarrow> ('y, 's) action" where
  "act_bind m f s =
     (case m s of
        None \<Rightarrow> None
      | Some Undef \<Rightarrow> Some Undef
      | Some (Failed s) \<Rightarrow> Some (Failed s)
      | Some (Done x s) \<Rightarrow> f x s)"

text \<open>A computation without effect on the store that need not return or is undefined (the inner \<open>None\<close>).\<close>

definition act_value :: "'x option option \<Rightarrow> ('x, 's) action" where
  "act_value v s = (case v of None \<Rightarrow> None | Some None \<Rightarrow> Some Undef | Some (Some x) \<Rightarrow> Some (Done x s))"

definition act_info :: "nat \<Rightarrow> MapInfo act" where
  "act_info i s = Some (Done (map_objects s ! i) s)"

definition act_set :: "nat \<Rightarrow> (MapInfo \<Rightarrow> MapInfo) \<Rightarrow> unit act" where
  "act_set i f s = Some (Done () (s\<lparr>map_objects := update_info i f (map_objects s)\<rparr>))"

section \<open>Neighbours\<close>

text \<open>The walk over blank maps to the neighbour with the same name; in a ring of blank maps it would not end.\<close>

partial_function (option) walk :: "(MapInfo \<Rightarrow> nat option) \<Rightarrow> map_store \<Rightarrow> string \<Rightarrow> nat option \<Rightarrow> nat option option" where
  "walk link h name p =
     (if p = None then Some None
      else
        (let m = h ! the p in
         if \<not> IsBlank m then Some (if mi_name m = name then p else None)
         else walk link h name (link m)))"

definition GetPrevRealMap :: "nat \<Rightarrow> map_store \<Rightarrow> nat option option" where
  "GetPrevRealMap i h = (if mi_name (h ! i) = [] then Some None else walk mi_prev h (mi_name (h ! i)) (mi_prev (h ! i)))"

definition GetNextRealMap :: "nat \<Rightarrow> map_store \<Rightarrow> nat option option" where
  "GetNextRealMap i h = (if mi_name (h ! i) = [] then Some None else walk mi_next h (mi_name (h ! i)) (mi_next (h ! i)))"

definition act_prev_real :: "nat \<Rightarrow> nat option act" where
  "act_prev_real i s = act_value (map_option Some (GetPrevRealMap i (map_objects s))) s"

definition act_next_real :: "nat \<Rightarrow> nat option act" where
  "act_next_real i s = act_value (map_option Some (GetNextRealMap i (map_objects s))) s"

definition ElfFileNotReadable :: "MapInfo \<Rightarrow> bool" where
  "ElfFileNotReadable m \<longleftrightarrow>
     mi_memory_backed_elf m \<and> mi_name m \<noteq> [] \<and> hd (mi_name m) \<noteq> CHR ''['' \<and> take 7 (mi_name m) \<noteq> ''/memfd:''"

section \<open>Memory of the file\<close>

text \<open>\<open>MemoryFileAtOffset::Init\<close> on a file by name; \<open>None\<close> is \<open>return false\<close>.\<close>

definition file_memory :: "(string \<Rightarrow> u8 list option) \<Rightarrow> string \<Rightarrow> u64 \<Rightarrow> u64 \<Rightarrow> reader option" where
  "file_memory files name offset sz = map_option MemoryFileAtOffset_Read (MemoryFileAtOffset_Init (files name) offset sz)"

definition InitFileMemoryFromPreviousReadOnlyMap :: "(string \<Rightarrow> u8 list option) \<Rightarrow> nat \<Rightarrow> reader option act" where
  "InitFileMemoryFromPreviousReadOnlyMap files i =
     act_bind (act_info i) (\<lambda>m.
     act_bind (act_prev_real i) (\<lambda>p s.
       case p of
         None \<Rightarrow> act_return None s
       | Some p \<Rightarrow>
           (let prev = map_objects s ! p; map_size = mi_end m - mi_end prev in
            if mi_flags prev \<noteq> PROT_READ \<or> mi_offset prev \<ge> mi_offset m then act_return None s
            else
              (case file_memory files (mi_name m) (mi_offset prev) map_size of
                 None \<Rightarrow> act_return None s
               | Some rd \<Rightarrow>
                   (case Elf_GetInfo (Some rd) of
                      None \<Rightarrow> Some Undef
                    | Some None \<Rightarrow> act_return None s
                    | Some (Some max_size) \<Rightarrow>
                        if max_size < map_size then act_return None s
                        else
                          (case file_memory files (mi_name m) (mi_offset prev) max_size of
                             None \<Rightarrow> act_return None s
                           | Some rd \<Rightarrow>
                               act_bind (act_set i (\<lambda>m. m\<lparr>mi_elf_offset := mi_offset m - mi_offset prev,
                                                          mi_elf_start_offset := mi_offset prev\<rparr>))
                                 (\<lambda>_. act_return (Some rd)) s))))))"

text \<open>The map starts with an ELF file of its own, which may be longer than the map.\<close>

definition embedded_elf :: "(string \<Rightarrow> u8 list option) \<Rightarrow> nat \<Rightarrow> u64 \<Rightarrow> u64 \<Rightarrow> reader \<Rightarrow> reader option act" where
  "embedded_elf files i map_size max_size rd =
     act_bind (act_info i) (\<lambda>m.
     act_bind (act_set i (\<lambda>m. m\<lparr>mi_elf_start_offset := mi_offset m\<rparr>)) (\<lambda>_.
       if max_size \<le> map_size then act_return (Some rd)
       else
         (case file_memory files (mi_name m) (mi_offset m) max_size of
            Some rd \<Rightarrow> act_return (Some rd)
          | None \<Rightarrow>
              (case file_memory files (mi_name m) (mi_offset m) map_size of
                 Some rd \<Rightarrow> act_return (Some rd)
               | None \<Rightarrow>
                   act_bind (act_set i (\<lambda>m. m\<lparr>mi_elf_start_offset := 0\<rparr>)) (\<lambda>_. act_return None)))))"

text \<open>No ELF file at the offset: the whole file, the read-only map before, or the map as it is.\<close>

definition surrounding_elf :: "(string \<Rightarrow> u8 list option) \<Rightarrow> nat \<Rightarrow> u64 \<Rightarrow> reader option act" where
  "surrounding_elf files i map_size =
     act_bind (act_info i) (\<lambda>m.
       let whole = file_memory files (mi_name m) 0 u64_max in
       if IsValidElf whole then
         act_bind (act_set i (\<lambda>m. m\<lparr>mi_elf_offset := mi_offset m\<rparr>)) (\<lambda>_. act_return whole)
       else
         act_bind (InitFileMemoryFromPreviousReadOnlyMap files i) (\<lambda>r.
           case r of
             Some rd \<Rightarrow> act_return (Some rd)
           | None \<Rightarrow> act_return (file_memory files (mi_name m) (mi_offset m) map_size)))"

definition GetFileMemory :: "(string \<Rightarrow> u8 list option) \<Rightarrow> nat \<Rightarrow> reader option act" where
  "GetFileMemory files i =
     act_bind (act_info i) (\<lambda>m.
       if mi_flags m AND MAPS_FLAGS_DEVICE_MAP \<noteq> 0 then act_return None
       else if mi_offset m = 0 then act_return (file_memory files (mi_name m) 0 u64_max)
       else
         (let map_size = max (mi_end m - mi_start m) 64 in
          case file_memory files (mi_name m) (mi_offset m) map_size of
            None \<Rightarrow> act_return None
          | Some rd \<Rightarrow>
              (case Elf_GetInfo (Some rd) of
                 None \<Rightarrow> (\<lambda>s. Some Undef)
               | Some (Some max_size) \<Rightarrow> embedded_elf files i map_size max_size rd
               | Some None \<Rightarrow> surrounding_elf files i map_size)))"

section \<open>Memory of the process\<close>

definition map_range :: "MapInfo \<Rightarrow> u64 \<Rightarrow> Range" where
  "map_range m offset = \<lparr>rg_begin = mi_start m, rg_length = mi_end m - mi_start m, rg_offset = offset\<rparr>"

text \<open>The map starts with an ELF header: alone, or with the next map of the file.\<close>

definition header_memory :: "reader \<Rightarrow> nat \<Rightarrow> reader option act" where
  "header_memory pm i =
     act_bind (act_set i (\<lambda>m. m\<lparr>mi_elf_start_offset := mi_offset m\<rparr>)) (\<lambda>_.
     act_bind (act_info i) (\<lambda>m.
     act_bind (act_next_real i) (\<lambda>n s.
       let alone = act_return (Some (MemoryRange_Read pm (map_range m 0))) s in
       case n of
         None \<Rightarrow> alone
       | Some n \<Rightarrow>
           (let nxt = map_objects s ! n in
            if mi_offset m \<noteq> 0 \<or> mi_offset m \<ge> mi_offset nxt then alone
            else
              (let r1 = snd (MemoryRanges_Insert [] (pm, map_range m 0));
                   r2 = snd (MemoryRanges_Insert r1 (pm, map_range nxt (mi_offset nxt - mi_offset m)))
               in act_return (Some (MemoryRanges_Read r2)) s)))))"

text \<open>The header is in the read-only map before this one.\<close>

definition split_memory :: "reader \<Rightarrow> nat \<Rightarrow> reader option act" where
  "split_memory pm i =
     act_bind (act_info i) (\<lambda>m.
     act_bind (act_prev_real i) (\<lambda>p s.
       let none = act_bind (act_set i (\<lambda>m. m\<lparr>mi_memory_backed_elf := False\<rparr>)) (\<lambda>_. act_return None) s in
       case p of
         None \<Rightarrow> none
       | Some p \<Rightarrow>
           (let prev = map_objects s ! p in
            if mi_offset m = 0 \<or> mi_offset prev \<ge> mi_offset m then none
            else
              act_bind (act_set i (\<lambda>m. m\<lparr>mi_elf_offset := mi_offset m - mi_offset prev,
                                         mi_elf_start_offset := mi_offset prev\<rparr>)) (\<lambda>_.
                let (ok1, r1) = MemoryRanges_Insert [] (pm, map_range prev 0);
                    (ok2, r2) = MemoryRanges_Insert r1 (pm, map_range m (mi_offset m - mi_offset prev))
                in act_return (if \<not> ok1 \<or> \<not> ok2 then None else Some (MemoryRanges_Read r2))) s)))"

definition CreateMemory :: "(string \<Rightarrow> u8 list option) \<Rightarrow> reader option \<Rightarrow> nat \<Rightarrow> reader option act" where
  "CreateMemory files process_memory i =
     act_bind (act_info i) (\<lambda>m.
       if mi_end m \<le> mi_start m then act_return None
       else
         act_bind (act_set i (\<lambda>m. m\<lparr>mi_elf_offset := 0\<rparr>)) (\<lambda>_.
           if mi_flags m AND MAPS_FLAGS_DEVICE_MAP \<noteq> 0 then act_return None
           else
             act_bind (if mi_name m \<noteq> [] then GetFileMemory files i else act_return None) (\<lambda>r.
               case r of
                 Some rd \<Rightarrow> act_return (Some rd)
               | None \<Rightarrow>
                   (case process_memory of
                      None \<Rightarrow> act_return None
                    | Some pm \<Rightarrow>
                        act_bind (act_set i (\<lambda>m. m\<lparr>mi_memory_backed_elf := True\<rparr>)) (\<lambda>_.
                          if IsValidElf (Some (MemoryRange_Read pm (map_range m 0))) then header_memory pm i
                          else split_memory pm i)))))"

section \<open>The cache\<close>

definition SetCachingEnabled :: "bool \<Rightarrow> Store \<Rightarrow> Store" where
  "SetCachingEnabled enable s =
     (if \<not> cache_enabled s \<and> enable then s\<lparr>cache_enabled := True, elf_cache := Map.empty\<rparr>
      else if cache_enabled s \<and> \<not> enable then s\<lparr>cache_enabled := False, elf_cache := Map.empty\<rparr>
      else s)"

text \<open>\<open>emplace\<close> keeps an entry that is there.\<close>

definition CacheAdd :: "nat \<Rightarrow> Store \<Rightarrow> Store" where
  "CacheAdd i s =
     (let m = map_objects s ! i; e = the (mi_elf m) in
      if \<not> elf_valid (elf_objects s ! e) then s
      else
        (let offsets = (case elf_cache s (mi_name m) of None \<Rightarrow> Map.empty | Some c \<Rightarrow> c);
             offsets = (if offsets (mi_elf_start_offset m) = None then offsets(mi_elf_start_offset m \<mapsto> e) else offsets)
         in s\<lparr>elf_cache := (elf_cache s)(mi_name m \<mapsto> offsets)\<rparr>))"

text \<open>The offset under which the object of the map is cached: of the whole file, of the map, of the map before.\<close>

definition cached_offset :: "nat \<Rightarrow> (u64 \<rightharpoonup> nat) \<Rightarrow> map_store \<Rightarrow> u64 option option" where
  "cached_offset i offsets h =
     (let m = h ! i in
      if offsets 0 \<noteq> None then Some (Some 0)
      else if offsets (mi_offset m) \<noteq> None then Some (Some (mi_offset m))
      else if mi_flags m AND PROT_EXEC = 0 then Some None
      else
        (case GetPrevRealMap i h of
           None \<Rightarrow> None
         | Some None \<Rightarrow> Some None
         | Some (Some p) \<Rightarrow>
             (let prev = h ! p in
              if mi_offset m \<le> mi_offset prev \<or> mi_flags prev \<noteq> PROT_READ then Some None
              else Some (if offsets (mi_offset prev) = None then None else Some (mi_offset prev)))))"

definition CacheGet :: "nat \<Rightarrow> bool act" where
  "CacheGet i s =
     (let m = map_objects s ! i in
      case elf_cache s (mi_name m) of
        None \<Rightarrow> act_return False s
      | Some offsets \<Rightarrow>
          (case cached_offset i offsets (map_objects s) of
             None \<Rightarrow> None
           | Some None \<Rightarrow> act_return False s
           | Some (Some start) \<Rightarrow>
               act_bind (act_set i (\<lambda>m. m\<lparr>mi_elf := offsets start, mi_elf_start_offset := start,
                                          mi_elf_offset := mi_offset m - start\<rparr>))
                 (\<lambda>_. act_return True) s))"

section \<open>The ELF object of a map\<close>

text \<open>A new object, initialised, and made invalid when it is for another architecture.\<close>

definition new_elf :: "u64 \<Rightarrow> reader option \<Rightarrow> ArchEnum \<Rightarrow> nat act" where
  "new_elf junk memory expected_arch s =
     (let add = (\<lambda>e. Some (Done (length (elf_objects s)) (s\<lparr>elf_objects := elf_objects s @ [e]\<rparr>))) in
      case Elf_Init junk (Elf_new memory) of
        None \<Rightarrow> None
      | Some Undef \<Rightarrow> Some Undef
      | Some (Failed e) \<Rightarrow> add e
      | Some (Done _ e) \<Rightarrow> add (if elf_valid e \<and> expected_arch \<noteq> elf_arch e then Elf_Invalidate e else e))"

text \<open>The read-only map before the map shares the object.\<close>

definition share_elf :: "nat \<Rightarrow> unit act" where
  "share_elf i =
     act_bind (act_info i) (\<lambda>m.
     act_bind (act_prev_real i) (\<lambda>p s.
       case p of
         None \<Rightarrow> act_return () s
       | Some p \<Rightarrow>
           (let prev = map_objects s ! p in
            if mi_flags prev \<noteq> PROT_READ \<or> mi_offset prev \<ge> mi_offset m then act_return () s
            else if mi_elf prev = None then
              act_set p (\<lambda>prev. prev\<lparr>mi_elf := mi_elf m, mi_memory_backed_elf := mi_memory_backed_elf m,
                 mi_elf_start_offset := mi_elf_start_offset m,
                 mi_elf_offset := mi_offset prev - mi_elf_start_offset m\<rparr>) s
            else if mi_elf_start_offset prev = mi_elf_start_offset m then
              act_set i (\<lambda>m. m\<lparr>mi_elf := mi_elf prev\<rparr>) s
            else act_return () s)))"

definition create_elf :: "u64 \<Rightarrow> (string \<Rightarrow> u8 list option) \<Rightarrow> reader option \<Rightarrow> ArchEnum \<Rightarrow> nat \<Rightarrow> nat act" where
  "create_elf junk files process_memory expected_arch i =
     act_bind (CreateMemory files process_memory i) (\<lambda>memory.
     act_bind (new_elf junk memory expected_arch) (\<lambda>e.
     act_bind (act_set i (\<lambda>m. m\<lparr>mi_elf := Some e\<rparr>)) (\<lambda>_.
     act_bind (\<lambda>s. if \<not> elf_valid (elf_objects s ! e) then act_set i (\<lambda>m. m\<lparr>mi_elf_start_offset := mi_offset m\<rparr>) s
                  else share_elf i s) (\<lambda>_ s.
       let s = (if cache_enabled s then CacheAdd i s else s)
       in act_return (the (mi_elf (map_objects s ! i))) s))))"

definition GetElf :: "u64 \<Rightarrow> (string \<Rightarrow> u8 list option) \<Rightarrow> reader option \<Rightarrow> ArchEnum \<Rightarrow> nat \<Rightarrow> nat act" where
  "GetElf junk files process_memory expected_arch i s =
     (case mi_elf (map_objects s ! i) of
        Some e \<Rightarrow> act_return e s
      | None \<Rightarrow>
          act_bind (if cache_enabled s \<and> mi_name (map_objects s ! i) \<noteq> [] then CacheGet i else act_return False) (\<lambda>found s.
            if found then act_return (the (mi_elf (map_objects s ! i))) s
            else create_elf junk files process_memory expected_arch i s) s)"

section \<open>Queries\<close>

definition act_elf :: "nat \<Rightarrow> Elf act" where
  "act_elf e s = Some (Done (elf_objects s ! e) s)"

definition set_elf_object :: "nat \<Rightarrow> Elf \<Rightarrow> Store \<Rightarrow> Store" where
  "set_elf_object i e s = s\<lparr>elf_objects := (elf_objects s)[i := e]\<rparr>"

definition MapInfo_GetFunctionName :: "u64 \<Rightarrow> nat \<Rightarrow> Store \<Rightarrow> (u8 list \<times> u64) option \<times> Store" where
  "MapInfo_GetFunctionName addr i s =
     (case mi_elf (map_objects s ! i) of
        None \<Rightarrow> (None, s)
      | Some e \<Rightarrow> (let (r, elf) = Elf_GetFunctionName addr (elf_objects s ! e) in (r, set_elf_object e elf s)))"

definition MapInfo_GetLoadBias :: "nat \<Rightarrow> Store \<Rightarrow> u64 \<times> Store" where
  "MapInfo_GetLoadBias i s =
     (let m = map_objects s ! i in
      if mi_load_bias m \<noteq> u64_max then (mi_load_bias m, s)
      else
        (case mi_elf m of
           None \<Rightarrow> (u64_max, s)
         | Some e \<Rightarrow>
             (let elf = elf_objects s ! e; bias = (if elf_valid elf then elf_load_bias elf else 0)
              in (bias, s\<lparr>map_objects := update_info i (mi_load_bias_update (\<lambda>_. bias)) (map_objects s)\<rparr>))))"

text \<open>The overload that reads the file.\<close>

definition MapInfo_GetLoadBias_memory :: "(string \<Rightarrow> u8 list option) \<Rightarrow> reader option \<Rightarrow> nat \<Rightarrow> u64 act" where
  "MapInfo_GetLoadBias_memory files process_memory i s =
     (let (bias, s) = MapInfo_GetLoadBias i s in
      if bias \<noteq> u64_max then act_return bias s
      else
        act_bind (CreateMemory files process_memory i) (\<lambda>memory.
          let bias = Elf_GetLoadBias_static memory
          in act_bind (act_set i (\<lambda>m. m\<lparr>mi_load_bias := bias\<rparr>)) (\<lambda>_. act_return bias)) s)"

definition text_of :: "u8 list \<Rightarrow> string" where
  "text_of bs = map (\<lambda>b. char_of (unat b)) bs"

definition GetFullName :: "nat \<Rightarrow> string act" where
  "GetFullName i s =
     (let m = map_objects s ! i in
      case mi_elf m of
        None \<Rightarrow> act_return (mi_name m) s
      | Some e \<Rightarrow>
          if mi_elf_start_offset m = 0 \<or> mi_name m = [] then act_return (mi_name m) s
          else
            (case Elf_GetSoname (elf_objects s ! e) of
               None \<Rightarrow> None
             | Some (so, elf) \<Rightarrow>
                 act_return (if so = [] then mi_name m
                             else mi_name m @ ''!'' @ text_of so) (set_elf_object e elf s)))"

text \<open>The value is saved only when none was.\<close>

definition SetBuildID :: "u8 list \<Rightarrow> nat \<Rightarrow> Store \<Rightarrow> u8 list \<times> Store" where
  "SetBuildID new_id i s =
     (case mi_build_id (map_objects s ! i) of
        Some b \<Rightarrow> (b, s)
      | None \<Rightarrow> (new_id, s\<lparr>map_objects := update_info i (mi_build_id_update (\<lambda>_. Some new_id)) (map_objects s)\<rparr>))"

definition MapInfo_GetBuildID :: "(string \<Rightarrow> u8 list option) \<Rightarrow> nat \<Rightarrow> u8 list act" where
  "MapInfo_GetBuildID files i s =
     (case mi_build_id (map_objects s ! i) of
        Some b \<Rightarrow> act_return b s
      | None \<Rightarrow>
          act_bind
            (case mi_elf (map_objects s ! i) of
               Some e \<Rightarrow> act_value (map_option Some (Elf_GetBuildID (elf_objects s ! e)))
             | None \<Rightarrow>
                 act_bind (GetFileMemory files i) (\<lambda>memory.
                   if memory = None then act_return []
                   else act_value (case Elf_GetBuildID_static memory of
                       None \<Rightarrow> Some None | Some None \<Rightarrow> None | Some (Some b) \<Rightarrow> Some (Some b))))
            (\<lambda>result s. let (b, s) = SetBuildID result i s in act_return b s) s)"

definition MapInfo_GetPrintableBuildID :: "(string \<Rightarrow> u8 list option) \<Rightarrow> nat \<Rightarrow> string act" where
  "MapInfo_GetPrintableBuildID files i =
     act_bind (MapInfo_GetBuildID files i) (\<lambda>b. act_return (printable_build_id b))"

end
