(* ===== verification/StoreProps.thy ===== *)
theory StoreProps
  imports MapElf ElfProps
begin

text \<open>
  Properties of the objects behind the maps: \<open>GetElf\<close> keeps the store well typed, gives every map one
  object that it never takes back, and shares objects only as the code documents.
\<close>

section \<open>Actions that leave the ELF objects alone\<close>

text \<open>What the memory of a map may be determined with: only its offsets and the mark for memory change.\<close>

definition bare :: "MapInfo \<Rightarrow> MapInfo" where
  "bare m = m\<lparr>mi_elf_offset := 0, mi_elf_start_offset := 0, mi_memory_backed_elf := False\<rparr>"

lemma bare_update [simp]:
  "bare (m\<lparr>mi_elf_offset := a\<rparr>) = bare m" "bare (m\<lparr>mi_elf_start_offset := a\<rparr>) = bare m" "bare (m\<lparr>mi_memory_backed_elf := b\<rparr>) = bare m"
  by (simp_all add: bare_def)

lemma bare_fields:
  assumes "bare a = bare b"
  shows "mi_elf a = mi_elf b" "mi_prev a = mi_prev b" "mi_next a = mi_next b" "mi_name a = mi_name b"
  using assms by (cases a; cases b; simp add: bare_def)+

definition elf_frame :: "Store \<Rightarrow> Store \<Rightarrow> bool" where
  "elf_frame s t \<longleftrightarrow> elf_objects t = elf_objects s \<and> elf_cache t = elf_cache s \<and> cache_enabled t = cache_enabled s \<and>
     length (map_objects t) = length (map_objects s) \<and> (\<forall>j. bare (map_objects t ! j) = bare (map_objects s ! j))"

lemma elf_frame_refl [simp]: "elf_frame s s"
  by (simp add: elf_frame_def)

lemma elf_frame_trans: "elf_frame s t \<Longrightarrow> elf_frame t u \<Longrightarrow> elf_frame s u"
  by (simp add: elf_frame_def)

text \<open>A result that is no failure and has changed no more than that.\<close>

definition framed :: "Store \<Rightarrow> ('x, Store) outcome option \<Rightarrow> bool" where
  "framed s r \<longleftrightarrow> (case r of None \<Rightarrow> True | Some Undef \<Rightarrow> True | Some (Failed t) \<Rightarrow> False | Some (Done x t) \<Rightarrow> elf_frame s t)"

named_theorems framed

lemma framed_Done: "framed s (Some (Done x t)) \<longleftrightarrow> elf_frame s t"
  by (simp add: framed_def)

lemma framed_simple [framed]: "framed s (act_return x s)" "framed s (act_info i s)" "framed s (act_value v s)" "framed s (Some Undef)" "framed s None"
  by (simp_all add: framed_def act_return_def act_info_def act_value_def split: option.splits)

lemma framed_bind [framed]:
  assumes "framed s (m s)" "\<And>x t. framed t (f x t)"
  shows "framed s (act_bind m f s)"
proof (cases "m s")
  case (Some r)
  show ?thesis
  proof (cases r)
    case (Done x t)
    have "elf_frame s t" using assms(1) Some Done by (simp add: framed_def)
    moreover have "framed t (f x t)" by (rule assms(2))
    ultimately show ?thesis
      using Some Done by (auto simp: framed_def act_bind_def split: option.splits outcome.splits intro: elf_frame_trans)
  qed (use assms(1) Some in \<open>auto simp: framed_def act_bind_def\<close>)
qed (simp add: framed_def act_bind_def)

lemma nth_update_info: "update_info i f h ! j = (if j = i \<and> i < length h then f (h ! i) else h ! j)"
  by (auto simp: update_info_def nth_list_update list_update_beyond)

lemma length_update_info [simp]: "length (update_info i f h) = length h"
  by (simp add: update_info_def)

lemma framed_set [framed]: "(\<And>m. bare (f m) = bare m) \<Longrightarrow> framed s (act_set i f s)"
  by (simp add: framed_def act_set_def elf_frame_def nth_update_info)

lemma framed_real [framed]: "framed s (act_prev_real i s)" "framed s (act_next_real i s)"
  by (simp_all add: act_prev_real_def act_next_real_def framed)

lemma framed_if [framed]: "(b \<Longrightarrow> framed s (m s)) \<Longrightarrow> (\<not> b \<Longrightarrow> framed s (n s)) \<Longrightarrow> framed s ((if b then m else n) s)"
  by simp

lemma framed_option [framed]:
  "framed s (m s) \<Longrightarrow> (\<And>x. framed s (f x s)) \<Longrightarrow> framed s ((case v of None \<Rightarrow> m | Some x \<Rightarrow> f x) s)"
  by (cases v) simp_all

lemma framed_InitFile [framed]: "framed s (InitFileMemoryFromPreviousReadOnlyMap files i s)"
  unfolding InitFileMemoryFromPreviousReadOnlyMap_def
  by (auto simp: Let_def intro!: framed split: option.splits)

lemma framed_embedded_elf [framed]: "framed s (embedded_elf files i map_size max_size rd s)"
  unfolding embedded_elf_def by (auto intro!: framed)

lemma framed_surrounding_elf [framed]: "framed s (surrounding_elf files i map_size s)"
  unfolding surrounding_elf_def Let_def by (auto intro!: framed)

lemma framed_GetFileMemory [framed]: "framed s (GetFileMemory files i s)"
  unfolding GetFileMemory_def Let_def by (auto intro!: framed)

lemma framed_header_memory [framed]: "framed s (header_memory pm i s)"
  unfolding header_memory_def by (auto simp: Let_def intro!: framed split: option.splits)

lemma framed_split_memory [framed]: "framed s (split_memory pm i s)"
  unfolding split_memory_def by (auto simp: Let_def case_prod_beta intro!: framed split: option.splits)

lemma framed_CreateMemory [framed]: "framed s (CreateMemory files pm i s)"
  unfolding CreateMemory_def by (auto intro!: framed)

section \<open>The store\<close>

text \<open>
  References lead to objects that exist, every object is as \<open>Init\<close> left it, of the architecture that was
  asked for, and belongs to one file, the one every map and cache entry that refers to it is for.
\<close>

definition store_wf :: "ArchEnum \<Rightarrow> (nat \<Rightarrow> string) \<Rightarrow> Store \<Rightarrow> bool" where
  "store_wf arch owner s \<longleftrightarrow>
     (\<forall>e < length (elf_objects s). elf_wt (elf_objects s ! e) \<and>
        (elf_valid (elf_objects s ! e) \<longrightarrow> elf_arch (elf_objects s ! e) = arch)) \<and>
     (\<forall>i < length (map_objects s).
        (\<forall>e. mi_elf (map_objects s ! i) = Some e \<longrightarrow> e < length (elf_objects s) \<and> owner e = mi_name (map_objects s ! i)) \<and>
        (\<forall>p. mi_prev (map_objects s ! i) = Some p \<longrightarrow> p < length (map_objects s)) \<and>
        (\<forall>p. mi_next (map_objects s ! i) = Some p \<longrightarrow> p < length (map_objects s))) \<and>
     (\<forall>name c offset e. elf_cache s name = Some c \<longrightarrow> c offset = Some e \<longrightarrow> e < length (elf_objects s) \<and> owner e = name)"

definition store_ok :: "ArchEnum \<Rightarrow> Store \<Rightarrow> bool" where
  "store_ok arch s \<longleftrightarrow> (\<exists>owner. store_wf arch owner s)"

lemma store_wfI:
  assumes "\<And>e. e < length (elf_objects s) \<Longrightarrow> elf_wt (elf_objects s ! e) \<and>
        (elf_valid (elf_objects s ! e) \<longrightarrow> elf_arch (elf_objects s ! e) = arch)"
    "\<And>i e. i < length (map_objects s) \<Longrightarrow> mi_elf (map_objects s ! i) = Some e \<Longrightarrow>
       e < length (elf_objects s) \<and> owner e = mi_name (map_objects s ! i)"
    "\<And>i p. i < length (map_objects s) \<Longrightarrow> mi_prev (map_objects s ! i) = Some p \<Longrightarrow> p < length (map_objects s)"
    "\<And>i p. i < length (map_objects s) \<Longrightarrow> mi_next (map_objects s ! i) = Some p \<Longrightarrow> p < length (map_objects s)"
    "\<And>name c offset e. elf_cache s name = Some c \<Longrightarrow> c offset = Some e \<Longrightarrow> e < length (elf_objects s) \<and> owner e = name"
  shows "store_wf arch owner s"
  unfolding store_wf_def using assms by blast

lemma store_wfD:
  assumes "store_wf arch owner s"
  shows "\<And>e. e < length (elf_objects s) \<Longrightarrow> elf_wt (elf_objects s ! e) \<and>
        (elf_valid (elf_objects s ! e) \<longrightarrow> elf_arch (elf_objects s ! e) = arch)"
    "\<And>i e. i < length (map_objects s) \<Longrightarrow> mi_elf (map_objects s ! i) = Some e \<Longrightarrow>
       e < length (elf_objects s) \<and> owner e = mi_name (map_objects s ! i)"
    "\<And>i p. i < length (map_objects s) \<Longrightarrow> mi_prev (map_objects s ! i) = Some p \<Longrightarrow> p < length (map_objects s)"
    "\<And>i p. i < length (map_objects s) \<Longrightarrow> mi_next (map_objects s ! i) = Some p \<Longrightarrow> p < length (map_objects s)"
    "\<And>name c offset e. elf_cache s name = Some c \<Longrightarrow> c offset = Some e \<Longrightarrow> e < length (elf_objects s) \<and> owner e = name"
  using assms unfolding store_wf_def by blast+

lemma store_wf_frame: "store_wf arch owner s \<Longrightarrow> elf_frame s t \<Longrightarrow> store_wf arch owner t"
proof -
  assume s: "store_wf arch owner s" and f: "elf_frame s t"
  have o: "elf_objects t = elf_objects s" "elf_cache t = elf_cache s" "length (map_objects t) = length (map_objects s)"
    using f by (simp_all add: elf_frame_def)
  have b: "bare (map_objects t ! j) = bare (map_objects s ! j)" for j using f by (simp add: elf_frame_def)
  have m: "mi_elf (map_objects t ! j) = mi_elf (map_objects s ! j)" "mi_prev (map_objects t ! j) = mi_prev (map_objects s ! j)"
    "mi_next (map_objects t ! j) = mi_next (map_objects s ! j)" "mi_name (map_objects t ! j) = mi_name (map_objects s ! j)" for j
    using bare_fields [OF b] by blast+
  show "store_wf arch owner t"
    unfolding store_wf_def o m by (rule s [unfolded store_wf_def])
qed

lemma store_wf_set:
  assumes s: "store_wf arch owner s"
    and e: "\<And>e. mi_elf (f (map_objects s ! i)) = Some e \<Longrightarrow> i < length (map_objects s) \<Longrightarrow>
      e < length (elf_objects s) \<and> owner e = mi_name (map_objects s ! i)"
    and l: "\<And>m. mi_prev (f m) = mi_prev m" "\<And>m. mi_next (f m) = mi_next m" "\<And>m. mi_name (f m) = mi_name m"
  shows "store_wf arch owner (s\<lparr>map_objects := update_info i f (map_objects s)\<rparr>)" (is "store_wf arch owner ?t")
proof (rule store_wfI)
  have n: "mi_name (map_objects ?t ! j) = mi_name (map_objects s ! j)" "mi_prev (map_objects ?t ! j) = mi_prev (map_objects s ! j)"
    "mi_next (map_objects ?t ! j) = mi_next (map_objects s ! j)" for j
    by (simp_all add: nth_update_info l)
  fix j
  assume j: "j < length (map_objects ?t)"
  show "e < length (elf_objects ?t) \<and> owner e = mi_name (map_objects ?t ! j)" if "mi_elf (map_objects ?t ! j) = Some e" for e
    using j e that store_wfD(2) [OF s, of j e] unfolding n by (simp add: nth_update_info split: if_splits)
  show "p < length (map_objects ?t)" if "mi_prev (map_objects ?t ! j) = Some p" for p
    using store_wfD(3) [OF s, of j p] j that unfolding n by simp
  show "p < length (map_objects ?t)" if "mi_next (map_objects ?t ! j) = Some p" for p
    using store_wfD(4) [OF s, of j p] j that unfolding n by simp
next
  fix e
  assume "e < length (elf_objects ?t)"
  then show "elf_wt (elf_objects ?t ! e) \<and> (elf_valid (elf_objects ?t ! e) \<longrightarrow> elf_arch (elf_objects ?t ! e) = arch)"
    using store_wfD(1) [OF s, of e] by simp
next
  fix name c off e
  assume "elf_cache ?t name = Some c" "c off = Some e"
  then show "e < length (elf_objects ?t) \<and> owner e = name" using store_wfD(5) [OF s, of name c off e] by simp
qed

lemma store_wf_cache:
  assumes "store_wf arch owner s"
    "\<forall>n x off k. c n = Some x \<longrightarrow> x off = Some k \<longrightarrow> k < length (elf_objects s) \<and> owner k = n"
  shows "store_wf arch owner (s\<lparr>elf_cache := c\<rparr>)" (is "store_wf arch owner ?t")
proof -
  have o: "elf_objects ?t = elf_objects s" "map_objects ?t = map_objects s" "elf_cache ?t = c" by simp_all
  show ?thesis using assms unfolding store_wf_def o by blast
qed

text \<open>Walking to a neighbour stays among the objects of the same file.\<close>

definition linked :: "(MapInfo \<Rightarrow> nat option) \<Rightarrow> map_store \<Rightarrow> nat option \<Rightarrow> bool" where
  "linked link h p \<longleftrightarrow> (\<forall>i < length h. \<forall>p. link (h ! i) = Some p \<longrightarrow> p < length h) \<and> (\<forall>i. p = Some i \<longrightarrow> i < length h)"

lemma linked_step: "linked link h (Some i) \<Longrightarrow> linked link h (link (h ! i))"
  by (auto simp: linked_def)

lemma walk_in_range:
  assumes "walk link h name p = Some (Some q)" "linked link h p"
  shows "q < length h \<and> mi_name (h ! q) = name"
proof -
  have "linked link h p \<longrightarrow> (\<forall>q. r = Some q \<longrightarrow> q < length h \<and> mi_name (h ! q) = name)" if "walk link h name p = Some r" for r
    using that
  proof (rule walk.raw_induct [where P = "\<lambda>link h name p r. linked link h p \<longrightarrow>
      (\<forall>q. r = Some q \<longrightarrow> q < length h \<and> mi_name (h ! q) = name)", rotated])
    fix w :: "(MapInfo \<Rightarrow> nat option) \<Rightarrow> map_store \<Rightarrow> string \<Rightarrow> nat option \<Rightarrow> nat option option"
    fix link h name p r
    assume IH: "\<And>link h name p r. w link h name p = Some r \<Longrightarrow> linked link h p \<longrightarrow>
      (\<forall>q. r = Some q \<longrightarrow> q < length h \<and> mi_name (h ! q) = name)"
      and r: "(if p = None then Some None else let m = h ! the p in
         if \<not> IsBlank m then Some (if mi_name m = name then p else None) else w link h name (link m)) = Some r"
    show "linked link h p \<longrightarrow> (\<forall>q. r = Some q \<longrightarrow> q < length h \<and> mi_name (h ! q) = name)"
    proof (intro allI impI)
      fix q
      assume q: "linked link h p" "r = Some q"
      then obtain i where i: "p = Some i" "i < length h" using r by (cases p) (auto simp: linked_def)
      show "q < length h \<and> mi_name (h ! q) = name"
      proof (cases "IsBlank (h ! i)")
        case True
        then have "w link h name (link (h ! i)) = Some r" using r i by simp
        from IH [OF this] linked_step [of link h i] show ?thesis using q i by simp
      next
        case False
        then show ?thesis using r i q(2) by (auto split: if_splits)
      qed
    qed
  qed
  then show ?thesis using assms by blast
qed

lemma GetPrevRealMap_in_range:
  assumes "store_wf arch owner s" "i < length (map_objects s)" "GetPrevRealMap i (map_objects s) = Some (Some p)"
  shows "p < length (map_objects s) \<and> mi_name (map_objects s ! p) = mi_name (map_objects s ! i)"
proof (rule walk_in_range)
  show "walk mi_prev (map_objects s) (mi_name (map_objects s ! i)) (mi_prev (map_objects s ! i)) = Some (Some p)"
    using assms(3) by (simp add: GetPrevRealMap_def split: if_splits)
  show "linked mi_prev (map_objects s) (mi_prev (map_objects s ! i))"
    using store_wfD(3) [OF assms(1)] assms(2) by (auto simp: linked_def)
qed

section \<open>Growth\<close>

text \<open>Objects are added, never replaced; but for map \<open>i\<close> no map that has its object gets another.\<close>

definition grown :: "nat \<Rightarrow> Store \<Rightarrow> Store \<Rightarrow> bool" where
  "grown i s t \<longleftrightarrow>
     length (elf_objects s) \<le> length (elf_objects t) \<and> (\<forall>e < length (elf_objects s). elf_objects t ! e = elf_objects s ! e) \<and>
     length (map_objects t) = length (map_objects s) \<and>
     (\<forall>j. mi_name (map_objects t ! j) = mi_name (map_objects s ! j)) \<and>
     (\<forall>j e. j \<noteq> i \<longrightarrow> mi_elf (map_objects s ! j) = Some e \<longrightarrow> mi_elf (map_objects t ! j) = Some e)"

lemma grown_trans: "grown i s t \<Longrightarrow> grown i t u \<Longrightarrow> grown i s u"
  by (auto simp: grown_def)

lemma grown_refl [simp]: "grown i s s"
  by (simp add: grown_def)

lemma grown_frame: "elf_frame s t \<Longrightarrow> grown i s t"
proof -
  assume f: "elf_frame s t"
  then have b: "bare (map_objects t ! j) = bare (map_objects s ! j)" for j by (simp add: elf_frame_def)
  have "mi_elf (map_objects t ! j) = mi_elf (map_objects s ! j)" "mi_name (map_objects t ! j) = mi_name (map_objects s ! j)" for j
    using bare_fields [OF b] by blast+
  then show ?thesis using f by (simp add: grown_def elf_frame_def)
qed

lemma grown_set:
  assumes "\<And>m. mi_name (f m) = mi_name m" "j \<noteq> i \<Longrightarrow> mi_elf (map_objects s ! j) = None"
  shows "grown i s (s\<lparr>map_objects := update_info j f (map_objects s)\<rparr>)"
  using assms by (auto simp: grown_def nth_update_info)

section \<open>The steps of \<open>GetElf\<close>\<close>

lemma Elf_Init_Failed: "Elf_Init junk (Elf_new memory) = Some (Failed e) \<Longrightarrow> \<not> elf_valid e"
proof -
  assume a: "Elf_Init junk (Elf_new memory) = Some (Failed e)"
  show ?thesis
  proof (cases memory)
    case None
    then show ?thesis using a by (auto simp: Elf_Init_def Elf_new_def)
  next
    case (Some rd)
    let ?n = "Elf_new memory"
    have n: "?n\<lparr>elf_load_bias := 0\<rparr> = ?n" "elf_memory ?n = Some rd" "\<not> elf_valid ?n" "gnu_debugdata_interface ?n = None"
      by (simp_all add: Elf_new_def Some)
    obtain r e1 where c: "CreateInterfaceFromMemory (Some rd) ?n = (r, e1)" by fastforce
    have "InitGnuDebugdata junk (e1\<lparr>elf_valid := True, elf_load_bias := b, elf_interface := Some x\<rparr>) \<noteq> Some (Failed e)" for b x
      using InitGnuDebugdata_none [of junk "e1\<lparr>elf_valid := True, elf_load_bias := b, elf_interface := Some x\<rparr>"]
        CreateInterface_typed(3) [OF c] n by auto
    then show ?thesis using a c n CreateInterface_typed [OF c]
      by (auto simp: Elf_Init_def split: option.splits outcome.splits)
  qed
qed

lemma new_elf_spec:
  assumes "store_wf arch owner s" "new_elf junk memory arch s = Some (Done e t)"
  shows "e = length (elf_objects s)" "store_wf arch (owner(e := name)) t" "grown i s t" "e < length (elf_objects t)"
    "map_objects t = map_objects s" "cache_enabled t = cache_enabled s"
proof -
  obtain x where x: "e = length (elf_objects s)" "t = s\<lparr>elf_objects := elf_objects s @ [x]\<rparr>" "elf_wt x"
    "elf_valid x \<longrightarrow> elf_arch x = arch"
  proof (cases "Elf_Init junk (Elf_new memory)")
    case None
    then show ?thesis using assms(2) by (simp add: new_elf_def)
  next
    case (Some r)
    show ?thesis
    proof (cases r)
      case Undef
      then show ?thesis using assms(2) Some by (simp add: new_elf_def)
    next
      case (Failed y)
      then have "elf_wt y" "\<not> elf_valid y"
        using Some Elf_Init_typed [of junk memory y] Elf_Init_Failed [of junk memory y] by simp_all
      then show ?thesis using that [of y] assms(2) Some Failed by (simp add: new_elf_def)
    next
      case (Done u y)
      then have "elf_wt y" using Some Elf_Init_typed [of junk memory y] by simp
      then show ?thesis
        using that [of "if elf_valid y \<and> arch \<noteq> elf_arch y then Elf_Invalidate y else y"] assms(2) Some Done elf_wt_Elf_Invalidate [of y]
        by (auto simp: new_elf_def Elf_Invalidate_def)
    qed
  qed
  show "e = length (elf_objects s)" "grown i s t" "e < length (elf_objects t)" "map_objects t = map_objects s"
    "cache_enabled t = cache_enabled s"
    using x by (auto simp: grown_def nth_append)
  show "store_wf arch (owner(e := name)) t"
  proof (rule store_wfI)
    fix k
    assume "k < length (elf_objects t)"
    then show "elf_wt (elf_objects t ! k) \<and> (elf_valid (elf_objects t ! k) \<longrightarrow> elf_arch (elf_objects t ! k) = arch)"
      using x store_wfD(1) [OF assms(1), of k] by (auto simp: nth_append less_Suc_eq)
  next
    fix j k
    assume "j < length (map_objects t)" "mi_elf (map_objects t ! j) = Some k"
    then show "k < length (elf_objects t) \<and> (owner(e := name)) k = mi_name (map_objects t ! j)"
      using x store_wfD(2) [OF assms(1), of j k] by auto
  next
    fix j p
    assume "j < length (map_objects t)" "mi_prev (map_objects t ! j) = Some p"
    then show "p < length (map_objects t)" using x store_wfD(3) [OF assms(1), of j p] by simp
  next
    fix j p
    assume "j < length (map_objects t)" "mi_next (map_objects t ! j) = Some p"
    then show "p < length (map_objects t)" using x store_wfD(4) [OF assms(1), of j p] by simp
  next
    fix n c off k
    assume "elf_cache t n = Some c" "c off = Some k"
    then show "k < length (elf_objects t) \<and> (owner(e := name)) k = n"
      using x store_wfD(5) [OF assms(1), of n c off k] by auto
  qed
qed

lemma CacheAdd_spec:
  assumes "store_wf arch owner s" "i < length (map_objects s)" "mi_elf (map_objects s ! i) = Some e"
  shows "store_wf arch owner (CacheAdd i s)" "grown j s (CacheAdd i s)" "map_objects (CacheAdd i s) = map_objects s"
proof -
  obtain c where c: "CacheAdd i s = s\<lparr>elf_cache := c\<rparr>"
    "\<And>n x off k. c n = Some x \<Longrightarrow> x off = Some k \<Longrightarrow> (\<exists>y. elf_cache s n = Some y \<and> y off = Some k) \<or>
       (n = mi_name (map_objects s ! i) \<and> k = e)"
  proof (cases "elf_valid (elf_objects s ! e)")
    case False
    show ?thesis by (rule that [of "elf_cache s"]) (use False assms in \<open>auto simp: CacheAdd_def\<close>)
  next
    case True
    show ?thesis
      by (rule that [of "elf_cache (CacheAdd i s)"]) (use True assms in \<open>auto simp: CacheAdd_def Let_def split: option.splits if_splits\<close>)
  qed
  show "grown j s (CacheAdd i s)" "map_objects (CacheAdd i s) = map_objects s" using c by (simp_all add: grown_def)
  have e: "e < length (elf_objects s) \<and> owner e = mi_name (map_objects s ! i)" using store_wfD(2) [OF assms] .
  have "\<forall>n x off k. c n = Some x \<longrightarrow> x off = Some k \<longrightarrow> k < length (elf_objects s) \<and> owner k = n"
  proof (intro allI impI)
    fix n x off k
    assume "c n = Some x" "x off = Some k"
    then show "k < length (elf_objects s) \<and> owner k = n" using c(2) [of n x off k] e store_wfD(5) [OF assms(1), of n _ off k] by blast
  qed
  then show "store_wf arch owner (CacheAdd i s)" unfolding c(1) by (rule store_wf_cache [OF assms(1)])
qed

text \<open>A step for map \<open>i\<close> that leaves it with an object.\<close>

definition served :: "ArchEnum \<Rightarrow> (nat \<Rightarrow> string) \<Rightarrow> nat \<Rightarrow> Store \<Rightarrow> Store \<Rightarrow> bool" where
  "served arch owner i s t \<longleftrightarrow> store_wf arch owner t \<and> grown i s t \<and> mi_elf (map_objects t ! i) \<noteq> None"

lemma served_set:
  assumes "store_wf arch owner s" "i < length (map_objects s)" "mi_elf (map_objects s ! i) \<noteq> None \<or> j = i"
    and "j \<noteq> i \<Longrightarrow> mi_elf (map_objects s ! j) = None"
    and "\<And>m. mi_prev (f m) = mi_prev m" "\<And>m. mi_next (f m) = mi_next m" "\<And>m. mi_name (f m) = mi_name m"
    and "j < length (map_objects s)" "mi_elf (f (map_objects s ! j)) = Some e" "e < length (elf_objects s)"
      "owner e = mi_name (map_objects s ! j)"
  shows "served arch owner i s (s\<lparr>map_objects := update_info j f (map_objects s)\<rparr>)"
  unfolding served_def
proof (intro conjI)
  show "store_wf arch owner (s\<lparr>map_objects := update_info j f (map_objects s)\<rparr>)"
    by (rule store_wf_set [OF assms(1) _ assms(5-7)]) (use assms(9-11) in auto)
  show "grown i s (s\<lparr>map_objects := update_info j f (map_objects s)\<rparr>)"
    by (rule grown_set [OF assms(7) assms(4)])
  show "mi_elf (map_objects (s\<lparr>map_objects := update_info j f (map_objects s)\<rparr>) ! i) \<noteq> None"
    using assms(3,8,9) by (auto simp: nth_update_info)
qed

lemma share_elf_spec:
  assumes s: "store_wf arch owner s" and i: "i < length (map_objects s)" and e: "mi_elf (map_objects s ! i) = Some e"
    and t: "share_elf i s = Some (Done u t)"
  shows "served arch owner i s t"
proof -
  have o: "e < length (elf_objects s)" "owner e = mi_name (map_objects s ! i)" using store_wfD(2) [OF s i e] by auto
  have same: "served arch owner i s s" using s e by (simp add: served_def)
  let ?m = "map_objects s ! i"
  obtain r where r: "GetPrevRealMap i (map_objects s) = Some r"
    using t by (cases "GetPrevRealMap i (map_objects s)")
      (auto simp: share_elf_def act_bind_def act_info_def act_prev_real_def act_value_def)
  show ?thesis
  proof (cases r)
    case None
    then show ?thesis using t r same
      by (auto simp: share_elf_def act_bind_def act_info_def act_prev_real_def act_value_def act_return_def)
  next
    case (Some p)
    let ?p = "map_objects s ! p"
    have p: "p < length (map_objects s)" "mi_name ?p = mi_name ?m"
      using GetPrevRealMap_in_range [OF s i] r Some by auto
    have body: "(if mi_flags ?p \<noteq> PROT_READ \<or> mi_offset ?p \<ge> mi_offset ?m then act_return () s
        else if mi_elf ?p = None then
          act_set p (\<lambda>prev. prev\<lparr>mi_elf := mi_elf ?m, mi_memory_backed_elf := mi_memory_backed_elf ?m,
             mi_elf_start_offset := mi_elf_start_offset ?m, mi_elf_offset := mi_offset prev - mi_elf_start_offset ?m\<rparr>) s
        else if mi_elf_start_offset ?p = mi_elf_start_offset ?m then act_set i (\<lambda>m. m\<lparr>mi_elf := mi_elf ?p\<rparr>) s
        else act_return () s) = Some (Done u t)"
      using t r Some by (simp add: share_elf_def act_bind_def act_info_def act_prev_real_def act_value_def Let_def)
    show ?thesis
    proof (cases "mi_flags ?p \<noteq> PROT_READ \<or> mi_offset ?p \<ge> mi_offset ?m")
      case True
      then have "t = s" using body by (simp add: act_return_def)
      then show ?thesis using same by simp
    next
      case readable: False
      show ?thesis
      proof (cases "mi_elf ?p")
        case None
        have t': "t = s\<lparr>map_objects := update_info p (\<lambda>prev. prev\<lparr>mi_elf := mi_elf ?m,
             mi_memory_backed_elf := mi_memory_backed_elf ?m, mi_elf_start_offset := mi_elf_start_offset ?m,
             mi_elf_offset := mi_offset prev - mi_elf_start_offset ?m\<rparr>) (map_objects s)\<rparr>"
          using body readable None by (simp add: act_set_def)
        show ?thesis unfolding t' by (rule served_set [OF s i, where e = e]) (use None e o p in simp_all)
      next
        case q: (Some q)
        have o': "q < length (elf_objects s)" "owner q = mi_name ?p" using store_wfD(2) [OF s p(1) q] by auto
        show ?thesis
        proof (cases "mi_elf_start_offset ?p = mi_elf_start_offset ?m")
          case True
          have t': "t = s\<lparr>map_objects := update_info i (\<lambda>m. m\<lparr>mi_elf := Some q\<rparr>) (map_objects s)\<rparr>"
            using body readable q True by (simp add: act_set_def)
          show ?thesis unfolding t' by (rule served_set [OF s i, where e = q]) (use q o' p i in simp_all)
        next
          case False
          then have "t = s" using body readable q by (simp add: act_return_def)
          then show ?thesis using same by simp
        qed
      qed
    qed
  qed
qed

lemma cached_offset_found: "cached_offset i offsets h = Some (Some start) \<Longrightarrow> offsets start \<noteq> None"
  by (auto simp: cached_offset_def Let_def split: if_splits option.splits)

lemma CacheGet_spec:
  assumes s: "store_wf arch owner s" and i: "i < length (map_objects s)" and none: "mi_elf (map_objects s ! i) = None"
    and t: "CacheGet i s = Some (Done found t)"
  shows "if found then served arch owner i s t else t = s"
proof (cases "elf_cache s (mi_name (map_objects s ! i))")
  case None
  then show ?thesis using t by (simp add: CacheGet_def Let_def act_return_def)
next
  case (Some offsets)
  show ?thesis
  proof (cases "cached_offset i offsets (map_objects s)")
    case None
    then show ?thesis using t Some by (simp add: CacheGet_def Let_def)
  next
    case c: (Some r)
    show ?thesis
    proof (cases r)
      case None
      then show ?thesis using t Some c by (simp add: CacheGet_def Let_def act_return_def)
    next
      case start: (Some start)
      have "offsets start \<noteq> None" using cached_offset_found [of i offsets "map_objects s" start] c start by simp
      then obtain e where e: "offsets start = Some e" by blast
      have o: "e < length (elf_objects s)" "owner e = mi_name (map_objects s ! i)"
        using store_wfD(5) [OF s Some e] by auto
      have t': "found" "t = s\<lparr>map_objects := update_info i (\<lambda>m. m\<lparr>mi_elf := offsets start, mi_elf_start_offset := start,
          mi_elf_offset := mi_offset m - start\<rparr>) (map_objects s)\<rparr>"
        using t Some c start by (auto simp: CacheGet_def Let_def act_return_def act_bind_def act_set_def)
      have "served arch owner i s t" unfolding t'(2) by (rule served_set [OF s i, where e = e]) (use e o i none in simp_all)
      then show ?thesis using t' by simp
    qed
  qed
qed

lemma act_bind_elim:
  assumes "act_bind m f s = Some (Done y t)"
  obtains x u where "m s = Some (Done x u)" "f x u = Some (Done y t)"
  using assms by (auto simp: act_bind_def split: option.splits outcome.splits)

lemma served_frame_after: "elf_frame s u \<Longrightarrow> served arch owner i u t \<Longrightarrow> served arch owner i s t"
  using grown_frame [of s u i] grown_trans [of i s u t] by (simp add: served_def)

lemma served_trans: "served arch owner i s u \<Longrightarrow> served arch owner' i u t \<Longrightarrow> served arch owner' i s t"
  using grown_trans [of i s u t] by (simp add: served_def)

lemma create_elf_spec:
  assumes s: "store_wf arch owner s" and i: "i < length (map_objects s)"
    and t: "create_elf junk files pm arch i s = Some (Done e t)"
  shows "\<exists>owner'. served arch owner' i s t \<and> mi_elf (map_objects t ! i) = Some e"
proof -
  let ?name = "mi_name (map_objects s ! i)"
  from t [unfolded create_elf_def] obtain memory s1 where s1: "CreateMemory files pm i s = Some (Done memory s1)"
    and t1: "act_bind (new_elf junk memory arch) (\<lambda>e.
     act_bind (act_set i (\<lambda>m. m\<lparr>mi_elf := Some e\<rparr>)) (\<lambda>_.
     act_bind (\<lambda>s. if \<not> elf_valid (elf_objects s ! e) then act_set i (\<lambda>m. m\<lparr>mi_elf_start_offset := mi_offset m\<rparr>) s
                  else share_elf i s) (\<lambda>_ s.
       let s = (if cache_enabled s then CacheAdd i s else s)
       in act_return (the (mi_elf (map_objects s ! i))) s))) s1 = Some (Done e t)"
    by (rule act_bind_elim)
  have f1: "elf_frame s s1" using framed_CreateMemory [of s files pm i] s1 by (simp add: framed_Done)
  have w1: "store_wf arch owner s1" by (rule store_wf_frame [OF s f1])
  have l1: "i < length (map_objects s1)" using f1 i by (simp add: elf_frame_def)
  from t1 obtain x s2 where s2: "new_elf junk memory arch s1 = Some (Done x s2)"
    and t2: "act_bind (act_set i (\<lambda>m. m\<lparr>mi_elf := Some x\<rparr>)) (\<lambda>_.
     act_bind (\<lambda>s. if \<not> elf_valid (elf_objects s ! x) then act_set i (\<lambda>m. m\<lparr>mi_elf_start_offset := mi_offset m\<rparr>) s
                  else share_elf i s) (\<lambda>_ s.
       let s = (if cache_enabled s then CacheAdd i s else s)
       in act_return (the (mi_elf (map_objects s ! i))) s)) s2 = Some (Done e t)"
    by (rule act_bind_elim)
  let ?owner = "owner(x := mi_name (map_objects s1 ! i))"
  note n = new_elf_spec [OF w1 s2]
  have l2: "i < length (map_objects s2)" using l1 n(5) by simp
  let ?s3 = "s2\<lparr>map_objects := update_info i (\<lambda>m. m\<lparr>mi_elf := Some x\<rparr>) (map_objects s2)\<rparr>"
  have v3: "served arch ?owner i s2 ?s3"
    by (rule served_set [OF n(2) l2, where e = x]) (use n(4,5) l2 in simp_all)
  have w3: "store_wf arch ?owner ?s3" using v3 by (simp add: served_def)
  have l3: "i < length (map_objects ?s3)" "mi_elf (map_objects ?s3 ! i) = Some x" using l2 by (simp_all add: nth_update_info)
  have t3: "act_bind (\<lambda>s. if \<not> elf_valid (elf_objects s ! x) then act_set i (\<lambda>m. m\<lparr>mi_elf_start_offset := mi_offset m\<rparr>) s
                  else share_elf i s) (\<lambda>_ s.
       let s = (if cache_enabled s then CacheAdd i s else s)
       in act_return (the (mi_elf (map_objects s ! i))) s) ?s3 = Some (Done e t)"
    using t2 by (simp add: act_bind_def act_set_def)
  from t3 obtain u s4 where s4: "(if \<not> elf_valid (elf_objects ?s3 ! x) then
         act_set i (\<lambda>m. m\<lparr>mi_elf_start_offset := mi_offset m\<rparr>) ?s3 else share_elf i ?s3) = Some (Done u s4)"
    and t4: "(let s = (if cache_enabled s4 then CacheAdd i s4 else s4) in act_return (the (mi_elf (map_objects s ! i))) s) = Some (Done e t)"
    by (rule act_bind_elim)
  have v4: "served arch ?owner i ?s3 s4"
  proof (cases "elf_valid (elf_objects ?s3 ! x)")
    case True
    then show ?thesis using s4 share_elf_spec [OF w3 l3] by simp
  next
    case False
    have s4': "s4 = ?s3\<lparr>map_objects := update_info i (\<lambda>m. m\<lparr>mi_elf_start_offset := mi_offset m\<rparr>) (map_objects ?s3)\<rparr>"
      using s4 False by (simp add: act_set_def)
    show ?thesis unfolding s4'
      by (rule served_set [OF w3 l3(1), where e = x]) (use l3 store_wfD(2) [OF w3 l3] in simp_all)
  qed
  have v5: "served arch ?owner i s2 s4" by (rule served_trans [OF v3 v4])
  then obtain y where y: "mi_elf (map_objects s4 ! i) = Some y" and l4: "i < length (map_objects s4)" and w4: "store_wf arch ?owner s4"
    using l2 by (auto simp: served_def grown_def)
  have v6: "served arch ?owner i s4 t \<and> mi_elf (map_objects t ! i) = Some e"
    using t4 CacheAdd_spec(1,3) [OF w4 l4 y] CacheAdd_spec(2) [OF w4 l4 y, of i] w4 y by (cases "cache_enabled s4") (auto simp: act_return_def served_def)
  have g: "grown i s s2" using grown_trans [OF grown_frame [OF f1] n(3)] .
  have "served arch ?owner i s t"
    using served_trans [OF v5, of ?owner t] v6 g grown_trans [of i s s2 t] by (auto simp: served_def)
  then show ?thesis using v6 by blast
qed

lemma GetElf_spec:
  assumes s: "store_wf arch owner s" and i: "i < length (map_objects s)"
    and t: "GetElf junk files pm arch i s = Some (Done e t)"
  shows "(\<exists>owner'. served arch owner' i s t) \<and> mi_elf (map_objects t ! i) = Some e \<and> (mi_elf (map_objects s ! i) \<noteq> None \<longrightarrow> t = s)"
proof (cases "mi_elf (map_objects s ! i)")
  case (Some x)
  then have "t = s" "e = x" using t by (simp_all add: GetElf_def act_return_def)
  then show ?thesis using Some s by (auto simp: served_def)
next
  case None
  let ?find = "if cache_enabled s \<and> mi_name (map_objects s ! i) \<noteq> [] then CacheGet i else act_return False"
  have "act_bind ?find (\<lambda>found s. if found then act_return (the (mi_elf (map_objects s ! i))) s
            else create_elf junk files pm arch i s) s = Some (Done e t)"
    using t None by (simp add: GetElf_def)
  then obtain found u where u: "?find s = Some (Done found u)"
    and f: "(if found then act_return (the (mi_elf (map_objects u ! i))) u else create_elf junk files pm arch i u) = Some (Done e t)"
    by (rule act_bind_elim)
  have "if found then served arch owner i s u else u = s"
    using u CacheGet_spec [OF s i None, of found u] by (cases "cache_enabled s \<and> mi_name (map_objects s ! i) \<noteq> []") (auto simp: act_return_def)
  then show ?thesis
    using f create_elf_spec [OF s i, of junk files pm e t] None by (cases found) (auto simp: act_return_def served_def)
qed

section \<open>The theorem\<close>

text \<open>
  Property C33. \<open>MapInfo::GetElf\<close> keeps the objects of the maps in order, whatever the files and the memory of
  the process hold, with the cache or without: every object stays as its initialisation typed it and is of the
  architecture asked for or invalid, two maps share an object only if they are maps of one file, the map has
  the object that is returned, no object is changed and no other map that has an object gets another one, and
  a later call for the map returns the same object and changes nothing.
\<close>

theorem GetElf_stable:
  assumes "store_ok arch s" "i < length (map_objects s)" "GetElf junk files pm arch i s = Some (Done e t)"
  shows "store_ok arch t \<and> mi_elf (map_objects t ! i) = Some e \<and> e < length (elf_objects t) \<and>
     elf_wt (elf_objects t ! e) \<and> (elf_valid (elf_objects t ! e) \<longrightarrow> elf_arch (elf_objects t ! e) = arch) \<and>
     (\<forall>k < length (elf_objects s). elf_objects t ! k = elf_objects s ! k) \<and>
     (\<forall>j < length (map_objects t). \<forall>x. mi_elf (map_objects s ! j) = Some x \<longrightarrow> mi_elf (map_objects t ! j) = Some x) \<and>
     (\<forall>j < length (map_objects t). \<forall>k < length (map_objects t). mi_elf (map_objects t ! j) = mi_elf (map_objects t ! k) \<longrightarrow>
        mi_elf (map_objects t ! j) \<noteq> None \<longrightarrow> mi_name (map_objects t ! j) = mi_name (map_objects t ! k)) \<and>
     GetElf junk' files' pm' arch' i t = Some (Done e t)"
proof -
  obtain owner where w: "store_wf arch owner s" using assms(1) by (auto simp: store_ok_def)
  obtain owner' where v: "served arch owner' i s t" and r: "mi_elf (map_objects t ! i) = Some e"
    and same: "mi_elf (map_objects s ! i) \<noteq> None \<longrightarrow> t = s"
    using GetElf_spec [OF w assms(2,3)] by blast
  have w': "store_wf arch owner' t" and g: "grown i s t" using v by (simp_all add: served_def)
  have l: "length (map_objects t) = length (map_objects s)" using g by (simp add: grown_def)
  have e: "e < length (elf_objects t)" using store_wfD(2) [OF w' _ r] assms(2) l by simp
  have kept: "mi_elf (map_objects t ! j) = Some x" if "mi_elf (map_objects s ! j) = Some x" for j x
    using that g same by (cases "j = i") (auto simp: grown_def)
  have files: "mi_name (map_objects t ! j) = mi_name (map_objects t ! k)"
    if "j < length (map_objects t)" "k < length (map_objects t)" "mi_elf (map_objects t ! j) = mi_elf (map_objects t ! k)"
      "mi_elf (map_objects t ! j) \<noteq> None" for j k
  proof -
    from that(4) obtain x where x: "mi_elf (map_objects t ! j) = Some x" by blast
    with that(3) have "mi_elf (map_objects t ! k) = Some x" by simp
    note x = x this
    show ?thesis using store_wfD(2) [OF w' that(1) x(1)] store_wfD(2) [OF w' that(2) x(2)] by simp
  qed
  have again: "GetElf junk' files' pm' arch' i t = Some (Done e t)" using r by (simp add: GetElf_def act_return_def)
  have objects: "\<forall>k < length (elf_objects s). elf_objects t ! k = elf_objects s ! k" using g by (simp add: grown_def)
  have "store_ok arch t" using w' by (auto simp: store_ok_def)
  then show ?thesis using r e store_wfD(1) [OF w' e] objects kept files again by blast
qed

text \<open>Two maps of a file with the sample object in the cache: the second map is given the object of the first.\<close>

definition sample_pair :: "Elf \<Rightarrow> Store" where
  "sample_pair e = \<lparr>map_objects = [(MapInfo_new None 0x1000 0x2000 0 1 ''a'')\<lparr>mi_elf := Some 0\<rparr>,
       MapInfo_new (Some 0) 0x2000 0x3000 0x1000 5 ''a''],
     elf_objects = [e], cache_enabled = True, elf_cache = [''a'' \<mapsto> [0 \<mapsto> 0]]\<rparr>"

lemma sample_pair_ok:
  assumes "elf_wt e" "elf_arch e = ARCH_X86_64"
  shows "store_ok ARCH_X86_64 (sample_pair e)"
proof -
  have "store_wf ARCH_X86_64 (\<lambda>_. ''a'') (sample_pair e)"
    unfolding store_wf_def sample_pair_def using assms by (auto simp: MapInfo_new_def less_Suc_eq)
  then show ?thesis unfolding store_ok_def by blast
qed

lemma sample_pair_get:
  obtains t where "GetElf junk files pm arch 1 (sample_pair e) = Some (Done 0 t)"
  by (simp add: GetElf_def sample_pair_def act_bind_def CacheGet_def cached_offset_def act_set_def act_return_def
      MapInfo_new_def update_info_def Let_def)

lemma GetElf_stable_witness:
  "\<exists>e t. elf_valid e \<and> GetElf 0 (\<lambda>_. None) None ARCH_X86_64 1 (sample_pair e) = Some (Done 0 t) \<and> store_ok ARCH_X86_64 t \<and>
     mi_elf (map_objects t ! 1) = Some 0"
proof -
  obtain e where e: "Elf_Init 0 (Elf_new (Some (MemoryBuffer_Read sample_elf))) = Some (Done () e)" "elf_valid e"
    "elf_arch e = ARCH_X86_64" by (rule sample_object_Done)
  have "elf_wt e" using Elf_Init_typed [of 0 "Some (MemoryBuffer_Read sample_elf)" e] e(1) by simp
  then have ok: "store_ok ARCH_X86_64 (sample_pair e)" using e(3) by (rule sample_pair_ok)
  have l: "1 < length (map_objects (sample_pair e))" by (simp add: sample_pair_def)
  obtain t where t: "GetElf 0 (\<lambda>_. None) None ARCH_X86_64 1 (sample_pair e) = Some (Done 0 t)" by (rule sample_pair_get)
  from GetElf_stable [OF ok l t, of 0 "\<lambda>_. None" None ARCH_X86_64] show ?thesis using e(2) t by blast
qed

end
