(* ===== verification/UnwinderModel.thy ===== *)
theory UnwinderModel
  imports MapElf
begin

text \<open>
  The unwinder: \<open>unwindstack/Unwinder.cpp\<close> and \<open>Unwinder.h\<close>. From the registers of a thread it collects
  frames, one per step through the ELF file of the map the program counter lies in. The build does not
  define \<open>DEXFILE_SUPPORT\<close>. \<open>process_memory_->Clear()\<close> only drops caches, which reading does not show
  (\<open>MemoryProps\<close>).
\<close>

section \<open>State\<close>

text \<open>A frame; its map is a pointer.\<close>

record Frame =
  uf_num :: nat
  uf_rel_pc :: u64
  uf_pc :: u64
  uf_sp :: u64
  uf_function_name :: "u8 list"
  uf_function_offset :: u64
  uf_map :: "nat option"

definition Frame_init :: Frame where
  "Frame_init = \<lparr>uf_num = 0, uf_rel_pc = 0, uf_pc = 0, uf_sp = 0, uf_function_name = [], uf_function_offset = 0,
     uf_map = None\<rparr>"

record (overloaded) 'a Unwinder =
  uw_max_frames :: nat
  uw_maps :: "nat list"
  uw_regs :: "'a Regs"
  uw_frames :: "Frame list"
  uw_resolve_names :: bool
  uw_error :: ErrorData
  uw_warnings :: u64
  uw_arch :: ArchEnum
  uw_store :: Store

text \<open>The constructor, with the maps and the objects they are shared with.\<close>

definition Unwinder_new :: "nat \<Rightarrow> nat list \<Rightarrow> 'a::len Regs \<Rightarrow> Store \<Rightarrow> 'a Unwinder" where
  "Unwinder_new max_frames maps regs s = \<lparr>uw_max_frames = max_frames, uw_maps = maps, uw_regs = regs, uw_frames = [],
     uw_resolve_names = True, uw_error = \<lparr>er_code = ERROR_NONE, er_address = 0\<rparr>, uw_warnings = 0,
     uw_arch = regs_arch regs, uw_store = s\<rparr>"

text \<open>
  What surrounds the unwinder: the parameters of the theories below, the memory of the process,
  whether the maps are \<open>LocalUpdatableMaps\<close> and the text of the maps file then, and the lookup of the
  JIT debug data, if there is one, which finds an object for a program counter.
\<close>

record UnwindEnv =
  ue_xpac :: "u64 \<Rightarrow> u64"
  ue_iterate :: "(u32 \<rightharpoonup> DwarfLocation) \<Rightarrow> u32 list"
  ue_junk :: u64
  ue_mips_junk :: "u8 list"
  ue_files :: "string \<Rightarrow> u8 list option"
  ue_memory :: reader
  ue_updatable :: bool
  ue_maps_file :: "Store \<Rightarrow> string option"
  ue_jit_find :: "(u64 \<Rightarrow> Store \<Rightarrow> nat option \<times> Store) option"

type_synonym ('x, 'a) uw = "('x, 'a Unwinder) action"

definition with_store :: "'x act \<Rightarrow> ('x, 'a::len) uw" where
  "with_store m u =
     (case m (uw_store u) of
        None \<Rightarrow> None
      | Some Undef \<Rightarrow> Some Undef
      | Some (Failed s) \<Rightarrow> Some (Failed (u\<lparr>uw_store := s\<rparr>))
      | Some (Done x s) \<Rightarrow> Some (Done x (u\<lparr>uw_store := s\<rparr>)))"

definition uw_code :: "ErrorCode \<Rightarrow> 'a::len Unwinder \<Rightarrow> 'a Unwinder" where
  "uw_code c u = u\<lparr>uw_error := (uw_error u)\<lparr>er_code := c\<rparr>\<rparr>"

definition map_at :: "nat \<Rightarrow> 'a::len Unwinder \<Rightarrow> MapInfo" where
  "map_at i u = map_objects (uw_store u) ! i"

definition elf_at :: "nat \<Rightarrow> 'a::len Unwinder \<Rightarrow> Elf" where
  "elf_at e u = elf_objects (uw_store u) ! e"

definition set_elf_at :: "nat \<Rightarrow> Elf \<Rightarrow> 'a::len Unwinder \<Rightarrow> 'a Unwinder" where
  "set_elf_at e x u = u\<lparr>uw_store := set_elf_object e x (uw_store u)\<rparr>"

text \<open>\<open>maps_->Find\<close>, a virtual function.\<close>

definition find_pc :: "UnwindEnv \<Rightarrow> u64 \<Rightarrow> 'a::len Unwinder \<Rightarrow> nat option \<times> 'a Unwinder" where
  "find_pc env pc u =
     (if ue_updatable env then
        (let (i, maps, h) = LocalUpdatableMaps_Find (ue_maps_file env (uw_store u)) pc (uw_maps u, map_objects (uw_store u))
         in (i, u\<lparr>uw_maps := maps, uw_store := (uw_store u)\<lparr>map_objects := h\<rparr>\<rparr>))
      else (Maps_Find (map_objects (uw_store u)) (uw_maps u) pc, u))"

section \<open>Frames\<close>

definition set_last :: "(Frame \<Rightarrow> Frame) \<Rightarrow> 'a::len Unwinder \<Rightarrow> 'a Unwinder" where
  "set_last f u = u\<lparr>uw_frames := butlast (uw_frames u) @ [f (last (uw_frames u))]\<rparr>"

definition WARNING_DEX_PC_NOT_IN_MAP :: u64 where "WARNING_DEX_PC_NOT_IN_MAP = 1"

definition FillInDexFrame :: "UnwindEnv \<Rightarrow> 'a::len Unwinder \<Rightarrow> 'a Unwinder" where
  "FillInDexFrame env u0 =
     (let pc = dex_pc (uw_regs u0);
          u = u0\<lparr>uw_frames := uw_frames u0 @
            [Frame_init\<lparr>uf_num := length (uw_frames u0), uf_pc := pc, uf_sp := regs_sp (uw_regs u0)\<rparr>]\<rparr>
      in case find_pc env pc u of
           (Some i, u) \<Rightarrow>
             (let u = set_last (\<lambda>f. f\<lparr>uf_map := Some i, uf_rel_pc := pc - mi_start (map_at i u)\<rparr>) u
              in u\<lparr>uw_store := (uw_store u)\<lparr>map_objects :=
                     update_info i (mi_load_bias_update (\<lambda>_. 0)) (map_objects (uw_store u))\<rparr>\<rparr>)
         | (None, u) \<Rightarrow>
             (let u = set_last (\<lambda>f. f\<lparr>uf_rel_pc := pc\<rparr>) u
              in u\<lparr>uw_warnings := uw_warnings u OR WARNING_DEX_PC_NOT_IN_MAP\<rparr>))"

definition FillInFrame :: "nat option \<Rightarrow> u64 \<Rightarrow> u64 \<Rightarrow> 'a::len Unwinder \<Rightarrow> 'a Unwinder" where
  "FillInFrame map_info rel_pc pc_adjustment u =
     u\<lparr>uw_frames := uw_frames u @
       [Frame_init\<lparr>uf_num := length (uw_frames u), uf_sp := regs_sp (uw_regs u), uf_rel_pc := rel_pc - pc_adjustment,
                   uf_pc := regs_pc (uw_regs u) - pc_adjustment, uf_map := map_info\<rparr>]\<rparr>"

definition ShouldStop :: "string list option \<Rightarrow> string \<Rightarrow> bool" where
  "ShouldStop suffixes name =
     (case suffixes of
        None \<Rightarrow> False
      | Some l \<Rightarrow> CHR ''.'' \<in> set name \<and> rev (takeWhile (\<lambda>c. c \<noteq> CHR ''.'') (rev name)) \<in> set l)"

definition ShouldExit :: "string list option \<Rightarrow> u8 list \<Rightarrow> bool" where
  "ShouldExit functions name =
     (case functions of None \<Rightarrow> False | Some l \<Rightarrow> text_of (takeWhile (\<lambda>b. b \<noteq> 0) name) \<in> set l)"

text \<open>\<open>basename\<close> of the C library.\<close>

definition Basename :: "string \<Rightarrow> string" where
  "Basename path =
     (let r = dropWhile (\<lambda>c. c = CHR ''/'') (rev path) in
      if path = [] then ''.'' else if r = [] then ''/'' else rev (takeWhile (\<lambda>c. c \<noteq> CHR ''/'') r))"

section \<open>One iteration\<close>

text \<open>The map, the ELF object, and the program counters of an iteration.\<close>

record Located =
  lc_map :: "nat option"
  lc_elf :: "nat option"
  lc_step_pc :: u64
  lc_rel_pc :: u64
  lc_adjustment :: u64
  lc_ignore :: bool

definition elf_reader :: "Elf \<Rightarrow> reader" where
  "elf_reader e = (case elf_memory e of Some rd \<Rightarrow> rd | None \<Rightarrow> (\<lambda>_ _. []))"

text \<open>The object of the JIT debug data replaces an invalid one.\<close>

definition try_jit :: "UnwindEnv \<Rightarrow> nat \<Rightarrow> u64 \<Rightarrow> nat \<times> u64 \<Rightarrow> 'a::len Unwinder \<Rightarrow> (nat \<times> u64) \<times> 'a Unwinder" where
  "try_jit env i adjusted_jit_pc = (\<lambda>(e, step_pc) u.
     case ue_jit_find env of
       None \<Rightarrow> ((e, step_pc), u)
     | Some jit_find \<Rightarrow>
         if elf_valid (elf_at e u) \<or> mi_flags (map_at i u) AND PROT_EXEC = 0 then ((e, step_pc), u)
         else
           (case jit_find adjusted_jit_pc (uw_store u) of
              (None, s) \<Rightarrow> ((e, step_pc), u\<lparr>uw_store := s\<rparr>)
            | (Some jit_elf, s) \<Rightarrow> ((jit_elf, adjusted_jit_pc), u\<lparr>uw_store := s\<rparr>)))"

definition locate_in_map :: "UnwindEnv \<Rightarrow> bool \<Rightarrow> nat \<Rightarrow> bool \<Rightarrow> (Located option, 'a::len) uw" where
  "locate_in_map env adjust_pc i ignore u =
     act_bind (with_store (GetElf (ue_junk env) (ue_files env) (Some (ue_memory env)) (uw_arch u) i)) (\<lambda>e u.
       let m = map_at i u; elf = elf_at e u; pc = regs_pc (uw_regs u);
           rel_pc = GetRelPc pc (mi_start m) (mi_elf_offset m) elf;
           step_pc = (if mi_flags m AND MAPS_FLAGS_JIT_SYMFILE_MAP = 0 then rel_pc else pc);
           adjustment = (if adjust_pc then
               GetPcAdjustment rel_pc (elf_valid elf) (elf_load_bias elf) (elf_reader elf) (uw_arch u) else 0);
           ((e, step_pc), u) = try_jit env i (pc - adjustment) (e, step_pc - adjustment) u
       in act_return (Some \<lparr>lc_map = Some i, lc_elf = Some e, lc_step_pc = step_pc, lc_rel_pc = rel_pc,
                            lc_adjustment = adjustment, lc_ignore = ignore\<rparr>) u) u"

text \<open>The flag is \<open>return_address_attempt\<close>; no result is the \<open>break\<close> at an ignored suffix.\<close>

definition locate :: "UnwindEnv \<Rightarrow> string list option \<Rightarrow> string list option \<Rightarrow> bool \<Rightarrow> bool \<Rightarrow> (Located option, 'a::len) uw" where
  "locate env skip suffixes adjust_pc attempt u =
     (let pc = regs_pc (uw_regs u) in
      case find_pc env pc u of
        (None, u) \<Rightarrow>
          (let u = (if \<not> attempt \<or> er_code (uw_error u) = ERROR_NONE
                    then u\<lparr>uw_error := \<lparr>er_code = ERROR_INVALID_MAP, er_address = pc\<rparr>\<rparr> else u)
           in act_return (Some \<lparr>lc_map = None, lc_elf = None, lc_step_pc = pc, lc_rel_pc = pc, lc_adjustment = 0,
                                lc_ignore = False\<rparr>) u)
      | (Some i, u) \<Rightarrow>
          (let name = mi_name (map_at i u);
               ignore = (case skip of None \<Rightarrow> False | Some l \<Rightarrow> Basename name \<in> set l)
           in if \<not> ignore \<and> ShouldStop suffixes name then act_return None u
              else locate_in_map env adjust_pc i ignore u))"

text \<open>The frames of the iteration. The result is false for the \<open>break\<close> when the dex frame was the last that fits.\<close>

definition add_frames :: "UnwindEnv \<Rightarrow> Located \<Rightarrow> 'a::len Unwinder \<Rightarrow> bool \<times> 'a Unwinder" where
  "add_frames env lc u =
     (if lc_ignore lc then (True, u)
      else
        (let (full, u) =
           (if dex_pc (uw_regs u) \<noteq> 0 then
              (let u = FillInDexFrame env u; u = u\<lparr>uw_regs := set_dex_pc 0 (uw_regs u)\<rparr>
               in if length (uw_frames u) = uw_max_frames u then (True, uw_code ERROR_MAX_FRAMES_EXCEEDED u)
                  else (False, u))
            else (False, u))
         in if full then (False, u) else (True, FillInFrame (lc_map lc) (lc_rel_pc lc) (lc_adjustment lc) u)))"

text \<open>\<open>frame\<close> is the last frame when it is not null.\<close>

definition has_frame :: "Located \<Rightarrow> bool" where
  "has_frame lc \<longleftrightarrow> \<not> lc_ignore lc \<and> lc_map lc \<noteq> None"

record Stepped =
  sp_stepped :: bool
  sp_device :: bool
  sp_finished :: bool
  sp_step_pc :: u64

text \<open>The step out of a signal handler, or by the unwind information; with \<open>stepped\<close>, \<open>finished\<close>, \<open>is_signal_frame\<close>.\<close>

definition elf_step :: "UnwindEnv \<Rightarrow> nat \<Rightarrow> u64 \<Rightarrow> u64 \<Rightarrow> (bool \<times> bool \<times> bool, 'a::len) uw" where
  "elf_step env e rel_pc step_pc u =
     (case Elf_StepIfSignalHandler (ue_mips_junk env) rel_pc (ue_memory env) (elf_at e u) (uw_regs u) of
        (True, r) \<Rightarrow> act_return (True, False, True) (u\<lparr>uw_regs := r\<rparr>)
      | (False, r) \<Rightarrow>
          (let out = (\<lambda>ok elf io. act_return (ok, io_finished io, io_signal_frame io)
                 (set_elf_at e elf (u\<lparr>uw_regs := io_regs io\<rparr>)))
           in case Elf_Step (ue_xpac env) (ue_iterate env) step_pc (ue_memory env)
                     (elf_at e u, \<lparr>io_regs = r, io_finished = False, io_signal_frame = False\<rparr>) of
                None \<Rightarrow> None
              | Some Undef \<Rightarrow> Some Undef
              | Some (Failed (elf, io)) \<Rightarrow> out False elf io
              | Some (Done _ (elf, io)) \<Rightarrow> out True elf io))"

text \<open>The program counter of a signal frame is not adjusted.\<close>

definition after_step :: "Located \<Rightarrow> bool \<times> bool \<times> bool \<Rightarrow> 'a::len Unwinder \<Rightarrow> Stepped \<times> 'a Unwinder" where
  "after_step lc = (\<lambda>(stepped, finished, signal_frame) u.
     let fix_pc = signal_frame \<and> has_frame lc;
         u = (if fix_pc then set_last (\<lambda>f. f\<lparr>uf_rel_pc := lc_rel_pc lc, uf_pc := uf_pc f + lc_adjustment lc\<rparr>) u
              else u)
     in (\<lparr>sp_stepped = stepped, sp_device = False, sp_finished = finished,
           sp_step_pc = (if fix_pc then lc_rel_pc lc else lc_step_pc lc)\<rparr>,
         u\<lparr>uw_error := Elf_GetLastError (elf_at (the (lc_elf lc)) u)\<rparr>))"

definition in_device_map :: "nat option \<Rightarrow> 'a::len Unwinder \<Rightarrow> bool" where
  "in_device_map i u = (case i of None \<Rightarrow> False | Some j \<Rightarrow> mi_flags (map_at j u) AND MAPS_FLAGS_DEVICE_MAP \<noteq> 0)"

definition step_frame :: "UnwindEnv \<Rightarrow> Located \<Rightarrow> (Stepped, 'a::len) uw" where
  "step_frame env lc u =
     (let no_step = \<lparr>sp_stepped = False, sp_device = False, sp_finished = False, sp_step_pc = lc_step_pc lc\<rparr> in
      if lc_map lc = None then act_return no_step u
      else if in_device_map (lc_map lc) u then act_return (no_step\<lparr>sp_device := True\<rparr>) u
      else
        (let (sp_info, u) = find_pc env (regs_sp (uw_regs u)) u in
         if in_device_map sp_info u then act_return (no_step\<lparr>sp_device := True\<rparr>) u
         else
           act_bind (elf_step env (the (lc_elf lc)) (lc_rel_pc lc) (lc_step_pc lc))
             (\<lambda>r u. let (sp, u) = after_step lc r u in act_return sp u) u))"

text \<open>The name of the frame. The result is true for the \<open>break\<close> at a function to exit at.\<close>

definition name_frame :: "string list option \<Rightarrow> Located \<Rightarrow> u64 \<Rightarrow> 'a::len Unwinder \<Rightarrow> bool \<times> 'a Unwinder" where
  "name_frame functions lc step_pc u =
     (if \<not> has_frame lc then (False, u)
      else
        (let e = the (lc_elf lc);
             (r, u) = (if uw_resolve_names u then
                         (let (r, elf) = Elf_GetFunctionName step_pc (elf_at e u) in (r, set_elf_at e elf u))
                       else (None, u));
             (name, offset) = (case r of Some (n, k) \<Rightarrow> (n, k) | None \<Rightarrow> ([], 0));
             u = set_last (\<lambda>f. f\<lparr>uf_function_name := name, uf_function_offset := offset\<rparr>) u
         in if ShouldExit functions name then (True, uw_code ERROR_EXIT_FUNC u) else (False, u)))"

text \<open>Without a step: the speculative frame is removed, or the return address is tried. The result is whether to go on.\<close>

definition not_stepped :: "UnwindEnv \<Rightarrow> bool \<Rightarrow> bool \<Rightarrow> 'a::len Unwinder \<Rightarrow> bool \<times> 'a Unwinder" where
  "not_stepped env attempt device u =
     (if attempt then
        (let (drop_frame, u) =
           (if length (uw_frames u) > 2 then (True, u)
            else if length (uw_frames u) > 0 then
              (let (i, u) = find_pc env (uf_pc (hd (uw_frames u))) u in (i \<noteq> None, u))
            else (False, u))
         in (False, if drop_frame then u\<lparr>uw_frames := butlast (uw_frames u)\<rparr> else u))
      else if device then (False, u)
      else
        (let (ok, r) = SetPcFromReturnAddress (ue_memory env) (uw_regs u) in (ok, u\<lparr>uw_regs := r\<rparr>)))"

text \<open>The end of the iteration: the next \<open>return_address_attempt\<close>, or \<open>break\<close>.\<close>

definition finish_iteration :: "UnwindEnv \<Rightarrow> bool \<Rightarrow> u64 \<Rightarrow> u64 \<Rightarrow> Stepped \<Rightarrow> 'a::len Unwinder \<Rightarrow> bool option \<times> 'a Unwinder" where
  "finish_iteration env attempt old_pc old_sp sp u =
     (if sp_finished sp then (None, u)
      else
        (let (go_on, u) =
           (if \<not> sp_stepped sp then not_stepped env attempt (sp_device sp) u
            else (True, if uw_max_frames u = length (uw_frames u) then uw_code ERROR_MAX_FRAMES_EXCEEDED u else u))
         in if \<not> go_on then (None, u)
            else if old_pc = regs_pc (uw_regs u) \<and> old_sp = regs_sp (uw_regs u) then
              (None, uw_code ERROR_REPEATED_FRAME u)
            else (Some (\<not> sp_stepped sp), u)))"

text \<open>
  One iteration: \<open>None\<close> is \<open>break\<close>, else the names to skip and \<open>return_address_attempt\<close> for the next one.
\<close>

definition iteration :: "UnwindEnv \<Rightarrow> string list option \<Rightarrow> string list option \<Rightarrow> string list option \<Rightarrow> bool \<Rightarrow> bool
     \<Rightarrow> ((string list option \<times> bool) option, 'a::len) uw" where
  "iteration env skip suffixes functions adjust_pc attempt u0 =
     act_bind (locate env skip suffixes adjust_pc attempt) (\<lambda>l u.
       case l of
         None \<Rightarrow> act_return None u
       | Some lc \<Rightarrow>
           (case add_frames env lc u of
              (False, u) \<Rightarrow> act_return None u
            | (True, u) \<Rightarrow>
                act_bind (step_frame env lc) (\<lambda>sp u.
                  case name_frame functions lc (sp_step_pc sp) u of
                    (True, u) \<Rightarrow> act_return None u
                  | (False, u) \<Rightarrow>
                      (case finish_iteration env attempt (regs_pc (uw_regs u0)) (regs_sp (uw_regs u0)) sp u of
                         (None, u) \<Rightarrow> act_return None u
                       | (Some next_attempt, u) \<Rightarrow>
                           act_return (Some (if lc_ignore lc then skip else None, next_attempt)) u)) u)) u0"

section \<open>Unwind\<close>

text \<open>The loop; it need not end while frames are skipped.\<close>

partial_function (option) unwind_loop ::
  "UnwindEnv \<Rightarrow> string list option \<Rightarrow> string list option \<Rightarrow> string list option \<Rightarrow> bool \<Rightarrow> bool \<Rightarrow> 'a::len Unwinder
     \<Rightarrow> (unit, 'a Unwinder) outcome option" where
  "unwind_loop env skip suffixes functions adjust_pc attempt u =
     (if \<not> length (uw_frames u) < uw_max_frames u then Some (Done () u)
      else Option.bind (iteration env skip suffixes functions adjust_pc attempt u) (\<lambda>r.
        case r of
          Undef \<Rightarrow> Some Undef
        | Failed u \<Rightarrow> Some (Failed u)
        | Done None u \<Rightarrow> Some (Done () u)
        | Done (Some (skip, attempt)) u \<Rightarrow> unwind_loop env skip suffixes functions True attempt u))"

definition ClearErrors :: "'a::len Unwinder \<Rightarrow> 'a Unwinder" where
  "ClearErrors u = u\<lparr>uw_warnings := 0, uw_error := \<lparr>er_code = ERROR_NONE, er_address = 0\<rparr>\<rparr>"

text \<open>\<open>CHECK\<close> aborts for an unknown architecture.\<close>

definition Unwinder_Unwind :: "UnwindEnv \<Rightarrow> string list option \<Rightarrow> string list option \<Rightarrow> string list option \<Rightarrow> (unit, 'a::len) uw" where
  "Unwinder_Unwind env skip suffixes functions u0 =
     (if uw_arch u0 = ARCH_UNKNOWN then Some Undef
      else
        (let u = (ClearErrors u0)\<lparr>uw_frames := []\<rparr>; (i, u) = find_pc env (regs_pc (uw_regs u)) u;
             u = (if i = None then u\<lparr>uw_regs := fallback_pc (ue_xpac env) (uw_regs u)\<rparr> else u)
         in unwind_loop env skip suffixes functions False False u))"

definition ConsumeFrames :: "'a::len Unwinder \<Rightarrow> Frame list \<times> 'a Unwinder" where
  "ConsumeFrames u = (uw_frames u, u\<lparr>uw_frames := []\<rparr>)"

definition SetRegs :: "'a::len Regs \<Rightarrow> 'a Unwinder \<Rightarrow> 'a Unwinder" where
  "SetRegs r u = u\<lparr>uw_regs := r, uw_arch := regs_arch r\<rparr>"

end
