(* ===== verification/AndroidUnwind.thy ===== *)
theory AndroidUnwind
  imports UnwinderModel
begin

text \<open>
  The entry points of the unwinder: \<open>unwindstack/AndroidUnwinder.cpp\<close> and \<open>AndroidUnwinder.h\<close>, for the
  process itself and for another process, and the frames as \<open>BacktraceCapture\<close> receives them. Unwinding
  another thread of the process is in \<open>ThreadUnwind\<close>.
\<close>

section \<open>State\<close>

record AndroidUnwinder =
  au_initial_map_names_to_skip :: "string list"
  au_map_suffixes_to_ignore :: "string list"
  au_mangle_function_to_exit :: "string list"
  au_once :: bool
  au_initialize_status :: bool
  au_arch :: ArchEnum
  au_maps :: "nat list"
  au_store :: Store

record (overloaded) 'a AndroidUnwinderData =
  ad_frames :: "Frame list"
  ad_error :: ErrorData
  ad_saved_initial_regs :: "'a Regs option option"
  ad_max_frames :: "nat option"
  ad_show_all_frames :: bool

text \<open>
  What the objects are created from. \<open>an_local\<close> tells \<open>AndroidLocalUnwinder\<close> from \<open>AndroidRemoteUnwinder\<close>;
  \<open>an_arch\<close> is the architecture of the build, or what ptrace tells of the other process (with the error
  it sets), \<open>an_maps_text\<close> the maps file at initialisation, and \<open>an_regs\<close> the registers of the thread, or
  the error of reading them.
\<close>

record (overloaded) 'a AndroidEnv =
  an_unwind :: UnwindEnv
  an_local :: bool
  an_arch :: "ErrorCode + ArchEnum"
  an_maps_text :: "string option"
  an_regs :: "ErrorCode + 'a Regs"

definition kMaxNumFrames :: nat where "kMaxNumFrames = 512"

definition AndroidLocalUnwinder_new :: "string list \<Rightarrow> string list \<Rightarrow> string list \<Rightarrow> Store \<Rightarrow> AndroidUnwinder" where
  "AndroidLocalUnwinder_new skip suffixes exits s =
     \<lparr>au_initial_map_names_to_skip = skip @ [''libunwindstack.so''], au_map_suffixes_to_ignore = suffixes,
      au_mangle_function_to_exit = exits, au_once = False, au_initialize_status = False, au_arch = ARCH_UNKNOWN,
      au_maps = [], au_store = s\<rparr>"

definition set_data_code :: "ErrorCode \<Rightarrow> 'a::len AndroidUnwinderData \<Rightarrow> 'a AndroidUnwinderData" where
  "set_data_code c d = d\<lparr>ad_error := (ad_error d)\<lparr>er_code := c\<rparr>\<rparr>"

section \<open>Initialisation\<close>

text \<open>Parsing into a new \<open>Maps\<close> object.\<close>

definition initialize_maps :: "string option \<Rightarrow> AndroidUnwinder \<times> 'a::len AndroidUnwinderData
     \<Rightarrow> bool \<times> AndroidUnwinder \<times> 'a AndroidUnwinderData" where
  "initialize_maps file = (\<lambda>(a, d).
     let (ok, maps, h) = Maps_Parse file ([], map_objects (au_store a));
         a = a\<lparr>au_maps := maps, au_store := (au_store a)\<lparr>map_objects := h\<rparr>\<rparr>
     in if ok then (True, a, d) else (False, a, set_data_code ERROR_MAPS_PARSE d))"

definition InternalInitialize :: "'a::len AndroidEnv \<Rightarrow> AndroidUnwinder \<times> 'a AndroidUnwinderData
     \<Rightarrow> bool \<times> AndroidUnwinder \<times> 'a AndroidUnwinderData" where
  "InternalInitialize env = (\<lambda>(a, d).
     if an_local env then
       initialize_maps (an_maps_text env)
         (a\<lparr>au_arch := (case an_arch env of Inl _ \<Rightarrow> ARCH_UNKNOWN | Inr arch \<Rightarrow> arch)\<rparr>, d)
     else
       (let (a, d) = (if au_arch a \<noteq> ARCH_UNKNOWN then (a, d)
                      else (case an_arch env of
                              Inl e \<Rightarrow> (a, set_data_code e d)
                            | Inr arch \<Rightarrow> (a\<lparr>au_arch := arch\<rparr>, d)))
        in if au_arch a = ARCH_UNKNOWN then (False, a, d)
           else initialize_maps (an_maps_text env) (a, d)))"

text \<open>The error is set by the call that initialises only.\<close>

definition AndroidUnwinder_Initialize :: "'a::len AndroidEnv \<Rightarrow> AndroidUnwinder \<times> 'a AndroidUnwinderData
     \<Rightarrow> bool \<times> AndroidUnwinder \<times> 'a AndroidUnwinderData" where
  "AndroidUnwinder_Initialize env = (\<lambda>(a, d).
     if au_once a then (au_initialize_status a, a, d)
     else (let (ok, a, d) = InternalInitialize env (a, d)
           in (ok, a\<lparr>au_once := True, au_initialize_status := ok\<rparr>, d)))"

section \<open>Unwind\<close>

type_synonym 'a android = "(bool, AndroidUnwinder \<times> 'a AndroidUnwinderData) action"

definition run_unwinder :: "'a::len AndroidEnv \<Rightarrow> 'a Regs \<Rightarrow> 'a android" where
  "run_unwinder env regs = (\<lambda>(a, d).
     let u = Unwinder_new (case ad_max_frames d of Some n \<Rightarrow> n | None \<Rightarrow> kMaxNumFrames) (au_maps a) regs (au_store a);
         put = (\<lambda>u (a, d). (a\<lparr>au_maps := uw_maps u, au_store := uw_store u\<rparr>,
                            d\<lparr>ad_frames := uw_frames u, ad_error := uw_error u\<rparr>))
     in case Unwinder_Unwind (an_unwind env)
               (if ad_show_all_frames d then None else Some (au_initial_map_names_to_skip a))
               (Some (au_map_suffixes_to_ignore a)) (Some (au_mangle_function_to_exit a)) u of
          None \<Rightarrow> None
        | Some Undef \<Rightarrow> Some Undef
        | Some (Failed u) \<Rightarrow> Some (Failed (put u (a, d)))
        | Some (Done _ u) \<Rightarrow> Some (Done (uw_frames u \<noteq> []) (put u (a, d))))"

definition AndroidUnwinder_Unwind_regs :: "'a::len AndroidEnv \<Rightarrow> 'a Regs option \<Rightarrow> 'a android" where
  "AndroidUnwinder_Unwind_regs env initial_regs = (\<lambda>(a, d).
     case initial_regs of
       None \<Rightarrow> act_return False (a, set_data_code ERROR_INVALID_PARAMETER d)
     | Some regs \<Rightarrow>
         (case AndroidUnwinder_Initialize env (a, d) of
            (False, a, d) \<Rightarrow> act_return False (a, d)
          | (True, a, d) \<Rightarrow>
              if au_arch a \<noteq> regs_arch regs then act_return False (a, set_data_code ERROR_BAD_ARCH d)
              else run_unwinder env regs
                     (a, case ad_saved_initial_regs d of
                           None \<Rightarrow> d | Some _ \<Rightarrow> d\<lparr>ad_saved_initial_regs := Some (Some regs)\<rparr>)))"

text \<open>
  The registers of a signal context, made by \<open>CreateFromUcontext\<close> for the architecture; \<open>None\<close> is an
  architecture that has none.
\<close>

definition AndroidUnwinder_Unwind_ucontext :: "'a::len AndroidEnv \<Rightarrow> (ArchEnum \<Rightarrow> 'a Regs option) option \<Rightarrow> 'a android" where
  "AndroidUnwinder_Unwind_ucontext env ucontext = (\<lambda>(a, d).
     case ucontext of
       None \<Rightarrow> act_return False (a, set_data_code ERROR_INVALID_PARAMETER d)
     | Some create \<Rightarrow>
         (case AndroidUnwinder_Initialize env (a, d) of
            (False, a, d) \<Rightarrow> act_return False (a, d)
          | (True, a, d) \<Rightarrow> AndroidUnwinder_Unwind_regs env (create (au_arch a)) (a, d)))"

text \<open>\<open>InternalUnwind\<close> of the calling thread, or of a thread of the other process.\<close>

definition InternalUnwind :: "'a::len AndroidEnv \<Rightarrow> 'a android" where
  "InternalUnwind env = (\<lambda>(a, d).
     case an_regs env of
       Inl e \<Rightarrow> act_return False (a, set_data_code e d)
     | Inr regs \<Rightarrow> AndroidUnwinder_Unwind_regs env (Some regs) (a, d))"

definition AndroidUnwinder_Unwind :: "'a::len AndroidEnv \<Rightarrow> 'a android" where
  "AndroidUnwinder_Unwind env = (\<lambda>(a, d).
     case AndroidUnwinder_Initialize env (a, d) of
       (False, a, d) \<Rightarrow> act_return False (a, d)
     | (True, a, d) \<Rightarrow> InternalUnwind env (a, d))"

section \<open>Handing the frames on\<close>

text \<open>The frame with its map as \<open>BacktraceCapture\<close> reads it.\<close>

definition frame_data :: "map_store \<Rightarrow> Frame \<Rightarrow> FrameData" where
  "frame_data h f = \<lparr>fr_num = uf_num f, fr_rel_pc = uf_rel_pc f, fr_pc = uf_pc f, fr_sp = uf_sp f,
     fr_function_name = text_of (uf_function_name f), fr_function_offset = uf_function_offset f,
     fr_map_info = map_option (\<lambda>i. \<lparr>mr_name = mi_name (h ! i), mr_start = mi_start (h ! i)\<rparr>) (uf_map f)\<rparr>"

text \<open>The outcome of \<open>unwinder.Unwind(data)\<close> as the hook sees it.\<close>

definition unwinder_outcome_of :: "bool \<Rightarrow> AndroidUnwinder \<times> 'a::len AndroidUnwinderData \<Rightarrow> bool \<times> FrameData list \<times> ErrorCode" where
  "unwinder_outcome_of ok = (\<lambda>(a, d). (ok, map (frame_data (map_objects (au_store a))) (ad_frames d), er_code (ad_error d)))"

definition GetErrorCodeString :: "ErrorCode \<Rightarrow> string" where
  "GetErrorCodeString c =
     (case c of
        ERROR_NONE \<Rightarrow> ''None''
      | ERROR_MEMORY_INVALID \<Rightarrow> ''Memory Invalid''
      | ERROR_UNWIND_INFO \<Rightarrow> ''Unwind Info''
      | ERROR_UNSUPPORTED \<Rightarrow> ''Unsupported''
      | ERROR_INVALID_MAP \<Rightarrow> ''Invalid Map''
      | ERROR_MAX_FRAMES_EXCEEDED \<Rightarrow> ''Maximum Frames Exceeded''
      | ERROR_REPEATED_FRAME \<Rightarrow> ''Repeated Frame''
      | ERROR_INVALID_ELF \<Rightarrow> ''Invalid Elf''
      | ERROR_THREAD_DOES_NOT_EXIST \<Rightarrow> ''Thread Does Not Exist''
      | ERROR_THREAD_TIMEOUT \<Rightarrow> ''Thread Timeout''
      | ERROR_SYSTEM_CALL \<Rightarrow> ''System Call Failed''
      | ERROR_BAD_ARCH \<Rightarrow> ''Invalid arch detected''
      | ERROR_MAPS_PARSE \<Rightarrow> ''Failed to parse maps''
      | ERROR_INVALID_PARAMETER \<Rightarrow> ''Invalid parameter''
      | ERROR_PTRACE_CALL \<Rightarrow> ''Ptrace Call Failed''
      | ERROR_EXIT_FUNC \<Rightarrow> ''Exit function'')"

definition GetErrorString :: "'a::len AndroidUnwinderData \<Rightarrow> string" where
  "GetErrorString d =
     GetErrorCodeString (er_code (ad_error d)) @
     (if er_address (ad_error d) \<noteq> 0 then '' at address 0x'' @ hex_string (unat (er_address (ad_error d))) else [])"

end
