(* ===== verification/UnwinderProps.thy ===== *)
theory UnwinderProps
  imports AndroidUnwind
begin

text \<open>
  The frames an unwind delivers: there are never more than asked for, they are numbered in order, and
  without maps to skip the loop ends because every iteration adds a frame.
\<close>

named_theorems frame_rules

section \<open>What the parts of an iteration leave alone\<close>

definition keeps :: "'a::len Unwinder \<Rightarrow> 'a Unwinder \<Rightarrow> bool" where
  "keeps u u' \<longleftrightarrow> uw_max_frames u' = uw_max_frames u \<and> map uf_num (uw_frames u') = map uf_num (uw_frames u)"

lemma keeps_refl [simp, intro]: "keeps u u"
  by (simp add: keeps_def)

lemma keeps_trans [trans]: "keeps u v \<Longrightarrow> keeps v w \<Longrightarrow> keeps u w"
  by (simp add: keeps_def)

lemma keeps_length: "keeps u u' \<Longrightarrow> length (uw_frames u') = length (uw_frames u)"
  unfolding keeps_def by (metis length_map)

lemma act_bind_Done: "act_bind m f s = Some (Done y t) \<longleftrightarrow> (\<exists>x u. m s = Some (Done x u) \<and> f x u = Some (Done y t))"
  by (auto simp: act_bind_def split: option.splits outcome.splits)

lemma act_return_Done [simp]: "act_return x s = Some (Done y t) \<longleftrightarrow> y = x \<and> t = s"
  by (auto simp: act_return_def)

lemma find_pc_keeps [simp]: "keeps u (snd (find_pc env pc u))"
  by (auto simp: find_pc_def keeps_def split: prod.splits)

lemma find_pc_frames [simp]: "uw_frames (snd (find_pc env pc u)) = uw_frames u"
  "uw_max_frames (snd (find_pc env pc u)) = uw_max_frames u" "uw_regs (snd (find_pc env pc u)) = uw_regs u"
  "uw_arch (snd (find_pc env pc u)) = uw_arch u"
  by (simp_all add: find_pc_def split: prod.splits)

lemma with_store_frames:
  assumes "with_store m u = Some (Done x u')"
  shows "uw_frames u' = uw_frames u" "uw_max_frames u' = uw_max_frames u" "uw_regs u' = uw_regs u"
  using assms by (auto simp: with_store_def split: option.splits outcome.splits)

lemma try_jit_frames [simp]: "uw_frames (snd (try_jit env i a st u)) = uw_frames u"
  "uw_max_frames (snd (try_jit env i a st u)) = uw_max_frames u" "uw_regs (snd (try_jit env i a st u)) = uw_regs u"
  by (simp_all add: try_jit_def split: option.splits prod.splits)

lemma set_last_keeps [simp]: "uw_frames u \<noteq> [] \<Longrightarrow> (\<And>f. uf_num (g f) = uf_num f) \<Longrightarrow> keeps u (set_last g u)"
proof -
  assume a: "uw_frames u \<noteq> []" "\<And>f. uf_num (g f) = uf_num f"
  have "map uf_num (butlast (uw_frames u) @ [g (last (uw_frames u))]) = map uf_num (butlast (uw_frames u) @ [last (uw_frames u)])"
    by (simp add: a(2))
  then show "keeps u (set_last g u)" using a(1) by (simp add: keeps_def set_last_def)
qed

lemma locate_in_map_frames:
  assumes "locate_in_map env adjust_pc i b v = Some (Done r w)"
  shows "uw_frames w = uw_frames v" "uw_max_frames w = uw_max_frames v"
proof -
  obtain e s where s: "with_store (GetElf (ue_junk env) (ue_files env) (Some (ue_memory env)) (uw_arch v) i) v = Some (Done e s)"
    using assms by (auto simp: locate_in_map_def act_bind_Done)
  obtain j a st where "w = snd (try_jit env j a st s)"
    using assms s by (simp add: locate_in_map_def act_bind_def Let_def split: prod.splits) (metis snd_conv)
  then show "uw_frames w = uw_frames v" "uw_max_frames w = uw_max_frames v" using with_store_frames [OF s] by auto
qed

lemma locate_frames:
  assumes "locate env skip suffixes adjust_pc attempt u = Some (Done l u')"
  shows "uw_frames u' = uw_frames u \<and> uw_max_frames u' = uw_max_frames u"
proof -
  obtain p v where v: "find_pc env (regs_pc (uw_regs u)) u = (p, v)" by fastforce
  then have f: "uw_frames v = uw_frames u" "uw_max_frames v = uw_max_frames u"
    using find_pc_frames [of env "regs_pc (uw_regs u)" u] by auto
  show ?thesis
  proof (cases p)
    case None
    then show ?thesis using assms v f by (auto simp: locate_def Let_def)
  next
    case (Some i)
    then show ?thesis using assms v f by (auto simp: locate_def Let_def dest: locate_in_map_frames split: if_splits)
  qed
qed

lemma locate_ignore:
  assumes "locate env skip suffixes adjust_pc attempt u = Some (Done (Some lc) u')" "lc_ignore lc"
  shows "skip \<noteq> None"
proof
  assume "skip = None"
  have "\<not> lc_ignore lc'" if "locate_in_map env adjust_pc i False v = Some (Done (Some lc') w)" for i v lc' w
    using that by (auto simp: locate_in_map_def act_bind_Done Let_def split_beta)
  then show False using assms \<open>skip = None\<close>
    by (auto simp: locate_def Let_def split: prod.splits option.splits if_splits)
qed

lemma keeps_regs [simp]: "keeps u (u\<lparr>uw_regs := r\<rparr>)" "keeps u (u\<lparr>uw_error := e\<rparr>)" "keeps u (u\<lparr>uw_store := s\<rparr>)"
  "keeps u (uw_code c u)" "keeps u (set_elf_at i x u)"
  by (simp_all add: keeps_def uw_code_def set_elf_at_def)

lemma elf_step_keeps: "elf_step env e rel_pc step_pc u = Some (Done x u') \<Longrightarrow> uw_frames u' = uw_frames u \<and> uw_max_frames u' = uw_max_frames u"
  by (auto simp: elf_step_def Let_def set_elf_at_def split: prod.splits bool.splits option.splits outcome.splits)

lemma after_step_keeps:
  assumes "has_frame lc \<longrightarrow> uw_frames u \<noteq> []"
  shows "keeps u (snd (after_step lc r u))"
proof -
  let ?v = "if snd (snd r) \<and> has_frame lc then set_last (\<lambda>f. f\<lparr>uf_rel_pc := lc_rel_pc lc, uf_pc := uf_pc f + lc_adjustment lc\<rparr>) u
    else u"
  have "keeps u ?v" using assms by simp
  then have k: "keeps u (?v\<lparr>uw_error := e\<rparr>)" for e by (rule keeps_trans) (rule keeps_regs)
  obtain e where e: "snd (after_step lc r u) = ?v\<lparr>uw_error := e\<rparr>"
    by (cases r) (simp add: after_step_def Let_def)
  show ?thesis unfolding e by (rule k)
qed

lemma step_frame_keeps:
  assumes "step_frame env lc u = Some (Done sp u')" "has_frame lc \<longrightarrow> uw_frames u \<noteq> []"
  shows "keeps u u'"
proof -
  obtain j v where v: "find_pc env (regs_sp (uw_regs u)) u = (j, v)" by fastforce
  then have f: "keeps u v" "uw_frames v = uw_frames u"
    using find_pc_keeps [of u env "regs_sp (uw_regs u)"] find_pc_frames(1) [of env "regs_sp (uw_regs u)" u] by auto
  have step: "keeps v (snd (after_step lc r w))" if "elf_step env e rel pc v = Some (Done r w)" for e rel pc r w
    using elf_step_keeps [OF that] after_step_keeps [of lc w r] assms(2) f(2) by (simp add: keeps_def)
  have "keeps u u'" if "act_bind (elf_step env e rel pc) (\<lambda>r u. let (sp, u) = after_step lc r u in act_return sp u) v =
      Some (Done sp u')" for e rel pc
    using that step keeps_trans [OF f(1)] by (auto simp: act_bind_Done split_beta)
  then show ?thesis using assms(1) v f(1)
    by (auto simp: step_frame_def Let_def split: if_splits)
qed

lemma name_frame_keeps:
  assumes "has_frame lc \<longrightarrow> uw_frames u \<noteq> []"
  shows "keeps u (snd (name_frame functions lc pc u))"
proof (cases "has_frame lc")
  case True
  let ?v = "if uw_resolve_names u then (let (r, elf) = Elf_GetFunctionName pc (elf_at (the (lc_elf lc)) u)
    in (r, set_elf_at (the (lc_elf lc)) elf u)) else (None, u)"
  obtain r v where v: "?v = (r, v)" by fastforce
  then have "keeps u v" "uw_frames v = uw_frames u" by (auto simp: set_elf_at_def keeps_def split: if_splits prod.splits)
  moreover have "keeps v (set_last (\<lambda>f. f\<lparr>uf_function_name := n, uf_function_offset := k\<rparr>) v)" for n k
    using assms True calculation(2) by simp
  ultimately have "keeps u (set_last (\<lambda>f. f\<lparr>uf_function_name := n, uf_function_offset := k\<rparr>) v)" for n k
    by (metis keeps_trans)
  then show ?thesis using True v by (auto simp: name_frame_def Let_def uw_code_def keeps_def split: prod.splits option.splits)
qed (simp add: name_frame_def)

section \<open>The frames\<close>

definition frames_ok :: "'a::len Unwinder \<Rightarrow> bool" where
  "frames_ok u \<longleftrightarrow> length (uw_frames u) \<le> uw_max_frames u \<and> map uf_num (uw_frames u) = [0..<length (uw_frames u)]"

lemma frames_ok_keeps: "keeps u u' \<Longrightarrow> frames_ok u \<Longrightarrow> frames_ok u'"
  using keeps_length [of u u'] by (simp add: frames_ok_def keeps_def)

lemma frames_ok_butlast: "frames_ok u \<Longrightarrow> frames_ok (u\<lparr>uw_frames := butlast (uw_frames u)\<rparr>)"
  by (cases "uw_frames u" rule: rev_cases) (auto simp: frames_ok_def)

lemma FillInDexFrame_frames:
  "map uf_num (uw_frames (FillInDexFrame env u)) = map uf_num (uw_frames u) @ [length (uw_frames u)]"
  "uw_max_frames (FillInDexFrame env u) = uw_max_frames u"
proof -
  let ?u = "u\<lparr>uw_frames := uw_frames u @ [Frame_init\<lparr>uf_num := length (uw_frames u), uf_pc := dex_pc (uw_regs u),
      uf_sp := regs_sp (uw_regs u)\<rparr>]\<rparr>"
  obtain i v where v: "find_pc env (dex_pc (uw_regs u)) ?u = (i, v)" by fastforce
  then have "uw_frames v = uw_frames ?u" "uw_max_frames v = uw_max_frames ?u"
    using find_pc_frames [of env "dex_pc (uw_regs u)" ?u] by auto
  then show "map uf_num (uw_frames (FillInDexFrame env u)) = map uf_num (uw_frames u) @ [length (uw_frames u)]"
    "uw_max_frames (FillInDexFrame env u) = uw_max_frames u"
    using v by (auto simp: FillInDexFrame_def Let_def set_last_def split: option.splits)
qed

text \<open>Frames are added in order, at most as many as fit, and at least one unless the map is skipped.\<close>

lemma add_frames_ok:
  assumes "frames_ok u" "length (uw_frames u) < uw_max_frames u" "add_frames env lc u = (go_on, u')"
  shows "frames_ok u'" "uw_max_frames u' = uw_max_frames u" "length (uw_frames u) \<le> length (uw_frames u')"
    "go_on \<Longrightarrow> \<not> lc_ignore lc \<Longrightarrow> length (uw_frames u) < length (uw_frames u')"
proof -
  have dex: "length (uw_frames (FillInDexFrame env u)) = Suc (length (uw_frames u))"
    using FillInDexFrame_frames(1) [of env u] by (metis length_append_singleton length_map)
  have num: "map uf_num (uw_frames u) = [0..<length (uw_frames u)]" using assms(1) by (simp add: frames_ok_def)
  have fill: "frames_ok (FillInFrame (lc_map lc) (lc_rel_pc lc) (lc_adjustment lc) v) \<and>
      uw_max_frames (FillInFrame (lc_map lc) (lc_rel_pc lc) (lc_adjustment lc) v) = uw_max_frames v \<and>
      length (uw_frames (FillInFrame (lc_map lc) (lc_rel_pc lc) (lc_adjustment lc) v)) = Suc (length (uw_frames v))"
    if "map uf_num (uw_frames v) = [0..<length (uw_frames v)]" "length (uw_frames v) < uw_max_frames v" for v :: "'a Unwinder"
    using that by (simp add: FillInFrame_def frames_ok_def)
  have "frames_ok u' \<and> uw_max_frames u' = uw_max_frames u \<and> length (uw_frames u) \<le> length (uw_frames u') \<and>
    (go_on \<longrightarrow> \<not> lc_ignore lc \<longrightarrow> length (uw_frames u) < length (uw_frames u'))"
  proof (cases "lc_ignore lc \<or> dex_pc (uw_regs u) = 0")
    case True
    then have "(go_on, u') = (True, if lc_ignore lc then u else FillInFrame (lc_map lc) (lc_rel_pc lc) (lc_adjustment lc) u)"
      using assms(3) by (auto simp: add_frames_def Let_def)
    then show ?thesis using assms(1) fill [OF num assms(2)] by (cases "lc_ignore lc") simp_all
  next
    case False
    let ?v = "(FillInDexFrame env u)\<lparr>uw_regs := set_dex_pc 0 (uw_regs (FillInDexFrame env u))\<rparr>"
    have v: "map uf_num (uw_frames ?v) = [0..<length (uw_frames ?v)]" "uw_max_frames ?v = uw_max_frames u"
      "length (uw_frames ?v) = Suc (length (uw_frames u))"
      using FillInDexFrame_frames [of env u] dex num by simp_all
    show ?thesis
    proof (cases "length (uw_frames ?v) = uw_max_frames ?v")
      case True
      then have "go_on = False" "u' = uw_code ERROR_MAX_FRAMES_EXCEEDED ?v"
        using False assms(3) by (auto simp: add_frames_def Let_def)
      then show ?thesis using v True by (simp add: frames_ok_def uw_code_def)
    next
      case full: False
      then have "length (uw_frames ?v) < uw_max_frames ?v" using v assms(2) by simp
      moreover have "u' = FillInFrame (lc_map lc) (lc_rel_pc lc) (lc_adjustment lc) ?v"
        using False full assms(3) by (auto simp: add_frames_def Let_def)
      ultimately show ?thesis using fill [OF v(1)] v by simp
    qed
  qed
  then show "frames_ok u'" "uw_max_frames u' = uw_max_frames u" "length (uw_frames u) \<le> length (uw_frames u')"
    "go_on \<Longrightarrow> \<not> lc_ignore lc \<Longrightarrow> length (uw_frames u) < length (uw_frames u')" by auto
qed

lemma advance_ok:
  assumes "frames_ok u" "finish_iteration env attempt pc sp st u = (r, u')"
  shows "frames_ok u' \<and> uw_max_frames u' = uw_max_frames u \<and> (r \<noteq> None \<longrightarrow> length (uw_frames u') = length (uw_frames u))"
proof -
  obtain go_on v where v: "not_stepped env attempt (sp_device st) u = (go_on, v)" by fastforce
  have n: "frames_ok v \<and> uw_max_frames v = uw_max_frames u \<and> (go_on \<longrightarrow> uw_frames v = uw_frames u)"
  proof (cases attempt)
    case True
    obtain i w where w: "find_pc env (uf_pc (hd (uw_frames u))) u = (i, w)" by fastforce
    then have "uw_frames w = uw_frames u" "uw_max_frames w = uw_max_frames u"
      using find_pc_frames [of env "uf_pc (hd (uw_frames u))" u] by auto
    then have "frames_ok w" using assms(1) by (simp add: frames_ok_def)
    then show ?thesis using v w True assms(1) frames_ok_butlast [of u] frames_ok_butlast [of w]
      \<open>uw_frames w = uw_frames u\<close> \<open>uw_max_frames w = uw_max_frames u\<close>
      by (auto simp: not_stepped_def Let_def split: if_splits)
  next
    case False
    then show ?thesis using v assms(1) by (auto simp: not_stepped_def frames_ok_def split: if_splits prod.splits)
  qed
  show ?thesis using assms n v by (auto simp: finish_iteration_def Let_def frames_ok_def uw_code_def split: if_splits prod.splits)
qed

lemma iteration_ok:
  assumes "frames_ok u" "length (uw_frames u) < uw_max_frames u"
    and "iteration env skip suffixes functions adjust_pc attempt u = Some (Done r u')"
  shows "frames_ok u'" "uw_max_frames u' = uw_max_frames u"
    "r = Some (None, b) \<Longrightarrow> skip = None \<Longrightarrow> length (uw_frames u) < length (uw_frames u')"
    "r = Some (skip', b) \<Longrightarrow> skip = None \<Longrightarrow> skip' = None"
proof -
  obtain l v where l: "locate env skip suffixes adjust_pc attempt u = Some (Done l v)"
    using assms(3) by (auto simp: iteration_def act_bind_Done)
  note lf = locate_frames [OF l]
  have v: "frames_ok v" "length (uw_frames v) < uw_max_frames v" "uw_max_frames v = uw_max_frames u"
    "uw_frames v = uw_frames u" using lf assms(1,2) by (simp_all add: frames_ok_def)
  have "frames_ok u' \<and> uw_max_frames u' = uw_max_frames u \<and>
    (\<forall>skip' b. r = Some (skip', b) \<longrightarrow> skip = None \<longrightarrow> skip' = None \<and> length (uw_frames u) < length (uw_frames u'))"
  proof (cases l)
    case None
    then show ?thesis using assms(3) l v by (simp add: iteration_def act_bind_def)
  next
    case (Some lc)
    obtain go_on w where w: "add_frames env lc v = (go_on, w)" by fastforce
    note af = add_frames_ok [OF v(1,2) w]
    show ?thesis
    proof (cases go_on)
      case False
      then show ?thesis using assms(3) l v Some w af by (simp add: iteration_def act_bind_def)
    next
      case True
      obtain sp x where x: "step_frame env lc w = Some (Done sp x)"
        using assms(3) l Some w True by (auto simp: iteration_def act_bind_Done)
      have ne: "has_frame lc \<longrightarrow> uw_frames w \<noteq> []" using af(4) True by (auto simp: has_frame_def)
      have kx: "keeps w x" by (rule step_frame_keeps [OF x ne])
      have "has_frame lc \<longrightarrow> uw_frames x \<noteq> []" using ne keeps_length [OF kx] by auto
      then have ky: "keeps x (snd (name_frame functions lc (sp_step_pc sp) x))" by (rule name_frame_keeps)
      obtain quit y where y: "name_frame functions lc (sp_step_pc sp) x = (quit, y)" by fastforce
      have k: "keeps w y" using kx ky y keeps_trans by auto
      note y_ok = frames_ok_keeps [OF k af(1)] and y_max = keeps_def [of w y] and y_len = keeps_length [OF k]
      show ?thesis
      proof (cases quit)
        case True
        then show ?thesis using assms(3) l Some w \<open>go_on\<close> x y y_ok k af(2) v(3)
          by (simp add: iteration_def act_bind_def keeps_def)
      next
        case False
        obtain n z where z: "finish_iteration env attempt (regs_pc (uw_regs u)) (regs_sp (uw_regs u)) sp y = (n, z)" by fastforce
        have r: "r = map_option (\<lambda>a. (if lc_ignore lc then skip else None, a)) n \<and> u' = z"
          using assms(3) l Some w \<open>go_on\<close> x y False z
          by (cases n) (simp_all add: iteration_def act_bind_def)
        have "frames_ok z \<and> uw_max_frames z = uw_max_frames y \<and> (n \<noteq> None \<longrightarrow> length (uw_frames z) = length (uw_frames y))"
          by (rule advance_ok [OF y_ok z])
        moreover have "lc_ignore lc \<longrightarrow> skip \<noteq> None" using locate_ignore l Some by blast
        ultimately show ?thesis using r k af \<open>go_on\<close> y_len v(3,4) by (auto simp: keeps_def)
      qed
    qed
  qed
  then show "frames_ok u'" "uw_max_frames u' = uw_max_frames u"
    "r = Some (None, b) \<Longrightarrow> skip = None \<Longrightarrow> length (uw_frames u) < length (uw_frames u')"
    "r = Some (skip', b) \<Longrightarrow> skip = None \<Longrightarrow> skip' = None" by auto
qed

lemma unwind_loop_ok:
  assumes "unwind_loop env skip suffixes functions adjust_pc attempt u = Some (Done () u')" "frames_ok u"
  shows "frames_ok u' \<and> uw_max_frames u' = uw_max_frames u"
proof -
  have "case r of Done _ u' \<Rightarrow> frames_ok u \<longrightarrow> frames_ok u' \<and> uw_max_frames u' = uw_max_frames u | _ \<Rightarrow> True"
    if "unwind_loop env skip suffixes functions adjust_pc attempt u = Some r" for r
  proof (rule unwind_loop.raw_induct [where P = "\<lambda>env skip suffixes functions adjust_pc attempt u r.
      case r of Done _ u' \<Rightarrow> frames_ok u \<longrightarrow> frames_ok u' \<and> uw_max_frames u' = uw_max_frames u | _ \<Rightarrow> True", OF _ that], goal_cases)
    case (1 loop env skip suffixes fns adjust_pc attempt u r)
    show ?case
    proof (cases "length (uw_frames u) < uw_max_frames u \<and> frames_ok u")
      case False
      then show ?thesis using 1(2) by (auto split: outcome.splits if_splits)
    next
      case True
      then obtain i where i: "iteration env skip suffixes fns adjust_pc attempt u = Some i"
        using 1(2) by (auto simp: bind_eq_Some_conv)
      show ?thesis
      proof (cases i)
        case (Done a v)
        note it = iteration_ok [OF conjunct2 [OF True] conjunct1 [OF True] i [unfolded Done]]
        show ?thesis
        proof (cases a)
          case None
          then show ?thesis using 1(2) True i Done it(1,2) by auto
        next
          case (Some p)
          obtain skip' att where p: "p = (skip', att)" by (cases p)
          have "loop env skip' suffixes fns True att v = Some r" using 1(2) True i Done Some p by simp
          from 1(1) [OF this] show ?thesis using it(1,2) True by (auto split: outcome.splits)
        qed
      qed (use 1(2) True i in auto)
    qed
  qed
  from this [OF assms(1)] assms(2) show ?thesis by simp
qed

lemma Unwinder_Unwind_ok:
  assumes "Unwinder_Unwind env skip suffixes functions u = Some (Done () u')"
  shows "frames_ok u'" "uw_max_frames u' = uw_max_frames u"
proof -
  let ?v = "(ClearErrors u)\<lparr>uw_frames := []\<rparr>"
  obtain i v where v: "find_pc env (regs_pc (uw_regs ?v)) ?v = (i, v)" by fastforce
  then have f: "uw_frames v = []" "uw_max_frames v = uw_max_frames u"
    using find_pc_frames [of env "regs_pc (uw_regs ?v)" ?v] by (simp_all add: ClearErrors_def)
  let ?w = "if i = None then v\<lparr>uw_regs := fallback_pc (ue_xpac env) (uw_regs v)\<rparr> else v"
  have l: "unwind_loop env skip suffixes functions False False ?w = Some (Done () u')"
    using assms v by (cases i) (simp_all add: Unwinder_Unwind_def Let_def split: if_splits)
  have "frames_ok ?w" "uw_max_frames ?w = uw_max_frames u" using f by (simp_all add: frames_ok_def)
  then show "frames_ok u'" "uw_max_frames u' = uw_max_frames u" using unwind_loop_ok [OF l] by simp_all
qed

section \<open>What the hook receives\<close>

definition frame_limit :: "'a::len AndroidUnwinderData \<Rightarrow> nat" where
  "frame_limit d = (case ad_max_frames d of Some n \<Rightarrow> n | None \<Rightarrow> kMaxNumFrames)"

lemma Initialize_limit: "AndroidUnwinder_Initialize env (a, d) = (ok, a', d') \<Longrightarrow> frame_limit d' = frame_limit d"
  by (auto simp: AndroidUnwinder_Initialize_def InternalInitialize_def initialize_maps_def frame_limit_def set_data_code_def
      Let_def split: if_splits prod.splits sum.splits)

lemma run_unwinder_frames:
  assumes "run_unwinder env regs (a, d) = Some (Done ok (a', d'))"
  shows "map uf_num (ad_frames d') = [0..<length (ad_frames d')] \<and> length (ad_frames d') \<le> frame_limit d"
proof -
  let ?u = "Unwinder_new (frame_limit d) (au_maps a) regs (au_store a)"
  obtain u' where u: "Unwinder_Unwind (an_unwind env) (if ad_show_all_frames d then None else Some (au_initial_map_names_to_skip a))
      (Some (au_map_suffixes_to_ignore a)) (Some (au_mangle_function_to_exit a)) ?u = Some (Done () u')"
    and d': "ad_frames d' = uw_frames u'"
    using assms unfolding run_unwinder_def Let_def frame_limit_def by (auto split: option.splits outcome.splits)
  show ?thesis using Unwinder_Unwind_ok [OF u] d' by (simp add: frames_ok_def Unwinder_new_def)
qed

lemma Unwind_regs_frames:
  assumes "AndroidUnwinder_Unwind_regs env r (a, d) = Some (Done True (a', d'))"
  shows "map uf_num (ad_frames d') = [0..<length (ad_frames d')] \<and> length (ad_frames d') \<le> frame_limit d"
proof -
  obtain init b e where i0: "AndroidUnwinder_Initialize env (a, d) = (init, b, e)" by (cases "AndroidUnwinder_Initialize env (a, d)")
  with assms have init by (cases init) (simp_all add: AndroidUnwinder_Unwind_regs_def split: option.splits)
  with i0 have i: "AndroidUnwinder_Initialize env (a, d) = (True, b, e)" by simp
  with assms obtain regs where r: "run_unwinder env regs (b, case ad_saved_initial_regs e of None \<Rightarrow> e
      | Some _ \<Rightarrow> e\<lparr>ad_saved_initial_regs := Some (Some regs)\<rparr>) = Some (Done True (a', d'))"
    using assms by (auto simp: AndroidUnwinder_Unwind_regs_def split: option.splits if_splits)
  have "frame_limit (case ad_saved_initial_regs e of None \<Rightarrow> e | Some _ \<Rightarrow> e\<lparr>ad_saved_initial_regs := Some (Some regs)\<rparr>) = frame_limit d"
    using Initialize_limit [OF i] by (cases "ad_saved_initial_regs e") (simp_all add: frame_limit_def)
  then show ?thesis using run_unwinder_frames [OF r] by simp
qed

text \<open>
  Property C13. The backtrace that the hook records is the list of the program counters of the
  unwinder's frames, in their order, and never longer than was asked for: the frame numbers are
  \<open>0, 1, 2\<close> and so on, so that filling the vector by number is always within its bounds. A failed unwind
  leaves an empty backtrace.
\<close>

theorem captured_backtrace:
  assumes "AndroidUnwinder_Unwind env (a, d) = Some (Done ok (a', d'))"
  shows "BacktraceCapture.Unwind (unwinder_outcome_of ok (a', d')) =
      Inr (er_code (ad_error d'), if ok then map uf_pc (ad_frames d') else [],
           if ok then map (frame_data (map_objects (au_store a'))) (ad_frames d') else []) \<and>
    (ok \<longrightarrow> length (ad_frames d') \<le> (case ad_max_frames d of Some n \<Rightarrow> n | None \<Rightarrow> kMaxNumFrames))"
proof (cases ok)
  case False
  then show ?thesis by (simp add: unwinder_outcome_of_def BacktraceCapture.Unwind_def)
next
  case True
  obtain init b e where i0: "AndroidUnwinder_Initialize env (a, d) = (init, b, e)" by (cases "AndroidUnwinder_Initialize env (a, d)")
  with assms True have init by (cases init) (simp_all add: AndroidUnwinder_Unwind_def)
  with i0 have i: "AndroidUnwinder_Initialize env (a, d) = (True, b, e)" by simp
  then obtain r where "AndroidUnwinder_Unwind_regs env r (b, e) = Some (Done True (a', d'))"
    using assms True by (auto simp: AndroidUnwinder_Unwind_def InternalUnwind_def split: sum.splits)
  then have f: "map uf_num (ad_frames d') = [0..<length (ad_frames d')]" "length (ad_frames d') \<le> frame_limit d"
    using Unwind_regs_frames Initialize_limit [OF i] by fastforce+
  then have "numbered (map (frame_data (map_objects (au_store a'))) (ad_frames d'))"
    by (simp add: numbered_def frame_data_def comp_def)
  moreover have "map fr_pc (map (frame_data h) fs) = map uf_pc fs" for h fs by (simp add: frame_data_def)
  ultimately show ?thesis using True f
    by (simp add: unwinder_outcome_of_def Unwind_numbered frame_limit_def)
qed

section \<open>Termination\<close>

text \<open>The states at the head of the loop, without maps to skip: \<open>adjust_pc\<close>, \<open>return_address_attempt\<close>, the unwinder.\<close>

inductive passes :: "UnwindEnv \<Rightarrow> string list option \<Rightarrow> string list option \<Rightarrow> 'a::len Unwinder
    \<Rightarrow> bool \<Rightarrow> bool \<Rightarrow> 'a Unwinder \<Rightarrow> bool"
  for env suffixes exits u0 where
  start: "passes env suffixes exits u0 False False u0"
| next_frame: "passes env suffixes exits u0 adj att u \<Longrightarrow> length (uw_frames u) < uw_max_frames u \<Longrightarrow>
    iteration env None suffixes exits adj att u = Some (Done (Some (skip, att')) u') \<Longrightarrow>
    passes env suffixes exits u0 True att' u'"

text \<open>The state in which the loop starts.\<close>

definition first_state :: "UnwindEnv \<Rightarrow> 'a::len Unwinder \<Rightarrow> 'a Unwinder" where
  "first_state env u0 =
     (let u = (ClearErrors u0)\<lparr>uw_frames := []\<rparr>; (i, u) = find_pc env (regs_pc (uw_regs u)) u
      in if i = None then u\<lparr>uw_regs := fallback_pc (ue_xpac env) (uw_regs u)\<rparr> else u)"

lemma Unwinder_Unwind_first:
  "uw_arch u \<noteq> ARCH_UNKNOWN \<Longrightarrow>
   Unwinder_Unwind env skip suffixes fns u = unwind_loop env skip suffixes fns False False (first_state env u)"
  by (cases "find_pc env (regs_pc (uw_regs ((ClearErrors u)\<lparr>uw_frames := []\<rparr>))) ((ClearErrors u)\<lparr>uw_frames := []\<rparr>)")
    (simp add: Unwinder_Unwind_def first_state_def Let_def)

lemma loop_returns:
  assumes "\<And>adj att v. passes env suffixes exits u0 adj att v \<Longrightarrow> iteration env None suffixes exits adj att v \<noteq> None"
    and "passes env suffixes exits u0 adj att u" "frames_ok u"
  shows "\<exists>r. unwind_loop env None suffixes exits adj att u = Some r"
  using assms(2,3)
proof (induction "uw_max_frames u - length (uw_frames u)" arbitrary: adj att u rule: less_induct)
  case less
  show ?case
  proof (cases "length (uw_frames u) < uw_max_frames u")
    case False
    then show ?thesis by (simp add: unwind_loop.simps [of env None suffixes exits adj att u])
  next
    case True
    obtain i where i: "iteration env None suffixes exits adj att u = Some i" using assms(1) less.prems(1) by blast
    note unfold = unwind_loop.simps [of env None suffixes exits adj att u]
    show ?thesis
    proof (cases i)
      case (Done a v)
      note it = iteration_ok [OF less.prems(2) True i [unfolded Done]]
      show ?thesis
      proof (cases a)
        case (Some p)
        obtain skip' att' where p: "p = (skip', att')" by (cases p)
        have s: "skip' = None" using it(4) Some p by simp
        have g: "length (uw_frames u) < length (uw_frames v)" using it(3) Some p s by simp
        have "passes env suffixes exits u0 True att' v"
          using next_frame [OF less.prems(1) True] i Done Some p by simp
        moreover have "uw_max_frames v - length (uw_frames v) < uw_max_frames u - length (uw_frames u)"
          using g it(2) True by simp
        ultimately obtain r where "unwind_loop env None suffixes exits True att' v = Some r" using less.hyps it(1) by blast
        then show ?thesis using unfold True i Done Some p s by simp
      qed (use unfold True i Done in simp)
    qed (use unfold True i in simp_all)
  qed
qed

text \<open>
  Property C22. When no map is to be skipped, an unwind can only hang inside one step: if every
  iteration that the loop comes to returns, the unwind returns, because every iteration that goes on has
  added a frame.
\<close>

theorem unwind_returns:
  assumes "uw_arch u \<noteq> ARCH_UNKNOWN"
    and "\<And>adj att v. passes env suffixes exits (first_state env u) adj att v \<Longrightarrow>
      iteration env None suffixes exits adj att v \<noteq> None"
  shows "\<exists>r. Unwinder_Unwind env None suffixes exits u = Some r"
proof -
  let ?v = "(ClearErrors u)\<lparr>uw_frames := []\<rparr>"
  obtain i v where v: "find_pc env (regs_pc (uw_regs ?v)) ?v = (i, v)" by fastforce
  then have "uw_frames v = []" using find_pc_frames [of env "regs_pc (uw_regs ?v)" ?v] by simp
  then have "frames_ok (first_state env u)" using v by (simp add: first_state_def Let_def frames_ok_def)
  with loop_returns [OF assms(2) passes.start] obtain r
    where "unwind_loop env None suffixes exits False False (first_state env u) = Some r" by blast
  then show ?thesis using Unwinder_Unwind_first [OF assms(1)] by simp
qed

section \<open>A sample\<close>

text \<open>
  A 32-bit ARM thread in memory that no map covers: the unwinder takes the address in the link register
  for the next frame and gives up there.
\<close>

definition bare_store :: Store where
  "bare_store = \<lparr>map_objects = [], elf_objects = [], cache_enabled = False, elf_cache = Map.empty\<rparr>"

definition bare_env :: UnwindEnv where
  "bare_env = \<lparr>ue_xpac = id, ue_iterate = (\<lambda>_. []), ue_junk = 0, ue_mips_junk = [], ue_files = (\<lambda>_. None),
     ue_memory = (\<lambda>_ _. []), ue_updatable = False, ue_maps_file = (\<lambda>_. None), ue_jit_find = None\<rparr>"

definition bare_regs :: "32 Regs" where
  "bare_regs = set_reg ARM_REG_PC 0x1000 (set_reg ARM_REG_LR 0x2000 RegsArm_new)"

definition bare_unwinder :: "32 Unwinder" where
  "bare_unwinder = Unwinder_new 16 [] bare_regs bare_store"

lemma bare_iteration:
  fixes u :: "'a::len Unwinder"
  assumes "uw_maps u = []"
  shows "\<exists>r v. iteration bare_env None suffixes exits adj att u = Some (Done r v) \<and> uw_maps v = []"
proof -
  have find: "find_pc bare_env pc v = (None, v)" if "uw_maps v = []" for pc and v :: "'a Unwinder"
    using that by (simp add: find_pc_def bare_env_def Maps_Find_def)
  let ?pc = "regs_pc (uw_regs u)"
  let ?lc = "\<lparr>lc_map = None, lc_elf = None, lc_step_pc = ?pc, lc_rel_pc = ?pc, lc_adjustment = 0, lc_ignore = False\<rparr>"
  let ?v = "if \<not> att \<or> er_code (uw_error u) = ERROR_NONE then u\<lparr>uw_error := \<lparr>er_code = ERROR_INVALID_MAP, er_address = ?pc\<rparr>\<rparr> else u"
  have l: "locate bare_env None suffixes adj att u = Some (Done (Some ?lc) ?v)"
    using find [OF assms] by (simp add: locate_def act_return_def Let_def)
  obtain b w where w: "add_frames bare_env ?lc ?v = (b, w)" by fastforce
  have mw: "uw_maps w = []"
    using w assms find by (auto simp: add_frames_def FillInDexFrame_def FillInFrame_def set_last_def uw_code_def Let_def
      split: if_splits)
  let ?sp = "\<lparr>sp_stepped = False, sp_device = False, sp_finished = False, sp_step_pc = ?pc\<rparr>"
  have s: "step_frame bare_env ?lc w = Some (Done ?sp w)" by (simp add: step_frame_def act_return_def)
  have n: "name_frame exits ?lc ?pc w = (False, w)" by (simp add: name_frame_def has_frame_def)
  obtain r x where x: "finish_iteration bare_env att ?pc (regs_sp (uw_regs u)) ?sp w = (r, x)" by fastforce
  have mx: "uw_maps x = []"
    using x mw find [OF mw] by (auto simp: finish_iteration_def not_stepped_def uw_code_def Let_def split: if_splits prod.splits)
  show ?thesis
    using l w s n x mw mx by (cases b; cases r) (simp_all add: iteration_def act_bind_def act_return_def)
qed

lemma bare_passes:
  "passes bare_env suffixes exits u0 adj att u \<Longrightarrow> uw_maps u0 = [] \<Longrightarrow> uw_maps u = []"
proof (induction rule: passes.induct)
  case (next_frame adj att u skip att' u')
  then show ?case using bare_iteration [of u suffixes exits adj att] by auto
qed

lemma bare_first: "uw_maps (first_state bare_env bare_unwinder) = []"
  by (simp add: first_state_def find_pc_def bare_env_def bare_unwinder_def Unwinder_new_def ClearErrors_def Maps_Find_def)

lemma unwind_returns_witness: "\<exists>r. Unwinder_Unwind bare_env None None None bare_unwinder = Some r"
proof (rule unwind_returns)
  show "uw_arch bare_unwinder \<noteq> ARCH_UNKNOWN"
    by (simp add: bare_unwinder_def Unwinder_new_def bare_regs_def set_reg_def RegsArm_new_def RegsImpl_def)
  show "iteration bare_env None None None adj att v \<noteq> None"
    if "passes bare_env None None (first_state bare_env bare_unwinder) adj att v" for adj att v
    using bare_iteration [OF bare_passes [OF that bare_first]] by fastforce
qed

definition bare_android :: AndroidUnwinder where
  "bare_android = AndroidLocalUnwinder_new [''liballoc_hook.so''] [] [] bare_store"

definition bare_android_env :: "32 AndroidEnv" where
  "bare_android_env = \<lparr>an_unwind = bare_env, an_local = True, an_arch = Inr ARCH_ARM, an_maps_text = Some [],
     an_regs = Inr bare_regs\<rparr>"

definition bare_data :: "32 AndroidUnwinderData" where
  "bare_data = \<lparr>ad_frames = [], ad_error = \<lparr>er_code = ERROR_NONE, er_address = 0\<rparr>, ad_saved_initial_regs = None,
     ad_max_frames = Some 16, ad_show_all_frames = False\<rparr>"

text \<open>What the sample unwind delivers: whether it succeeded, the program counters, the error.\<close>

definition unwind_summary :: "(bool, AndroidUnwinder \<times> 'a::len AndroidUnwinderData) outcome option \<Rightarrow> (bool \<times> u64 list \<times> ErrorCode) option" where
  "unwind_summary r = (case r of Some (Done ok (a, d)) \<Rightarrow> Some (ok, map uf_pc (ad_frames d), er_code (ad_error d)) | _ \<Rightarrow> None)"

definition bare_names :: "string list" where
  "bare_names = [''liballoc_hook.so'', ''libunwindstack.so'']"

text \<open>The two passes of the loop, and the states at their heads.\<close>

definition bare_pass :: "string list option \<Rightarrow> bool \<Rightarrow> bool \<Rightarrow> 32 Unwinder \<Rightarrow>
    ((string list option \<times> bool) option, 32 Unwinder) outcome option" where
  "bare_pass skip = iteration bare_env skip (Some []) (Some [])"

definition passed :: "('x, 'a) outcome option \<Rightarrow> 'x option" where
  "passed r = (case r of Some (Done x _) \<Rightarrow> Some x | _ \<Rightarrow> None)"

definition pass_state :: "('x, 'a) outcome option \<Rightarrow> 'a option" where
  "pass_state r = (case r of Some (Done _ u) \<Rightarrow> Some u | _ \<Rightarrow> None)"

lemma passed_state: "passed r = Some x \<Longrightarrow> r = Some (Done x (the (pass_state r)))"
  by (simp add: passed_def pass_state_def split: option.splits outcome.splits)

definition bare_head :: "nat \<Rightarrow> 32 Unwinder" where
  "bare_head n =
     (let u = first_state bare_env bare_unwinder; v = the (pass_state (bare_pass (Some bare_names) False False u))
      in if n = 0 then u else if n = 1 then v else the (pass_state (bare_pass None True True v)))"

lemma bare_first_pass: "passed (bare_pass (Some bare_names) False False (bare_head 0)) = Some (Some (None, True))"
  by code_simp

lemma bare_second_pass: "passed (bare_pass None True True (bare_head 1)) = Some None"
  by code_simp

lemma bare_heads:
  "length (uw_frames (bare_head 0)) < uw_max_frames (bare_head 0)" "length (uw_frames (bare_head 1)) < uw_max_frames (bare_head 1)"
  "map uf_pc (uw_frames (bare_head 2)) = [0x1000, 0x2000]" "er_code (uw_error (bare_head 2)) = ERROR_INVALID_MAP"
  by code_simp+

lemma bare_loop:
  "unwind_loop bare_env (Some bare_names) (Some []) (Some []) False False (first_state bare_env bare_unwinder) =
     Some (Done () (bare_head 2))"
proof -
  have 1: "iteration bare_env (Some bare_names) (Some []) (Some []) False False (bare_head 0) =
      Some (Done (Some (None, True)) (bare_head 1))"
    using passed_state [OF bare_first_pass] by (simp add: bare_pass_def bare_head_def Let_def)
  have 2: "iteration bare_env None (Some []) (Some []) True True (bare_head 1) = Some (Done None (bare_head 2))"
    using passed_state [OF bare_second_pass] by (simp add: bare_pass_def bare_head_def Let_def)
  have "first_state bare_env bare_unwinder = bare_head 0" by (simp add: bare_head_def Let_def)
  then show ?thesis using 1 2 bare_heads(1,2) by (simp add: unwind_loop.simps)
qed

lemma bare_Maps_Parse: "Maps_Parse (Some []) ([], []) = (True, [], [])"
  by code_simp

lemma bare_Initialize:
  "AndroidUnwinder_Initialize bare_android_env (bare_android, bare_data) =
     (True, bare_android\<lparr>au_arch := ARCH_ARM, au_once := True, au_initialize_status := True\<rparr>, bare_data)"
  "AndroidUnwinder_Initialize bare_android_env
       (bare_android\<lparr>au_arch := ARCH_ARM, au_once := True, au_initialize_status := True\<rparr>, bare_data) =
     (True, bare_android\<lparr>au_arch := ARCH_ARM, au_once := True, au_initialize_status := True\<rparr>, bare_data)"
  by (simp_all add: AndroidUnwinder_Initialize_def InternalInitialize_def initialize_maps_def bare_android_env_def
      bare_android_def AndroidLocalUnwinder_new_def bare_store_def bare_Maps_Parse)

lemma bare_Unwinder_Unwind:
  "Unwinder_Unwind bare_env (Some bare_names) (Some []) (Some []) bare_unwinder = Some (Done () (bare_head 2))"
proof -
  have "uw_arch bare_unwinder \<noteq> ARCH_UNKNOWN"
    by (simp add: bare_unwinder_def Unwinder_new_def bare_regs_def set_reg_def RegsArm_new_def RegsImpl_def)
  then show ?thesis using bare_loop by (simp add: Unwinder_Unwind_first)
qed

lemma bare_android_unwind:
  "unwind_summary (AndroidUnwinder_Unwind bare_android_env (bare_android, bare_data)) =
     Some (True, [0x1000, 0x2000], ERROR_INVALID_MAP)"
proof -
  have f: "uw_frames (bare_head 2) \<noteq> []" using bare_heads(3) by auto
  have arch: "regs_arch bare_regs = ARCH_ARM"
    by (simp add: bare_regs_def set_reg_def RegsArm_new_def RegsImpl_def)
  have u: "Unwinder_new 16 [] bare_regs bare_store = bare_unwinder" by (simp add: bare_unwinder_def)
  have e: "an_regs bare_android_env = Inr bare_regs" "an_unwind bare_android_env = bare_env"
    by (simp_all add: bare_android_env_def)
  have n: "au_initial_map_names_to_skip bare_android = bare_names" "au_map_suffixes_to_ignore bare_android = []"
      "au_mangle_function_to_exit bare_android = []" "au_maps bare_android = []" "au_store bare_android = bare_store"
    by (simp_all add: bare_android_def AndroidLocalUnwinder_new_def bare_names_def)
  have d: "ad_max_frames bare_data = Some 16" "\<not> ad_show_all_frames bare_data" "ad_saved_initial_regs bare_data = None"
    by (simp_all add: bare_data_def)
  show ?thesis
    by (simp add: AndroidUnwinder_Unwind_def bare_Initialize InternalUnwind_def AndroidUnwinder_Unwind_regs_def
        run_unwinder_def Let_def arch u f bare_Unwinder_Unwind bare_heads(3,4) unwind_summary_def e n d)
qed

lemma captured_backtrace_witness:
  "\<exists>ok a d. AndroidUnwinder_Unwind bare_android_env (bare_android, bare_data) = Some (Done ok (a, d)) \<and>
     fst (snd (projr (BacktraceCapture.Unwind (unwinder_outcome_of ok (a, d))))) = [0x1000, 0x2000]"
proof -
  let ?r = "AndroidUnwinder_Unwind bare_android_env (bare_android, bare_data)"
  obtain ok p where p: "?r = Some (Done ok p)"
    using bare_android_unwind by (cases ?r; cases "the ?r") (simp_all add: unwind_summary_def)
  obtain a d where r: "?r = Some (Done ok (a, d))" using p by (cases p) simp
  have s: "ok" "map uf_pc (ad_frames d) = [0x1000, 0x2000]"
    using bare_android_unwind r by (simp_all add: unwind_summary_def)
  have "fst (snd (projr (BacktraceCapture.Unwind (unwinder_outcome_of ok (a, d))))) = [0x1000, 0x2000]"
    using captured_backtrace [OF r] s by simp
  with r show ?thesis by blast
qed

end
