(* ===== verification/ThreadUnwind.thy ===== *)
theory ThreadUnwind
  imports BacktraceCapture
begin

text \<open>
  Unwinding another thread of the process: the thread entries of \<open>unwindstack/ThreadEntry.cpp\<close> and the
  handshake of \<open>unwindstack/ThreadUnwinder.cpp\<close>. The requesting thread sends a signal, the handler in the
  signalled thread hands over its context and waits until the unwind is over. The steps of any number of
  threads interleave. A thread that waits with a condition variable goes on when its condition holds, or when
  the ten seconds have passed. One signal number is used; the type of a context is a parameter.
\<close>

section \<open>Thread entries\<close>

definition WAIT_FOR_UCONTEXT :: int where "WAIT_FOR_UCONTEXT = 1"
definition WAIT_FOR_UNWIND_TO_COMPLETE :: int where "WAIT_FOR_UNWIND_TO_COMPLETE = 2"
definition WAIT_FOR_THREAD_TO_RESTART :: int where "WAIT_FOR_THREAD_TO_RESTART = 3"

text \<open>Of \<open>mutex_\<close> the entry knows the thread that holds it.\<close>

record 'c ThreadEntry =
  te_tid :: nat
  ref_count :: int
  te_mutex :: "nat option"
  wait_value :: int
  te_ucontext :: 'c

text \<open>What a signal does: the default, one of the two handlers of this file, or a handler of the program.\<close>

datatype Action = SIG_DFL | SignalHandler | SignalLogOnly | OtherHandler nat

text \<open>
  A requesting thread, by what it does next. It is outside of \<open>UnwindWithSignal\<close>, waits for \<open>action_mutex\<close>,
  calls \<open>Get\<close>, \<open>Lock\<close>, \<open>sigaction\<close>, \<open>tgkill\<close>, waits for the context, unwinds with it, waits for the restart, is in
  \<open>Remove\<close> before \<open>Unlock\<close> or behind it, or gives back \<open>action_mutex\<close> with an error. The last argument is the
  action to restore or the error to report.
\<close>

datatype 'c Request =
    Idle "ErrorCode option"
  | WantAction nat
  | WantEntry nat
  | WantLock nat nat
  | Install nat nat
  | Send nat nat Action
  | WaitContext nat nat Action
  | Unwinding nat nat 'c
  | WaitRestart nat nat
  | Unlocking nat nat "ErrorCode option"
  | Dropping nat nat "ErrorCode option"
  | Leaving ErrorCode

text \<open>
  A thread that may be signalled: it runs its own code, has just entered the handler, copies its context, makes
  the first \<open>Wake\<close>, waits for the end of the unwind, or makes the second \<open>Wake\<close>.
\<close>

datatype 'c Target =
    Running
  | Entered 'c
  | Copying nat 'c
  | Copied nat 'c
  | Parked nat 'c
  | Waking nat 'c

record 'c Threads =
  action_mutex :: "nat option"
  action :: Action
  entries :: "nat \<rightharpoonup> nat"
  entry_heap :: "nat \<rightharpoonup> 'c ThreadEntry"
  request :: "nat \<Rightarrow> 'c Request"
  target :: "nat \<Rightarrow> 'c Target"
  pending :: "nat \<Rightarrow> bool"

definition on_entry :: "nat \<Rightarrow> ('c ThreadEntry \<Rightarrow> 'c ThreadEntry) \<Rightarrow> 'c Threads \<Rightarrow> 'c Threads" where
  "on_entry e f s = s\<lparr>entry_heap := (entry_heap s)(e := map_option f (entry_heap s e))\<rparr>"

text \<open>A new object is at an address where none is, and its context is not initialised.\<close>

definition ThreadEntry_new :: "nat \<Rightarrow> nat \<Rightarrow> 'c \<Rightarrow> 'c Threads \<Rightarrow> 'c Threads" where
  "ThreadEntry_new tid at junk s =
     s\<lparr>entries := (entries s)(tid \<mapsto> at),
       entry_heap := (entry_heap s)(at \<mapsto> \<lparr>te_tid = tid, ref_count = 1, te_mutex = None, wait_value = 0, te_ucontext = junk\<rparr>)\<rparr>"

definition ThreadEntry_Get :: "nat \<Rightarrow> bool \<Rightarrow> nat \<Rightarrow> 'c \<Rightarrow> 'c Threads \<Rightarrow> nat option \<times> 'c Threads" where
  "ThreadEntry_Get tid create at junk s =
     (case entries s tid of
        None \<Rightarrow> if create then (Some at, ThreadEntry_new tid at junk s) else (None, s)
      | Some e \<Rightarrow> (Some e, on_entry e (\<lambda>x. x\<lparr>ref_count := ref_count x + 1\<rparr>) s))"

definition ThreadEntry_Lock :: "nat \<Rightarrow> nat \<Rightarrow> 'c Threads \<Rightarrow> 'c Threads" where
  "ThreadEntry_Lock r e = on_entry e (\<lambda>x. x\<lparr>te_mutex := Some r, wait_value := 0\<rparr>)"

definition ThreadEntry_Unlock :: "nat \<Rightarrow> 'c Threads \<Rightarrow> 'c Threads" where
  "ThreadEntry_Unlock e = on_entry e (\<lambda>x. x\<lparr>te_mutex := None\<rparr>)"

definition ThreadEntry_delete :: "nat \<Rightarrow> 'c Threads \<Rightarrow> 'c Threads" where
  "ThreadEntry_delete e s =
     s\<lparr>entries := (entries s)(te_tid (the (entry_heap s e)) := None), entry_heap := (entry_heap s)(e := None)\<rparr>"

text \<open>\<open>Remove\<close> behind its \<open>Unlock\<close>.\<close>

definition ThreadEntry_Remove :: "nat \<Rightarrow> 'c Threads \<Rightarrow> 'c Threads" where
  "ThreadEntry_Remove e s =
     (let s = on_entry e (\<lambda>x. x\<lparr>ref_count := ref_count x - 1\<rparr>) s in
      if ref_count (the (entry_heap s e)) = 0 then ThreadEntry_delete e s else s)"

text \<open>The condition \<open>Wait\<close> waits for.\<close>

definition ThreadEntry_Wait :: "int \<Rightarrow> nat \<Rightarrow> 'c Threads \<Rightarrow> bool" where
  "ThreadEntry_Wait type e s \<longleftrightarrow> wait_value (the (entry_heap s e)) = type"

definition ThreadEntry_Wake :: "nat \<Rightarrow> 'c Threads \<Rightarrow> 'c Threads" where
  "ThreadEntry_Wake e = on_entry e (\<lambda>x. x\<lparr>wait_value := wait_value x + 1\<rparr>)"

definition CopyUcontextFromSigcontext :: "nat \<Rightarrow> 'c \<Rightarrow> 'c Threads \<Rightarrow> 'c Threads" where
  "CopyUcontextFromSigcontext e c = on_entry e (\<lambda>x. x\<lparr>te_ucontext := c\<rparr>)"

section \<open>Steps\<close>

definition goto :: "nat \<Rightarrow> 'c Request \<Rightarrow> 'c Threads \<Rightarrow> 'c Threads" where
  "goto r p s = s\<lparr>request := (request s)(r := p)\<rparr>"

definition enter :: "nat \<Rightarrow> 'c Target \<Rightarrow> 'c Threads \<Rightarrow> 'c Threads" where
  "enter tid p s = s\<lparr>target := (target s)(tid := p)\<rparr>"

definition set_pending :: "nat \<Rightarrow> bool \<Rightarrow> 'c Threads \<Rightarrow> 'c Threads" where
  "set_pending tid b s = s\<lparr>pending := (pending s)(tid := b)\<rparr>"

text \<open>
  \<open>SignalHandler\<close> in thread \<open>tid\<close>, interrupted at context \<open>c\<close>; the signal is blocked while its handler runs. A
  handler that is not \<open>SignalHandler\<close> has no part in the handshake, and the default action ends the process.
  \<open>timeouts\<close> says whether a wait may end without its condition.
\<close>

inductive handler_step :: "bool \<Rightarrow> nat \<Rightarrow> 'c Threads \<Rightarrow> 'c Threads \<Rightarrow> bool" for timeouts tid where
  deliver: "pending s tid \<Longrightarrow> target s tid = Running \<Longrightarrow> action s = SignalHandler \<Longrightarrow>
     handler_step timeouts tid s (enter tid (Entered c) (set_pending tid False s))"
| other: "pending s tid \<Longrightarrow> target s tid = Running \<Longrightarrow> action s \<noteq> SignalHandler \<Longrightarrow> action s \<noteq> SIG_DFL \<Longrightarrow>
     handler_step timeouts tid s (set_pending tid False s)"
| no_entry: "target s tid = Entered c \<Longrightarrow> ThreadEntry_Get tid False at junk s = (None, s') \<Longrightarrow>
     handler_step timeouts tid s (enter tid Running s')"
| get: "target s tid = Entered c \<Longrightarrow> ThreadEntry_Get tid False at junk s = (Some e, s') \<Longrightarrow>
     handler_step timeouts tid s (enter tid (Copying e c) s')"
| copy: "target s tid = Copying e c \<Longrightarrow>
     handler_step timeouts tid s (enter tid (Copied e c) (CopyUcontextFromSigcontext e c s))"
| wake: "target s tid = Copied e c \<Longrightarrow> handler_step timeouts tid s (enter tid (Parked e c) (ThreadEntry_Wake e s))"
| complete: "target s tid = Parked e c \<Longrightarrow> ThreadEntry_Wait WAIT_FOR_UNWIND_TO_COMPLETE e s \<Longrightarrow>
     handler_step timeouts tid s (enter tid (Waking e c) s)"
| timed_out: "timeouts \<Longrightarrow> target s tid = Parked e c \<Longrightarrow> handler_step timeouts tid s (enter tid Running s)"
| wake_again: "target s tid = Waking e c \<Longrightarrow> handler_step timeouts tid s (enter tid Running (ThreadEntry_Wake e s))"

text \<open>\<open>UnwindWithSignal\<close> of thread \<open>r\<close>, with \<open>SendSignalToThread\<close>. System calls may fail.\<close>

inductive request_step :: "bool \<Rightarrow> nat \<Rightarrow> 'c Threads \<Rightarrow> 'c Threads \<Rightarrow> bool" for timeouts r where
  own_thread: "request s r = Idle err \<Longrightarrow> tid = r \<Longrightarrow> request_step timeouts r s (goto r (Idle (Some ERROR_UNSUPPORTED)) s)"
| no_maps: "request s r = Idle err \<Longrightarrow> tid \<noteq> r \<Longrightarrow> request_step timeouts r s (goto r (Idle (Some ERROR_INVALID_MAP)) s)"
| begin_request: "request s r = Idle err \<Longrightarrow> tid \<noteq> r \<Longrightarrow> request_step timeouts r s (goto r (WantAction tid) s)"
| lock_action: "request s r = WantAction tid \<Longrightarrow> action_mutex s = None \<Longrightarrow>
     request_step timeouts r s (goto r (WantEntry tid) (s\<lparr>action_mutex := Some r\<rparr>))"
| get: "request s r = WantEntry tid \<Longrightarrow> entry_heap s at = None \<Longrightarrow> ThreadEntry_Get tid True at junk s = (Some e, s') \<Longrightarrow>
     request_step timeouts r s (goto r (WantLock tid e) s')"
| lock: "request s r = WantLock tid e \<Longrightarrow> te_mutex (the (entry_heap s e)) = None \<Longrightarrow>
     request_step timeouts r s (goto r (Install tid e) (ThreadEntry_Lock r e s))"
| install: "request s r = Install tid e \<Longrightarrow>
     request_step timeouts r s (goto r (Send tid e (action s)) (s\<lparr>action := SignalHandler\<rparr>))"
| install_failed: "request s r = Install tid e \<Longrightarrow>
     request_step timeouts r s (goto r (Unlocking tid e (Some ERROR_SYSTEM_CALL)) s)"
| send: "request s r = Send tid e old \<Longrightarrow> request_step timeouts r s (goto r (WaitContext tid e old) (set_pending tid True s))"
| send_failed: "request s r = Send tid e old \<Longrightarrow> err \<in> {ERROR_THREAD_DOES_NOT_EXIST, ERROR_SYSTEM_CALL} \<Longrightarrow>
     request_step timeouts r s (goto r (Unlocking tid e (Some err)) (s\<lparr>action := old\<rparr>))"
| has_context: "request s r = WaitContext tid e old \<Longrightarrow> ThreadEntry_Wait WAIT_FOR_UCONTEXT e s \<Longrightarrow>
     request_step timeouts r s (goto r (Unwinding tid e (te_ucontext (the (entry_heap s e)))) (s\<lparr>action_mutex := None\<rparr>))"
| no_context: "timeouts \<Longrightarrow> request s r = WaitContext tid e old \<Longrightarrow> err \<in> {ERROR_THREAD_DOES_NOT_EXIST, ERROR_THREAD_TIMEOUT} \<Longrightarrow>
     request_step timeouts r s (goto r (Unlocking tid e (Some err)) (s\<lparr>action := if old = SIG_DFL then SignalLogOnly else old\<rparr>))"
| unwound: "request s r = Unwinding tid e c \<Longrightarrow> request_step timeouts r s (goto r (WaitRestart tid e) (ThreadEntry_Wake e s))"
| restarted: "request s r = WaitRestart tid e \<Longrightarrow> ThreadEntry_Wait WAIT_FOR_THREAD_TO_RESTART e s \<Longrightarrow>
     request_step timeouts r s (goto r (Unlocking tid e None) s)"
| not_restarted: "timeouts \<Longrightarrow> request s r = WaitRestart tid e \<Longrightarrow> request_step timeouts r s (goto r (Unlocking tid e None) s)"
| unlock: "request s r = Unlocking tid e err \<Longrightarrow> request_step timeouts r s (goto r (Dropping tid e err) (ThreadEntry_Unlock e s))"
| remove: "request s r = Dropping tid e err \<Longrightarrow>
     request_step timeouts r s (goto r (case err of None \<Rightarrow> Idle None | Some err \<Rightarrow> Leaving err) (ThreadEntry_Remove e s))"
| leave: "request s r = Leaving err \<Longrightarrow> request_step timeouts r s (goto r (Idle (Some err)) (s\<lparr>action_mutex := None\<rparr>))"

text \<open>A thread in the handler does not execute its own request.\<close>

inductive thread_step :: "bool \<Rightarrow> 'c Threads \<Rightarrow> 'c Threads \<Rightarrow> bool" for timeouts where
  handler: "handler_step timeouts tid s t \<Longrightarrow> thread_step timeouts s t"
| requester: "target s r = Running \<Longrightarrow> request_step timeouts r s t \<Longrightarrow> thread_step timeouts s t"

text \<open>At the start there are no entries; the program may have its own action for the signal.\<close>

definition threads_start :: "Action \<Rightarrow> 'c Threads" where
  "threads_start a = \<lparr>action_mutex = None, action = a, entries = Map.empty, entry_heap = Map.empty,
     request = (\<lambda>_. Idle None), target = (\<lambda>_. Running), pending = (\<lambda>_. False)\<rparr>"

inductive threads_reach :: "bool \<Rightarrow> 'c Threads \<Rightarrow> bool" for timeouts where
  start: "threads_reach timeouts (threads_start a)"
| step: "threads_reach timeouts s \<Longrightarrow> thread_step timeouts s t \<Longrightarrow> threads_reach timeouts t"

end
