(* ===== verification/LocalUnwind.thy ===== *)
theory LocalUnwind
  imports UnwinderProps ThreadUnwind
begin

text \<open>
  Unwinding another thread of the process, from the entry point on, and frames as text: the rest of
  \<open>unwindstack/Unwinder.cpp\<close>, \<open>ThreadUnwinder.cpp\<close> and \<open>AndroidUnwinder.cpp\<close>. The demangler of the C++
  runtime is a parameter.
\<close>

section \<open>Frames as text\<close>

definition zero_padded :: "nat \<Rightarrow> string \<Rightarrow> string" where
  "zero_padded w s = replicate (w - length s) CHR ''0'' @ s"

text \<open>\<open>PRId64\<close> of an unsigned value.\<close>

definition signed_dec :: "u64 \<Rightarrow> string" where
  "signed_dec w = (if sint w < 0 then CHR ''-'' # dec_string (nat (- sint w)) else dec_string (nat (sint w)))"

text \<open>\<open>cxa_demangle\<close> is \<open>None\<close> for a name it cannot demangle.\<close>

definition DemangleNameIfNeeded :: "(string \<Rightarrow> string option) \<Rightarrow> string \<Rightarrow> string" where
  "DemangleNameIfNeeded cxa_demangle name =
     (if length name < 2 \<or> name ! 0 \<noteq> CHR ''_'' then name
      else
        (case (if name ! 1 = CHR ''Z'' then cxa_demangle name else None) of
           None \<Rightarrow> name
         | Some s \<Rightarrow> s))"

definition frame_place :: "Frame \<Rightarrow> string act" where
  "frame_place f s =
     (case uf_map f of
        None \<Rightarrow> act_return '' <unknown>'' s
      | Some i \<Rightarrow>
          (let m = map_objects s ! i in
           if mi_name m \<noteq> [] then act_bind (GetFullName i) (\<lambda>name. act_return ('' '' @ name)) s
           else act_return ('' <anonymous:'' @ hex_string (unat (mi_start m)) @ ''>'') s))"

definition frame_offset :: "Frame \<Rightarrow> string act" where
  "frame_offset f s =
     (case uf_map f of
        None \<Rightarrow> act_return [] s
      | Some i \<Rightarrow>
          (let start = mi_elf_start_offset (map_objects s ! i) in
           act_return (if start \<noteq> 0 then '' (offset 0x'' @ hex_string (unat start) @ '')'' else []) s))"

definition frame_function :: "(string \<Rightarrow> string option) \<Rightarrow> Frame \<Rightarrow> string" where
  "frame_function cxa_demangle f =
     (if uf_function_name f = [] then []
      else ''('' @ DemangleNameIfNeeded cxa_demangle (text_of (uf_function_name f)) @
           (if uf_function_offset f \<noteq> 0 then ''+'' @ signed_dec (uf_function_offset f) else []) @ '')'')"

definition frame_build_id :: "(string \<Rightarrow> u8 list option) \<Rightarrow> Frame \<Rightarrow> bool \<Rightarrow> string act" where
  "frame_build_id files f display_build_id s =
     (case uf_map f of
        None \<Rightarrow> act_return [] s
      | Some i \<Rightarrow>
          if \<not> display_build_id then act_return [] s
          else act_bind (MapInfo_GetPrintableBuildID files i)
                 (\<lambda>id. act_return (if id \<noteq> [] then '' (BuildId: '' @ id @ '')'' else [])) s)"

definition FormatFrame :: "(string \<Rightarrow> string option) \<Rightarrow> (string \<Rightarrow> u8 list option) \<Rightarrow> ArchEnum \<Rightarrow> Frame \<Rightarrow> bool \<Rightarrow> string act" where
  "FormatFrame cxa_demangle files arch f display_build_id =
     act_bind (frame_place f) (\<lambda>place.
     act_bind (frame_offset f) (\<lambda>offset.
     act_bind (frame_build_id files f display_build_id) (\<lambda>build_id.
       act_return (''#'' @ zero_padded 2 (dec_string (uf_num f)) @ '' pc '' @
         zero_padded (if ArchIs32Bit arch then 8 else 16) (hex_string (unat (uf_rel_pc f))) @
         place @ offset @ frame_function cxa_demangle f @ build_id))))"

text \<open>The members: of a frame and of the frame with a number, which do not show build ids unless they are asked to.\<close>

definition Unwinder_FormatFrame :: "(string \<Rightarrow> string option) \<Rightarrow> (string \<Rightarrow> u8 list option) \<Rightarrow> bool \<Rightarrow> nat \<Rightarrow> (string, 'a::len) uw" where
  "Unwinder_FormatFrame cxa_demangle files display_build_id n u =
     (if n \<ge> length (uw_frames u) then act_return [] u
      else with_store (FormatFrame cxa_demangle files (uw_arch u) (uw_frames u ! n) display_build_id) u)"

definition AndroidUnwinder_FormatFrame :: "(string \<Rightarrow> string option) \<Rightarrow> (string \<Rightarrow> u8 list option) \<Rightarrow> Frame \<Rightarrow> ArchEnum \<Rightarrow> string act" where
  "AndroidUnwinder_FormatFrame cxa_demangle files f arch =
     (if arch = ARCH_UNKNOWN then act_return [] else FormatFrame cxa_demangle files arch f True)"

definition DemangleFunctionNames :: "(string \<Rightarrow> string option) \<Rightarrow> FrameData list \<Rightarrow> FrameData list" where
  "DemangleFunctionNames cxa_demangle frames =
     map (\<lambda>f. f\<lparr>fr_function_name := DemangleNameIfNeeded cxa_demangle (fr_function_name f)\<rparr>) frames"

section \<open>A frame from a program counter\<close>

text \<open>
  \<open>junk\<close> is the frame before its members are set: the number, the program counters and the stack pointer of
  a local \<open>FrameData\<close> have no initial value. The map is looked up by \<open>find_pc\<close>.
\<close>

definition pc_frame :: "Frame \<Rightarrow> Frame" where
  "pc_frame junk = junk\<lparr>uf_function_name := [], uf_function_offset := 0, uf_map := None\<rparr>"

definition BuildFrameFromPcOnly :: "UnwindEnv \<Rightarrow> Frame \<Rightarrow> u64 \<Rightarrow> (Frame, 'a::len) uw" where
  "BuildFrameFromPcOnly env junk pc u0 =
     (let (i, u) = find_pc env pc u0; f = pc_frame junk in
      if i = None \<or> uw_arch u = ARCH_UNKNOWN then act_return (f\<lparr>uf_pc := pc, uf_rel_pc := pc\<rparr>) u
      else
        act_bind (with_store (GetElf (ue_junk env) (ue_files env) (Some (ue_memory env)) (uw_arch u) (the i))) (\<lambda>e u.
          let m = map_at (the i) u; elf = elf_at e u;
              relative_pc = GetRelPc pc (mi_start m) (mi_elf_offset m) elf;
              pc_adjustment = GetPcAdjustment relative_pc (elf_valid elf) (elf_load_bias elf) (elf_reader elf) (uw_arch u);
              relative_pc = relative_pc - pc_adjustment;
              jit_pc = pc - pc_adjustment;
              (e, debug_pc, u) =
                (case ue_jit_find env of
                   None \<Rightarrow> (e, relative_pc, u)
                 | Some jit_find \<Rightarrow>
                     if elf_valid elf then (e, relative_pc, u)
                     else (case jit_find jit_pc (uw_store u) of
                             (None, s) \<Rightarrow> (e, relative_pc, u\<lparr>uw_store := s\<rparr>)
                           | (Some jit_elf, s) \<Rightarrow> (jit_elf, jit_pc, u\<lparr>uw_store := s\<rparr>)));
              f = f\<lparr>uf_rel_pc := relative_pc, uf_pc := jit_pc, uf_map := i\<rparr>;
              (r, u) = (if uw_resolve_names u then
                          (let (r, elf) = Elf_GetFunctionName debug_pc (elf_at e u) in (r, set_elf_at e elf u))
                        else (None, u))
          in act_return (case r of None \<Rightarrow> f | Some (name, offset) \<Rightarrow> f\<lparr>uf_function_name := name, uf_function_offset := offset\<rparr>) u) u)"

text \<open>The member of \<open>AndroidUnwinder\<close>, with the maps and objects of the entry point.\<close>

definition AndroidUnwinder_BuildFrameFromPcOnly :: "UnwindEnv \<Rightarrow> 'a::len Regs \<Rightarrow> Frame \<Rightarrow> u64 \<Rightarrow> AndroidUnwinder \<Rightarrow> (Frame \<times> AndroidUnwinder) option option" where
  "AndroidUnwinder_BuildFrameFromPcOnly env no_regs junk pc a =
     (case BuildFrameFromPcOnly env junk pc
             ((Unwinder_new 0 (au_maps a) no_regs (au_store a))\<lparr>uw_arch := au_arch a\<rparr>) of
        Some (Done f u) \<Rightarrow> Some (Some (f, a\<lparr>au_maps := uw_maps u, au_store := uw_store u\<rparr>))
      | None \<Rightarrow> None
      | _ \<Rightarrow> Some None)"

section \<open>Unwinders that create their maps\<close>

text \<open>\<open>UnwinderFromPid\<close>: the maps and the memory may be null pointers until \<open>Init\<close>.\<close>

record (overloaded) 'a UnwinderFromPid =
  up_unwinder :: "'a Unwinder"
  up_has_maps :: bool
  up_has_memory :: bool
  up_initted :: bool

text \<open>
  \<open>Init\<close>, with the text of the maps file of the process; the lookup of the JIT debug data that it creates is
  the one of the environment. \<open>CHECK\<close> aborts for an unknown architecture.
\<close>

definition UnwinderFromPid_Init :: "string option \<Rightarrow> 'a::len UnwinderFromPid \<Rightarrow> (bool \<times> 'a UnwinderFromPid) option" where
  "UnwinderFromPid_Init maps_text p =
     (let u = up_unwinder p in
      if uw_arch u = ARCH_UNKNOWN then None
      else if up_initted p then Some (True, p)
      else
        (let p = p\<lparr>up_initted := True\<rparr> in
         if up_has_maps p then Some (True, p\<lparr>up_has_memory := True\<rparr>)
         else
           (let (ok, maps, h) = Maps_Parse maps_text ([], map_objects (uw_store u));
                u = u\<lparr>uw_store := (uw_store u)\<lparr>map_objects := h\<rparr>\<rparr>
            in if \<not> ok then Some (False, p\<lparr>up_unwinder := uw_code ERROR_INVALID_MAP (ClearErrors u)\<rparr>)
               else Some (True, p\<lparr>up_unwinder := u\<lparr>uw_maps := maps\<rparr>, up_has_maps := True, up_has_memory := True\<rparr>))))"

type_synonym ('x, 'a) up = "('x, 'a UnwinderFromPid) action"

text \<open>The search for the first map goes through the null pointer when there are no maps.\<close>

definition UnwinderFromPid_Unwind :: "UnwindEnv \<Rightarrow> string option \<Rightarrow> string list option \<Rightarrow> string list option \<Rightarrow> string list option
     \<Rightarrow> (unit, 'a::len) up" where
  "UnwinderFromPid_Unwind env maps_text skip suffixes functions p =
     (case UnwinderFromPid_Init maps_text p of
        None \<Rightarrow> Some Undef
      | Some (False, p) \<Rightarrow> act_return () p
      | Some (True, p) \<Rightarrow>
          if \<not> up_has_maps p then Some Undef
          else
            (case Unwinder_Unwind env skip suffixes functions (up_unwinder p) of
               None \<Rightarrow> None
             | Some Undef \<Rightarrow> Some Undef
             | Some (Failed u) \<Rightarrow> Some (Failed (p\<lparr>up_unwinder := u\<rparr>))
             | Some (Done _ u) \<Rightarrow> Some (Done () (p\<lparr>up_unwinder := u\<rparr>))))"

section \<open>Another thread of the process\<close>

definition SetArch :: "ArchEnum \<Rightarrow> 'a::len Unwinder \<Rightarrow> 'a Unwinder" where
  "SetArch arch u = u\<lparr>uw_arch := arch\<rparr>"

definition SetResolveNames :: "bool \<Rightarrow> 'a::len Unwinder \<Rightarrow> 'a Unwinder" where
  "SetResolveNames resolve u = u\<lparr>uw_resolve_names := resolve\<rparr>"

text \<open>The constructor that \<open>AndroidLocalUnwinder\<close> uses; \<open>no_regs\<close> stands for the pointer to registers, not set yet.\<close>

definition ThreadUnwinder_new :: "nat \<Rightarrow> ArchEnum \<Rightarrow> nat list \<Rightarrow> 'a::len Regs \<Rightarrow> Store \<Rightarrow> 'a UnwinderFromPid" where
  "ThreadUnwinder_new max_frames current_arch maps no_regs s =
     \<lparr>up_unwinder = (Unwinder_new max_frames maps no_regs s)\<lparr>uw_arch := current_arch\<rparr>, up_has_maps = True,
      up_has_memory = True, up_initted = False\<rparr>"

definition up_code :: "ErrorCode \<Rightarrow> 'a::len UnwinderFromPid \<Rightarrow> 'a UnwinderFromPid" where
  "up_code c p = p\<lparr>up_unwinder := uw_code c (up_unwinder p)\<rparr>"

text \<open>
  \<open>UnwindWithSignal\<close> in the calling thread; \<open>sent\<close> is what \<open>SendSignalToThread\<close> comes to (\<open>ThreadUnwind\<close>), with
  the registers of the context. \<open>initial_regs\<close>, when it is not null, receives a copy of them.
\<close>

definition UnwindWithSignal :: "UnwindEnv \<Rightarrow> string option \<Rightarrow> nat \<Rightarrow> ErrorCode + 'a::len Regs \<Rightarrow> nat \<Rightarrow> string list option
     \<Rightarrow> string list option \<Rightarrow> string list option \<Rightarrow> (unit, 'a UnwinderFromPid \<times> 'a Regs option option) action" where
  "UnwindWithSignal env maps_text self sent tid skip suffixes exits = (\<lambda>(p0, initial_regs).
     let p = p0\<lparr>up_unwinder := ClearErrors (up_unwinder p0)\<rparr> in
     if tid = self then act_return () (up_code ERROR_UNSUPPORTED p, initial_regs)
     else
       (case UnwinderFromPid_Init maps_text p of
          None \<Rightarrow> Some Undef
        | Some (False, p) \<Rightarrow> act_return () (p, initial_regs)
        | Some (True, p) \<Rightarrow>
            (case sent of
               Inl e \<Rightarrow> act_return () (up_code e p, initial_regs)
             | Inr regs \<Rightarrow>
                 (let initial_regs = map_option (\<lambda>_. Some regs) initial_regs in
                  case UnwinderFromPid_Unwind env maps_text skip suffixes exits (p\<lparr>up_unwinder := SetRegs regs (up_unwinder p)\<rparr>) of
                    None \<Rightarrow> None
                  | Some Undef \<Rightarrow> Some Undef
                  | Some (Failed p) \<Rightarrow> Some (Failed (p, initial_regs))
                  | Some (Done _ p) \<Rightarrow> Some (Done () (p, initial_regs))))))"

text \<open>\<open>AndroidLocalUnwinder::InternalUnwind\<close>: no thread, or the calling one, is unwound from the registers it has.\<close>

definition unwind_thread :: "'a::len AndroidEnv \<Rightarrow> nat \<Rightarrow> 'a Regs \<Rightarrow> ErrorCode + 'a Regs \<Rightarrow> nat \<Rightarrow> 'a android" where
  "unwind_thread env self no_regs sent tid = (\<lambda>(a, d).
     let arch = (case an_arch env of Inl _ \<Rightarrow> ARCH_UNKNOWN | Inr arch \<Rightarrow> arch);
         p = ThreadUnwinder_new (case ad_max_frames d of Some n \<Rightarrow> n | None \<Rightarrow> kMaxNumFrames) arch (au_maps a) no_regs (au_store a);
         put = (\<lambda>(p, initial_regs). let u = up_unwinder p in
            (a\<lparr>au_maps := uw_maps u, au_store := uw_store u\<rparr>,
             d\<lparr>ad_saved_initial_regs := initial_regs, ad_frames := uw_frames u, ad_error := uw_error u\<rparr>))
     in case UnwindWithSignal (an_unwind env) (an_maps_text env) self sent tid
               (if ad_show_all_frames d then None else Some (au_initial_map_names_to_skip a))
               (Some (au_map_suffixes_to_ignore a)) (Some (au_mangle_function_to_exit a)) (p, ad_saved_initial_regs d) of
          None \<Rightarrow> None
        | Some Undef \<Rightarrow> Some Undef
        | Some (Failed pr) \<Rightarrow> Some (Failed (put pr))
        | Some (Done _ pr) \<Rightarrow> Some (Done (uw_frames (up_unwinder (fst pr)) \<noteq> []) (put pr)))"

definition LocalInternalUnwind :: "'a::len AndroidEnv \<Rightarrow> nat \<Rightarrow> 'a Regs \<Rightarrow> (nat \<Rightarrow> ErrorCode + 'a Regs) \<Rightarrow> nat option \<Rightarrow> 'a android" where
  "LocalInternalUnwind env self no_regs send tid =
     (let tid = (case tid of None \<Rightarrow> self | Some t \<Rightarrow> t) in
      if tid = self then InternalUnwind env else unwind_thread env self no_regs (send tid) tid)"

definition LocalUnwind :: "'a::len AndroidEnv \<Rightarrow> nat \<Rightarrow> 'a Regs \<Rightarrow> (nat \<Rightarrow> ErrorCode + 'a Regs) \<Rightarrow> nat option \<Rightarrow> 'a android" where
  "LocalUnwind env self no_regs send tid = (\<lambda>(a, d).
     case AndroidUnwinder_Initialize env (a, d) of
       (False, a, d) \<Rightarrow> act_return False (a, d)
     | (True, a, d) \<Rightarrow> LocalInternalUnwind env self no_regs send tid (a, d))"

section \<open>Properties\<close>

lemma SetRegs_new:
  assumes "uw_arch (Unwinder_new n maps regs s) = arch"
  shows "ClearErrors (SetRegs regs (ClearErrors ((Unwinder_new n maps no_regs s)\<lparr>uw_arch := arch\<rparr>))) = ClearErrors (Unwinder_new n maps regs s)"
  using assms by (simp add: SetRegs_def ClearErrors_def Unwinder_new_def)

lemma Unwinder_Unwind_cleared:
  assumes "ClearErrors u = ClearErrors v" "uw_arch u = uw_arch v"
  shows "Unwinder_Unwind env skip suffixes exits u = Unwinder_Unwind env skip suffixes exits v"
  unfolding Unwinder_Unwind_def assms by simp



end
