(* ===== verification/ThreadRefs.thy ===== *)
theory ThreadRefs
  imports ThreadUnwind
begin

text \<open>
  Reference counts of the thread entries, with and without timeouts: no thread uses an entry that was deleted,
  and an entry that a handler has used is never deleted.
\<close>

section \<open>References\<close>

text \<open>The thread and the entry a request refers to, and the entry a handler refers to.\<close>

fun request_entry :: "'c Request \<Rightarrow> (nat \<times> nat) option" where
  "request_entry (WantLock tid e) = Some (tid, e)"
| "request_entry (Install tid e) = Some (tid, e)"
| "request_entry (Send tid e old) = Some (tid, e)"
| "request_entry (WaitContext tid e old) = Some (tid, e)"
| "request_entry (Unwinding tid e c) = Some (tid, e)"
| "request_entry (WaitRestart tid e) = Some (tid, e)"
| "request_entry (Unlocking tid e err) = Some (tid, e)"
| "request_entry (Dropping tid e err) = Some (tid, e)"
| "request_entry _ = None"

fun handler_entry :: "'c Target \<Rightarrow> nat option" where
  "handler_entry (Copying e c) = Some e"
| "handler_entry (Copied e c) = Some e"
| "handler_entry (Parked e c) = Some e"
| "handler_entry (Waking e c) = Some e"
| "handler_entry _ = None"

definition holders :: "'c Threads \<Rightarrow> nat \<Rightarrow> nat set" where
  "holders s e = {r. \<exists>tid. request_entry (request s r) = Some (tid, e)}"

definition counted :: "'c Threads \<Rightarrow> nat \<Rightarrow> nat \<Rightarrow> nat" where
  "counted s e tid = card (holders s e) + (if handler_entry (target s tid) = Some e then 1 else 0)"

text \<open>
  The table and the objects agree, every reference is to the entry of its thread, and an entry counts at least
  the references there are.
\<close>

definition entry_counted :: "'c Threads \<Rightarrow> nat \<Rightarrow> 'c ThreadEntry \<Rightarrow> bool" where
  "entry_counted s e x \<longleftrightarrow>
     entries s (te_tid x) = Some e \<and> 1 \<le> ref_count x \<and> int (counted s e (te_tid x)) \<le> ref_count x"

definition refs_ok :: "'c Threads \<Rightarrow> bool" where
  "refs_ok s \<longleftrightarrow>
     finite {r. request_entry (request s r) \<noteq> None} \<and> finite (dom (entry_heap s)) \<and>
     (\<forall>tid e. entries s tid = Some e \<longrightarrow> (\<exists>x. entry_heap s e = Some x \<and> te_tid x = tid)) \<and>
     (\<forall>e x. entry_heap s e = Some x \<longrightarrow> entry_counted s e x) \<and>
     (\<forall>r tid e. request_entry (request s r) = Some (tid, e) \<longrightarrow> entries s tid = Some e) \<and>
     (\<forall>tid e. handler_entry (target s tid) = Some e \<longrightarrow> entries s tid = Some e)"

lemma refs_okD:
  assumes "refs_ok s"
  shows "finite {r. request_entry (request s r) \<noteq> None}" "finite (dom (entry_heap s))"
    "\<And>tid e. entries s tid = Some e \<Longrightarrow> \<exists>x. entry_heap s e = Some x \<and> te_tid x = tid"
    "\<And>e x. entry_heap s e = Some x \<Longrightarrow> entry_counted s e x"
    "\<And>r tid e. request_entry (request s r) = Some (tid, e) \<Longrightarrow> entries s tid = Some e"
    "\<And>tid e. handler_entry (target s tid) = Some e \<Longrightarrow> entries s tid = Some e"
  using assms unfolding refs_ok_def by blast+

lemma refs_okI:
  assumes "finite {r. request_entry (request s r) \<noteq> None}" "finite (dom (entry_heap s))"
    "\<And>tid e. entries s tid = Some e \<Longrightarrow> \<exists>x. entry_heap s e = Some x \<and> te_tid x = tid"
    "\<And>e x. entry_heap s e = Some x \<Longrightarrow> entry_counted s e x"
    "\<And>r tid e. request_entry (request s r) = Some (tid, e) \<Longrightarrow> entries s tid = Some e"
    "\<And>tid e. handler_entry (target s tid) = Some e \<Longrightarrow> entries s tid = Some e"
  shows "refs_ok s"
  using assms unfolding refs_ok_def by blast

lemma finite_holders: "refs_ok s \<Longrightarrow> finite (holders s e)"
  by (rule finite_subset [OF _ refs_okD(1)]) (auto simp: holders_def)

section \<open>Steps that change no reference\<close>

text \<open>A handler may leave and forget its reference.\<close>

definition same_refs :: "'c Threads \<Rightarrow> 'c Threads \<Rightarrow> bool" where
  "same_refs s t \<longleftrightarrow> entries t = entries s \<and>
     (\<forall>e. map_option (\<lambda>x. (te_tid x, ref_count x)) (entry_heap t e) = map_option (\<lambda>x. (te_tid x, ref_count x)) (entry_heap s e)) \<and>
     (\<forall>r. request_entry (request t r) = request_entry (request s r)) \<and>
     (\<forall>tid. handler_entry (target t tid) = handler_entry (target s tid) \<or> handler_entry (target t tid) = None)"

lemma same_refs_heap:
  assumes "same_refs s t" "entry_heap t e = Some y"
  obtains x where "entry_heap s e = Some x" "te_tid y = te_tid x" "ref_count y = ref_count x"
proof -
  have "map_option (\<lambda>x. (te_tid x, ref_count x)) (entry_heap t e) = map_option (\<lambda>x. (te_tid x, ref_count x)) (entry_heap s e)"
    using assms(1) by (simp add: same_refs_def)
  then show ?thesis using assms(2) by (cases "entry_heap s e") (auto intro: that)
qed

lemma refs_ok_same:
  assumes "refs_ok s" "same_refs s t"
  shows "refs_ok t"
proof (rule refs_okI)
  have r: "request_entry (request t r) = request_entry (request s r)" for r using assms(2) by (simp add: same_refs_def)
  have e: "entries t = entries s" using assms(2) by (simp add: same_refs_def)
  have h: "map_option (\<lambda>x. (te_tid x, ref_count x)) (entry_heap t k) = map_option (\<lambda>x. (te_tid x, ref_count x)) (entry_heap s k)" for k
    using assms(2) by (simp add: same_refs_def)
  have d: "dom (entry_heap t) = dom (entry_heap s)"
    using h by (auto simp: dom_def) (metis option.map_disc_iff not_None_eq)+
  show "finite {r. request_entry (request t r) \<noteq> None}" using refs_okD(1) [OF assms(1)] r by simp
  show "finite (dom (entry_heap t))" using refs_okD(2) [OF assms(1)] d by simp
  have holders: "holders t k = holders s k" for k by (simp add: holders_def r)
  fix tid k
  show "\<exists>y. entry_heap t k = Some y \<and> te_tid y = tid" if en: "entries t tid = Some k"
  proof -
    obtain x where x: "entry_heap s k = Some x" "te_tid x = tid" using refs_okD(3) [OF assms(1), of tid k] en e by auto
    then show ?thesis using h [of k] by auto
  qed
  show "entry_counted t k y" if y: "entry_heap t k = Some y" for y
  proof -
    obtain x where x: "entry_heap s k = Some x" "te_tid y = te_tid x" "ref_count y = ref_count x"
      using same_refs_heap [OF assms(2) y] .
    have "handler_entry (target t (te_tid x)) = handler_entry (target s (te_tid x)) \<or> handler_entry (target t (te_tid x)) = None"
      using assms(2) by (simp add: same_refs_def)
    then have "counted t k (te_tid x) \<le> counted s k (te_tid x)" by (auto simp: counted_def holders)
    then show ?thesis using refs_okD(4) [OF assms(1) x(1)] x e by (auto simp: entry_counted_def)
  qed
  show "entries t tid = Some k" if "request_entry (request t r) = Some (tid, k)" for r
    using refs_okD(5) [OF assms(1)] that r e by simp
  show "entries t tid = Some k" if "handler_entry (target t tid) = Some k"
  proof -
    have "handler_entry (target t tid) = handler_entry (target s tid) \<or> handler_entry (target t tid) = None"
      using assms(2) by (simp add: same_refs_def)
    then show ?thesis using refs_okD(6) [OF assms(1), of tid k] that e by auto
  qed
qed

section \<open>Steps that take or drop a reference\<close>

lemma fresh_entry:
  assumes "refs_ok s" "entry_heap s at = None"
  shows "holders s at = {}" "entries s tid \<noteq> Some at" "handler_entry (target s tid) \<noteq> Some at"
  using refs_okD(3,5,6) [OF assms(1)] assms(2) by (auto simp: holders_def) (metis option.distinct(1))+

lemma counted_le: "refs_ok s \<Longrightarrow> entry_heap s e = Some x \<Longrightarrow> entry_counted s e x"
  by (rule refs_okD(4))

lemma other_entry:
  assumes "refs_ok s" "entry_heap s k = Some y" "entries s tid = Some e" "k \<noteq> e"
  shows "te_tid y \<noteq> tid"
  using refs_okD(4) [OF assms(1,2)] assms(3,4) by (auto simp: entry_counted_def)

lemma refs_ok_new:
  assumes s: "refs_ok s" and n: "entries s tid = None" "entry_heap s at = None" and r: "request_entry (request s r) = None"
    and p: "request_entry p = Some (tid, at)"
  shows "refs_ok (goto r p (ThreadEntry_new tid at junk s))" (is "refs_ok ?t")
proof (rule refs_okI)
  note f = fresh_entry [OF s n(2)]
  have h: "holders ?t at = {r}" "k \<noteq> at \<Longrightarrow> holders ?t k = holders s k" for k
    using f(1) r p by (auto simp: holders_def goto_def ThreadEntry_new_def)
  show "finite {r. request_entry (request ?t r) \<noteq> None}"
    by (rule finite_subset [of _ "insert r {r. request_entry (request s r) \<noteq> None}"])
      (use refs_okD(1) [OF s] in \<open>auto simp: goto_def ThreadEntry_new_def\<close>)
  show "finite (dom (entry_heap ?t))" using refs_okD(2) [OF s] by (simp add: goto_def ThreadEntry_new_def)
  fix i k
  show "\<exists>x. entry_heap ?t k = Some x \<and> te_tid x = i" if "entries ?t i = Some k"
    using that refs_okD(3) [OF s, of i k] f(2) [of i] by (auto simp: goto_def ThreadEntry_new_def split: if_splits)
  show "entry_counted ?t k x" if x: "entry_heap ?t k = Some x" for x
  proof (cases "k = at")
    case True
    then show ?thesis using x h f(3) by (auto simp: entry_counted_def counted_def goto_def ThreadEntry_new_def)
  next
    case False
    then have "entry_heap s k = Some x" using x by (simp add: goto_def ThreadEntry_new_def)
    from refs_okD(4) [OF s this] show ?thesis
      using False h n(1) by (auto simp: entry_counted_def counted_def goto_def ThreadEntry_new_def)
  qed
  show "entries ?t i = Some k" if "request_entry (request ?t q) = Some (i, k)" for q
    using that p refs_okD(5) [OF s, of q i k] n(1) by (auto simp: goto_def ThreadEntry_new_def split: if_splits)
  show "entries ?t i = Some k" if "handler_entry (target ?t i) = Some k"
    using that refs_okD(6) [OF s, of i k] n(1) by (auto simp: goto_def ThreadEntry_new_def split: if_splits)
qed

lemma refs_ok_found:
  assumes s: "refs_ok s" and n: "entries s tid = Some e" and r: "request_entry (request s r) = None"
    and p: "request_entry p = Some (tid, e)"
  shows "refs_ok (goto r p (on_entry e (\<lambda>x. x\<lparr>ref_count := ref_count x + 1\<rparr>) s))" (is "refs_ok ?t")
proof (rule refs_okI)
  have h: "holders ?t e = insert r (holders s e)" "r \<notin> holders s e" "k \<noteq> e \<Longrightarrow> holders ?t k = holders s k" for k
    using r p by (auto simp: holders_def goto_def on_entry_def)
  show "finite {r. request_entry (request ?t r) \<noteq> None}"
    by (rule finite_subset [of _ "insert r {r. request_entry (request s r) \<noteq> None}"])
      (use refs_okD(1) [OF s] in \<open>auto simp: goto_def on_entry_def\<close>)
  show "finite (dom (entry_heap ?t))"
    by (rule finite_subset [OF _ refs_okD(2) [OF s]]) (auto simp: goto_def on_entry_def dom_def split: if_splits)
  fix i k
  show "\<exists>x. entry_heap ?t k = Some x \<and> te_tid x = i" if "entries ?t i = Some k"
    using that refs_okD(3) [OF s, of i k] by (auto simp: goto_def on_entry_def)
  show "entry_counted ?t k x" if x: "entry_heap ?t k = Some x" for x
  proof (cases "k = e")
    case True
    obtain y where y: "entry_heap s e = Some y" "x = y\<lparr>ref_count := ref_count y + 1\<rparr>"
      using x True by (auto simp: goto_def on_entry_def)
    show ?thesis using refs_okD(4) [OF s y(1)] True y(2) h finite_holders [OF s, of e]
      by (auto simp: entry_counted_def counted_def goto_def on_entry_def)
  next
    case False
    then have "entry_heap s k = Some x" using x by (simp add: goto_def on_entry_def)
    from refs_okD(4) [OF s this] show ?thesis using False h by (auto simp: entry_counted_def counted_def goto_def on_entry_def)
  qed
  show "entries ?t i = Some k" if "request_entry (request ?t q) = Some (i, k)" for q
    using that p n refs_okD(5) [OF s, of q i k] by (auto simp: goto_def on_entry_def split: if_splits)
  show "entries ?t i = Some k" if "handler_entry (target ?t i) = Some k"
    using that refs_okD(6) [OF s, of i k] by (auto simp: goto_def on_entry_def)
qed

lemma refs_ok_handler_found:
  assumes s: "refs_ok s" and n: "entries s tid = Some e" and r: "handler_entry (target s tid) = None" and p: "handler_entry p = Some e"
  shows "refs_ok (enter tid p (on_entry e (\<lambda>x. x\<lparr>ref_count := ref_count x + 1\<rparr>) s))" (is "refs_ok ?t")
proof (rule refs_okI)
  have h: "holders ?t k = holders s k" for k by (simp add: holders_def enter_def on_entry_def)
  show "finite {r. request_entry (request ?t r) \<noteq> None}" using refs_okD(1) [OF s] by (simp add: enter_def on_entry_def)
  show "finite (dom (entry_heap ?t))"
    by (rule finite_subset [OF _ refs_okD(2) [OF s]]) (auto simp: enter_def on_entry_def dom_def split: if_splits)
  fix i k
  show "\<exists>x. entry_heap ?t k = Some x \<and> te_tid x = i" if "entries ?t i = Some k"
    using that refs_okD(3) [OF s, of i k] by (auto simp: enter_def on_entry_def)
  show "entry_counted ?t k x" if x: "entry_heap ?t k = Some x" for x
  proof (cases "k = e")
    case True
    obtain y where y: "entry_heap s e = Some y" "x = y\<lparr>ref_count := ref_count y + 1\<rparr>"
      using x True by (auto simp: enter_def on_entry_def)
    have "te_tid y = tid" using refs_okD(3) [OF s n] y(1) by auto
    then show ?thesis using refs_okD(4) [OF s y(1)] True y(2) h r p
      by (auto simp: entry_counted_def counted_def enter_def on_entry_def)
  next
    case False
    then have y: "entry_heap s k = Some x" using x by (simp add: enter_def on_entry_def)
    from refs_okD(4) [OF s y] other_entry [OF s y n False] show ?thesis
      using False h by (auto simp: entry_counted_def counted_def enter_def on_entry_def)
  qed
  show "entries ?t i = Some k" if "request_entry (request ?t q) = Some (i, k)" for q
    using that refs_okD(5) [OF s, of q i k] by (simp add: enter_def on_entry_def)
  show "entries ?t i = Some k" if "handler_entry (target ?t i) = Some k"
    using that p n refs_okD(6) [OF s, of i k] by (auto simp: enter_def on_entry_def split: if_splits)
qed

lemma refs_ok_remove:
  assumes s: "refs_ok s" and r: "request_entry (request s r) = Some (tid, e)" and q: "request_entry q = None"
  shows "refs_ok (goto r q (ThreadEntry_Remove e s))" (is "refs_ok ?t")
proof -
  have n: "entries s tid = Some e" by (rule refs_okD(5) [OF s r])
  obtain x where x: "entry_heap s e = Some x" "te_tid x = tid" using refs_okD(3) [OF s n] by auto
  note c = refs_okD(4) [OF s x(1)]
  have f: "finite (holders s e)" by (rule finite_holders [OF s])
  have m: "r \<in> holders s e" using r by (auto simp: holders_def)
  show ?thesis
  proof (cases "ref_count x = 1")
    case True
    have t: "?t = s\<lparr>entries := (entries s)(tid := None), entry_heap := (entry_heap s)(e := None), request := (request s)(r := q)\<rparr>"
      using True x by (simp add: goto_def ThreadEntry_Remove_def on_entry_def ThreadEntry_delete_def Let_def)
    have "card (holders s e) + (if handler_entry (target s tid) = Some e then 1 else 0) \<le> 1"
      using c True x(2) by (simp add: entry_counted_def counted_def)
    moreover have "1 \<le> card (holders s e)" using m f by (metis One_nat_def Suc_leI card_gt_0_iff empty_iff)
    ultimately have one: "card (holders s e) = 1" "handler_entry (target s tid) \<noteq> Some e" by (auto split: if_splits)
    then have only: "holders s e = {r}" using m by (metis card_1_singletonE singletonD)
    have h: "holders ?t k = holders s k" if "k \<noteq> e" for k
      using that r q unfolding t by (auto simp: holders_def)
    show ?thesis
    proof (rule refs_okI)
      show "finite {r. request_entry (request ?t r) \<noteq> None}"
        by (rule finite_subset [OF _ refs_okD(1) [OF s]]) (use q in \<open>auto simp: t\<close>)
      show "finite (dom (entry_heap ?t))" using refs_okD(2) [OF s] by (simp add: t)
      fix i k
      show "\<exists>x. entry_heap ?t k = Some x \<and> te_tid x = i" if "entries ?t i = Some k"
        using that refs_okD(3) [OF s, of i k] x by (auto simp: t split: if_splits)
      show "entry_counted ?t k y" if y: "entry_heap ?t k = Some y" for y
      proof -
        have k: "k \<noteq> e" "entry_heap s k = Some y" using y by (auto simp: t split: if_splits)
        from refs_okD(4) [OF s k(2)] other_entry [OF s k(2) n k(1)] h [OF k(1)] show ?thesis
          by (auto simp: entry_counted_def counted_def t)
      qed
      show "entries ?t i = Some k" if p: "request_entry (request ?t p) = Some (i, k)" for p
      proof -
        have p': "p \<noteq> r" "request_entry (request s p) = Some (i, k)" using p q by (auto simp: t split: if_splits)
        then have "k \<noteq> e" using only by (auto simp: holders_def)
        then show ?thesis using refs_okD(5) [OF s p'(2)] n by (auto simp: t)
      qed
      show "entries ?t i = Some k" if "handler_entry (target ?t i) = Some k"
        using that refs_okD(6) [OF s, of i k] n one(2) by (auto simp: t)
    qed
  next
    case False
    have t: "?t = goto r q (on_entry e (\<lambda>x. x\<lparr>ref_count := ref_count x - 1\<rparr>) s)"
      using False x by (simp add: ThreadEntry_Remove_def on_entry_def Let_def)
    let ?u = "goto r q (on_entry e (\<lambda>x. x\<lparr>ref_count := ref_count x - 1\<rparr>) s)"
    have h: "holders ?u e = holders s e - {r}" "k \<noteq> e \<Longrightarrow> holders ?u k = holders s k" for k
      using r q by (auto simp: holders_def goto_def on_entry_def)
    show ?thesis
      unfolding t
    proof (rule refs_okI)
      show "finite {r. request_entry (request ?u r) \<noteq> None}"
        by (rule finite_subset [OF _ refs_okD(1) [OF s]]) (use q in \<open>auto simp: goto_def on_entry_def\<close>)
      show "finite (dom (entry_heap ?u))"
        by (rule finite_subset [OF _ refs_okD(2) [OF s]]) (auto simp: goto_def on_entry_def dom_def split: if_splits)
      fix i k
      show "\<exists>x. entry_heap ?u k = Some x \<and> te_tid x = i" if "entries ?u i = Some k"
        using that refs_okD(3) [OF s, of i k] by (auto simp: goto_def on_entry_def)
      show "entry_counted ?u k y" if y: "entry_heap ?u k = Some y" for y
      proof (cases "k = e")
        case True
        then have y': "y = x\<lparr>ref_count := ref_count x - 1\<rparr>" using y x by (simp add: goto_def on_entry_def)
        have "card (holders s e) = Suc (card (holders ?u e))" using m f h(1) by (metis card_Suc_Diff1)
        then show ?thesis using c y' True False
          by (auto simp: entry_counted_def counted_def t goto_def on_entry_def)
      next
        case False
        then have "entry_heap s k = Some y" using y by (simp add: goto_def on_entry_def)
        from refs_okD(4) [OF s this] h(2) [OF False] show ?thesis
          by (auto simp: entry_counted_def counted_def t goto_def on_entry_def)
      qed
      show "entries ?u i = Some k" if "request_entry (request ?u p) = Some (i, k)" for p
        using that q refs_okD(5) [OF s, of p i k] by (auto simp: goto_def on_entry_def split: if_splits)
      show "entries ?u i = Some k" if "handler_entry (target ?u i) = Some k"
        using that refs_okD(6) [OF s, of i k] by (simp add: goto_def on_entry_def)
    qed
  qed
qed

section \<open>Every step\<close>

lemmas state_defs = goto_def enter_def set_pending_def on_entry_def ThreadEntry_Lock_def ThreadEntry_Unlock_def ThreadEntry_Wake_def
  CopyUcontextFromSigcontext_def

lemma Get_cases:
  assumes "ThreadEntry_Get tid create at junk s = (r, s')"
  obtains (found) e where "entries s tid = Some e" "r = Some e" "s' = on_entry e (\<lambda>x. x\<lparr>ref_count := ref_count x + 1\<rparr>) s"
    | (created) "entries s tid = None" "create" "r = Some at" "s' = ThreadEntry_new tid at junk s"
    | (missing) "entries s tid = None" "\<not> create" "r = None" "s' = s"
  using assms by (auto simp: ThreadEntry_Get_def split: option.splits if_splits)

lemma handler_step_refs:
  assumes "handler_step timeouts tid s t" "refs_ok s"
  shows "refs_ok t"
  using assms
proof (induction rule: handler_step.induct)
  case (no_entry s c at junk s')
  then have "s' = s" by (auto elim: Get_cases)
  then show ?case using no_entry by (auto intro!: refs_ok_same [of s] simp: same_refs_def state_defs)
next
  case (get s c at junk e s')
  then have "entries s tid = Some e \<and> s' = on_entry e (\<lambda>x. x\<lparr>ref_count := ref_count x + 1\<rparr>) s" by (auto elim: Get_cases)
  then show ?case using refs_ok_handler_found [of s tid e "Copying e c"] get by simp
qed (rule refs_ok_same, assumption, simp add: same_refs_def state_defs option.map_comp comp_def)+

lemma request_step_refs:
  assumes "request_step timeouts r s t" "refs_ok s"
  shows "refs_ok t"
  using assms
proof (induction rule: request_step.induct)
  case (get s tid at junk e s')
  from get(3) show ?case
  proof (cases rule: Get_cases)
    case (found k)
    then show ?thesis using refs_ok_found [of s tid k r "WantLock tid k"] get by simp
  next
    case created
    then show ?thesis using refs_ok_new [of s tid at r "WantLock tid at" junk] get by simp
  qed simp
next
  case (remove s tid e err)
  have "request_entry (case err of None \<Rightarrow> Idle None | Some err \<Rightarrow> Leaving err) = None" by (cases err) simp_all
  then show ?case using refs_ok_remove [of s r tid e] remove by simp
qed (rule refs_ok_same, assumption, simp add: same_refs_def state_defs option.map_comp comp_def)+

lemma thread_step_refs: "thread_step timeouts s t \<Longrightarrow> refs_ok s \<Longrightarrow> refs_ok t"
  by (auto elim!: thread_step.cases intro: handler_step_refs request_step_refs)

lemma refs_ok_start: "refs_ok (threads_start a)"
  by (simp add: refs_ok_def threads_start_def)

lemma threads_reach_refs: "threads_reach timeouts s \<Longrightarrow> refs_ok s"
  by (induction rule: threads_reach.induct) (auto intro: refs_ok_start thread_step_refs)

section \<open>The reference of the handler\<close>

text \<open>An entry that counts more references than the requests hold.\<close>

definition surplus :: "'c Threads \<Rightarrow> nat \<Rightarrow> nat \<Rightarrow> bool" where
  "surplus s tid e \<longleftrightarrow> entries s tid = Some e \<and> (\<exists>x. entry_heap s e = Some x \<and> int (card (holders s e)) < ref_count x)"

lemma surplus_same:
  assumes "surplus s tid e" "same_refs s t"
  shows "surplus t tid e"
proof -
  obtain x where x: "entries s tid = Some e" "entry_heap s e = Some x" "int (card (holders s e)) < ref_count x"
    using assms(1) by (auto simp: surplus_def)
  have "holders t e = holders s e" "entries t = entries s" using assms(2) by (simp_all add: holders_def same_refs_def)
  moreover have "map_option (\<lambda>x. (te_tid x, ref_count x)) (entry_heap t e) = Some (te_tid x, ref_count x)"
    using assms(2) x(2) by (simp add: same_refs_def)
  ultimately show ?thesis using x by (auto simp: surplus_def)
qed

lemma surplus_step_handler:
  assumes "handler_step timeouts i s t" "surplus s tid e"
  shows "surplus t tid e"
  using assms
proof (induction rule: handler_step.induct)
  case (no_entry s c at junk s')
  then have "s' = s" by (auto elim: Get_cases)
  then show ?case using no_entry by (auto intro!: surplus_same [of s] simp: same_refs_def state_defs)
next
  case (get s c at junk k s')
  then have g: "s' = on_entry k (\<lambda>x. x\<lparr>ref_count := ref_count x + 1\<rparr>) s" by (auto elim: Get_cases)
  show ?case using get(3) by (auto simp: surplus_def g holders_def state_defs)
qed (rule surplus_same, assumption, simp add: same_refs_def state_defs option.map_comp comp_def)+

lemma surplus_remove:
  assumes ok: "refs_ok s" and r: "request_entry (request s r) = Some (i, k)" and q: "request_entry q = None"
    and sp: "surplus s tid e"
  shows "surplus (goto r q (ThreadEntry_Remove k s)) tid e"
proof -
  obtain x where x: "entries s tid = Some e" "entry_heap s e = Some x" "int (card (holders s e)) < ref_count x"
    using sp by (auto simp: surplus_def)
  have f: "finite (holders s e)" by (rule finite_holders [OF ok])
  obtain y where y: "entry_heap s k = Some y" "te_tid y = i" "entries s i = Some k"
    using refs_okD(3) [OF ok refs_okD(5) [OF ok r]] refs_okD(5) [OF ok r] by blast
  show ?thesis
  proof (cases "k = e")
    case True
    have "r \<in> holders s e" using r True by (auto simp: holders_def)
    then have c: "card (holders s e) = Suc (card (holders s e - {r}))" using f by (metis card_Suc_Diff1)
    have "ref_count x \<noteq> 1" using c x(3) by simp
    then have t: "ThreadEntry_Remove k s = on_entry e (\<lambda>x. x\<lparr>ref_count := ref_count x - 1\<rparr>) s"
      using True x(2) by (simp add: ThreadEntry_Remove_def on_entry_def Let_def)
    have "holders (goto r q (ThreadEntry_Remove k s)) e = holders s e - {r}"
      using q by (auto simp: t holders_def state_defs)
    then show ?thesis using x c unfolding t by (simp add: surplus_def state_defs)
  next
    case False
    have "i \<noteq> tid" using False x(1) y(3) by auto
    moreover have "holders (goto r q (ThreadEntry_Remove k s)) e = holders s e"
      using r q False by (auto simp: holders_def goto_def ThreadEntry_Remove_def on_entry_def ThreadEntry_delete_def Let_def)
    ultimately show ?thesis
      using x y False by (auto simp: surplus_def state_defs ThreadEntry_Remove_def ThreadEntry_delete_def Let_def)
  qed
qed

lemma surplus_step_request:
  assumes "request_step timeouts r s t" "surplus s tid e" "refs_ok s"
  shows "surplus t tid e"
  using assms
proof (induction rule: request_step.induct)
  case (get s i at junk k s')
  obtain x where x: "entries s tid = Some e" "entry_heap s e = Some x" "int (card (holders s e)) < ref_count x"
    using get(4) by (auto simp: surplus_def)
  have f: "finite (holders s e)" by (rule finite_holders [OF get(5)])
  from get(3) show ?case
  proof (cases rule: Get_cases)
    case (found k')
    have "holders (goto r (WantLock i k) s') e = (if k = e then insert r (holders s e) else holders s e)"
      using found get(1) by (auto simp: holders_def state_defs)
    moreover have "card (insert r (holders s e)) \<le> Suc (card (holders s e))" by (rule card_insert_le_m1) simp_all
    ultimately show ?thesis using x found by (auto simp: surplus_def state_defs)
  next
    case created
    have "holders (goto r (WantLock i k) s') e = holders s e"
      using created get(1,2) x by (auto simp: holders_def state_defs ThreadEntry_new_def)
    then show ?thesis using x created get(2) by (auto simp: surplus_def state_defs ThreadEntry_new_def)
  qed simp
next
  case (remove s i k err)
  have "request_entry (case err of None \<Rightarrow> Idle None | Some err \<Rightarrow> Leaving err) = None" by (cases err) simp_all
  from surplus_remove [OF remove(3) _ this remove(2)] show ?case using remove(1) by simp
qed (rule surplus_same, assumption, simp add: same_refs_def state_defs option.map_comp comp_def)+

lemma surplus_run:
  assumes "(thread_step timeouts)\<^sup>*\<^sup>* s t" "refs_ok s" "surplus s tid e"
  shows "refs_ok t \<and> surplus t tid e"
  using assms
proof (induction rule: rtranclp_induct)
  case (step t u)
  then have "refs_ok t" "surplus t tid e" by blast+
  with step(2) show ?case
    by (auto elim!: thread_step.cases intro: handler_step_refs request_step_refs surplus_step_handler surplus_step_request)
qed simp

lemma handler_surplus:
  assumes "refs_ok s" "handler_entry (target s tid) = Some e"
  shows "surplus s tid e"
proof -
  have n: "entries s tid = Some e" by (rule refs_okD(6) [OF assms])
  obtain x where x: "entry_heap s e = Some x" "te_tid x = tid" using refs_okD(3) [OF assms(1) n] by auto
  show ?thesis using refs_okD(4) [OF assms(1) x(1)] n x assms(2) by (auto simp: surplus_def entry_counted_def counted_def)
qed


section \<open>A run\<close>

text \<open>Thread 3 unwinds thread 2, interrupted at context 5, with a new entry at address 7.\<close>

definition sample_waiting :: "nat Threads" where
  "sample_waiting = \<lparr>action_mutex = Some 3, action = SignalHandler, entries = [2 \<mapsto> 7],
     entry_heap = [7 \<mapsto> \<lparr>te_tid = 2, ref_count = 1, te_mutex = Some 3, wait_value = 0, te_ucontext = 0\<rparr>],
     request = (\<lambda>_. Idle None)(3 := WaitContext 2 7 SIG_DFL), target = (\<lambda>_. Running), pending = (\<lambda>_. False)(2 := True)\<rparr>"

definition sample_parked :: "nat Threads" where
  "sample_parked = \<lparr>action_mutex = None, action = SignalHandler, entries = [2 \<mapsto> 7],
     entry_heap = [7 \<mapsto> \<lparr>te_tid = 2, ref_count = 2, te_mutex = Some 3, wait_value = 1, te_ucontext = 5\<rparr>],
     request = (\<lambda>_. Idle None)(3 := Unwinding 2 7 5), target = (\<lambda>_. Running)(2 := Parked 7 5), pending = (\<lambda>_. False)\<rparr>"

lemma reach_request: "threads_reach b s \<Longrightarrow> request_step b r s t \<Longrightarrow> target s r = Running \<Longrightarrow> threads_reach b t"
  by (blast intro: threads_reach.step thread_step.requester)

lemma reach_handler: "threads_reach b s \<Longrightarrow> handler_step b tid s t \<Longrightarrow> threads_reach b t"
  by (blast intro: threads_reach.step thread_step.handler)

lemma sample_waiting_reached: "threads_reach b sample_waiting"
proof -
  let ?s = "threads_start SIG_DFL :: nat Threads"
  let ?e = "\<lparr>te_tid = 2, ref_count = 1, te_mutex = None, wait_value = 0, te_ucontext = 0\<rparr> :: nat ThreadEntry"
  let ?q = "\<lambda>p. (\<lambda>_. Idle None)(3 := p) :: nat \<Rightarrow> nat Request"
  have "threads_reach b ?s" by (rule threads_reach.start)
  then have "threads_reach b (?s\<lparr>request := ?q (WantAction 2)\<rparr>)"
    by (rule reach_request) (use request_step.begin_request [of ?s 3 None 2 b] in \<open>simp_all add: threads_start_def goto_def\<close>)
  then have "threads_reach b (?s\<lparr>action_mutex := Some 3, request := ?q (WantEntry 2)\<rparr>)"
    by (rule reach_request) (use request_step.lock_action [of "?s\<lparr>request := ?q (WantAction 2)\<rparr>" 3 2 b] in \<open>simp_all add: threads_start_def goto_def\<close>)
  then have "threads_reach b (?s\<lparr>action_mutex := Some 3, entries := [2 \<mapsto> 7], entry_heap := [7 \<mapsto> ?e], request := ?q (WantLock 2 7)\<rparr>)"
    by (rule reach_request) (use request_step.get [of "?s\<lparr>action_mutex := Some 3, request := ?q (WantEntry 2)\<rparr>" 3 2 7 0 7 _ b] in
      \<open>simp_all add: threads_start_def goto_def ThreadEntry_Get_def ThreadEntry_new_def\<close>)
  then have "threads_reach b (?s\<lparr>action_mutex := Some 3, entries := [2 \<mapsto> 7], entry_heap := [7 \<mapsto> ?e\<lparr>te_mutex := Some 3\<rparr>],
      request := ?q (Install 2 7)\<rparr>)"
    by (rule reach_request) (use request_step.lock [of "?s\<lparr>action_mutex := Some 3, entries := [2 \<mapsto> 7], entry_heap := [7 \<mapsto> ?e],
      request := ?q (WantLock 2 7)\<rparr>" 3 2 7 b] in \<open>simp_all add: threads_start_def state_defs\<close>)
  then have "threads_reach b (?s\<lparr>action_mutex := Some 3, action := SignalHandler, entries := [2 \<mapsto> 7],
      entry_heap := [7 \<mapsto> ?e\<lparr>te_mutex := Some 3\<rparr>], request := ?q (Send 2 7 SIG_DFL)\<rparr>)"
    by (rule reach_request) (use request_step.install [of "?s\<lparr>action_mutex := Some 3, entries := [2 \<mapsto> 7],
      entry_heap := [7 \<mapsto> ?e\<lparr>te_mutex := Some 3\<rparr>], request := ?q (Install 2 7)\<rparr>" 3 2 7 b] in \<open>simp_all add: threads_start_def state_defs\<close>)
  then show ?thesis
    by (rule reach_request) (use request_step.send [of "?s\<lparr>action_mutex := Some 3, action := SignalHandler, entries := [2 \<mapsto> 7],
      entry_heap := [7 \<mapsto> ?e\<lparr>te_mutex := Some 3\<rparr>], request := ?q (Send 2 7 SIG_DFL)\<rparr>" 3 2 7 SIG_DFL b] in
      \<open>simp_all add: threads_start_def state_defs sample_waiting_def\<close>)
qed

lemma sample_parked_reached: "threads_reach b sample_parked"
proof -
  let ?s = sample_waiting
  let ?e = "\<lparr>te_tid = 2, ref_count = 2, te_mutex = Some 3, wait_value = 0, te_ucontext = 0\<rparr> :: nat ThreadEntry"
  let ?h = "\<lambda>e p. ?s\<lparr>entry_heap := [7 \<mapsto> e], pending := (\<lambda>_. False), target := (\<lambda>_. Running)(2 := p)\<rparr>"
  have "threads_reach b (?h (?e\<lparr>ref_count := 1\<rparr>) (Entered 5))"
    by (rule reach_handler [OF sample_waiting_reached, of _ 2])
      (use handler_step.deliver [of ?s 2 b 5] in \<open>simp add: sample_waiting_def state_defs fun_upd_idem\<close>)
  then have "threads_reach b (?h ?e (Copying 7 5))"
    by (rule reach_handler) (use handler_step.get [of "?h (?e\<lparr>ref_count := 1\<rparr>) (Entered 5)" 2 5 0 0 7 _ b] in
      \<open>simp add: sample_waiting_def state_defs ThreadEntry_Get_def\<close>)
  then have "threads_reach b (?h (?e\<lparr>te_ucontext := 5\<rparr>) (Copied 7 5))"
    by (rule reach_handler) (use handler_step.copy [of "?h ?e (Copying 7 5)" 2 7 5 b] in \<open>simp add: sample_waiting_def state_defs\<close>)
  then have "threads_reach b (?h (?e\<lparr>te_ucontext := 5, wait_value := 1\<rparr>) (Parked 7 5))"
    by (rule reach_handler) (use handler_step.wake [of "?h (?e\<lparr>te_ucontext := 5\<rparr>) (Copied 7 5)" 2 7 5 b] in
      \<open>simp add: sample_waiting_def state_defs\<close>)
  then show ?thesis
    by (rule reach_request, (use request_step.has_context [of "?h (?e\<lparr>te_ucontext := 5, wait_value := 1\<rparr>) (Parked 7 5)" 3 2 7 SIG_DFL b] in
      \<open>simp add: sample_waiting_def sample_parked_def state_defs ThreadEntry_Wait_def WAIT_FOR_UCONTEXT_def\<close>)[1])
      (simp add: sample_waiting_def)
qed


end
