(* ===== verification/ThreadHandshake.thy ===== *)
theory ThreadHandshake
  imports ThreadRefs
begin

text \<open>
  The handshake when every wait lasts until its condition holds: a thread stays in its handler exactly as
  long as a request is at work for it, and does not run while its stack is unwound.
\<close>

section \<open>Phases\<close>

text \<open>The thread and the entry a request has locked, and whether it is in \<open>SendSignalToThread\<close> behind the lock of \<open>action_mutex\<close>.\<close>

fun locked_entry :: "'c Request \<Rightarrow> (nat \<times> nat) option" where
  "locked_entry (Install tid e) = Some (tid, e)"
| "locked_entry (Send tid e old) = Some (tid, e)"
| "locked_entry (WaitContext tid e old) = Some (tid, e)"
| "locked_entry (Unwinding tid e c) = Some (tid, e)"
| "locked_entry (WaitRestart tid e) = Some (tid, e)"
| "locked_entry (Unlocking tid e err) = Some (tid, e)"
| "locked_entry _ = None"

fun takes_action :: "'c Request \<Rightarrow> bool" where
  "takes_action (Idle err) = False"
| "takes_action (WantAction tid) = False"
| "takes_action (Unwinding tid e c) = False"
| "takes_action (WaitRestart tid e) = False"
| "takes_action (Unlocking tid e err) = (err \<noteq> None)"
| "takes_action (Dropping tid e err) = (err \<noteq> None)"
| "takes_action _ = True"

fun expects_handler :: "'c Request \<Rightarrow> bool" where
  "expects_handler (Send tid e old) = True"
| "expects_handler (WaitContext tid e old) = True"
| "expects_handler _ = False"

definition calm :: "'c Threads \<Rightarrow> nat \<Rightarrow> bool" where
  "calm s tid \<longleftrightarrow> target s tid = Running \<and> \<not> pending s tid"

text \<open>
  What the locked entry and its thread look like while the request is where it is: the value counts the calls of
  \<open>Wake\<close>, the first and the third by the thread, the second by the request.
\<close>

fun phase :: "'c Request \<Rightarrow> int \<Rightarrow> 'c \<Rightarrow> bool \<Rightarrow> 'c Target \<Rightarrow> bool" where
  "phase (Install tid e) v u p th \<longleftrightarrow> v = 0 \<and> \<not> p \<and> th = Running"
| "phase (Send tid e old) v u p th \<longleftrightarrow> v = 0 \<and> \<not> p \<and> th = Running"
| "phase (WaitContext tid e old) v u p th \<longleftrightarrow>
     v = 0 \<and> p \<and> th = Running \<or>
     v = 0 \<and> \<not> p \<and> (\<exists>c. th = Entered c \<or> th = Copying e c) \<or>
     v = 0 \<and> \<not> p \<and> th = Copied e u \<or>
     v = 1 \<and> \<not> p \<and> th = Parked e u"
| "phase (Unwinding tid e c) v u p th \<longleftrightarrow> v = 1 \<and> \<not> p \<and> th = Parked e c \<and> u = c"
| "phase (WaitRestart tid e) v u p th \<longleftrightarrow>
     \<not> p \<and> (v = 2 \<and> (\<exists>c. th = Parked e c \<or> th = Waking e c) \<or> v = 3 \<and> th = Running)"
| "phase (Unlocking tid e err) v u p th \<longleftrightarrow> \<not> p \<and> th = Running"
| "phase _ v u p th \<longleftrightarrow> True"

definition entry_phase :: "'c Threads \<Rightarrow> nat \<Rightarrow> 'c ThreadEntry \<Rightarrow> bool" where
  "entry_phase s e x \<longleftrightarrow>
     (case te_mutex x of
        None \<Rightarrow> calm s (te_tid x)
      | Some r \<Rightarrow>
          locked_entry (request s r) = Some (te_tid x, e) \<and>
          phase (request s r) (wait_value x) (te_ucontext x) (pending s (te_tid x)) (target s (te_tid x)))"

definition shake_ok :: "'c Threads \<Rightarrow> bool" where
  "shake_ok s \<longleftrightarrow>
     (\<forall>r. takes_action (request s r) \<longrightarrow> action_mutex s = Some r) \<and>
     (\<forall>r. expects_handler (request s r) \<longrightarrow> action s = SignalHandler) \<and>
     (\<forall>e x. entry_heap s e = Some x \<longrightarrow> entry_phase s e x) \<and>
     (\<forall>r tid e. locked_entry (request s r) = Some (tid, e) \<longrightarrow> (\<exists>x. entry_heap s e = Some x \<and> te_mutex x = Some r)) \<and>
     (\<forall>tid. entries s tid = None \<longrightarrow> calm s tid)"

lemma shake_okD:
  assumes "shake_ok s"
  shows "\<And>r. takes_action (request s r) \<Longrightarrow> action_mutex s = Some r"
    "\<And>r. expects_handler (request s r) \<Longrightarrow> action s = SignalHandler"
    "\<And>e x. entry_heap s e = Some x \<Longrightarrow> entry_phase s e x"
    "\<And>r tid e. locked_entry (request s r) = Some (tid, e) \<Longrightarrow> \<exists>x. entry_heap s e = Some x \<and> te_mutex x = Some r"
    "\<And>tid. entries s tid = None \<Longrightarrow> calm s tid"
  using assms unfolding shake_ok_def by blast+

lemma shake_okI:
  assumes "\<And>r. takes_action (request s r) \<Longrightarrow> action_mutex s = Some r"
    "\<And>r. expects_handler (request s r) \<Longrightarrow> action s = SignalHandler"
    "\<And>e x. entry_heap s e = Some x \<Longrightarrow> entry_phase s e x"
    "\<And>r tid e. locked_entry (request s r) = Some (tid, e) \<Longrightarrow> \<exists>x. entry_heap s e = Some x \<and> te_mutex x = Some r"
    "\<And>tid. entries s tid = None \<Longrightarrow> calm s tid"
  shows "shake_ok s"
  using assms unfolding shake_ok_def by blast

lemma locked_request: "locked_entry q = Some (tid, e) \<Longrightarrow> request_entry q = Some (tid, e)"
  by (cases q) simp_all

section \<open>A step at one entry\<close>

lemma shake_local:
  assumes ok: "refs_ok s" "shake_ok s" and n: "entries s tid = Some e" "entry_heap s e = Some x"
    and t: "entries t = entries s" "entry_heap t = (entry_heap s)(e \<mapsto> x')" "request t = (request s)(r := q)"
      "\<And>i. i \<noteq> tid \<Longrightarrow> target t i = target s i" "\<And>i. i \<noteq> tid \<Longrightarrow> pending t i = pending s i"
    and rl: "\<And>i k. locked_entry (request s r) = Some (i, k) \<Longrightarrow> k = e"
    and ql: "\<And>i k. locked_entry q = Some (i, k) \<Longrightarrow> k = e \<and> te_mutex x' = Some r"
    and own: "\<And>r' i. r' \<noteq> r \<Longrightarrow> locked_entry (request s r') = Some (i, e) \<Longrightarrow> te_mutex x' = Some r'"
    and loc: "entry_phase t e x'"
    and act: "\<And>i. takes_action (request t i) \<Longrightarrow> action_mutex t = Some i"
    and wc: "\<And>i. expects_handler (request t i) \<Longrightarrow> action t = SignalHandler"
  shows "shake_ok t"
proof (rule shake_okI)
  show "takes_action (request t i) \<Longrightarrow> action_mutex t = Some i" for i by (rule act)
  show "expects_handler (request t i) \<Longrightarrow> action t = SignalHandler" for i by (rule wc)
  show "entry_phase t k y" if y: "entry_heap t k = Some y" for k y
  proof (cases "k = e")
    case True
    then show ?thesis using y loc t(2) by simp
  next
    case False
    then have y': "entry_heap s k = Some y" using y t(2) by simp
    have i: "te_tid y \<noteq> tid" by (rule other_entry [OF ok(1) y' n(1) False])
    have p: "entry_phase s k y" by (rule shake_okD(3) [OF ok(2) y'])
    have "te_mutex y \<noteq> Some r" using p rl False by (auto simp: entry_phase_def)
    then show ?thesis using p t(3-5) i by (auto simp: entry_phase_def calm_def split: option.splits)
  qed
  show "\<exists>y. entry_heap t k = Some y \<and> te_mutex y = Some r'" if l: "locked_entry (request t r') = Some (i, k)" for r' i k
  proof (cases "r' = r")
    case True
    then show ?thesis using l ql t(2,3) by auto
  next
    case False
    then have l': "locked_entry (request s r') = Some (i, k)" using l t(3) by simp
    show ?thesis
    proof (cases "k = e")
      case True
      then show ?thesis using own [OF False] l' t(2) by simp
    next
      case k: False
      then show ?thesis using shake_okD(4) [OF ok(2) l'] t(2) by simp
    qed
  qed
  show "calm t i" if "entries t i = None" for i
  proof -
    have "i \<noteq> tid" using that t(1) n(1) by auto
    moreover have "calm s i" using shake_okD(5) [OF ok(2)] that t(1) by simp
    ultimately show ?thesis using t(4,5) by (simp add: calm_def)
  qed
qed

text \<open>A step without an entry.\<close>

lemma shake_free:
  assumes ok: "shake_ok s"
    and t: "entries t = entries s" "entry_heap t = entry_heap s" "request t = (request s)(r := q)" "target t = target s" "pending t = pending s"
    and l: "locked_entry (request s r) = None" "locked_entry q = None"
    and act: "\<And>i. takes_action (request t i) \<Longrightarrow> action_mutex t = Some i"
    and wc: "\<And>i. expects_handler (request t i) \<Longrightarrow> action t = SignalHandler"
  shows "shake_ok t"
proof (rule shake_okI)
  show "takes_action (request t i) \<Longrightarrow> action_mutex t = Some i" for i by (rule act)
  show "expects_handler (request t i) \<Longrightarrow> action t = SignalHandler" for i by (rule wc)
  show "entry_phase t k y" if y: "entry_heap t k = Some y" for k y
  proof -
    have p: "entry_phase s k y" using shake_okD(3) [OF ok] y t(2) by simp
    have "te_mutex y \<noteq> Some r" using p l(1) by (auto simp: entry_phase_def)
    then show ?thesis using p t by (auto simp: entry_phase_def calm_def split: option.splits)
  qed
  show "\<exists>y. entry_heap t k = Some y \<and> te_mutex y = Some r'" if "locked_entry (request t r') = Some (i, k)" for r' i k
    using that shake_okD(4) [OF ok, of r' i k] t(2,3) l(2) by (auto split: if_splits)
  show "calm t i" if "entries t i = None" for i using that shake_okD(5) [OF ok, of i] t by (simp add: calm_def)
qed

section \<open>Steps of the handler\<close>

lemma busy_thread:
  assumes "refs_ok s" "shake_ok s" "\<not> calm s tid"
  obtains e x r where "entries s tid = Some e" "entry_heap s e = Some x" "te_tid x = tid" "te_mutex x = Some r"
    "locked_entry (request s r) = Some (tid, e)"
    "phase (request s r) (wait_value x) (te_ucontext x) (pending s tid) (target s tid)"
proof -
  obtain e where e: "entries s tid = Some e" using shake_okD(5) [OF assms(2), of tid] assms(3) by (cases "entries s tid") auto
  obtain x where x: "entry_heap s e = Some x" "te_tid x = tid" using refs_okD(3) [OF assms(1) e] by blast
  have "entry_phase s e x" by (rule shake_okD(3) [OF assms(2) x(1)])
  then show ?thesis using that [OF e x] assms(3) x(2) by (cases "te_mutex x") (auto simp: entry_phase_def)
qed

lemma shake_handler:
  assumes ok: "refs_ok s" "shake_ok s" and n: "entries s tid = Some e" "entry_heap s e = Some x" "te_tid x = tid"
    and r: "te_mutex x = Some r" "locked_entry (request s r) = Some (tid, e)"
    and t: "t = s\<lparr>entry_heap := (entry_heap s)(e \<mapsto> x'), target := (target s)(tid := a), pending := (pending s)(tid := b)\<rparr>"
    and x': "te_tid x' = te_tid x" "te_mutex x' = te_mutex x"
    and p: "phase (request s r) (wait_value x') (te_ucontext x') b a"
  shows "shake_ok t"
proof (rule shake_local [OF ok n(1,2), where r = r and q = "request s r"])
  show "entry_phase t e x'" using r n x' p by (simp add: entry_phase_def t)
  show "te_mutex x' = Some r'" if "r' \<noteq> r" "locked_entry (request s r') = Some (i, e)" for r' i
    using shake_okD(4) [OF ok(2) that(2)] n(2) r(1) that(1) by simp
  show "takes_action (request t i) \<Longrightarrow> action_mutex t = Some i" for i using shake_okD(1) [OF ok(2), of i] by (simp add: t)
  show "expects_handler (request t i) \<Longrightarrow> action t = SignalHandler" for i
    using shake_okD(2) [OF ok(2), of i] by (simp add: t)
qed (use r x' in \<open>simp_all add: t\<close>)

lemma locked_cases:
  assumes "locked_entry q = Some (tid, e)"
  obtains "q = Install tid e" | old where "q = Send tid e old" | old where "q = WaitContext tid e old"
    | c where "q = Unwinding tid e c" | "q = WaitRestart tid e" | err where "q = Unlocking tid e err"
  using assms by (cases q) auto

lemma handler_step_shake:
  assumes "handler_step False tid s t" "refs_ok s" "shake_ok s"
  shows "shake_ok t"
  using assms
proof (induction rule: handler_step.induct)
  case (deliver s c)
  then have "\<not> calm s tid" by (simp add: calm_def)
  from busy_thread [OF deliver(4,5) this] obtain e x r where b: "entries s tid = Some e" "entry_heap s e = Some x" "te_tid x = tid"
    "te_mutex x = Some r" "locked_entry (request s r) = Some (tid, e)"
    "phase (request s r) (wait_value x) (te_ucontext x) (pending s tid) (target s tid)" .
  have "phase (request s r) (wait_value x) (te_ucontext x) False (Entered c)"
    using b(6) deliver(1,2) by (cases rule: locked_cases [OF b(5)]) auto
  then show ?case
    by (intro shake_handler [OF deliver(4,5) b(1-5), where x' = x and a = "Entered c" and b = False]) (use b(2) in \<open>simp_all add: state_defs fun_upd_idem\<close>)
next
  case (other s)
  then have "\<not> calm s tid" by (simp add: calm_def)
  from busy_thread [OF other(5,6) this] obtain e x r where b: "entries s tid = Some e" "entry_heap s e = Some x" "te_tid x = tid"
    "te_mutex x = Some r" "locked_entry (request s r) = Some (tid, e)"
    "phase (request s r) (wait_value x) (te_ucontext x) (pending s tid) (target s tid)" .
  obtain old where "request s r = WaitContext tid e old" using b(6) other(1,2) by (cases rule: locked_cases [OF b(5)]) auto
  then show ?case using shake_okD(2) [OF other(6), of r] other(3) by simp
next
  case (no_entry s c at junk s')
  then have "entries s tid = None" "\<not> calm s tid" by (auto elim: Get_cases simp: calm_def)
  then show ?case using shake_okD(5) [OF no_entry(4)] by blast
next
  case (get s c at junk e' s')
  then have "\<not> calm s tid" by (simp add: calm_def)
  from busy_thread [OF get(3,4) this] obtain e x r where b: "entries s tid = Some e" "entry_heap s e = Some x" "te_tid x = tid"
    "te_mutex x = Some r" "locked_entry (request s r) = Some (tid, e)"
    "phase (request s r) (wait_value x) (te_ucontext x) (pending s tid) (target s tid)" .
  have g: "e' = e" "s' = on_entry e (\<lambda>x. x\<lparr>ref_count := ref_count x + 1\<rparr>) s" using get(2) b(1) by (auto elim: Get_cases)
  have "phase (request s r) (wait_value x) (te_ucontext x) (pending s tid) (Copying e c)"
    using b(6) get(1) by (cases rule: locked_cases [OF b(5)]) auto
  then show ?case
    by (intro shake_handler [OF get(3,4) b(1-5), where x' = "x\<lparr>ref_count := ref_count x + 1\<rparr>" and a = "Copying e c" and b = "pending s tid"])
      (use b(2) g in \<open>simp_all add: state_defs fun_upd_idem\<close>)
next
  case (copy s e' c)
  then have "\<not> calm s tid" by (simp add: calm_def)
  from busy_thread [OF copy(2,3) this] obtain e x r where b: "entries s tid = Some e" "entry_heap s e = Some x" "te_tid x = tid"
    "te_mutex x = Some r" "locked_entry (request s r) = Some (tid, e)"
    "phase (request s r) (wait_value x) (te_ucontext x) (pending s tid) (target s tid)" .
  have "phase (request s r) (wait_value x) c (pending s tid) (Copied e c) \<and> e' = e"
    using b(6) copy(1) by (cases rule: locked_cases [OF b(5)]) auto
  then show ?case
    by (intro shake_handler [OF copy(2,3) b(1-5), where x' = "x\<lparr>te_ucontext := c\<rparr>" and a = "Copied e c" and b = "pending s tid"])
      (use b(2) in \<open>simp_all add: state_defs fun_upd_idem\<close>)
next
  case (wake s e' c)
  then have "\<not> calm s tid" by (simp add: calm_def)
  from busy_thread [OF wake(2,3) this] obtain e x r where b: "entries s tid = Some e" "entry_heap s e = Some x" "te_tid x = tid"
    "te_mutex x = Some r" "locked_entry (request s r) = Some (tid, e)"
    "phase (request s r) (wait_value x) (te_ucontext x) (pending s tid) (target s tid)" .
  have "phase (request s r) (wait_value x + 1) (te_ucontext x) (pending s tid) (Parked e c) \<and> e' = e"
    using b(6) wake(1) by (cases rule: locked_cases [OF b(5)]) auto
  then show ?case
    by (intro shake_handler [OF wake(2,3) b(1-5), where x' = "x\<lparr>wait_value := wait_value x + 1\<rparr>" and a = "Parked e c" and b = "pending s tid"])
      (use b(2) in \<open>simp_all add: state_defs fun_upd_idem\<close>)
next
  case (complete s e' c)
  then have "\<not> calm s tid" by (simp add: calm_def)
  from busy_thread [OF complete(3,4) this] obtain e x r where b: "entries s tid = Some e" "entry_heap s e = Some x" "te_tid x = tid"
    "te_mutex x = Some r" "locked_entry (request s r) = Some (tid, e)"
    "phase (request s r) (wait_value x) (te_ucontext x) (pending s tid) (target s tid)" .
  have e: "e' = e" using b(6) complete(1) by (cases rule: locked_cases [OF b(5)]) auto
  have "phase (request s r) (wait_value x) (te_ucontext x) (pending s tid) (Waking e c)"
    using b(2,6) complete(1,2) e by (cases rule: locked_cases [OF b(5)]) (auto simp: ThreadEntry_Wait_def WAIT_FOR_UNWIND_TO_COMPLETE_def)
  then show ?case
    by (intro shake_handler [OF complete(3,4) b(1-5), where x' = x and a = "Waking e c" and b = "pending s tid"])
      (use b(2) e in \<open>simp_all add: state_defs fun_upd_idem\<close>)
next
  case (wake_again s e' c)
  then have "\<not> calm s tid" by (simp add: calm_def)
  from busy_thread [OF wake_again(2,3) this] obtain e x r where b: "entries s tid = Some e" "entry_heap s e = Some x" "te_tid x = tid"
    "te_mutex x = Some r" "locked_entry (request s r) = Some (tid, e)"
    "phase (request s r) (wait_value x) (te_ucontext x) (pending s tid) (target s tid)" .
  have "phase (request s r) (wait_value x + 1) (te_ucontext x) (pending s tid) Running \<and> e' = e"
    using b(6) wake_again(1) by (cases rule: locked_cases [OF b(5)]) auto
  then show ?case
    by (intro shake_handler [OF wake_again(2,3) b(1-5), where x' = "x\<lparr>wait_value := wait_value x + 1\<rparr>" and a = Running and b = "pending s tid"])
      (use b(2) in \<open>simp_all add: state_defs fun_upd_idem\<close>)
qed simp

section \<open>Steps of the request\<close>

lemma expects_takes: "expects_handler q \<Longrightarrow> takes_action q"
  by (cases q) simp_all

lemma locked_thread:
  assumes "refs_ok s" "shake_ok s" "locked_entry (request s r) = Some (tid, e)"
  obtains x where "entries s tid = Some e" "entry_heap s e = Some x" "te_tid x = tid" "te_mutex x = Some r"
    "phase (request s r) (wait_value x) (te_ucontext x) (pending s tid) (target s tid)"
proof -
  have e: "entries s tid = Some e" by (rule refs_okD(5) [OF assms(1) locked_request [OF assms(3)]])
  obtain x where x: "entry_heap s e = Some x" "te_tid x = tid" using refs_okD(3) [OF assms(1) e] by blast
  obtain y where "entry_heap s e = Some y" "te_mutex y = Some r" using shake_okD(4) [OF assms(2,3)] by blast
  then have m: "te_mutex x = Some r" using x(1) by simp
  have "entry_phase s e x" by (rule shake_okD(3) [OF assms(2) x(1)])
  then show ?thesis using that [OF e x m] m x(2) by (simp add: entry_phase_def)
qed

lemma shake_request:
  assumes ok: "refs_ok s" "shake_ok s" and l: "locked_entry (request s r) = Some (tid, e)" and x: "entry_heap s e = Some x"
    and t: "t = s\<lparr>entry_heap := (entry_heap s)(e \<mapsto> x'), pending := (pending s)(tid := b), request := (request s)(r := q),
        action_mutex := m, action := a\<rparr>"
    and x': "te_tid x' = te_tid x"
    and q: "locked_entry q = Some (tid, e) \<and> te_mutex x' = Some r \<and> phase q (wait_value x') (te_ucontext x') b (target s tid) \<or>
      locked_entry q = None \<and> te_mutex x' = None \<and> \<not> b \<and> target s tid = Running"
    and m: "takes_action q \<Longrightarrow> m = Some r" "m = action_mutex s \<or> takes_action (request s r)"
    and a: "expects_handler q \<Longrightarrow> a = SignalHandler" "a = action s \<or> takes_action (request s r)"
  shows "shake_ok t"
proof -
  obtain y where y: "entries s tid = Some e" "entry_heap s e = Some y" "te_tid y = tid" "te_mutex y = Some r"
    by (rule locked_thread [OF ok l])
  have n: "entries s tid = Some e" "te_tid x = tid" "te_mutex x = Some r" using x y by simp_all
  have sole: "\<not> (takes_action (request s i) \<and> takes_action (request s r))" if "i \<noteq> r" for i
    using shake_okD(1) [OF ok(2), of i] shake_okD(1) [OF ok(2), of r] that by auto
  show ?thesis
  proof (rule shake_local [OF ok n(1) x, where r = r and q = q])
    show "takes_action (request t i) \<Longrightarrow> action_mutex t = Some i" for i
      using shake_okD(1) [OF ok(2), of i] sole [of i] m by (cases "i = r") (auto simp: t)
    show "expects_handler (request t i) \<Longrightarrow> action t = SignalHandler" for i
      using shake_okD(2) [OF ok(2), of i] sole [of i] a expects_takes [of "request s i"] by (cases "i = r") (auto simp: t)
    show "te_mutex x' = Some r'" if "r' \<noteq> r" "locked_entry (request s r') = Some (i, e)" for r' i
      using shake_okD(4) [OF ok(2) that(2)] x n(3) that(1) by simp
    show "entry_phase t e x'" using q x' n by (auto simp: entry_phase_def t calm_def)
  qed (use l q x' in \<open>auto simp: t\<close>)
qed

text \<open>A request that has locked nothing takes a lock or moves on.\<close>

lemma takes_unique:
  assumes "shake_ok s" "takes_action (request s r)" "takes_action (request s i)"
  shows "i = r"
  using shake_okD(1) [OF assms(1,2)] shake_okD(1) [OF assms(1,3)] by simp

lemma shake_start_request:
  assumes "shake_ok s" "locked_entry (request s r) = None" "locked_entry q = None" "\<not> expects_handler q"
    and m: "takes_action q \<Longrightarrow> m = Some r" "m = action_mutex s \<or> action_mutex s = None \<or> takes_action (request s r)"
  shows "shake_ok (s\<lparr>action_mutex := m, request := (request s)(r := q)\<rparr>)" (is "shake_ok ?t")
proof (rule shake_free [OF assms(1), where r = r and q = q])
  show "action_mutex ?t = Some i" if "takes_action (request ?t i)" for i
    using that m shake_okD(1) [OF assms(1), of i] takes_unique [OF assms(1), of r i] by (cases "i = r") auto
  show "action ?t = SignalHandler" if "expects_handler (request ?t i)" for i
    using that shake_okD(2) [OF assms(1), of i] assms(4) by (cases "i = r") auto
qed (use assms(2,3) in simp_all)

lemma shake_get:
  assumes ok: "refs_ok s" "shake_ok s" and r: "request s r = WantEntry tid" and f: "entry_heap s at = None"
    and g: "ThreadEntry_Get tid True at junk s = (Some e, s')"
  shows "shake_ok (goto r (WantLock tid e) s')"
  using g
proof (cases rule: Get_cases)
  case (found k)
  let ?t = "goto r (WantLock tid e) s'"
  obtain x where x: "entry_heap s e = Some x" "te_tid x = tid" using refs_okD(3) [OF ok(1), of tid e] found by auto
  have n: "entries s tid = Some e" using found by simp
  have t: "?t = s\<lparr>entry_heap := (entry_heap s)(e \<mapsto> x\<lparr>ref_count := ref_count x + 1\<rparr>), request := (request s)(r := WantLock tid e)\<rparr>"
    using found x by (simp add: state_defs)
  show ?thesis
    unfolding t
  proof (rule shake_local [OF ok n x(1), where r = r and q = "WantLock tid e" and x' = "x\<lparr>ref_count := ref_count x + 1\<rparr>"])
    let ?u = "s\<lparr>entry_heap := (entry_heap s)(e \<mapsto> x\<lparr>ref_count := ref_count x + 1\<rparr>), request := (request s)(r := WantLock tid e)\<rparr>"
    show "action_mutex ?u = Some i" if "takes_action (request ?u i)" for i
      using that shake_okD(1) [OF ok(2), of i] shake_okD(1) [OF ok(2), of r] r by (cases "i = r") auto
    show "action ?u = SignalHandler" if "expects_handler (request ?u i)" for i
      using that shake_okD(2) [OF ok(2), of i] by (cases "i = r") auto
    show "te_mutex (x\<lparr>ref_count := ref_count x + 1\<rparr>) = Some r'" if "r' \<noteq> r" "locked_entry (request s r') = Some (i, e)" for r' i
      using shake_okD(4) [OF ok(2) that(2)] x(1) by simp
    show "entry_phase ?u e (x\<lparr>ref_count := ref_count x + 1\<rparr>)"
      using shake_okD(3) [OF ok(2) x(1)] r by (auto simp: entry_phase_def calm_def split: option.splits)
  qed (use r in simp_all)
next
  case created
  let ?t = "goto r (WantLock tid e) s'"
  have t: "?t = s\<lparr>entries := (entries s)(tid \<mapsto> e), entry_heap := (entry_heap s)(e \<mapsto> \<lparr>te_tid = tid, ref_count = 1, te_mutex = None,
      wait_value = 0, te_ucontext = junk\<rparr>), request := (request s)(r := WantLock tid e)\<rparr>" and e: "e = at"
    using created by (simp_all add: state_defs ThreadEntry_new_def)
  show ?thesis
  proof (rule shake_okI)
    show "action_mutex ?t = Some i" if "takes_action (request ?t i)" for i
      using that shake_okD(1) [OF ok(2), of i] shake_okD(1) [OF ok(2), of r] r by (cases "i = r") (auto simp: t)
    show "action ?t = SignalHandler" if "expects_handler (request ?t i)" for i
      using that shake_okD(2) [OF ok(2), of i] by (cases "i = r") (auto simp: t)
    show "entry_phase ?t k y" if y: "entry_heap ?t k = Some y" for k y
    proof (cases "k = e")
      case True
      then show ?thesis using y shake_okD(5) [OF ok(2) created(1)] by (auto simp: t entry_phase_def calm_def)
    next
      case False
      then have "entry_heap s k = Some y" using y by (simp add: t)
      from shake_okD(3) [OF ok(2) this] show ?thesis using r by (auto simp: t entry_phase_def calm_def split: option.splits)
    qed
    show "\<exists>y. entry_heap ?t k = Some y \<and> te_mutex y = Some r'" if l: "locked_entry (request ?t r') = Some (i, k)" for r' i k
    proof -
      have "locked_entry (request s r') = Some (i, k)" using l by (auto simp: t split: if_splits)
      from shake_okD(4) [OF ok(2) this] show ?thesis using f e unfolding t by auto
    qed
    show "calm ?t i" if "entries ?t i = None" for i
      using that shake_okD(5) [OF ok(2), of i] by (auto simp: t calm_def split: if_splits)
  qed
qed simp

lemma shake_lock:
  assumes ok: "refs_ok s" "shake_ok s" and r: "request s r = WantLock tid e" and f: "te_mutex (the (entry_heap s e)) = None"
  shows "shake_ok (goto r (Install tid e) (ThreadEntry_Lock r e s))"
proof -
  have n: "entries s tid = Some e" using refs_okD(5) [OF ok(1), of r tid e] r by simp
  obtain x where x: "entry_heap s e = Some x" "te_tid x = tid" using refs_okD(3) [OF ok(1) n] by auto
  let ?x = "x\<lparr>te_mutex := Some r, wait_value := 0\<rparr>"
  let ?u = "s\<lparr>entry_heap := (entry_heap s)(e \<mapsto> ?x), request := (request s)(r := Install tid e)\<rparr>"
  have t: "goto r (Install tid e) (ThreadEntry_Lock r e s) = ?u" using x by (simp add: state_defs)
  have m: "te_mutex x = None" using f x by simp
  then have c: "calm s tid" using shake_okD(3) [OF ok(2) x(1)] x(2) by (simp add: entry_phase_def)
  show ?thesis
    unfolding t
  proof (rule shake_local [OF ok n x(1), where r = r and q = "Install tid e" and x' = ?x])
    show "action_mutex ?u = Some i" if "takes_action (request ?u i)" for i
      using that shake_okD(1) [OF ok(2), of i] shake_okD(1) [OF ok(2), of r] r by (cases "i = r") auto
    show "action ?u = SignalHandler" if "expects_handler (request ?u i)" for i
      using that shake_okD(2) [OF ok(2), of i] by (cases "i = r") auto
    show "te_mutex ?x = Some r'" if "r' \<noteq> r" "locked_entry (request s r') = Some (i, e)" for r' i
      using shake_okD(4) [OF ok(2) that(2)] x(1) m by simp
    show "entry_phase ?u e ?x" using c x(2) by (simp add: entry_phase_def calm_def)
  qed (use r in simp_all)
qed

lemma shake_remove:
  assumes ok: "refs_ok s" "shake_ok s" and r: "request s r = Dropping tid e err"
    and q: "locked_entry q = None" "takes_action q \<Longrightarrow> err \<noteq> None" "\<not> expects_handler q"
  shows "shake_ok (goto r q (ThreadEntry_Remove e s))"
proof -
  have n: "entries s tid = Some e" using refs_okD(5) [OF ok(1), of r tid e] r by simp
  obtain x where x: "entry_heap s e = Some x" "te_tid x = tid" using refs_okD(3) [OF ok(1) n] by auto
  have act: "action_mutex s = Some i" if "takes_action (((request s)(r := q)) i)" for i
    using that q(2) r shake_okD(1) [OF ok(2), of i] by (cases "i = r") auto
  have wc: "action s = SignalHandler" if "expects_handler (((request s)(r := q)) i)" for i
    using that q(3) shake_okD(2) [OF ok(2), of i] by (cases "i = r") auto
  show ?thesis
  proof (cases "ref_count x = 1")
    case False
    let ?x = "x\<lparr>ref_count := ref_count x - 1\<rparr>"
    let ?u = "s\<lparr>entry_heap := (entry_heap s)(e \<mapsto> ?x), request := (request s)(r := q)\<rparr>"
    have t: "goto r q (ThreadEntry_Remove e s) = ?u" using False x by (simp add: state_defs ThreadEntry_Remove_def Let_def)
    show ?thesis
      unfolding t
    proof (rule shake_local [OF ok n x(1), where r = r and q = q and x' = ?x])
      show "te_mutex ?x = Some r'" if "r' \<noteq> r" "locked_entry (request s r') = Some (i, e)" for r' i
        using shake_okD(4) [OF ok(2) that(2)] x(1) by simp
      show "entry_phase ?u e ?x" using shake_okD(3) [OF ok(2) x(1)] r by (auto simp: entry_phase_def calm_def split: option.splits)
    qed (use q r act wc in simp_all)
  next
    case True
    let ?u = "s\<lparr>entries := (entries s)(tid := None), entry_heap := (entry_heap s)(e := None), request := (request s)(r := q)\<rparr>"
    have t: "goto r q (ThreadEntry_Remove e s) = ?u"
      using True x by (simp add: state_defs ThreadEntry_Remove_def ThreadEntry_delete_def Let_def)
    have f: "finite (holders s e)" by (rule finite_holders [OF ok(1)])
    have "card (holders s e) \<le> 1" using refs_okD(4) [OF ok(1) x(1)] True by (simp add: entry_counted_def counted_def)
    moreover have "r \<in> holders s e" using r by (auto simp: holders_def)
    ultimately have only: "i = r" if "i \<in> holders s e" for i
      using that f by (metis card_le_Suc0_iff_eq One_nat_def)
    have free: "te_mutex x = None"
    proof (cases "te_mutex x")
      case (Some i)
      then have "locked_entry (request s i) = Some (tid, e)" using shake_okD(3) [OF ok(2) x(1)] x(2) by (simp add: entry_phase_def)
      moreover from locked_request [OF this] have "i = r" by (intro only) (auto simp: holders_def)
      ultimately show ?thesis using r by simp
    qed simp
    show ?thesis
      unfolding t
    proof (rule shake_okI)
      show "action_mutex ?u = Some i" if "takes_action (request ?u i)" for i using act [of i] that by simp
      show "action ?u = SignalHandler" if "expects_handler (request ?u i)" for i using wc [of i] that by simp
      show "entry_phase ?u k y" if y: "entry_heap ?u k = Some y" for k y
      proof -
        have k: "k \<noteq> e" "entry_heap s k = Some y" using y by (simp_all split: if_splits)
        from shake_okD(3) [OF ok(2) k(2)] show ?thesis using r by (auto simp: entry_phase_def calm_def split: option.splits)
      qed
      show "\<exists>y. entry_heap ?u k = Some y \<and> te_mutex y = Some r'" if l: "locked_entry (request ?u r') = Some (i, k)" for r' i k
      proof -
        have r': "r' \<noteq> r" "locked_entry (request s r') = Some (i, k)" using l q(1) by (auto split: if_splits)
        from shake_okD(4) [OF ok(2) r'(2)] show ?thesis using free x(1) by auto
      qed
      show "calm ?u i" if "entries ?u i = None" for i
        using that shake_okD(5) [OF ok(2), of i] shake_okD(3) [OF ok(2) x(1)] free x(2)
        by (cases "i = tid") (auto simp: calm_def entry_phase_def)
    qed
  qed
qed

lemma on_entry_upd: "entry_heap s e = Some x \<Longrightarrow> on_entry e f s = s\<lparr>entry_heap := (entry_heap s)(e \<mapsto> f x)\<rparr>"
  by (simp add: on_entry_def)

lemma request_step_shake:
  assumes "request_step False r s t" "refs_ok s" "shake_ok s"
  shows "shake_ok t"
  using assms
proof (induction rule: request_step.induct)
  case (own_thread s err tid)
  then show ?case using shake_start_request [of s r "Idle (Some ERROR_UNSUPPORTED)" "action_mutex s"] by (simp add: goto_def)
next
  case (no_maps s err tid)
  then show ?case using shake_start_request [of s r "Idle (Some ERROR_INVALID_MAP)" "action_mutex s"] by (simp add: goto_def)
next
  case (begin_request s err tid)
  then show ?case using shake_start_request [of s r "WantAction tid" "action_mutex s"] by (simp add: goto_def)
next
  case (lock_action s tid)
  then show ?case using shake_start_request [of s r "WantEntry tid" "Some r"] by (simp add: goto_def)
next
  case (get s tid at junk e s')
  then show ?case by (intro shake_get)
next
  case (lock s tid e)
  then show ?case by (intro shake_lock)
next
  case (install s tid e)
  then have l: "locked_entry (request s r) = Some (tid, e)" by simp
  obtain x where x: "entry_heap s e = Some x" "te_mutex x = Some r"
    "phase (request s r) (wait_value x) (te_ucontext x) (pending s tid) (target s tid)" by (rule locked_thread [OF install(2,3) l])
  show ?case
    by (rule shake_request [OF install(2,3) l x(1), where x' = x and b = "pending s tid" and q = "Send tid e (action s)"
          and m = "action_mutex s" and a = SignalHandler])
      (use x install(1) shake_okD(1) [OF install(3), of r] in \<open>simp_all add: state_defs fun_upd_idem\<close>)
next
  case (install_failed s tid e)
  then have l: "locked_entry (request s r) = Some (tid, e)" by simp
  obtain x where x: "entry_heap s e = Some x" "te_mutex x = Some r"
    "phase (request s r) (wait_value x) (te_ucontext x) (pending s tid) (target s tid)" by (rule locked_thread [OF install_failed(2,3) l])
  show ?case
    by (rule shake_request [OF install_failed(2,3) l x(1), where x' = x and b = "pending s tid"
          and q = "Unlocking tid e (Some ERROR_SYSTEM_CALL)" and m = "action_mutex s" and a = "action s"])
      (use x install_failed(1) shake_okD(1) [OF install_failed(3), of r] in \<open>simp_all add: state_defs fun_upd_idem\<close>)
next
  case (send s tid e old)
  then have l: "locked_entry (request s r) = Some (tid, e)" by simp
  obtain x where x: "entry_heap s e = Some x" "te_mutex x = Some r"
    "phase (request s r) (wait_value x) (te_ucontext x) (pending s tid) (target s tid)" by (rule locked_thread [OF send(2,3) l])
  show ?case
    by (rule shake_request [OF send(2,3) l x(1), where x' = x and b = True and q = "WaitContext tid e old"
          and m = "action_mutex s" and a = "action s"])
      (use x send(1) shake_okD(1,2) [OF send(3), of r] in \<open>simp_all add: state_defs fun_upd_idem\<close>)
next
  case (send_failed s tid e old err)
  then have l: "locked_entry (request s r) = Some (tid, e)" by simp
  obtain x where x: "entry_heap s e = Some x" "te_mutex x = Some r"
    "phase (request s r) (wait_value x) (te_ucontext x) (pending s tid) (target s tid)" by (rule locked_thread [OF send_failed(3,4) l])
  show ?case
    by (rule shake_request [OF send_failed(3,4) l x(1), where x' = x and b = "pending s tid" and q = "Unlocking tid e (Some err)"
          and m = "action_mutex s" and a = old])
      (use x send_failed(1) shake_okD(1) [OF send_failed(4), of r] in \<open>simp_all add: state_defs fun_upd_idem\<close>)
next
  case (has_context s tid e old)
  then have l: "locked_entry (request s r) = Some (tid, e)" by simp
  obtain x where x: "entry_heap s e = Some x" "te_mutex x = Some r"
    "phase (request s r) (wait_value x) (te_ucontext x) (pending s tid) (target s tid)" by (rule locked_thread [OF has_context(3,4) l])
  show ?case
    by (rule shake_request [OF has_context(3,4) l x(1), where x' = x and b = "pending s tid"
          and q = "Unwinding tid e (te_ucontext x)" and m = None and a = "action s"])
      (use x has_context(1,2) in \<open>auto simp: state_defs fun_upd_idem ThreadEntry_Wait_def WAIT_FOR_UCONTEXT_def\<close>)
next
  case (unwound s tid e c)
  then have l: "locked_entry (request s r) = Some (tid, e)" by simp
  obtain x where x: "entry_heap s e = Some x" "te_mutex x = Some r"
    "phase (request s r) (wait_value x) (te_ucontext x) (pending s tid) (target s tid)" by (rule locked_thread [OF unwound(2,3) l])
  show ?case
    by (rule shake_request [OF unwound(2,3) l x(1), where x' = "x\<lparr>wait_value := wait_value x + 1\<rparr>" and b = "pending s tid"
          and q = "WaitRestart tid e" and m = "action_mutex s" and a = "action s"])
      (use x unwound(1) in \<open>simp_all add: goto_def ThreadEntry_Wake_def on_entry_upd [OF x(1)] fun_upd_idem\<close>)
next
  case (restarted s tid e)
  then have l: "locked_entry (request s r) = Some (tid, e)" by simp
  obtain x where x: "entry_heap s e = Some x" "te_mutex x = Some r"
    "phase (request s r) (wait_value x) (te_ucontext x) (pending s tid) (target s tid)" by (rule locked_thread [OF restarted(3,4) l])
  show ?case
    by (rule shake_request [OF restarted(3,4) l x(1), where x' = x and b = "pending s tid" and q = "Unlocking tid e None"
          and m = "action_mutex s" and a = "action s"])
      (use x restarted(1,2) in \<open>auto simp: state_defs fun_upd_idem ThreadEntry_Wait_def WAIT_FOR_THREAD_TO_RESTART_def\<close>)
next
  case (unlock s tid e err)
  then have l: "locked_entry (request s r) = Some (tid, e)" by simp
  obtain x where x: "entry_heap s e = Some x" "te_mutex x = Some r"
    "phase (request s r) (wait_value x) (te_ucontext x) (pending s tid) (target s tid)" by (rule locked_thread [OF unlock(2,3) l])
  show ?case
    by (rule shake_request [OF unlock(2,3) l x(1), where x' = "x\<lparr>te_mutex := None\<rparr>" and b = "pending s tid"
          and q = "Dropping tid e err" and m = "action_mutex s" and a = "action s"])
      (use x unlock(1) shake_okD(1) [OF unlock(3), of r] in \<open>simp_all add: goto_def ThreadEntry_Unlock_def on_entry_upd [OF x(1)] fun_upd_idem\<close>)
next
  case (remove s tid e err)
  show ?case by (rule shake_remove [OF remove(2,3,1)]) (cases err; simp)+
next
  case (leave s err)
  then show ?case using shake_start_request [of s r "Idle (Some err)" None] by (simp add: goto_def)
qed simp_all

lemma shake_ok_start: "shake_ok (threads_start a)"
  by (simp add: shake_ok_def threads_start_def calm_def)

lemma threads_reach_shake: "threads_reach False s \<Longrightarrow> refs_ok s \<and> shake_ok s"
proof (induction rule: threads_reach.induct)
  case (start a)
  show ?case by (simp add: refs_ok_start shake_ok_start)
next
  case (step s t)
  have "shake_ok t" using step(2) by cases (use step(3) in \<open>auto intro: handler_step_shake request_step_shake\<close>)
  then show ?case using step thread_step_refs by blast
qed

text \<open>
  Property C27. When no wait times out, the thread whose stack is unwound does not run: it is in its signal
  handler, at the wait for the end of the unwind, with the context that the request works on. No other request
  works on the same thread, and a thread is in its handler only while a request has locked its entry, so that it
  runs again when the request is over.
\<close>

theorem unwound_thread_is_parked:
  assumes "threads_reach False s"
  shows "(\<forall>r tid e c. request s r = Unwinding tid e c \<longrightarrow>
       target s tid = Parked e c \<and> (\<exists>x. entry_heap s e = Some x \<and> te_tid x = tid \<and> te_ucontext x = c \<and> wait_value x = 1)) \<and>
     (\<forall>r r' tid e c e' c'. request s r = Unwinding tid e c \<longrightarrow> request s r' = Unwinding tid e' c' \<longrightarrow> r' = r) \<and>
     (\<forall>tid. target s tid \<noteq> Running \<longrightarrow> (\<exists>r e. locked_entry (request s r) = Some (tid, e) \<and> entries s tid = Some e))"
proof -
  have ok: "refs_ok s" "shake_ok s" using threads_reach_shake [OF assms] by blast+
  have parked: "target s tid = Parked e c \<and> (\<exists>x. entry_heap s e = Some x \<and> te_tid x = tid \<and> te_ucontext x = c \<and> wait_value x = 1) \<and>
      entries s tid = Some e \<and> (\<exists>x. entry_heap s e = Some x \<and> te_mutex x = Some r)" if r: "request s r = Unwinding tid e c" for r tid e c
  proof -
    have "locked_entry (request s r) = Some (tid, e)" using r by simp
    from locked_thread [OF ok this] obtain x where "entries s tid = Some e" "entry_heap s e = Some x" "te_tid x = tid" "te_mutex x = Some r"
      "phase (request s r) (wait_value x) (te_ucontext x) (pending s tid) (target s tid)" .
    then show ?thesis using r by auto
  qed
  have sole: "r' = r" if "request s r = Unwinding tid e c" "request s r' = Unwinding tid e' c'" for r r' tid e c e' c'
    using parked [OF that(1)] parked [OF that(2)] by auto
  have served: "\<exists>r e. locked_entry (request s r) = Some (tid, e) \<and> entries s tid = Some e" if "target s tid \<noteq> Running" for tid
  proof -
    have "\<not> calm s tid" using that by (simp add: calm_def)
    from busy_thread [OF ok this] show ?thesis by metis
  qed
  show ?thesis using parked sole served by blast
qed

lemma unwound_thread_is_parked_witness: "threads_reach False sample_parked \<and> target sample_parked 2 = Parked 7 5"
proof -
  have "request sample_parked 3 = Unwinding 2 7 5" by (simp add: sample_parked_def)
  with unwound_thread_is_parked [OF sample_parked_reached] show ?thesis using sample_parked_reached by blast
qed

end
