(* ===== verification/ThreadProgress.thy ===== *)
theory ThreadProgress
  imports ThreadHandshake
begin

text \<open>
  The requests never block each other for good when every wait lasts until its condition holds: as long as
  a request is under way some step is possible, and without new requests there are only finitely many steps.
\<close>

section \<open>Who waits for whom\<close>

fun aim :: "'c Request \<Rightarrow> nat option" where
  "aim (WantAction tid) = Some tid"
| "aim (WantEntry tid) = Some tid"
| "aim q = map_option fst (request_entry q)"

definition idle :: "'c Request \<Rightarrow> bool" where
  "idle q \<longleftrightarrow> (\<exists>err. q = Idle err)"

lemma idle_simps [simp]:
  "idle (Idle err)" "\<not> idle (WantAction tid)" "\<not> idle (WantEntry tid)" "\<not> idle (WantLock tid e)" "\<not> idle (Install tid e)"
  "\<not> idle (Send tid e old)" "\<not> idle (WaitContext tid e old)" "\<not> idle (Unwinding tid e c)" "\<not> idle (WaitRestart tid e)"
  "\<not> idle (Unlocking tid e err)" "\<not> idle (Dropping tid e err)" "\<not> idle (Leaving er)"
  by (simp_all add: idle_def)

definition unwinds :: "'c Threads \<Rightarrow> (nat \<times> nat) set" where
  "unwinds s = {(r, tid). \<exists>e c. request s r = Unwinding tid e c}"

text \<open>
  The thread that has \<open>action_mutex\<close> needs it and is not interrupted, no request is for its own thread, and threads
  do not unwind each other in a circle.
\<close>

definition waits_ok :: "'c Threads \<Rightarrow> bool" where
  "waits_ok s \<longleftrightarrow>
     (\<forall>r. action_mutex s = Some r \<longrightarrow> takes_action (request s r) \<and> calm s r) \<and>
     (\<forall>r tid. aim (request s r) = Some tid \<longrightarrow> tid \<noteq> r) \<and>
     acyclic (unwinds s) \<and> finite {r. \<not> idle (request s r)}"

lemma waits_okD:
  assumes "waits_ok s"
  shows "\<And>r. action_mutex s = Some r \<Longrightarrow> takes_action (request s r)" "\<And>r. action_mutex s = Some r \<Longrightarrow> calm s r"
    "\<And>r tid. aim (request s r) = Some tid \<Longrightarrow> tid \<noteq> r" "acyclic (unwinds s)" "finite {r. \<not> idle (request s r)}"
  using assms unfolding waits_ok_def by blast+

lemma finite_busy: "finite {r. \<not> idle (request s r)} \<Longrightarrow> finite {i. \<not> idle (((request s)(r := q)) i)}"
  by (rule finite_subset [of _ "insert r {r. \<not> idle (request s r)}"]) auto

text \<open>A step of a request that takes no new context and keeps its aim.\<close>

lemma waits_step:
  assumes w: "waits_ok s" and t: "request t = (request s)(r := q)" "\<And>i. i \<noteq> tid \<Longrightarrow> calm t i = calm s i"
    and c: "calm t tid = calm s tid \<or> action_mutex s = Some r \<and> tid \<noteq> r"
    and a: "\<And>i. aim q = Some i \<Longrightarrow> i \<noteq> r" and u: "\<And>i e c. q \<noteq> Unwinding i e c"
    and m: "action_mutex t = action_mutex s \<and> (takes_action (request s r) \<longrightarrow> takes_action q) \<or>
      action_mutex t = None \<or> action_mutex t = Some r \<and> takes_action q \<and> calm s r \<and> calm t r"
  shows "waits_ok t"
proof -
  have "takes_action (request t i) \<and> calm t i" if "action_mutex t = Some i" for i
    using that m w t c by (cases "i = r"; cases "i = tid") (auto simp: waits_ok_def)
  moreover have "unwinds t \<subseteq> unwinds s"
  proof
    fix p
    assume "p \<in> unwinds t"
    then obtain i j e c where p: "p = (i, j)" "request t i = Unwinding j e c" by (auto simp: unwinds_def)
    then have "i \<noteq> r" using u [of j e c] by (auto simp: t)
    then show "p \<in> unwinds s" using p by (auto simp: unwinds_def t)
  qed
  ultimately show ?thesis using w a finite_busy [of s r q] acyclic_subset [of "unwinds s" "unwinds t"]
    by (auto simp: waits_ok_def t)
qed

lemma waits_handler:
  assumes "handler_step timeouts tid s t" "waits_ok s"
  shows "waits_ok t"
proof -
  have n: "\<not> calm s tid" using assms(1) by cases (auto simp: calm_def)
  have t: "request t = request s" "action_mutex t = action_mutex s" "\<And>i. i \<noteq> tid \<Longrightarrow> calm t i = calm s i"
    using assms(1) by (cases; auto simp: state_defs calm_def elim!: Get_cases)+
  have "calm t i" if "action_mutex s = Some i" for i
    using waits_okD(2) [OF assms(2) that] n t(3) [of i] by (cases "i = tid") auto
  then show ?thesis using assms(2) t(1,2) by (simp add: waits_ok_def unwinds_def)
qed

lemma waits_context:
  assumes w: "waits_ok s" and ok: "refs_ok s" "shake_ok s" and r: "request s r = WaitContext tid e old"
  shows "waits_ok (goto r (Unwinding tid e c) (s\<lparr>action_mutex := None\<rparr>))" (is "waits_ok ?t")
proof -
  have a: "action_mutex s = Some r" using shake_okD(1) [OF ok(2), of r] r by simp
  have c: "calm s r" by (rule waits_okD(2) [OF w a])
  have ne: "tid \<noteq> r" using waits_okD(3) [OF w, of r tid] r by simp
  have no: "(i, r) \<notin> unwinds s" for i
  proof
    assume "(i, r) \<in> unwinds s"
    then obtain k d where i: "request s i = Unwinding r k d" by (auto simp: unwinds_def)
    then have "locked_entry (request s i) = Some (r, k)" by simp
    from locked_thread [OF ok this] obtain x where "entries s r = Some k" "entry_heap s k = Some x" "te_tid x = r" "te_mutex x = Some i"
      "phase (request s i) (wait_value x) (te_ucontext x) (pending s r) (target s r)" .
    then show False using i c by (simp add: calm_def)
  qed
  have path: "(tid, r) \<notin> (unwinds s)\<^sup>*"
  proof
    assume "(tid, r) \<in> (unwinds s)\<^sup>*"
    then show False using ne no by (cases rule: rtranclE) auto
  qed
  have "unwinds ?t \<subseteq> insert (r, tid) (unwinds s)" by (auto simp: unwinds_def goto_def split: if_splits)
  moreover have "acyclic (insert (r, tid) (unwinds s))" using path waits_okD(4) [OF w] by (simp add: acyclic_insert)
  ultimately have "acyclic (unwinds ?t)" by (rule acyclic_subset [rotated])
  then show ?thesis using w ne finite_busy [of s r "Unwinding tid e c"]
    by (auto simp: waits_ok_def goto_def calm_def)
qed

lemma waits_request:
  assumes "request_step False r s t" "waits_ok s" "refs_ok s" "shake_ok s" "target s r = Running"
  shows "waits_ok t"
  using assms
proof (induction rule: request_step.induct)
  case (lock_action s tid)
  have "\<not> pending s r"
  proof
    assume p: "pending s r"
    then have "\<not> calm s r" by (simp add: calm_def)
    from busy_thread [OF lock_action(4,5) this] obtain e x i where b: "entries s r = Some e" "entry_heap s e = Some x" "te_tid x = r"
      "te_mutex x = Some i" "locked_entry (request s i) = Some (r, e)"
      "phase (request s i) (wait_value x) (te_ucontext x) (pending s r) (target s r)" .
    have "takes_action (request s i)" using b(6) p by (cases rule: locked_cases [OF b(5)]) auto
    then show False using shake_okD(1) [OF lock_action(5)] lock_action(2) by fastforce
  qed
  then show ?case
    by (intro waits_step [OF lock_action(3), where r = r and q = "WantEntry tid" and tid = tid])
      (use lock_action waits_okD(3) [OF lock_action(3), of r] in \<open>simp_all add: goto_def calm_def\<close>)
next
  case (get s tid at junk e s')
  have s': "request s' = request s" "action_mutex s' = action_mutex s" "target s' = target s" "pending s' = pending s"
    using get(3) by (auto elim!: Get_cases simp: state_defs ThreadEntry_new_def)
  show ?case
    by (rule waits_step [OF get(4), where r = r and q = "WantLock tid e" and tid = tid])
      (use get s' waits_okD(3) [OF get(4), of r] in \<open>simp_all add: goto_def calm_def\<close>)
next
  case (send s tid e old)
  have a: "action_mutex s = Some r" using shake_okD(1) [OF send(4), of r] send(1) by simp
  show ?case
    by (rule waits_step [OF send(2), where r = r and q = "WaitContext tid e old" and tid = tid])
      (use send a waits_okD(3) [OF send(2), of r] in \<open>simp_all add: state_defs calm_def\<close>)
next
  case (has_context s tid e old)
  then show ?case by (intro waits_context)
next
  case (remove s tid e err)
  have s': "request (ThreadEntry_Remove e s) = request s" "action_mutex (ThreadEntry_Remove e s) = action_mutex s"
    "target (ThreadEntry_Remove e s) = target s" "pending (ThreadEntry_Remove e s) = pending s"
    by (simp_all add: ThreadEntry_Remove_def ThreadEntry_delete_def on_entry_def Let_def)
  show ?case
  proof (cases err)
    case None
    show ?thesis
      by (rule waits_step [OF remove(2), where r = r and q = "Idle None" and tid = tid])
        (use remove s' None in \<open>simp_all add: goto_def calm_def\<close>)
  next
    case (Some er)
    show ?thesis
      by (rule waits_step [OF remove(2), where r = r and q = "Leaving er" and tid = tid])
        (use remove s' Some in \<open>simp_all add: goto_def calm_def\<close>)
  qed
next
  case (own_thread s err tid)
  show ?case by (rule waits_step [OF own_thread(3), where r = r and tid = tid]) (use own_thread in \<open>auto simp: goto_def calm_def\<close>)
next
  case (no_maps s err tid)
  show ?case by (rule waits_step [OF no_maps(3), where r = r and tid = tid]) (use no_maps in \<open>auto simp: goto_def calm_def\<close>)
next
  case (begin_request s err tid)
  show ?case by (rule waits_step [OF begin_request(3), where r = r and tid = tid]) (use begin_request in \<open>auto simp: goto_def calm_def\<close>)
next
  case (lock s tid e)
  show ?case
    by (rule waits_step [OF lock(3), where r = r and q = "Install tid e" and tid = tid])
      (use lock waits_okD(3) [OF lock(3), of r] in \<open>simp_all add: state_defs calm_def\<close>)
next
  case (install s tid e)
  show ?case
    by (rule waits_step [OF install(2), where r = r and q = "Send tid e (action s)" and tid = tid])
      (use install waits_okD(3) [OF install(2), of r] in \<open>simp_all add: state_defs calm_def\<close>)
next
  case (install_failed s tid e)
  show ?case
    by (rule waits_step [OF install_failed(2), where r = r and q = "Unlocking tid e (Some ERROR_SYSTEM_CALL)" and tid = tid])
      (use install_failed waits_okD(3) [OF install_failed(2), of r] in \<open>simp_all add: state_defs calm_def\<close>)
next
  case (send_failed s tid e old err)
  show ?case
    by (rule waits_step [OF send_failed(3), where r = r and q = "Unlocking tid e (Some err)" and tid = tid])
      (use send_failed waits_okD(3) [OF send_failed(3), of r] in \<open>simp_all add: state_defs calm_def\<close>)
next
  case (unwound s tid e c)
  show ?case
    by (rule waits_step [OF unwound(2), where r = r and q = "WaitRestart tid e" and tid = tid])
      (use unwound waits_okD(3) [OF unwound(2), of r] in \<open>simp_all add: state_defs calm_def\<close>)
next
  case (restarted s tid e)
  show ?case
    by (rule waits_step [OF restarted(3), where r = r and q = "Unlocking tid e None" and tid = tid])
      (use restarted waits_okD(3) [OF restarted(3), of r] in \<open>simp_all add: state_defs calm_def\<close>)
next
  case (unlock s tid e err)
  show ?case
    by (rule waits_step [OF unlock(2), where r = r and q = "Dropping tid e err" and tid = tid])
      (use unlock waits_okD(3) [OF unlock(2), of r] in \<open>simp_all add: state_defs calm_def\<close>)
next
  case (leave s err)
  show ?case
    by (rule waits_step [OF leave(2), where r = r and q = "Idle (Some err)" and tid = r])
      (use leave in \<open>simp_all add: state_defs calm_def\<close>)
qed simp_all

lemma waits_ok_start: "waits_ok (threads_start a)"
  by (simp add: waits_ok_def threads_start_def unwinds_def acyclic_def)

lemma threads_reach_waits: "threads_reach False s \<Longrightarrow> waits_ok s"
proof (induction rule: threads_reach.induct)
  case (start a)
  show ?case by (rule waits_ok_start)
next
  case (step s t)
  have ok: "refs_ok s" "shake_ok s" using threads_reach_shake [OF step(1)] by blast+
  from step(2) show ?case
  proof cases
    case (handler tid)
    then show ?thesis using step(3) by (rule waits_handler)
  next
    case (requester r)
    then show ?thesis by (intro waits_request [OF requester(2) step(3) ok])
  qed
qed

section \<open>Progress\<close>

text \<open>A step of a handler or of a request that is under way.\<close>

inductive work_step :: "bool \<Rightarrow> 'c Threads \<Rightarrow> 'c Threads \<Rightarrow> bool" for timeouts where
  handler: "handler_step timeouts tid s t \<Longrightarrow> work_step timeouts s t"
| requester: "target s r = Running \<Longrightarrow> \<not> idle (request s r) \<Longrightarrow> request_step timeouts r s t \<Longrightarrow> work_step timeouts s t"

lemma work_thread_step: "work_step timeouts s t \<Longrightarrow> thread_step timeouts s t"
  by (auto elim!: work_step.cases intro: thread_step.intros)

lemma work_request: "request_step timeouts r s t \<Longrightarrow> target s r = Running \<Longrightarrow> \<not> idle (request s r) \<Longrightarrow> \<exists>t. work_step timeouts s t"
  by (blast intro: work_step.requester)

lemma work_handler: "handler_step timeouts tid s t \<Longrightarrow> \<exists>t. work_step timeouts s t"
  by (blast intro: work_step.handler)

text \<open>A thread in the handler takes a step, or waits for a request that has its context.\<close>

lemma handler_progress:
  assumes ok: "refs_ok s" "shake_ok s" and b: "\<not> calm s tid" and no: "\<nexists>t. work_step False s t"
  obtains e c r where "target s tid = Parked e c" "(\<exists>old. request s r = WaitContext tid e old) \<or> request s r = Unwinding tid e c"
    "wait_value (the (entry_heap s e)) = 1"
proof -
  from busy_thread [OF ok b] obtain e x r where x: "entries s tid = Some e" "entry_heap s e = Some x" "te_tid x = tid"
    "te_mutex x = Some r" "locked_entry (request s r) = Some (tid, e)"
    "phase (request s r) (wait_value x) (te_ucontext x) (pending s tid) (target s tid)" .
  have stuck: "\<not> handler_step False tid s t" for t using no by (blast intro: work_step.handler)
  have h: "\<exists>t. handler_step False tid s t" if ent: "\<exists>c. target s tid = Entered c"
  proof -
    obtain c where c: "target s tid = Entered c" using ent by blast
    show ?thesis using handler_step.get [where timeouts = False, OF c, of undefined undefined e] x(1) by (auto simp: ThreadEntry_Get_def)
  qed
  have np: "\<not> pending s tid"
  proof
    assume p: "pending s tid"
    obtain old where "request s r = WaitContext tid e old" "target s tid = Running"
      using x(6) p by (cases rule: locked_cases [OF x(5)]) auto
    moreover from this have "action s = SignalHandler" using shake_okD(2) [OF ok(2), of r] by simp
    ultimately show False using stuck handler_step.deliver [where timeouts = False, OF p] by blast
  qed
  have "target s tid \<noteq> Entered c" for c using h stuck by blast
  moreover have "target s tid \<noteq> Copying k c" for k c using stuck handler_step.copy [of s tid k c False] by auto
  moreover have "target s tid \<noteq> Copied k c" for k c using stuck handler_step.wake [of s tid k c False] by auto
  moreover have "target s tid \<noteq> Waking k c" for k c using stuck handler_step.wake_again [of s tid k c False] by auto
  ultimately obtain k c where p: "target s tid = Parked k c" using b np by (cases "target s tid") (auto simp: calm_def)
  have v: "wait_value x \<noteq> 2 \<or> k \<noteq> e"
    using stuck handler_step.complete [where timeouts = False, OF p] x(2) by (auto simp: ThreadEntry_Wait_def WAIT_FOR_UNWIND_TO_COMPLETE_def)
  show ?thesis
    using x(6) p v np that [of e c r] x(2) by (cases rule: locked_cases [OF x(5)]) auto
qed

text \<open>A request that is past \<open>SendSignalToThread\<close>.\<close>

fun past_action :: "'c Request \<Rightarrow> bool" where
  "past_action (Unwinding tid e c) = True"
| "past_action (WaitRestart tid e) = True"
| "past_action (Unlocking tid e err) = (err = None)"
| "past_action (Dropping tid e err) = (err = None)"
| "past_action _ = False"

lemma finite_unwinds: "refs_ok s \<Longrightarrow> finite (unwinds s)"
proof -
  assume ok: "refs_ok s"
  have "unwinds s \<subseteq> (\<lambda>r. (r, fst (the (request_entry (request s r))))) ` {r. request_entry (request s r) \<noteq> None}"
  proof
    fix p
    assume "p \<in> unwinds s"
    then obtain r tid e c where "p = (r, tid)" "request s r = Unwinding tid e c" by (auto simp: unwinds_def)
    then show "p \<in> (\<lambda>r. (r, fst (the (request_entry (request s r))))) ` {r. request_entry (request s r) \<noteq> None}"
      by (intro image_eqI [of _ _ r]) simp_all
  qed
  then show ?thesis using finite_subset finite_imageI [OF refs_okD(1) [OF ok]] by blast
qed

text \<open>The request with \<open>action_mutex\<close> does not wait for the context of a thread that has given it.\<close>

lemma context_progress:
  assumes ok: "refs_ok s" "shake_ok s" "waits_ok s" and r: "request s r = WaitContext tid e old"
    and v: "wait_value (the (entry_heap s e)) = 1"
  shows "\<exists>t. work_step False s t"
proof -
  have "action_mutex s = Some r" using shake_okD(1) [OF ok(2), of r] r by simp
  then have "target s r = Running" using waits_okD(2) [OF ok(3)] by (simp add: calm_def)
  then show ?thesis using r v request_step.has_context [where timeouts = False, OF r]
    by (intro work_request [of False r s]) (auto simp: ThreadEntry_Wait_def WAIT_FOR_UCONTEXT_def)
qed

lemma past_progress:
  assumes ok: "refs_ok s" "shake_ok s" "waits_ok s" and r0: "past_action (request s r0)"
  shows "\<exists>t. work_step False s t"
proof (rule ccontr)
  assume no: "\<nexists>t. work_step False s t"
  have w: "wf (unwinds s)" by (rule finite_acyclic_wf [OF finite_unwinds [OF ok(1)] waits_okD(4) [OF ok(3)]])
  have "r0 \<in> {r. past_action (request s r)}" using r0 by simp
  from wfE_min [OF w this] obtain r where "r \<in> {r. past_action (request s r)}"
    "\<And>i. (i, r) \<in> unwinds s \<Longrightarrow> i \<notin> {r. past_action (request s r)}" by metis
  then have r: "past_action (request s r)" "\<And>i. (i, r) \<in> unwinds s \<Longrightarrow> \<not> past_action (request s i)" by simp_all
  have run: "target s r = Running"
  proof (rule ccontr)
    assume "target s r \<noteq> Running"
    then have "\<not> calm s r" by (simp add: calm_def)
    from handler_progress [OF ok(1,2) this no] obtain e c i where p: "target s r = Parked e c"
      "(\<exists>old. request s i = WaitContext r e old) \<or> request s i = Unwinding r e c" "wait_value (the (entry_heap s e)) = 1" .
    from p(2) show False
    proof
      assume "\<exists>old. request s i = WaitContext r e old"
      then show False using context_progress [OF ok] p(3) no by blast
    next
      assume i: "request s i = Unwinding r e c"
      then have "(i, r) \<in> unwinds s" by (auto simp: unwinds_def)
      from r(2) [OF this] show False using i by simp
    qed
  qed
  have stuck: "\<not> request_step False r s t" if "\<not> idle (request s r)" for t using no that run by (blast intro: work_step.requester)
  show False
  proof (cases "request s r")
    case (Unwinding tid e c)
    then show False using stuck request_step.unwound [where timeouts = False, OF Unwinding] by simp
  next
    case (WaitRestart tid e)
    then have "locked_entry (request s r) = Some (tid, e)" by simp
    from locked_thread [OF ok(1,2) this] obtain x where x: "entries s tid = Some e" "entry_heap s e = Some x" "te_tid x = tid" "te_mutex x = Some r"
      "phase (request s r) (wait_value x) (te_ucontext x) (pending s tid) (target s tid)" .
    show False
    proof (cases "target s tid = Running")
      case True
      then have "ThreadEntry_Wait WAIT_FOR_THREAD_TO_RESTART e s"
        using x WaitRestart by (simp add: ThreadEntry_Wait_def WAIT_FOR_THREAD_TO_RESTART_def)
      then show False using stuck request_step.restarted [where timeouts = False, OF WaitRestart] WaitRestart by simp
    next
      case False
      then have "\<not> calm s tid" by (simp add: calm_def)
      from handler_progress [OF ok(1,2) this no] obtain e' c i where "target s tid = Parked e' c" "wait_value (the (entry_heap s e')) = 1" .
      then show False using x WaitRestart by auto
    qed
  next
    case (Unlocking tid e err)
    then show False using stuck request_step.unlock [where timeouts = False, OF Unlocking] by simp
  next
    case (Dropping tid e err)
    then show False using stuck request_step.remove [where timeouts = False, OF Dropping] by simp
  qed (use r(1) in simp_all)
qed

lemma action_progress:
  assumes ok: "refs_ok s" "shake_ok s" "waits_ok s" and a: "action_mutex s = Some r"
  shows "\<exists>t. work_step False s t"
proof (rule ccontr)
  assume no: "\<nexists>t. work_step False s t"
  have q: "takes_action (request s r)" and run: "target s r = Running"
    using waits_okD(1,2) [OF ok(3) a] by (auto simp: calm_def)
  have stuck: "\<not> request_step False r s t" if "\<not> idle (request s r)" for t using no that run by (blast intro: work_step.requester)
  show False
  proof (cases "request s r")
    case (WantEntry tid)
    obtain at where at: "entry_heap s at = None" using ex_new_if_finite [OF _ refs_okD(2) [OF ok(1)]] by (auto simp: dom_def)
    obtain e s' where "ThreadEntry_Get tid True at undefined s = (Some e, s')" by (cases "entries s tid") (auto simp: ThreadEntry_Get_def)
    then show False using stuck request_step.get [where timeouts = False, OF WantEntry at] WantEntry by simp
  next
    case (WantLock tid e)
    show False
    proof (cases "te_mutex (the (entry_heap s e))")
      case None
      then show False using stuck request_step.lock [where timeouts = False, OF WantLock] WantLock by simp
    next
      case (Some i)
      have n: "entries s tid = Some e" using refs_okD(5) [OF ok(1), of r tid e] WantLock by simp
      obtain x where x: "entry_heap s e = Some x" "te_tid x = tid" using refs_okD(3) [OF ok(1) n] by blast
      have l: "locked_entry (request s i) = Some (tid, e)" using shake_okD(3) [OF ok(2) x(1)] x Some by (simp add: entry_phase_def)
      then have "i \<noteq> r" using WantLock by auto
      then have "\<not> takes_action (request s i)" using takes_unique [OF ok(2) q] by blast
      then have "past_action (request s i)" by (cases rule: locked_cases [OF l]) auto
      then show False using past_progress [OF ok] no by blast
    qed
  next
    case (Install tid e)
    then show False using stuck request_step.install [where timeouts = False, OF Install] by simp
  next
    case (Send tid e old)
    then show False using stuck request_step.send [where timeouts = False, OF Send] by simp
  next
    case (WaitContext tid e old)
    then have "locked_entry (request s r) = Some (tid, e)" by simp
    from locked_thread [OF ok(1,2) this] obtain x where x: "entries s tid = Some e" "entry_heap s e = Some x" "te_tid x = tid" "te_mutex x = Some r"
      "phase (request s r) (wait_value x) (te_ucontext x) (pending s tid) (target s tid)" .
    then have "\<not> calm s tid" using WaitContext by (auto simp: calm_def)
    from handler_progress [OF ok(1,2) this no] obtain e' c i where "target s tid = Parked e' c" "wait_value (the (entry_heap s e')) = 1" .
    then have "wait_value (the (entry_heap s e)) = 1" using x WaitContext by auto
    then show False using context_progress [OF ok WaitContext] no by blast
  next
    case (Unlocking tid e err)
    then show False using stuck request_step.unlock [where timeouts = False, OF Unlocking] by simp
  next
    case (Dropping tid e err)
    then show False using stuck request_step.remove [where timeouts = False, OF Dropping] by simp
  next
    case (Leaving er)
    then show False using stuck request_step.leave [where timeouts = False, OF Leaving] by simp
  qed (use q in simp_all)
qed

lemma progress:
  assumes ok: "refs_ok s" "shake_ok s" "waits_ok s" and b: "\<not> idle (request s r)"
  shows "\<exists>t. work_step False s t"
proof (cases "action_mutex s")
  case (Some i)
  then show ?thesis using action_progress [OF ok] by blast
next
  case None
  have nt: "\<not> takes_action (request s i)" for i using shake_okD(1) [OF ok(2), of i] None by auto
  show ?thesis
  proof (cases "\<exists>i. past_action (request s i)")
    case True
    then show ?thesis using past_progress [OF ok] by blast
  next
    case False
    then have "\<not> past_action (request s r)" by blast
    then obtain tid where q: "request s r = WantAction tid" using nt [of r] b by (cases "request s r") auto
    show ?thesis
    proof (cases "target s r = Running")
      case True
      then show ?thesis using work_request [OF request_step.lock_action [where timeouts = False, OF q None] True] q by simp
    next
      case f: False
      show ?thesis
      proof (rule ccontr)
        assume no: "\<nexists>t. work_step False s t"
        have "\<not> calm s r" using f by (simp add: calm_def)
        from handler_progress [OF ok(1,2) this no] obtain e c i where
          "(\<exists>old. request s i = WaitContext r e old) \<or> request s i = Unwinding r e c" by metis
        then show False
        proof
          assume "\<exists>old. request s i = WaitContext r e old"
          then show False using nt [of i] by auto
        next
          assume "request s i = Unwinding r e c"
          then have "past_action (request s i)" by simp
          then show False using False by blast
        qed
      qed
    qed
  qed
qed

section \<open>Only finitely many steps\<close>

text \<open>How many steps a request and a handler have before them; a signal that is sent costs the handler at most six.\<close>

fun request_rank :: "'c Request \<Rightarrow> nat" where
  "request_rank (Idle err) = 0"
| "request_rank (WantAction tid) = 11"
| "request_rank (WantEntry tid) = 10"
| "request_rank (WantLock tid e) = 9"
| "request_rank (Install tid e) = 8"
| "request_rank (Send tid e old) = 7"
| "request_rank (WaitContext tid e old) = 6"
| "request_rank (Unwinding tid e c) = 5"
| "request_rank (WaitRestart tid e) = 4"
| "request_rank (Unlocking tid e err) = 3"
| "request_rank (Dropping tid e err) = 2"
| "request_rank (Leaving er) = 1"

fun handler_rank :: "'c Target \<Rightarrow> nat" where
  "handler_rank Running = 0"
| "handler_rank (Entered c) = 5"
| "handler_rank (Copying e c) = 4"
| "handler_rank (Copied e c) = 3"
| "handler_rank (Parked e c) = 2"
| "handler_rank (Waking e c) = 1"

definition weight :: "'c Threads \<Rightarrow> nat \<Rightarrow> nat" where
  "weight s i = 7 * request_rank (request s i) + (if pending s i then 6 else 0) + handler_rank (target s i)"

definition total :: "'c Threads \<Rightarrow> nat" where
  "total s = sum (weight s) {i. weight s i \<noteq> 0}"

lemma total_less:
  assumes "finite {i. weight s i \<noteq> 0}" "\<And>i. i \<noteq> r \<Longrightarrow> i \<noteq> j \<Longrightarrow> weight t i = weight s i" "r \<noteq> j"
    "weight t r + weight t j < weight s r + weight s j"
  shows "total t < total s"
proof -
  let ?A = "{i. weight s i \<noteq> 0} \<union> {r, j}"
  have f: "finite ?A" using assms(1) by simp
  have s: "total s = sum (weight s) ?A" unfolding total_def by (rule sum.mono_neutral_left) (use f in auto)
  have t: "total t = sum (weight t) ?A" unfolding total_def by (rule sum.mono_neutral_left) (use f assms(2) in auto)
  have split: "sum g ?A = g r + g j + sum g (?A - {r} - {j})" for g :: "nat \<Rightarrow> nat"
  proof -
    have "sum g ?A = g r + sum g (?A - {r})" by (rule sum.remove) (use f in auto)
    moreover have "sum g (?A - {r}) = g j + sum g (?A - {r} - {j})" by (rule sum.remove) (use f assms(3) in auto)
    ultimately show ?thesis by simp
  qed
  have "sum (weight t) (?A - {r} - {j}) = sum (weight s) (?A - {r} - {j})" by (rule sum.cong) (use assms(2) in auto)
  then show ?thesis unfolding s t split [of "weight s"] split [of "weight t"] using assms(4) by simp
qed

lemma finite_weight:
  assumes ok: "refs_ok s" "shake_ok s" "waits_ok s"
  shows "finite {i. weight s i \<noteq> 0}"
proof (rule finite_subset)
  show "finite ({r. \<not> idle (request s r)} \<union> (\<lambda>r. fst (the (request_entry (request s r)))) ` {r. request_entry (request s r) \<noteq> None})"
    using waits_okD(5) [OF ok(3)] refs_okD(1) [OF ok(1)] by simp
  show "{i. weight s i \<noteq> 0} \<subseteq>
    {r. \<not> idle (request s r)} \<union> (\<lambda>r. fst (the (request_entry (request s r)))) ` {r. request_entry (request s r) \<noteq> None}"
  proof
    fix i
    assume "i \<in> {i. weight s i \<noteq> 0}"
    then have "\<not> idle (request s i) \<or> \<not> calm s i" by (auto simp: weight_def calm_def idle_def)
    then show "i \<in> {r. \<not> idle (request s r)} \<union> (\<lambda>r. fst (the (request_entry (request s r)))) ` {r. request_entry (request s r) \<noteq> None}"
    proof
      assume "\<not> calm s i"
      from busy_thread [OF ok(1,2) this] obtain e r where "locked_entry (request s r) = Some (i, e)" by metis
      then have "request_entry (request s r) = Some (i, e)" by (rule locked_request)
      then show ?thesis by (intro UnI2 image_eqI [of _ _ r]) simp_all
    qed simp
  qed
qed

lemma handler_weight:
  assumes "handler_step False tid s t"
  shows "weight t tid < weight s tid" "i \<noteq> tid \<Longrightarrow> weight t i = weight s i"
  using assms by (cases; auto simp: weight_def state_defs elim!: Get_cases)+

lemma request_weight:
  assumes "request_step False r s t" "\<not> idle (request s r)" "waits_ok s"
  shows "\<exists>j. j \<noteq> r \<and> (\<forall>i. i \<noteq> r \<longrightarrow> i \<noteq> j \<longrightarrow> weight t i = weight s i) \<and> weight t r + weight t j < weight s r + weight s j"
  using assms(1)
proof cases
  case (send tid e old)
  have ne: "tid \<noteq> r" using waits_okD(3) [OF assms(3), of r tid] send by simp
  show ?thesis
    by (rule exI [of _ tid]) (use send ne in \<open>auto simp: weight_def state_defs\<close>)
next
  case (get tid at junk e s')
  have s': "request s' = request s" "target s' = target s" "pending s' = pending s"
    using get(4) by (auto elim!: Get_cases simp: state_defs ThreadEntry_new_def)
  show ?thesis by (rule exI [of _ "Suc r"]) (use get s' in \<open>auto simp: weight_def goto_def\<close>)
next
  case (remove tid e err)
  have s': "request (ThreadEntry_Remove e s) = request s" "target (ThreadEntry_Remove e s) = target s"
    "pending (ThreadEntry_Remove e s) = pending s"
    by (simp_all add: ThreadEntry_Remove_def ThreadEntry_delete_def on_entry_def Let_def)
  show ?thesis by (rule exI [of _ "Suc r"]) (use remove s' in \<open>auto simp: weight_def goto_def split: option.splits\<close>)
qed (insert assms(2), (rule exI [of _ "Suc r"], force simp: weight_def state_defs)+)

lemma work_less:
  assumes "work_step False s t" and ok: "refs_ok s" "shake_ok s" "waits_ok s"
  shows "total t < total s"
  using assms(1)
proof cases
  case (handler tid)
  show ?thesis
    by (rule total_less [OF finite_weight [OF ok], of tid "Suc tid"]) (use handler_weight [OF handler] in auto)
next
  case (requester r)
  obtain j where j: "j \<noteq> r" "\<forall>i. i \<noteq> r \<longrightarrow> i \<noteq> j \<longrightarrow> weight t i = weight s i" "weight t r + weight t j < weight s r + weight s j"
    using request_weight [OF requester(3,2) ok(3)] by blast
  show ?thesis by (rule total_less [OF finite_weight [OF ok], of r j]) (use j in auto)
qed



end
