(* ===== verification/Spec2Isabelle.thy ===== *)
theory Spec2Isabelle
  imports ConfigInit PointerReports PointerThreads TableInterface MallocSamples AllocHook ProcessRead
    RowEvalProps SectionIndexProps RegsContexts ArmExidxProps SymbolsProps ElfProps MapsReparse StoreProps
    LocalUnwind ThreadProgress
begin

text \<open>
  \<^bold>\<open>Allocation hook: a verification development.\<close>

  The program is a library that is preloaded into a process on Android or Linux. It interposes the
  allocation functions of the C library, remembers every live block with the backtrace of its
  allocation, keeps totals and peaks per kind of memory, and writes lists of what is live. The
  backtraces come from a stack unwinder that the repository carries with it.

  \<^bold>\<open>Parts and how they interact.\<close> A call of \<open>malloc\<close> in the process enters \<open>src/alloc_hook.cpp\<close>
  (\<open>AllocHook\<close>), which constructs its one hook object on the first call and hands over to
  \<open>debug_malloc\<close> of \<open>backtrace/src/malloc_debug.cpp\<close> (\<open>MallocDebug\<close>). That calls the C library, and
  unless calls are disabled for the thread it enters the block into the table of
  \<open>backtrace/src/PointerData.cpp\<close> (\<open>PointerTracking\<close>, through the interface of \<open>TableInterface\<close>); the
  options of \<open>backtrace/src/Config.cpp\<close> (\<open>ConfigInit\<close>) say what is kept, and
  \<open>backtrace/src/UnwindBacktrace.cpp\<close> (\<open>BacktraceCapture\<close>) copies the frames of an unwind. The unwinder
  (\<open>src/unwindstack\<close>) reads memory through the classes of \<open>Memory.cpp\<close> (\<open>MemoryRead\<close>); from them
  \<open>DwarfMemory\<close> (\<open>DwarfMem\<close>) reads encoded values; a section of call frame information
  (\<open>DwarfSection\<close>, \<open>DwarfEhFrameHdr\<close>) finds the entry of a program counter and runs its instructions
  (\<open>DwarfCfa\<close>) to a row of the unwind table; the row is evaluated (\<open>DwarfRowEval\<close>) over the registers
  (\<open>Registers\<close>, \<open>RegisterInfo\<close>) with the expression evaluator (\<open>DwarfOps\<close>, \<open>DwarfOpTable\<close>). Frames of
  signal handlers are stepped over from the saved context (\<open>RegsContexts\<close>), and 32-bit ARM code
  without call frame information by its exception tables (\<open>ArmExidx\<close>). The sections belong to an ELF
  file (\<open>ElfInterface\<close>, \<open>ElfStep\<close>, \<open>ElfObject\<close>, with its symbols in \<open>Symbols\<close>), the file is behind a map of
  the process (\<open>MapsModel\<close>, \<open>MapElf\<close>), and the unwinder (\<open>UnwinderModel\<close>, entered through \<open>AndroidUnwind\<close> and
  \<open>LocalUnwind\<close>) goes from frame to frame through them. The registers to start from are those of the
  calling thread, or of another thread that a signal stopped (\<open>ThreadUnwind\<close>).

  \<^bold>\<open>Conventions.\<close> Machine integers are words (\<open>u8\<close> to \<open>u64\<close> of \<open>Prelude\<close>); the build is LP64 and
  little-endian. A class is a record of its members, a member function a function on it that keeps
  the source's name, prefixed with the class where two classes share one. A function that returns a
  success flag has an \<open>outcome\<close> (\<open>DwarfMem\<close>): \<open>Done\<close> with result and state, \<open>Failed\<close> with the state it
  leaves, \<open>Undef\<close> for what C++ leaves undefined. In the allocation table undefined behaviour is a value
  of type \<open>fault\<close>. A loop that need not end is a \<open>partial_function\<close>, whose value is then \<open>None\<close>; every
  other loop has a termination proof. Code outside \<open>src\<close> is a parameter: the C library and the kernel
  are the record \<open>Sys\<close> of \<open>MallocDebug\<close>, \<open>process_vm_readv\<close> and a mapped file are arguments, and so
  are the order in which \<open>std::unordered_map\<close> is iterated and the instruction that strips pointer
  authentication. Maps and ELF objects refer to each other by indices into a \<open>Store\<close> in which objects are
  never destroyed, so a weak pointer does not expire. The reference count of a thread entry is unbounded, and
  a condition variable is the condition it waits for.

  \<^bold>\<open>Theories and properties.\<close>

  \<^item> \<open>Prelude\<close>: words, checked arithmetic, little-endian bytes, association lists.

  \<^item> \<open>ConfigInit\<close>: the option parser over \<open>strtol\<close>; what \<open>ParseValue\<close> accepts (C1) and the
  configuration of an environment.

  \<^item> \<open>BacktraceCapture\<close>: error codes, frame data, and the copying of frames.

  \<^item> \<open>PointerTracking\<close>, \<open>PointerInvariants\<close>, \<open>PointerThreads\<close>, \<open>PointerProps\<close>, \<open>PointerReports\<close>: the
  table. Backtraces are interned with reference counts; calls of several threads interleave at their
  critical sections (a step relation over the table and the multiset of calls that are between
  theirs). Reference counts are exact in every reachable state (C3), \<open>Remove\<close> undoes \<open>Add\<close> (C4), totals
  are sums and peaks running maxima (C5, C8), \<open>retracking_leaks_total\<close> and \<open>Add_faults_iff\<close> (C7) say
  where that ends; listing does not depend on the order of the hash map and is complete (C9, C11).

  \<^item> \<open>TableInterface\<close>: the locale \<open>tracker\<close>, what the hooks rely on from the table, interpreted by the
  operations of \<open>PointerTracking\<close>.

  \<^item> \<open>MallocDebug\<close>, \<open>MallocDebugProps\<close>, \<open>MallocSamples\<close>: the instrumented functions with the
  read-write lock and the thread's disable key. Guards are balanced (C15), disabled calls are
  transparent (C16), the hooks never fault (C17), and the table mirrors the heap of the C library as
  long as no hook is disabled (C18); a DMA buffer is counted once (C20). \<open>MallocSamples\<close> has
  a small C library on which the hypotheses hold.

  \<^item> \<open>AllocHook\<close>: resolution and reentry of the exported functions.

  \<^item> \<open>MemoryRead\<close>, \<open>MemoryProps\<close>, \<open>ProcessRead\<close>: the memory classes. The locale \<open>memory_reader\<close> says
  that a reader delivers the bytes of some contents, and is interpreted by every class; strings, files,
  core files, the page cache and reads of another process (C26, C29, C30).

  \<^item> \<open>DwarfMem\<close>: LEB128 round trips (C31) and encoded values.

  \<^item> \<open>DwarfOps\<close>, \<open>DwarfOpTable\<close>, \<open>DwarfOpProps\<close>, \<open>DwarfExpr\<close>: every operation and the table of 256 entries;
  exactly when \<open>Decode\<close> is undefined (C34), that \<open>Eval\<close> is a run of at most 1001 operations (C35; the
  bound is the code's), and that it computes the expressions a compiler encodes (C36).

  \<^item> \<open>DwarfCfa\<close>, \<open>DwarfCfaProps\<close>: the call frame instructions against an interpreter of decoded
  instructions (C37), and an input on which \<open>GetLocationInfo\<close> does not return.

  \<^item> \<open>Registers\<close>, \<open>RegsContexts\<close>, \<open>RegisterInfo\<close>: the register files of six architectures, their ptrace and
  signal contexts, and the saved values of a frame.

  \<^item> \<open>OrderedMap\<close>: \<open>std::map\<close> as the locale \<open>ordered_map\<close> and its model.

  \<^item> \<open>DwarfSection\<close>, \<open>DwarfEhFrameHdr\<close>, \<open>DwarfRowEval\<close>, \<open>RowEvalProps\<close>, \<open>SectionIndexProps\<close>: reading of
  entries, the index of a section and the binary search table, rows and their cache, evaluation. A row
  is evaluated as if all its registers were assigned at once, in whatever order the hash map is
  iterated (C39), and the lookup by program counter is the linear search of the section (C40).

  \<^item> \<open>ArmExidx\<close>, \<open>ArmExidxProps\<close>: the unwind instructions of ARM against a reference interpreter (C14)
  and the bounds of what an entry can hold (C10).

  \<^item> \<open>Symbols\<close>, \<open>SymbolsProps\<close>: symbol tables with the cached binary search over the file or over the
  remap table. An answer is always a function that covers the address (C12), and in a sorted table no
  function is missed (C6).

  \<^item> \<open>ElfInterface\<close>, \<open>ElfStep\<close>, \<open>ElfObject\<close>, \<open>ElfProps\<close>: the headers and sections of an ELF file, its
  unwind sections, names and build id, and the step through them. A valid object is of the type its
  architecture asks for after any sequence of calls (C21), the two ways to the load bias agree (C19), and the
  search of the ARM index finds the last entry before the address (C25).

  \<^item> \<open>MapsParse\<close>, \<open>MapsModel\<close>, \<open>MapsProps\<close>, \<open>MapsReparse\<close>: the maps of a process. The binary search is a
  linear one (C23), parsing undoes the kernel's formatting (C24), and reparsing is parsing anew with the
  old objects kept (C28).

  \<^item> \<open>MapElf\<close>, \<open>StoreProps\<close>: the memory a map is read from, and the ELF objects with their cache and their
  sharing between maps. What \<open>GetElf\<close> gives a map is stable, typed and shared only within a file (C33).

  \<^item> \<open>UnwinderModel\<close>, \<open>AndroidUnwind\<close>, \<open>UnwinderProps\<close>, \<open>LocalUnwind\<close>: the loop over the frames and its entry
  points. What the hook captures are the program counters of the frames, numbered and never more than
  asked for (C13); without maps to skip the loop ends (C22); unwinding another thread is unwinding from
  the registers of the context it handed over (C32).

  \<^item> \<open>ThreadUnwind\<close>, \<open>ThreadRefs\<close>, \<open>ThreadHandshake\<close>, \<open>ThreadProgress\<close>: the handshake by signals, as a step
  relation over any number of requesting and interrupted threads. No thread uses a deleted entry (C2), the
  thread that is unwound does not run (C27), and requests do not block each other (C38); the last two need
  waits that last until their condition holds.

  \<^bold>\<open>Not modelled.\<close> Formatting for logs: \<open>log\<close> has an empty body in this program (\<open>Log.cpp\<close>), so
  \<open>Log\<close>, \<open>LogByReg\<close>, \<open>GetLogInfo\<close> and what only serves them have no effect. ptrace, inline assembly and
  memory tags are outside of C++. Dex files and the debug data of the just-in-time compiler rest on
  other libraries and on another process's structures. \<open>android-base\<close> and the OpenCL stub are vendored.
\<close>

end
